(* ===== verification/Prelude.thy ===== *)
theory Prelude
  imports Main "HOL-Library.Word"
begin

text \<open>
  What every other theory shares: the machine types of the model, the reading of Go strings as
  byte strings, results of fallible functions, and the collections of rewrite rules that the
  component theories extend.

  A Go \<open>string\<close> is a sequence of bytes, so it is an Isabelle \<^typ>\<open>string\<close> (a list of
  8-bit characters); a Go \<open>[]byte\<close> is a list of 8-bit words.  The conversions
  \<open>string(b)\<close> and \<open>[]byte(s)\<close> are \<open>string_of\<close> and \<open>bytes_of\<close>.
\<close>

section \<open>Machine types\<close>

type_synonym byte = "8 word"
type_synonym bytes = "8 word list"
type_synonym uint16 = "16 word"
type_synonym uint32 = "32 word"

named_theorems codec_simps "round-trip and length laws of the byte codecs"
named_theorems gw_defs "unfolding of the gateway's operations"

section \<open>Results\<close>

text \<open>A Go pair \<open>(v, err)\<close> whose value is meaningless when \<open>err\<close> is set: a sum.\<close>

abbreviation Err :: "'e \<Rightarrow> 'e + 'a" where "Err \<equiv> Inl"
abbreviation Ok :: "'a \<Rightarrow> 'e + 'a" where "Ok \<equiv> Inr"

definition bind_res :: "'e + 'a \<Rightarrow> ('a \<Rightarrow> 'e + 'b) \<Rightarrow> 'e + 'b" where
  "bind_res r f = (case r of Inl e \<Rightarrow> Inl e | Inr v \<Rightarrow> f v)"

lemma bind_res_simps [simp]:
  "bind_res (Inl e) f = Inl e"
  "bind_res (Inr v) f = f v"
  by (simp_all add: bind_res_def)

lemma bind_res_Inr_iff: "bind_res r f = Inr w \<longleftrightarrow> (\<exists>v. r = Inr v \<and> f v = Inr w)"
  by (cases r) simp_all

lemma bind_res_Inl_iff:
  "bind_res r f = Inl e \<longleftrightarrow> r = Inl e \<or> (\<exists>v. r = Inr v \<and> f v = Inl e)"
  by (cases r) simp_all

section \<open>Strings and bytes\<close>

definition bytes_of :: "string \<Rightarrow> bytes" where
  "bytes_of s = map of_char s"

definition string_of :: "bytes \<Rightarrow> string" where
  "string_of b = map (\<lambda>w. char_of (unat w)) b"

lemma of_char_word: "(of_char c :: byte) = word_of_nat (of_char c)"
  by (simp add: of_nat_of_char)

lemma string_of_bytes_of [simp, codec_simps]: "string_of (bytes_of s) = s"
proof -
  have "char_of (unat (of_char c :: byte)) = c" for c
  proof -
    have "(of_char c :: nat) < 256" by simp
    then have "unat (of_char c :: byte) = of_char c"
      by (subst of_char_word) (simp add: unat_of_nat)
    then show ?thesis by simp
  qed
  then show ?thesis by (simp add: string_of_def bytes_of_def comp_def)
qed

lemma bytes_of_string_of [simp, codec_simps]: "bytes_of (string_of b) = b"
proof -
  have "(of_char (char_of (unat w)) :: byte) = w" for w :: byte
  proof -
    have "unat w < 256" using unsigned_less [of w] by simp
    then show ?thesis by (subst of_char_word) simp
  qed
  then show ?thesis by (simp add: string_of_def bytes_of_def comp_def)
qed

lemma length_bytes_of [simp]: "length (bytes_of s) = length s"
  by (simp add: bytes_of_def)

lemma length_string_of [simp]: "length (string_of b) = length b"
  by (simp add: string_of_def)

lemma bytes_of_inj [simp]: "bytes_of s = bytes_of t \<longleftrightarrow> s = t"
  by (metis string_of_bytes_of)

lemma string_of_inj [simp]: "string_of a = string_of b \<longleftrightarrow> a = b"
  by (metis bytes_of_string_of)

lemma bytes_of_append [simp]: "bytes_of (s @ t) = bytes_of s @ bytes_of t"
  by (simp add: bytes_of_def)

lemma bytes_of_Nil [simp]: "bytes_of [] = []"
  by (simp add: bytes_of_def)

section \<open>Slices\<close>

text \<open>
  Go's slice expression \<open>b[lo:hi]\<close> panics unless \<open>lo \<le> hi \<le> len(b)\<close>; every use in the
  model stands behind the guard that the source writes.
\<close>

definition go_slice :: "nat \<Rightarrow> nat \<Rightarrow> 'a list \<Rightarrow> 'a list" where
  "go_slice lo hi b = take (hi - lo) (drop lo b)"

lemma length_go_slice [simp]: "lo \<le> hi \<Longrightarrow> hi \<le> length b \<Longrightarrow> length (go_slice lo hi b) = hi - lo"
  by (simp add: go_slice_def)

lemma go_slice_join: "lo \<le> mid \<Longrightarrow> mid \<le> hi \<Longrightarrow> go_slice lo mid b @ go_slice mid hi b = go_slice lo hi b"
proof -
  assume le: "lo \<le> mid" "mid \<le> hi"
  then have "hi - lo = (mid - lo) + (hi - mid)" and "drop mid b = drop (mid - lo) (drop lo b)"
    by simp_all
  then show ?thesis by (simp only: go_slice_def take_add)
qed

lemma go_slice_take: "go_slice 0 n b = take n b"
  by (simp add: go_slice_def)

lemma go_slice_append_mid:
  "length a = lo \<Longrightarrow> length m = hi - lo \<Longrightarrow> go_slice lo hi (a @ m @ c) = m"
  by (simp add: go_slice_def)

end
