(* ===== verification/Codec.thy ===== *)
theory Codec
  imports Prelude
begin

unbundle bit_operations_syntax

text \<open>
  The parts of \<open>encoding/binary\<close> and \<open>encoding/hex\<close> that the source uses: big-endian 16- and
  32-bit integers and lower-case hexadecimal, each with its round-trip law (\<open>Base64\<close> has base64).  The interface of such a codec is the locale \<open>codec\<close>, which the
  wire formats of the frame and of the Hello message are proved against.
\<close>

section \<open>The interface of a codec\<close>

locale codec =
  fixes enc :: "'v \<Rightarrow> 'w list" and dec :: "'w list \<Rightarrow> 'v option" and ok :: "'v \<Rightarrow> bool"
  assumes dec_enc: "ok v \<Longrightarrow> dec (enc v) = Some v"
begin

lemma enc_inj: "ok u \<Longrightarrow> ok v \<Longrightarrow> enc u = enc v \<Longrightarrow> u = v"
  using dec_enc by (metis option.inject)

lemma enc_eq_iff: "ok u \<Longrightarrow> ok v \<Longrightarrow> enc u = enc v \<longleftrightarrow> u = v"
  by (auto intro: enc_inj)

end

section \<open>Big-endian integers\<close>

definition put_uint16 :: "uint16 \<Rightarrow> bytes" where
  "put_uint16 v = [ucast (drop_bit 8 v), ucast v]"

definition get_uint16 :: "bytes \<Rightarrow> uint16" where
  "get_uint16 b = ucast (b ! 1) OR push_bit 8 (ucast (b ! 0))"

definition put_uint32 :: "uint32 \<Rightarrow> bytes" where
  "put_uint32 v =
     [ucast (drop_bit 24 v), ucast (drop_bit 16 v), ucast (drop_bit 8 v), ucast v]"

definition get_uint32 :: "bytes \<Rightarrow> uint32" where
  "get_uint32 b =
     ucast (b ! 3) OR push_bit 8 (ucast (b ! 2)) OR push_bit 16 (ucast (b ! 1))
       OR push_bit 24 (ucast (b ! 0))"

lemma length_put_uint16 [simp]: "length (put_uint16 v) = 2"
  by (simp add: put_uint16_def)

lemma length_put_uint32 [simp]: "length (put_uint32 v) = 4"
  by (simp add: put_uint32_def)

lemma get_put_uint16 [simp, codec_simps]: "get_uint16 (put_uint16 v) = v"
  by (rule bit_word_eqI) (auto simp: get_uint16_def put_uint16_def bit_simps)

lemma get_put_uint32 [simp, codec_simps]: "get_uint32 (put_uint32 v) = v"
proof (rule bit_word_eqI)
  fix n assume "n < LENGTH(32)"
  then consider "n < 8" | "8 \<le> n" "n < 16" | "16 \<le> n" "n < 24" | "24 \<le> n" "n < 32"
    by (simp, linarith)
  then show "bit (get_uint32 (put_uint32 v)) n = bit v n"
    by cases (auto simp: get_uint32_def put_uint32_def bit_simps)
qed

lemma byte_bit_bound [simp]: "\<not> bit (w :: byte) (8 + n)" "\<not> bit w (16 + n)" "\<not> bit w (24 + n)"
  using bit_imp_le_length [of w "8 + n"] bit_imp_le_length [of w "16 + n"]
    bit_imp_le_length [of w "24 + n"] by auto

lemma put_get_uint16: "length b = 2 \<Longrightarrow> put_uint16 (get_uint16 b) = b"
proof -
  assume "length b = 2"
  then obtain x y where b: "b = [x, y]"
    by (auto simp: numeral_2_eq_2 length_Suc_conv)
  show ?thesis
    by (auto simp: b put_uint16_def get_uint16_def bit_simps intro!: bit_word_eqI)
qed

lemma put_get_uint32: "length b = 4 \<Longrightarrow> put_uint32 (get_uint32 b) = b"
proof -
  assume "length b = 4"
  then obtain x y z w where b: "b = [x, y, z, w]"
    by (auto simp: numeral_eq_Suc length_Suc_conv)
  show ?thesis
    by (auto simp: b put_uint32_def get_uint32_def bit_simps intro!: bit_word_eqI)
qed

interpretation u16: codec put_uint16 "\<lambda>b. Some (get_uint16 b)" "\<lambda>_. True"
  by unfold_locales simp

interpretation u32: codec put_uint32 "\<lambda>b. Some (get_uint32 b)" "\<lambda>_. True"
  by unfold_locales simp

section \<open>Lower-case hexadecimal\<close>

definition hex_digits :: string where
  "hex_digits = ''0123456789abcdef''"

definition hex_nibble :: "nat \<Rightarrow> char" where
  "hex_nibble n = hex_digits ! n"

fun hex_encode :: "bytes \<Rightarrow> string" where
  "hex_encode [] = []"
| "hex_encode (w # ws) =
     hex_nibble (unat (drop_bit 4 w)) # hex_nibble (unat (w AND 15)) # hex_encode ws"

text \<open>\<open>hex.DecodeString\<close> accepts both letter cases and fails on an odd length.\<close>

definition hex_value :: "char \<Rightarrow> nat option" where
  "hex_value c =
     (let n = of_char c :: nat in
      if 48 \<le> n \<and> n \<le> 57 then Some (n - 48)
      else if 97 \<le> n \<and> n \<le> 102 then Some (n - 87)
      else if 65 \<le> n \<and> n \<le> 70 then Some (n - 55)
      else None)"

fun hex_decode :: "string \<Rightarrow> bytes option" where
  "hex_decode [] = Some []"
| "hex_decode [c] = None"
| "hex_decode (c # d # s) =
     (case (hex_value c, hex_value d) of
        (Some h, Some l) \<Rightarrow>
          map_option (\<lambda>b. word_of_nat (16 * h + l) # b) (hex_decode s)
      | _ \<Rightarrow> None)"

lemma hex_value_nibble: "n < 16 \<Longrightarrow> hex_value (hex_nibble n) = Some n"
proof -
  have "\<forall>n \<in> set [0..<16]. hex_value (hex_nibble n) = Some n" by code_simp
  then show "n < 16 \<Longrightarrow> ?thesis" by auto
qed

lemma unat_high_nibble: "unat (drop_bit 4 (w :: byte)) = unat w div 16"
  by (simp add: drop_bit_eq_div unat_div)

lemma unat_low_nibble: "unat (w AND 15 :: byte) = unat w mod 16"
proof -
  have "w AND 15 = take_bit 4 w"
    by (simp add: take_bit_eq_mask mask_eq_exp_minus_1)
  then have "w AND 15 = w mod 16" by (simp add: take_bit_eq_mod)
  then show ?thesis by (simp add: unat_mod)
qed

lemma hex_decode_encode [simp, codec_simps]: "hex_decode (hex_encode b) = Some b"
proof (induction b)
  case (Cons w ws)
  have "unat w < 256" using unsigned_less [of w] by simp
  then have hi: "unat w div 16 < 16" by simp
  have "16 * (unat w div 16) + unat w mod 16 = unat w" by simp
  then show ?case
    by (simp add: Cons unat_high_nibble unat_low_nibble hex_value_nibble hi)
qed simp

lemma length_hex_encode [simp]: "length (hex_encode b) = 2 * length b"
  by (induction b) simp_all

interpretation hex: codec hex_encode hex_decode "\<lambda>_. True"
  by unfold_locales simp

lemma hex_encode_inj: "hex_encode a = hex_encode b \<longleftrightarrow> a = b"
  by (rule hex.enc_eq_iff) simp_all

end
