(* ===== verification/Frame.thy ===== *)
theory Frame
  imports Codec
begin

text \<open>
  The wire envelope of \<open>internal/proto/frame.go\<close>: the frame types, the record
  \<open>Frame\<close>, \<open>Encode\<close> and \<open>Decode\<close> with their length checks, the round-trip law and its
  limits.
\<close>

section \<open>Constants and data\<close>

definition ProtocolVersion :: byte where "ProtocolVersion = 1"

definition maxReqIDLen :: nat where "maxReqIDLen = 2 ^ 16"
definition maxPayloadLen :: nat where "maxPayloadLen = 2 ^ 26"

datatype proto_error = ErrReqIDTooLong | ErrPayloadTooLong | ErrShortFrame | ErrVersionMismatch

text \<open>\<open>FrameType\<close> is an arbitrary byte; the named values are these.\<close>

type_synonym frame_type = byte

abbreviation FrameTypePing :: frame_type where "FrameTypePing \<equiv> 1"
abbreviation FrameTypePong :: frame_type where "FrameTypePong \<equiv> 2"
abbreviation FrameTypeError :: frame_type where "FrameTypeError \<equiv> 3"
abbreviation FrameTypeHello :: frame_type where "FrameTypeHello \<equiv> 10"
abbreviation FrameTypeHelloAck :: frame_type where "FrameTypeHelloAck \<equiv> 11"
abbreviation FrameTypeRoute :: frame_type where "FrameTypeRoute \<equiv> 12"
abbreviation FrameTypeExecRequest :: frame_type where "FrameTypeExecRequest \<equiv> 20"
abbreviation FrameTypeExecChunk :: frame_type where "FrameTypeExecChunk \<equiv> 21"
abbreviation FrameTypeExecComplete :: frame_type where "FrameTypeExecComplete \<equiv> 22"
abbreviation FrameTypeFileReadRequest :: frame_type where "FrameTypeFileReadRequest \<equiv> 30"
abbreviation FrameTypeFileWriteRequest :: frame_type where "FrameTypeFileWriteRequest \<equiv> 31"
abbreviation FrameTypeFileChunk :: frame_type where "FrameTypeFileChunk \<equiv> 32"
abbreviation FrameTypeFileComplete :: frame_type where "FrameTypeFileComplete \<equiv> 33"
abbreviation FrameTypeFileEditRequest :: frame_type where "FrameTypeFileEditRequest \<equiv> 34"
abbreviation FrameTypeListDirRequest :: frame_type where "FrameTypeListDirRequest \<equiv> 35"
abbreviation FrameTypeListDirResponse :: frame_type where "FrameTypeListDirResponse \<equiv> 36"
abbreviation FrameTypeStatRequest :: frame_type where "FrameTypeStatRequest \<equiv> 37"
abbreviation FrameTypeStatResponse :: frame_type where "FrameTypeStatResponse \<equiv> 38"
abbreviation FrameTypeStreamOpen :: frame_type where "FrameTypeStreamOpen \<equiv> 40"
abbreviation FrameTypeStreamAck :: frame_type where "FrameTypeStreamAck \<equiv> 41"
abbreviation FrameTypeStreamData :: frame_type where "FrameTypeStreamData \<equiv> 42"
abbreviation FrameTypeStreamClose :: frame_type where "FrameTypeStreamClose \<equiv> 43"
abbreviation FrameTypeNoiseInit :: frame_type where "FrameTypeNoiseInit \<equiv> 50"
abbreviation FrameTypeNoiseResp :: frame_type where "FrameTypeNoiseResp \<equiv> 51"
abbreviation FrameTypeNoiseRekey :: frame_type where "FrameTypeNoiseRekey \<equiv> 52"
abbreviation FrameTypeCapabilitiesRequest :: frame_type where "FrameTypeCapabilitiesRequest \<equiv> 60"
abbreviation FrameTypeCapabilitiesResponse :: frame_type where "FrameTypeCapabilitiesResponse \<equiv> 61"
abbreviation FrameTypeUploadRequest :: frame_type where "FrameTypeUploadRequest \<equiv> 70"
abbreviation FrameTypeDownloadRequest :: frame_type where "FrameTypeDownloadRequest \<equiv> 71"
abbreviation FrameTypeBgExecRequest :: frame_type where "FrameTypeBgExecRequest \<equiv> 80"
abbreviation FrameTypeBgExecResponse :: frame_type where "FrameTypeBgExecResponse \<equiv> 81"
abbreviation FrameTypeSearchRequest :: frame_type where "FrameTypeSearchRequest \<equiv> 90"
abbreviation FrameTypeSearchResponse :: frame_type where "FrameTypeSearchResponse \<equiv> 91"

record frame =
  f_type :: frame_type
  f_reqid :: string
  f_payload :: bytes

section \<open>Encode and Decode\<close>

text \<open>\<open>uint16(len(f.ReqID))\<close> and \<open>uint32(len(f.Payload))\<close> keep the low bits only.\<close>

definition encode_frame :: "frame \<Rightarrow> proto_error + bytes" where
  "encode_frame f =
     (if length (f_reqid f) > maxReqIDLen then Err ErrReqIDTooLong
      else if length (f_payload f) > maxPayloadLen then Err ErrPayloadTooLong
      else Ok ([ProtocolVersion, f_type f]
               @ put_uint16 (word_of_nat (length (f_reqid f)))
               @ bytes_of (f_reqid f)
               @ put_uint32 (word_of_nat (length (f_payload f)))
               @ f_payload f))"

definition decode_frame :: "bytes \<Rightarrow> proto_error + frame" where
  "decode_frame b =
     (if length b < 2 then Err ErrShortFrame
      else if b ! 0 \<noteq> ProtocolVersion then Err ErrVersionMismatch
      else let off = 2 in
      if length b < off + 2 then Err ErrShortFrame
      else let ridLen = unat (get_uint16 (go_slice off (off + 2) b)); off = off + 2 in
      if length b < off + ridLen then Err ErrShortFrame
      else let rid = string_of (go_slice off (off + ridLen) b); off = off + ridLen in
      if length b < off + 4 then Err ErrShortFrame
      else let plLen = unat (get_uint32 (go_slice off (off + 4) b)); off = off + 4 in
      if plLen > maxPayloadLen then Err ErrPayloadTooLong
      else if length b < off + plLen then Err ErrShortFrame
      else Ok \<lparr>f_type = b ! 1, f_reqid = rid, f_payload = go_slice off (off + plLen) b\<rparr>)"

section \<open>The round trip and its limits\<close>

text \<open>What \<open>Decode\<close> reads off a well-formed envelope, with any tail after the payload.\<close>

lemma decode_frame_layout:
  assumes rid: "length r = unat n" and pl: "length p = unat m" and m: "unat m \<le> maxPayloadLen"
  shows "decode_frame ([ProtocolVersion, t] @ put_uint16 n @ r @ put_uint32 m @ p @ tail)
           = Ok \<lparr>f_type = t, f_reqid = string_of r, f_payload = p\<rparr>"
proof -
  let ?b = "[ProtocolVersion, t] @ put_uint16 n @ r @ put_uint32 m @ p @ tail"
  have s1: "go_slice 2 4 ?b = put_uint16 n"
    by (simp add: go_slice_def)
  have s2: "go_slice 4 (4 + unat n) ?b = r"
    using rid by (simp add: go_slice_def numeral_eq_Suc put_uint16_def)
  have s3: "go_slice (4 + unat n) (8 + unat n) ?b = put_uint32 m"
    using rid by (simp add: go_slice_def numeral_eq_Suc put_uint16_def)
  have s4: "go_slice (8 + unat n) (8 + unat n + unat m) ?b = p"
    using rid pl by (simp add: go_slice_def numeral_eq_Suc put_uint16_def put_uint32_def)
  have len: "length ?b = 8 + unat n + unat m + length tail"
    using rid pl by simp
  show ?thesis
    using m rid pl s1 s2 s3 s4
    by (simp add: decode_frame_def Let_def len add.commute [of _ 4] add.commute [of _ 2] add.assoc)
qed

lemma unat_word16: "n < 65536 \<Longrightarrow> unat (word_of_nat n :: uint16) = n"
  by (simp add: unat_of_nat)

lemma unat_word32: "n \<le> maxPayloadLen \<Longrightarrow> unat (word_of_nat n :: uint32) = n"
  by (simp add: unat_of_nat maxPayloadLen_def)

text \<open>The frames whose envelope determines them: \<open>ReqID\<close> strictly below 64 KiB.\<close>

definition frame_ok :: "frame \<Rightarrow> bool" where
  "frame_ok f \<longleftrightarrow> length (f_reqid f) < maxReqIDLen \<and> length (f_payload f) \<le> maxPayloadLen"

definition wire :: "frame \<Rightarrow> bytes" where
  "wire f = [ProtocolVersion, f_type f] @ put_uint16 (word_of_nat (length (f_reqid f)))
     @ bytes_of (f_reqid f) @ put_uint32 (word_of_nat (length (f_payload f))) @ f_payload f"

lemma encode_frame_wire:
  "encode_frame f =
     (if length (f_reqid f) > maxReqIDLen then Err ErrReqIDTooLong
      else if length (f_payload f) > maxPayloadLen then Err ErrPayloadTooLong
      else Ok (wire f))"
  by (simp add: encode_frame_def wire_def)

lemma encode_frame_ok: "frame_ok f \<Longrightarrow> encode_frame f = Ok (wire f)"
  by (simp add: frame_ok_def encode_frame_wire)

lemma decode_wire_tail: "frame_ok f \<Longrightarrow> decode_frame (wire f @ tail) = Ok f"
  using decode_frame_layout
    [of "bytes_of (f_reqid f)" "word_of_nat (length (f_reqid f))" "f_payload f"
        "word_of_nat (length (f_payload f))" "f_type f" tail]
  by (simp add: frame_ok_def wire_def unat_word16 unat_word32 maxReqIDLen_def)

interpretation frame_wire: codec wire "\<lambda>b. case decode_frame b of Inl _ \<Rightarrow> None | Inr f \<Rightarrow> Some f" frame_ok
  by unfold_locales (use decode_wire_tail [where tail = "[]"] in simp)

text \<open>Everything \<open>Decode\<close> accepts is an envelope followed by ignored bytes.\<close>

lemma decode_frame_inv:
  assumes "decode_frame b = Ok f"
  shows "frame_ok f \<and> (\<exists>tail. b = wire f @ tail)"
proof -
  define n where "n = get_uint16 (go_slice 2 4 b)"
  define m where "m = get_uint32 (go_slice (4 + unat n) (8 + unat n) b)"
  have facts: "b ! 0 = ProtocolVersion" "8 + unat n + unat m \<le> length b"
      "unat m \<le> maxPayloadLen"
      "f = \<lparr>f_type = b ! 1, f_reqid = string_of (go_slice 4 (4 + unat n) b),
            f_payload = go_slice (8 + unat n) (8 + unat n + unat m) b\<rparr>"
    using assms
    by (auto simp: decode_frame_def Let_def n_def m_def add.commute [of _ 4] split: if_splits)
  have lens: "length (f_reqid f) = unat n" "length (f_payload f) = unat m"
    using facts(2,4) by simp_all
  have "unat n < 65536" using unsigned_less [of n] by simp
  then have ok: "frame_ok f"
    using facts(3) lens by (simp add: frame_ok_def maxReqIDLen_def)
  have two: "take 2 b = [ProtocolVersion, f_type f]"
    using facts by (cases b; cases "tl b") (auto simp: numeral_2_eq_2)
  have w16: "put_uint16 n = go_slice 2 4 b"
    using facts(2) by (simp add: n_def put_get_uint16)
  have w32: "put_uint32 m = go_slice (4 + unat n) (8 + unat n) b"
    using facts(2) by (simp add: m_def put_get_uint32)
  have "wire f = take 2 b @ go_slice 2 4 b @ go_slice 4 (4 + unat n) b
      @ go_slice (4 + unat n) (8 + unat n) b
      @ go_slice (8 + unat n) (8 + unat n + unat m) b"
    using lens facts(4) by (simp add: wire_def two w16 w32)
  also have "\<dots> = go_slice 0 (8 + unat n + unat m) b"
    by (simp add: go_slice_join flip: go_slice_take)
  finally have "b = wire f @ drop (8 + unat n + unat m) b"
    by (simp add: go_slice_take)
  with ok show ?thesis by blast
qed

section \<open>Properties\<close>

text \<open>C20: A frame whose request id is shorter than 64 KiB and whose payload is at most 64 MiB is
  encoded, and decoding the bytes gives the frame back.\<close>

theorem frame_round_trip:
  assumes "length (f_reqid f) < maxReqIDLen" and "length (f_payload f) \<le> maxPayloadLen"
  shows "\<exists>b. encode_frame f = Ok b \<and> decode_frame b = Ok f"
  using assms encode_frame_ok [of f] decode_wire_tail [of f "[]"] by (simp add: frame_ok_def)

theorem frame_round_trip_witness:
  "\<exists>b. encode_frame \<lparr>f_type = 12, f_reqid = ''ab'', f_payload = [1, 2, 3]\<rparr> = Ok b
     \<and> decode_frame b = Ok \<lparr>f_type = 12, f_reqid = ''ab'', f_payload = [1, 2, 3]\<rparr>"
  by (rule frame_round_trip) (simp_all add: maxReqIDLen_def maxPayloadLen_def)

text \<open>Whatever \<open>Decode\<close> accepts, \<open>Encode\<close> accepts too and writes the same bytes, up to a tail
  that \<open>Decode\<close> ignores: no two different envelopes without a tail decode to the same frame.\<close>

theorem frame_decode_canonical:
  assumes "decode_frame b = Ok f"
  shows "\<exists>e tail. encode_frame f = Ok e \<and> b = e @ tail"
  using decode_frame_inv [OF assms] encode_frame_ok by blast

theorem frame_decode_canonical_witness:
  "\<exists>e tail. encode_frame \<lparr>f_type = 1, f_reqid = [], f_payload = [7]\<rparr> = Ok e
     \<and> [1, 1, 0, 0, 0, 0, 0, 1, 7, 9] = e @ tail"
  by (rule frame_decode_canonical)
    (simp add: decode_frame_def ProtocolVersion_def go_slice_def get_uint16_def get_uint32_def
      maxPayloadLen_def string_of_def)

text \<open>The guard of \<open>Encode\<close> lets a request id of exactly 64 KiB through, but its 16-bit length
  field then wraps to zero: the bytes never decode to the frame that was encoded.\<close>

theorem frame_reqid_boundary:
  assumes "length (f_reqid f) = maxReqIDLen" and "length (f_payload f) \<le> maxPayloadLen"
  shows "\<exists>b. encode_frame f = Ok b \<and> decode_frame b \<noteq> Ok f"
proof -
  have "\<not> frame_ok f" using assms(1) by (simp add: frame_ok_def)
  then have "decode_frame (wire f) \<noteq> Ok f" using decode_frame_inv by blast
  moreover have "encode_frame f = Ok (wire f)" using assms by (simp add: encode_frame_wire)
  ultimately show ?thesis by blast
qed

theorem frame_reqid_boundary_witness:
  "\<exists>b. encode_frame \<lparr>f_type = 1, f_reqid = replicate (2 ^ 16) CHR ''a'', f_payload = []\<rparr> = Ok b
     \<and> decode_frame b \<noteq> Ok \<lparr>f_type = 1, f_reqid = replicate (2 ^ 16) CHR ''a'', f_payload = []\<rparr>"
  by (rule frame_reqid_boundary) (simp_all only: frame.simps length_replicate maxReqIDLen_def, simp)

end
