(* ===== verification/Handshake.thy ===== *)
theory Handshake
  imports Codec
begin

text \<open>
  The Hello message of \<open>internal/handshake/handshake.go\<close>: the first payload a bridge or a daemon
  sends on a fresh connection.  \<open>read1\<close> is the closure of \<open>DecodeHello\<close> that reads a string with
  a one-byte length prefix; it returns the string and the new offset.
\<close>

section \<open>Data\<close>

record hello =
  h_role :: string
  h_name :: string
  h_secret :: string
  h_target :: string

datatype hello_error = ErrHelloMalformed | ErrStrTooLong | ErrSecretTooLong

definition maxStrU8 :: nat where "maxStrU8 = 2 ^ 8"
definition maxStrU16 :: nat where "maxStrU16 = 2 ^ 16"

section \<open>Encode and DecodeHello\<close>

definition str_u8 :: "string \<Rightarrow> bytes" where
  "str_u8 s = word_of_nat (length s) # bytes_of s"

definition encode_hello :: "hello \<Rightarrow> hello_error + bytes" where
  "encode_hello h =
     (if length (h_role h) \<ge> maxStrU8 \<or> length (h_name h) \<ge> maxStrU8
         \<or> length (h_target h) \<ge> maxStrU8 then Err ErrStrTooLong
      else if length (h_secret h) \<ge> maxStrU16 then Err ErrSecretTooLong
      else Ok (str_u8 (h_role h) @ str_u8 (h_name h)
               @ put_uint16 (word_of_nat (length (h_secret h))) @ bytes_of (h_secret h)
               @ str_u8 (h_target h)))"

definition read1 :: "bytes \<Rightarrow> nat \<Rightarrow> hello_error + (string \<times> nat)" where
  "read1 b off =
     (if off \<ge> length b then Err ErrHelloMalformed
      else let n = unat (b ! off); off = off + 1 in
      if off + n > length b then Err ErrHelloMalformed
      else Ok (string_of (go_slice off (off + n) b), off + n))"

definition decode_hello :: "bytes \<Rightarrow> hello_error + hello" where
  "decode_hello b =
     bind_res (read1 b 0) (\<lambda>(role, off).
     bind_res (read1 b off) (\<lambda>(name, off).
     if off + 2 > length b then Err ErrHelloMalformed
     else let sl = unat (get_uint16 (go_slice off (off + 2) b)); off = off + 2 in
     if off + sl > length b then Err ErrHelloMalformed
     else let secret = string_of (go_slice off (off + sl) b); off = off + sl in
     bind_res (read1 b off) (\<lambda>(target, off).
       Ok \<lparr>h_role = role, h_name = name, h_secret = secret, h_target = target\<rparr>)))"

section \<open>Reading back what was written\<close>

lemma unat_word8: "n < 256 \<Longrightarrow> unat (word_of_nat n :: byte) = n"
  by (simp add: unat_of_nat)

lemma read1_str_u8:
  assumes "length s < maxStrU8" and "length pre = off"
  shows "read1 (pre @ str_u8 s @ tail) off = Ok (s, off + 1 + length s)"
  using assms
  by (simp add: read1_def str_u8_def nth_append unat_word8 maxStrU8_def Let_def go_slice_def)

text \<open>The messages whose encoding determines them: all four length prefixes are exact.\<close>

definition hello_ok :: "hello \<Rightarrow> bool" where
  "hello_ok h \<longleftrightarrow> length (h_role h) < maxStrU8 \<and> length (h_name h) < maxStrU8
     \<and> length (h_target h) < maxStrU8 \<and> length (h_secret h) < maxStrU16"

definition hello_wire :: "hello \<Rightarrow> bytes" where
  "hello_wire h = str_u8 (h_role h) @ str_u8 (h_name h)
     @ put_uint16 (word_of_nat (length (h_secret h))) @ bytes_of (h_secret h)
     @ str_u8 (h_target h)"

lemma encode_hello_iff: "encode_hello h = Ok b \<longleftrightarrow> hello_ok h \<and> b = hello_wire h"
  by (auto simp: encode_hello_def hello_ok_def hello_wire_def)

lemma length_str_u8 [simp]: "length (str_u8 s) = 1 + length s"
  by (simp add: str_u8_def)

lemma decode_hello_wire:
  assumes ok: "hello_ok h"
  shows "decode_hello (hello_wire h @ tail) = Ok h"
proof -
  let ?r = "str_u8 (h_role h)" and ?n = "str_u8 (h_name h)" and ?t = "str_u8 (h_target h)"
  let ?l = "put_uint16 (word_of_nat (length (h_secret h)))" and ?s = "bytes_of (h_secret h)"
  define b where "b = ?r @ ?n @ ?l @ ?s @ ?t @ tail"
  define o1 where "o1 = 1 + length (h_role h)"
  define o2 where "o2 = o1 + 1 + length (h_name h)"
  define sl where "sl = length (h_secret h)"
  define o3 where "o3 = o2 + 2 + sl + 1 + length (h_target h)"
  have r1: "read1 b 0 = Ok (h_role h, o1)"
    using read1_str_u8 [of "h_role h" "[]" 0] ok by (simp add: hello_ok_def b_def o1_def)
  have r2: "read1 b o1 = Ok (h_name h, o2)"
    using read1_str_u8 [of "h_name h" ?r o1 "?l @ ?s @ ?t @ tail"] ok
    by (simp add: hello_ok_def b_def o1_def o2_def)
  have sl: "go_slice o2 (o2 + 2) b = ?l"
    using go_slice_append_mid [of "?r @ ?n" o2 ?l "o2 + 2" "?s @ ?t @ tail"]
    by (simp add: b_def o1_def o2_def)
  have un: "unat (word_of_nat (length (h_secret h)) :: uint16) = sl"
    using ok by (simp add: hello_ok_def maxStrU16_def unat_of_nat sl_def)
  have sec: "go_slice (o2 + 2) (o2 + 2 + sl) b = ?s"
    using go_slice_append_mid [of "?r @ ?n @ ?l" "o2 + 2" ?s "o2 + 2 + sl" "?t @ tail"]
    by (simp add: b_def o1_def o2_def sl_def)
  have r3: "read1 b (o2 + 2 + sl) = Ok (h_target h, o3)"
    using read1_str_u8 [of "h_target h" "?r @ ?n @ ?l @ ?s" "o2 + 2 + sl" tail] ok
    by (simp add: hello_ok_def b_def o1_def o2_def o3_def sl_def)
  have len: "o2 + 2 \<le> length b" "o2 + 2 + sl \<le> length b"
    by (simp_all add: b_def o1_def o2_def sl_def)
  have wire: "hello_wire h @ tail = b" by (simp add: hello_wire_def b_def)
  show ?thesis
    using len unfolding wire
    by (simp add: decode_hello_def r1 r2 r3 sl sec un not_less [symmetric] del: add_2_eq_Suc')
qed

interpretation hello_codec: codec hello_wire
  "\<lambda>b. case decode_hello b of Inl _ \<Rightarrow> None | Inr h \<Rightarrow> Some h" hello_ok
  by unfold_locales (use decode_hello_wire [where tail = "[]"] in simp)

text \<open>What a successful \<open>read1\<close> says about the bytes it consumed.\<close>

lemma read1_inv:
  assumes "read1 b off = Ok (s, off')"
  shows "off' = off + 1 + length s \<and> off' \<le> length b \<and> go_slice off off' b = str_u8 s
    \<and> length s < maxStrU8"
proof -
  let ?n = "unat (b ! off)"
  have n: "?n < 256" using unsigned_less [of "b ! off"] by simp
  from assms have lt: "off < length b" "off + 1 + ?n \<le> length b" "off' = off + 1 + ?n"
    and s: "s = string_of (go_slice (off + 1) (off + 1 + ?n) b)"
    by (auto simp: read1_def Let_def split: if_splits)
  have len: "length s = ?n" using s lt by simp
  have "go_slice off (off + 1) b = [b ! off]"
    using lt(1) by (simp add: go_slice_def take_Suc hd_drop_conv_nth)
  then have "go_slice off off' b = [b ! off] @ go_slice (off + 1) off' b"
    using go_slice_join [of off "off + 1" off' b] lt(3) by simp
  then show ?thesis using lt n s len by (simp add: str_u8_def maxStrU8_def)
qed

lemma decode_hello_inv:
  assumes "decode_hello b = Ok h"
  shows "hello_ok h \<and> (\<exists>tail. b = hello_wire h @ tail)"
proof -
  obtain o1 o2 o3 sl where a1: "read1 b 0 = Ok (h_role h, o1)"
    and a2: "read1 b o1 = Ok (h_name h, o2)"
    and sl_def: "sl = unat (get_uint16 (go_slice o2 (o2 + 2) b))"
    and g: "o2 + 2 + sl \<le> length b"
    and sec: "h_secret h = string_of (go_slice (o2 + 2) (o2 + 2 + sl) b)"
    and a3: "read1 b (o2 + 2 + sl) = Ok (h_target h, o3)"
    using assms
    by (auto simp: decode_hello_def bind_res_Inr_iff Let_def simp del: add_2_eq_Suc'
        split: if_splits)
  note i = read1_inv [OF a1] read1_inv [OF a2] read1_inv [OF a3]
  have lsec: "length (h_secret h) = sl" using g sec by simp
  have "sl < 65536"
    using unsigned_less [of "get_uint16 (go_slice o2 (o2 + 2) b)"] by (simp add: sl_def)
  then have ok: "hello_ok h" using i lsec by (simp add: hello_ok_def maxStrU16_def)
  have "put_uint16 (word_of_nat sl) = go_slice o2 (o2 + 2) b"
    using g by (simp add: sl_def put_get_uint16)
  moreover have "str_u8 (h_role h) = go_slice 0 o1 b" "str_u8 (h_name h) = go_slice o1 o2 b"
      "str_u8 (h_target h) = go_slice (o2 + 2 + sl) o3 b"
      "bytes_of (h_secret h) = go_slice (o2 + 2) (o2 + 2 + sl) b"
    using i sec by (metis bytes_of_string_of)+
  ultimately have "hello_wire h = go_slice 0 o1 b @ go_slice o1 o2 b @ go_slice o2 (o2 + 2) b
      @ go_slice (o2 + 2) (o2 + 2 + sl) b @ go_slice (o2 + 2 + sl) o3 b"
    by (simp only: hello_wire_def lsec)
  also have "\<dots> = go_slice 0 o3 b" using i by (simp add: go_slice_join)
  finally have "b = hello_wire h @ drop o3 b" by (simp add: go_slice_take)
  with ok show ?thesis by blast
qed

section \<open>Properties\<close>

text \<open>C21: \<open>Encode\<close> fails exactly when a field does not fit its length prefix, and decoding what it
  wrote gives the message back.\<close>

theorem hello_round_trip:
  "case encode_hello h of
     Inr b \<Rightarrow> decode_hello b = Ok h
   | Inl e \<Rightarrow> max (length (h_role h)) (max (length (h_name h)) (length (h_target h))) \<ge> maxStrU8
             \<and> e = ErrStrTooLong
           \<or> length (h_secret h) \<ge> maxStrU16 \<and> e = ErrSecretTooLong"
proof (cases "encode_hello h")
  case (Inl e)
  then show ?thesis by (auto simp: encode_hello_def split: if_splits)
next
  case (Inr b)
  then have "hello_ok h" and "b = hello_wire h" by (simp_all add: encode_hello_iff)
  with Inr show ?thesis using decode_hello_wire [of h "[]"] by simp
qed

text \<open>A payload that decodes to a message is the encoding of that message followed by bytes that
  \<open>DecodeHello\<close> ignores; the three one-byte prefixes and the two-byte prefix are never misread.\<close>

theorem hello_decode_canonical:
  assumes "decode_hello b = Ok h"
  shows "\<exists>e tail. encode_hello h = Ok e \<and> b = e @ tail"
  using decode_hello_inv [OF assms] encode_hello_iff by blast

theorem hello_decode_canonical_witness:
  "\<exists>e tail. encode_hello \<lparr>h_role = ''A'', h_name = [], h_secret = ''B'', h_target = []\<rparr> = Ok e
     \<and> [1, 65, 0, 0, 1, 66, 0] = e @ tail"
  by (rule hello_decode_canonical) code_simp

end
