(* ===== verification/Sha256.thy ===== *)
theory Sha256
  imports Codec
begin

text \<open>
  Go's \<open>crypto/sha256\<close> and \<open>crypto/hmac\<close> (FIPS 180-4 and RFC 2104) as executable functions on
  byte lists, and \<open>subtle.ConstantTimeCompare\<close>.  The development uses of them that a digest has
  32 bytes and that the comparison answers 1 exactly for equal slices; nothing is assumed about
  collisions.
\<close>

section \<open>SHA-256\<close>

text \<open>
  The constants of the standard, as it defines them: the first 32 bits of the fractional parts of
  the cube roots of the first 64 primes, and of the square roots of the first eight.
  \<open>root_bits e n k acc\<close> is the largest number of \<open>k\<close> more bits than \<open>acc\<close> whose \<open>e\<close>-th power is at
  most \<open>n\<close>.
\<close>

fun root_bits :: "nat \<Rightarrow> nat \<Rightarrow> nat \<Rightarrow> nat \<Rightarrow> nat" where
  "root_bits e n 0 acc = acc"
| "root_bits e n (Suc k) acc =
     (let c = acc + 2 ^ k in root_bits e n k (if c ^ e \<le> n then c else acc))"

definition first_primes :: "nat list" where
  "first_primes =
    [2, 3, 5, 7, 11, 13, 17, 19, 23, 29, 31, 37, 41, 43, 47, 53, 59, 61, 67, 71, 73, 79, 83, 89, 97,
     101, 103, 107, 109, 113, 127, 131, 137, 139, 149, 151, 157, 163, 167, 173, 179, 181, 191, 193,
     197, 199, 211, 223, 227, 229, 233, 239, 241, 251, 257, 263, 269, 271, 277, 281, 283, 293, 307,
     311]"

definition sha_K :: "uint32 list" where
  "sha_K = map (\<lambda>p. word_of_nat (root_bits 3 (p * 2 ^ 96) 36 0)) first_primes"

definition sha_H :: "nat \<Rightarrow> uint32" where
  "sha_H i = word_of_nat (root_bits 2 ((first_primes ! i) * 2 ^ 64) 36 0)"

record sha_state =
  hA :: uint32  hB :: uint32  hC :: uint32  hD :: uint32
  hE :: uint32  hF :: uint32  hG :: uint32  hH :: uint32

definition sha_init :: sha_state where
  "sha_init = \<lparr>hA = sha_H 0, hB = sha_H 1, hC = sha_H 2, hD = sha_H 3,
               hE = sha_H 4, hF = sha_H 5, hG = sha_H 6, hH = sha_H 7\<rparr>"

definition rotr32 :: "nat \<Rightarrow> uint32 \<Rightarrow> uint32" where
  "rotr32 n x = drop_bit n x OR push_bit (32 - n) x"

definition sha_Ch :: "uint32 \<Rightarrow> uint32 \<Rightarrow> uint32 \<Rightarrow> uint32" where
  "sha_Ch x y z = (x AND y) XOR (NOT x AND z)"

definition sha_Maj :: "uint32 \<Rightarrow> uint32 \<Rightarrow> uint32 \<Rightarrow> uint32" where
  "sha_Maj x y z = (x AND y) XOR (x AND z) XOR (y AND z)"

definition sha_S0 :: "uint32 \<Rightarrow> uint32" where
  "sha_S0 x = rotr32 2 x XOR rotr32 13 x XOR rotr32 22 x"

definition sha_S1 :: "uint32 \<Rightarrow> uint32" where
  "sha_S1 x = rotr32 6 x XOR rotr32 11 x XOR rotr32 25 x"

definition sha_s0 :: "uint32 \<Rightarrow> uint32" where
  "sha_s0 x = rotr32 7 x XOR rotr32 18 x XOR drop_bit 3 x"

definition sha_s1 :: "uint32 \<Rightarrow> uint32" where
  "sha_s1 x = rotr32 17 x XOR rotr32 19 x XOR drop_bit 10 x"

text \<open>The message schedule: \<open>w\<close> grows by \<open>n\<close> words.\<close>

fun sha_schedule :: "nat \<Rightarrow> uint32 list \<Rightarrow> uint32 list" where
  "sha_schedule 0 w = w"
| "sha_schedule (Suc n) w =
     (let t = length w in
      sha_schedule n (w @ [sha_s1 (w ! (t - 2)) + w ! (t - 7) + sha_s0 (w ! (t - 15)) + w ! (t - 16)]))"

definition sha_round :: "uint32 \<times> uint32 \<Rightarrow> sha_state \<Rightarrow> sha_state" where
  "sha_round kw s =
     (let t1 = hH s + sha_S1 (hE s) + sha_Ch (hE s) (hF s) (hG s) + fst kw + snd kw;
          t2 = sha_S0 (hA s) + sha_Maj (hA s) (hB s) (hC s) in
      \<lparr>hA = t1 + t2, hB = hA s, hC = hB s, hD = hC s,
       hE = hD s + t1, hF = hE s, hG = hF s, hH = hG s\<rparr>)"

fun be_words :: "bytes \<Rightarrow> uint32 list" where
  "be_words (a # b # c # d # r) = get_uint32 [a, b, c, d] # be_words r"
| "be_words _ = []"

definition sha_block :: "bytes \<Rightarrow> sha_state \<Rightarrow> sha_state" where
  "sha_block blk s =
     (let r = fold sha_round (zip sha_K (sha_schedule 48 (be_words blk))) s in
      \<lparr>hA = hA s + hA r, hB = hB s + hB r, hC = hC s + hC r, hD = hD s + hD r,
       hE = hE s + hE r, hF = hF s + hF r, hG = hG s + hG r, hH = hH s + hH r\<rparr>)"

definition sha_pad :: "bytes \<Rightarrow> bytes" where
  "sha_pad m =
     (let n = length m; bits = 8 * n in
      m @ [0x80] @ replicate ((119 - n mod 64) mod 64) 0
        @ put_uint32 (word_of_nat (bits div 2 ^ 32)) @ put_uint32 (word_of_nat bits))"

function sha_blocks :: "bytes \<Rightarrow> sha_state \<Rightarrow> sha_state" where
  "sha_blocks m s = (if m = [] then s else sha_blocks (drop 64 m) (sha_block (take 64 m) s))"
  by pat_completeness auto
termination by (relation "measure (length \<circ> fst)") auto

declare sha_blocks.simps [simp del]

definition sha_digest :: "sha_state \<Rightarrow> bytes" where
  "sha_digest s = put_uint32 (hA s) @ put_uint32 (hB s) @ put_uint32 (hC s) @ put_uint32 (hD s)
     @ put_uint32 (hE s) @ put_uint32 (hF s) @ put_uint32 (hG s) @ put_uint32 (hH s)"

definition sha256 :: "bytes \<Rightarrow> bytes" where
  "sha256 m = sha_digest (sha_blocks (sha_pad m) sha_init)"

lemma length_sha256 [simp]: "length (sha256 m) = 32"
  by (simp add: sha256_def sha_digest_def)

text \<open>The padded message consists of whole blocks.\<close>

lemma length_sha_pad: "64 dvd length (sha_pad m)"
proof -
  define r where "r = length m mod 64"
  have r: "r < 64" "length m = 64 * (length m div 64) + r" by (simp_all add: r_def)
  have "length (sha_pad m) = length m + 9 + (119 - r) mod 64"
    by (simp add: sha_pad_def Let_def r_def)
  moreover have "r + 9 + (119 - r) mod 64 = (if r \<le> 55 then 64 else 128)"
    using r(1) by (auto simp: mod_if)
  ultimately have "length (sha_pad m) = 64 * (length m div 64) + (if r \<le> 55 then 64 else 128)"
    using r(2) by linarith
  then show ?thesis by auto
qed

section \<open>HMAC-SHA256\<close>

definition hmac_key :: "bytes \<Rightarrow> bytes" where
  "hmac_key key =
     (let k = (if length key > 64 then sha256 key else key) in k @ replicate (64 - length k) 0)"

definition hmac_sha256 :: "bytes \<Rightarrow> bytes \<Rightarrow> bytes" where
  "hmac_sha256 key m =
     (let k = hmac_key key in
      sha256 (map (\<lambda>w. w XOR 0x5c) k @ sha256 (map (\<lambda>w. w XOR 0x36) k @ m)))"

lemma length_hmac_sha256 [simp]: "length (hmac_sha256 key m) = 32"
  by (simp add: hmac_sha256_def Let_def)

section \<open>\<open>subtle.ConstantTimeCompare\<close>\<close>

text \<open>Slices of different length compare as 0; otherwise the exclusive ors are accumulated and the
  result is read off the accumulator (\<open>ConstantTimeByteEq\<close>).\<close>

definition constant_time_compare :: "bytes \<Rightarrow> bytes \<Rightarrow> int" where
  "constant_time_compare x y =
     (if length x \<noteq> length y then 0
      else let v = fold (\<lambda>(a, b) v. v OR (a XOR b)) (zip x y) 0 in
      if v = 0 then 1 else 0)"

lemma or_eq_0_iff: "(v :: byte) OR w = 0 \<longleftrightarrow> v = 0 \<and> w = 0"
  by (auto simp: bit_eq_iff bit_simps)

lemma xor_eq_0_iff: "(v :: byte) XOR w = 0 \<longleftrightarrow> v = w"
  by (auto simp: bit_eq_iff bit_simps)

lemma ct_fold_0_iff:
  "length x = length y \<Longrightarrow>
     fold (\<lambda>(a, b) v. v OR (a XOR b)) (zip x y) v = 0 \<longleftrightarrow> v = 0 \<and> x = (y :: bytes)"
  by (induction x y arbitrary: v rule: list_induct2) (auto simp: or_eq_0_iff xor_eq_0_iff)

lemma constant_time_compare_iff [simp]: "constant_time_compare x y = 1 \<longleftrightarrow> x = y"
  by (auto simp: constant_time_compare_def Let_def ct_fold_0_iff)

end
