(* ===== verification/Go_Strings.thy ===== *)
theory Go_Strings
  imports Prelude "HOL-Library.Sublist"
begin

text \<open>
  The functions of Go's \<open>strings\<close> and \<open>strconv\<close> packages that the source calls, on byte strings.
  \<open>to_lower\<close> is exact where its result is ASCII (the source only compares it with ASCII
  literals): besides the ASCII letters, the two runes that Go lower-cases to an ASCII letter are
  the Kelvin sign and the dotted capital I; every other rune stays non-ASCII.
\<close>

section \<open>Prefixes, searching, replacing\<close>

definition has_prefix :: "string \<Rightarrow> string \<Rightarrow> bool" where
  "has_prefix s p \<longleftrightarrow> take (length p) s = p"

lemma has_prefix_iff: "has_prefix s p \<longleftrightarrow> (\<exists>t. s = p @ t)"
  by (auto simp: has_prefix_def) (metis append_take_drop_id)

text \<open>\<open>strings.Index\<close>: the first offset where \<open>sub\<close> occurs; \<open>-1\<close> is \<open>None\<close>.\<close>

fun str_index :: "string \<Rightarrow> string \<Rightarrow> nat option" where
  "str_index [] sub = (if sub = [] then Some 0 else None)"
| "str_index (c # s) sub =
     (if has_prefix (c # s) sub then Some 0 else map_option Suc (str_index s sub))"

lemma str_index_Some:
  "str_index s sub = Some i \<Longrightarrow>
     \<exists>a b. s = a @ sub @ b \<and> length a = i \<and> (\<forall>j < i. \<not> has_prefix (drop j s) sub)"
proof (induction s arbitrary: i)
  case Nil
  then show ?case by (auto split: if_splits)
next
  case (Cons c s)
  show ?case
  proof (cases "has_prefix (c # s) sub")
    case True
    with Cons.prems show ?thesis by (auto simp: has_prefix_iff)
  next
    case False
    with Cons.prems obtain j where j: "str_index s sub = Some j" "i = Suc j" by auto
    from Cons.IH [OF j(1)] obtain a b where ab: "s = a @ sub @ b" "length a = j"
        "\<forall>k < j. \<not> has_prefix (drop k s) sub" by blast
    have "c # s = (c # a) @ sub @ b" "length (c # a) = i" using ab j(2) by simp_all
    moreover have "\<not> has_prefix (drop k (c # s)) sub" if "k < i" for k
      using that False ab(3) j(2) by (cases k) auto
    ultimately show ?thesis by blast
  qed
qed

lemma str_index_None_iff: "str_index s sub = None \<longleftrightarrow> \<not> (\<exists>a b. s = a @ sub @ b)"
proof (induction s)
  case (Cons c s)
  have "(\<exists>a b. c # s = a @ sub @ b) \<longleftrightarrow> has_prefix (c # s) sub \<or> (\<exists>a b. s = a @ sub @ b)"
    by (auto simp: has_prefix_iff Cons_eq_append_conv)
  with Cons show ?case by auto
qed auto

lemma str_index_len: "str_index s sub = Some i \<Longrightarrow> i + length sub \<le> length s"
  using str_index_Some by fastforce

definition str_contains :: "string \<Rightarrow> string \<Rightarrow> bool" where
  "str_contains s sub \<longleftrightarrow> str_index s sub \<noteq> None"

text \<open>\<open>strings.IndexByte\<close>.\<close>

definition index_byte :: "string \<Rightarrow> char \<Rightarrow> nat option" where
  "index_byte s c = str_index s [c]"

text \<open>\<open>strings.Count\<close> for a non-empty pattern: occurrences that do not overlap, left to right.\<close>

function str_count :: "string \<Rightarrow> string \<Rightarrow> nat" where
  "str_count s sub =
     (if sub = [] then Suc (length s)
      else case str_index s sub of None \<Rightarrow> 0
           | Some i \<Rightarrow> Suc (str_count (drop (i + length sub) s) sub))"
  by pat_completeness auto
termination
proof (relation "measure (\<lambda>(s, sub). length s)")
  fix s sub :: string and i
  assume "sub \<noteq> []" "str_index s sub = Some i"
  moreover from this have "i + length sub \<le> length s" by (simp add: str_index_len)
  ultimately show "((drop (i + length sub) s, sub), s, sub) \<in> measure (\<lambda>(s, sub). length s)"
    by (cases sub) auto
qed simp

declare str_count.simps [simp del]

text \<open>\<open>strings.Replace\<close> with \<open>n\<close> replacements at most; \<open>None\<close> stands for \<open>-1\<close>, all of them
  (\<open>strings.ReplaceAll\<close>).  Non-empty patterns only: an empty one is returned unchanged here and
  refused by every caller.\<close>

function str_replace :: "string \<Rightarrow> string \<Rightarrow> string \<Rightarrow> nat option \<Rightarrow> string" where
  "str_replace s old new n =
     (if old = [] \<or> n = Some 0 then s
      else case str_index s old of None \<Rightarrow> s
           | Some i \<Rightarrow> take i s @ new
               @ str_replace (drop (i + length old) s) old new (map_option (\<lambda>k. k - 1) n))"
  by pat_completeness auto
termination
proof (relation "measure (\<lambda>(s, old, new, n). length s)")
  fix s old new :: string and n :: "nat option" and i
  assume "\<not> (old = [] \<or> n = Some 0)" "str_index s old = Some i"
  moreover from this have "i + length old \<le> length s" by (simp add: str_index_len)
  ultimately show "((drop (i + length old) s, old, new, map_option (\<lambda>k. k - 1) n), s, old, new, n)
      \<in> measure (\<lambda>(s, old, new, n). length s)"
    by (cases old) auto
qed simp

declare str_replace.simps [simp del]

section \<open>Trimming and lower case\<close>

text \<open>The UTF-8 encodings of the white-space runes (\<open>unicode.IsSpace\<close>).\<close>

definition space_runes :: "string list" where
  "space_runes =
     [[CHR 0x09], [CHR 0x0A], [CHR 0x0B], [CHR 0x0C], [CHR 0x0D], [CHR 0x20],
      [CHR 0xC2, CHR 0x85], [CHR 0xC2, CHR 0xA0], [CHR 0xE1, CHR 0x9A, CHR 0x80]]
     @ map (\<lambda>k. [CHR 0xE2, CHR 0x80, char_of (0x80 + k)]) [0..<11::nat]
     @ [[CHR 0xE2, CHR 0x80, CHR 0xA8], [CHR 0xE2, CHR 0x80, CHR 0xA9],
        [CHR 0xE2, CHR 0x80, CHR 0xAF], [CHR 0xE2, CHR 0x81, CHR 0x9F],
        [CHR 0xE3, CHR 0x80, CHR 0x80]]"

definition strip_space :: "string list \<Rightarrow> string \<Rightarrow> string" where
  "strip_space ws s = (case find (has_prefix s) ws of None \<Rightarrow> s | Some w \<Rightarrow> drop (length w) s)"

definition trim_space :: "string \<Rightarrow> string" where
  "trim_space s =
     (let l = (strip_space space_runes ^^ length s) s in
      rev ((strip_space (map rev space_runes) ^^ length l) (rev l)))"

definition lower_ascii :: "char \<Rightarrow> char" where
  "lower_ascii c =
     (let n = of_char c :: nat in if 65 \<le> n \<and> n \<le> 90 then char_of (n + 32) else c)"

definition upper_ascii :: "char \<Rightarrow> char" where
  "upper_ascii c =
     (let n = of_char c :: nat in if 97 \<le> n \<and> n \<le> 122 then char_of (n - 32) else c)"

definition kelvin_sign :: string where "kelvin_sign = [CHR 0xE2, CHR 0x84, CHR 0xAA]"
definition dotted_I :: string where "dotted_I = [CHR 0xC4, CHR 0xB0]"

fun to_lower :: "string \<Rightarrow> string" where
  "to_lower [] = []"
| "to_lower (c # s) =
     (if has_prefix (c # s) kelvin_sign then CHR ''k'' # to_lower (drop 2 s)
      else if has_prefix (c # s) dotted_I then CHR ''i'' # to_lower (drop 1 s)
      else lower_ascii c # to_lower s)"

section \<open>Decimal numbers\<close>

fun nat_digits :: "nat \<Rightarrow> string" where
  "nat_digits n =
     (if n < 10 then [char_of (48 + n)] else nat_digits (n div 10) @ [char_of (48 + n mod 10)])"

declare nat_digits.simps [simp del]

definition itoa :: "int \<Rightarrow> string" where
  "itoa i = (if i < 0 then CHR ''-'' # nat_digits (nat (- i)) else nat_digits (nat i))"

text \<open>The verb \<open>%q\<close> on ASCII text: quotes, backslashes and control characters are escaped.  Bytes above
  127 are kept, as Go keeps the printable runes they are parts of.\<close>

definition quote_char :: "char \<Rightarrow> string" where
  "quote_char c =
     (let n = of_char c :: nat;
          hex = (\<lambda>k. ''0123456789abcdef'' ! k) in
      if c = CHR 0x22 \<or> c = CHR 0x5C then [CHR 0x5C, c]
      else if n = 7 then [CHR 0x5C, CHR ''a''] else if n = 8 then [CHR 0x5C, CHR ''b'']
      else if n = 9 then [CHR 0x5C, CHR ''t''] else if n = 10 then [CHR 0x5C, CHR ''n'']
      else if n = 11 then [CHR 0x5C, CHR ''v''] else if n = 12 then [CHR 0x5C, CHR ''f'']
      else if n = 13 then [CHR 0x5C, CHR ''r'']
      else if n < 32 \<or> n = 127 then [CHR 0x5C, CHR ''x'', hex (n div 16), hex (n mod 16)]
      else [c])"

definition go_q :: "string \<Rightarrow> string" where
  "go_q s = [CHR 0x22] @ concat (map quote_char s) @ [CHR 0x22]"

section \<open>What the callers rely on\<close>

lemma str_count_0_iff: "sub \<noteq> [] \<Longrightarrow> str_count s sub = 0 \<longleftrightarrow> str_index s sub = None"
  by (subst str_count.simps) (simp split: option.split)

lemma str_replace_length_one:
  assumes "old \<noteq> []" and "str_index s old = Some i"
  shows "str_replace s old new (Some 1) = take i s @ new @ drop (i + length old) s"
  using assms by (subst str_replace.simps, subst str_replace.simps) simp

lemma str_replace_split:
  assumes "old \<noteq> []" and "str_index s old \<noteq> None"
  obtains a b where "s = a @ old @ b" and "str_replace s old new (Some 1) = a @ new @ b"
    and "str_index s old = Some (length a)"
proof -
  from assms(2) obtain i where i: "str_index s old = Some i" by blast
  from str_index_Some [OF i] obtain a b where "s = a @ old @ b" "length a = i" by blast
  with str_replace_length_one [OF assms(1) i] i that [of a b] show ?thesis by simp
qed

lemma str_index_char: "str_index s [c] = (if c \<in> set s then Some (length (takeWhile (\<lambda>x. x \<noteq> c) s)) else None)"
  by (induction s) (auto simp: has_prefix_def)

lemma str_count_char: "str_count s [c] = count_list s c"
proof (induction "length s" arbitrary: s rule: less_induct)
  case less
  show ?case
  proof (cases "c \<in> set s")
    case False
    then show ?thesis by (subst str_count.simps) (simp add: str_index_char count_list_0_iff)
  next
    case True
    let ?p = "takeWhile (\<lambda>x. x \<noteq> c) s"
    obtain a b where s: "s = a @ c # b" "c \<notin> set a" by (meson True split_list_first)
    then have "?p = a" by (subst s(1), subst takeWhile_append2) auto
    with True s less [of b] show ?thesis
      by (subst str_count.simps) (simp add: str_index_char count_list_0_iff)
  qed
qed

lemma length_str_replace_all:
  "old \<noteq> [] \<Longrightarrow> length (str_replace s old new None) + str_count s old * length old
    = length s + str_count s old * length new"
proof (induction "length s" arbitrary: s rule: less_induct)
  case less
  show ?case
  proof (cases "str_index s old")
    case None
    with less.prems show ?thesis by (subst str_replace.simps) (simp add: str_count.simps)
  next
    case (Some i)
    let ?d = "drop (i + length old) s"
    have len: "i + length old \<le> length s" using Some by (rule str_index_len)
    have ih: "length (str_replace ?d old new None) + str_count ?d old * length old
        = length ?d + str_count ?d old * length new"
      using less.prems len by (intro less.hyps) (cases old, auto)
    have c: "str_count s old = Suc (str_count ?d old)"
      using Some less.prems by (subst str_count.simps) simp
    have r: "str_replace s old new None = take i s @ new @ str_replace ?d old new None"
      using Some less.prems by (subst str_replace.simps) simp
    show ?thesis using ih len by (simp add: c r)
  qed
qed

section \<open>Parsing numbers\<close>

text \<open>\<open>strconv.ParseUint\<close> and \<open>strconv.Atoi\<close>.  A digit that takes the value over the maximum is an
  error at once, before the rest of the string is looked at.\<close>

datatype num_error = NumSyntax | NumRange

definition digit_val :: "nat \<Rightarrow> char \<Rightarrow> nat option" where
  "digit_val base c =
     (let n = of_char c; d = (if 48 \<le> n \<and> n \<le> 57 then n - 48 else 36) in if d < base then Some d else None)"

fun uint_loop :: "nat \<Rightarrow> nat \<Rightarrow> nat \<Rightarrow> string \<Rightarrow> num_error + nat" where
  "uint_loop base mx n [] = Inr n"
| "uint_loop base mx n (c # s) =
     (case digit_val base c of
        None \<Rightarrow> Inl NumSyntax
      | Some d \<Rightarrow> if mx < n * base + d then Inl NumRange else uint_loop base mx (n * base + d) s)"

definition parse_uint :: "nat \<Rightarrow> nat \<Rightarrow> string \<Rightarrow> num_error + nat" where
  "parse_uint base bits s = (if s = [] then Inl NumSyntax else uint_loop base (2 ^ bits - 1) 0 s)"

definition go_atoi :: "string \<Rightarrow> num_error + int" where
  "go_atoi s =
     (let neg = (s \<noteq> [] \<and> hd s = CHR ''-''); plus = (s \<noteq> [] \<and> hd s = CHR ''+'');
          r = parse_uint 10 64 (if neg \<or> plus then tl s else s) in
      case r of Inl e \<Rightarrow> Inl e
      | Inr n \<Rightarrow> if \<not> neg \<and> 2 ^ 63 \<le> n \<or> neg \<and> 2 ^ 63 < n then Inl NumRange
                 else Inr (if neg then - int n else int n))"

definition num_error_text :: "num_error \<Rightarrow> string" where
  "num_error_text e = (case e of NumSyntax \<Rightarrow> ''invalid syntax'' | NumRange \<Rightarrow> ''value out of range'')"

lemma uint_loop_bound: "uint_loop base mx n s = Inr k \<Longrightarrow> n \<le> mx \<Longrightarrow> k \<le> mx"
  by (induction s arbitrary: n) (auto split: option.splits if_splits)

lemma parse_uint_bound: "parse_uint base bits s = Inr k \<Longrightarrow> k < 2 ^ bits"
proof -
  assume "parse_uint base bits s = Inr k"
  then have "k \<le> 2 ^ bits - 1" by (auto simp: parse_uint_def dest: uint_loop_bound split: if_splits)
  moreover have "(1::nat) \<le> 2 ^ bits" by simp
  ultimately show ?thesis by linarith
qed

section \<open>Replacing and trimming single characters\<close>

lemma takeWhile_dropWhile_first:
  "c \<in> set s \<Longrightarrow> s = takeWhile (\<lambda>x. x \<noteq> c) s @ c # drop (Suc (length (takeWhile (\<lambda>x. x \<noteq> c) s))) s"
  by (induction s) auto

lemma concat_if_absent: "c \<notin> set s \<Longrightarrow> concat (map (\<lambda>x. if x = c then new else [x]) s) = s"
  by (induction s) auto

lemma str_replace_char:
  "str_replace s [c] new None = concat (map (\<lambda>x. if x = c then new else [x]) s)"
proof (induction "length s" arbitrary: s rule: less_induct)
  case less
  show ?case
  proof (cases "c \<in> set s")
    case False
    then have "concat (map (\<lambda>x. if x = c then new else [x]) s) = s" by (rule concat_if_absent)
    with False show ?thesis by (subst str_replace.simps) (simp add: str_index_char)
  next
    case True
    let ?p = "takeWhile (\<lambda>x. x \<noteq> c) s" and ?r = "drop (Suc (length (takeWhile (\<lambda>x. x \<noteq> c) s))) s"
    have s: "s = ?p @ c # ?r" by (rule takeWhile_dropWhile_first [OF True])
    have p: "concat (map (\<lambda>x. if x = c then new else [x]) ?p) = ?p"
      by (rule concat_if_absent) (auto dest: set_takeWhileD)
    have "length ?r < length s" by (subst (2) s) simp
    then have ih: "str_replace ?r [c] new None = concat (map (\<lambda>x. if x = c then new else [x]) ?r)"
      by (rule less)
    have "str_replace s [c] new None = ?p @ new @ str_replace ?r [c] new None"
      using True by (subst str_replace.simps) (simp add: str_index_char flip: takeWhile_eq_take)
    also have "\<dots> = concat (map (\<lambda>x. if x = c then new else [x]) (?p @ c # ?r))"
      using p ih by simp
    finally show ?thesis using s by simp
  qed
qed

text \<open>\<open>strings.TrimRight(s, "c")\<close>.\<close>

definition trim_right :: "char \<Rightarrow> string \<Rightarrow> string" where
  "trim_right c s = rev (dropWhile (\<lambda>x. x = c) (rev s))"

end
