(* ===== verification/Auth.thy ===== *)
theory Auth
  imports Sha256 Go_Strings
begin

text \<open>
  \<open>internal/auth\<close>: stored secret hashes (\<open>hash.go\<close>), the frame MAC (\<open>hmac.go\<close>), the TLS
  certificate pin (\<open>certpin.go\<close>) and the choice of the client's TLS configuration
  (\<open>tlsmode.go\<close>).  A \<open>tls.Config\<close> is the record of the three fields the source sets; the
  \<open>VerifyConnection\<close> callback is a function of the peer's certificate chain (DER bytes).
\<close>

datatype auth_error =
    ErrShortMAC | ErrBadMAC
  | ErrNoPeerCert | ErrPinMismatch | ErrBadPinFormat
  | ErrTLSMode string
  | ErrCertPin auth_error

section \<open>Secret hashes\<close>

definition sha256_prefix :: string where
  "sha256_prefix = ''sha256:''"

definition SHA256Hex :: "bytes \<Rightarrow> string" where
  "SHA256Hex b = hex_encode (sha256 b)"

definition SecretMatches :: "string \<Rightarrow> string \<Rightarrow> bool" where
  "SecretMatches secret storedHash =
     (if \<not> has_prefix storedHash sha256_prefix then False
      else let want = drop (length sha256_prefix) storedHash;
               got = SHA256Hex (bytes_of secret) in
      if length want \<noteq> length got then False
      else constant_time_compare (bytes_of want) (bytes_of got) = 1)"

lemma length_SHA256Hex [simp]: "length (SHA256Hex b) = 64"
  by (simp add: SHA256Hex_def)

lemma SecretMatches_iff: "SecretMatches s h \<longleftrightarrow> h = sha256_prefix @ SHA256Hex (bytes_of s)"
  by (auto simp: SecretMatches_def Let_def has_prefix_def)
    (metis append_take_drop_id)

section \<open>Frame signatures\<close>

definition HMACSize :: nat where "HMACSize = 32"

definition SignFrame :: "bytes \<Rightarrow> bytes \<Rightarrow> bytes" where
  "SignFrame key frame = frame @ hmac_sha256 key frame"

definition VerifyFrame :: "bytes \<Rightarrow> bytes \<Rightarrow> auth_error + bytes" where
  "VerifyFrame key msg =
     (if length msg < HMACSize then Err ErrShortMAC
      else let cut = length msg - HMACSize;
               frame = take cut msg; mac = drop cut msg in
      if constant_time_compare mac (hmac_sha256 key frame) \<noteq> 1 then Err ErrBadMAC
      else Ok frame)"

lemma length_SignFrame [simp]: "length (SignFrame key f) = length f + 32"
  by (simp add: SignFrame_def)

lemma VerifyFrame_SignFrame [simp, codec_simps]: "VerifyFrame key (SignFrame key f) = Ok f"
  by (simp add: VerifyFrame_def SignFrame_def HMACSize_def Let_def)

lemma VerifyFrame_Ok_iff: "VerifyFrame key s = Ok f \<longleftrightarrow> s = SignFrame key f"
proof
  assume "VerifyFrame key s = Ok f"
  then have "f = take (length s - 32) s" "drop (length s - 32) s = hmac_sha256 key f"
    by (auto simp: VerifyFrame_def HMACSize_def Let_def split: if_splits)
  then show "s = SignFrame key f" unfolding SignFrame_def by (metis append_take_drop_id)
qed simp

interpretation mac: codec "SignFrame key" "\<lambda>s. case VerifyFrame key s of Inl _ \<Rightarrow> None | Inr f \<Rightarrow> Some f"
    "\<lambda>_. True" for key
  by unfold_locales simp

section \<open>Certificate pins\<close>

record tls_config =
  tls_min13 :: bool
  tls_insecure :: bool
  tls_verify :: "(bytes list \<Rightarrow> auth_error + unit) option"

definition CertFingerprintSHA256 :: "bytes \<Rightarrow> string" where
  "CertFingerprintSHA256 der = sha256_prefix @ hex_encode (sha256 der)"

text \<open>The callback that \<open>AttachCertPin\<close> installs, closed over the decoded pin.\<close>

definition verify_pin :: "bytes \<Rightarrow> bytes list \<Rightarrow> auth_error + unit" where
  "verify_pin want peerCerts =
     (case peerCerts of [] \<Rightarrow> Err ErrNoPeerCert
      | leaf # _ \<Rightarrow>
          if constant_time_compare (sha256 leaf) want \<noteq> 1 then Err ErrPinMismatch else Ok ())"

definition AttachCertPin :: "tls_config \<Rightarrow> string \<Rightarrow> auth_error + tls_config" where
  "AttachCertPin cfg pin =
     (if \<not> has_prefix pin sha256_prefix \<or> length pin \<noteq> length sha256_prefix + 64
      then Err ErrBadPinFormat
      else case hex_decode (drop (length sha256_prefix) pin) of
             None \<Rightarrow> Err ErrBadPinFormat
           | Some want \<Rightarrow> Ok (cfg\<lparr>tls_verify := Some (verify_pin want)\<rparr>))"

lemma verify_pin_ok_iff:
  "verify_pin want certs = Ok () \<longleftrightarrow> certs \<noteq> [] \<and> sha256 (hd certs) = want"
  by (cases certs) (auto simp: verify_pin_def)

lemma AttachCertPin_ok_iff:
  "AttachCertPin cfg pin = Ok c \<longleftrightarrow>
     (\<exists>hex want. pin = sha256_prefix @ hex \<and> length hex = 64 \<and> hex_decode hex = Some want
        \<and> c = cfg\<lparr>tls_verify := Some (verify_pin want)\<rparr>)"
  by (auto simp: AttachCertPin_def has_prefix_iff split: option.splits)

section \<open>TLS modes\<close>

definition GatewayTLSModePin :: string where "GatewayTLSModePin = ''pin''"
definition GatewayTLSModeWebPKI :: string where "GatewayTLSModeWebPKI = ''webpki''"

definition NormalizeGatewayTLSMode :: "string \<Rightarrow> auth_error + string" where
  "NormalizeGatewayTLSMode mode =
     (let m = to_lower (trim_space mode) in
      if m = [] \<or> m = GatewayTLSModePin then Ok GatewayTLSModePin
      else if m = GatewayTLSModeWebPKI then Ok GatewayTLSModeWebPKI
      else Err (ErrTLSMode mode))"

definition tls13 :: tls_config where
  "tls13 = \<lparr>tls_min13 = True, tls_insecure = False, tls_verify = None\<rparr>"

definition EnrollTLSConfig :: "string \<Rightarrow> auth_error + tls_config" where
  "EnrollTLSConfig mode =
     bind_res (NormalizeGatewayTLSMode mode) (\<lambda>mode.
       let cfg = tls13 in
       Ok (if mode = GatewayTLSModePin then cfg\<lparr>tls_insecure := True\<rparr> else cfg))"

definition RuntimeTLSConfig :: "string \<Rightarrow> string \<Rightarrow> auth_error + tls_config" where
  "RuntimeTLSConfig mode certPin =
     bind_res (NormalizeGatewayTLSMode mode) (\<lambda>mode.
       let cfg = tls13 in
       if mode = GatewayTLSModePin then
         (case AttachCertPin (cfg\<lparr>tls_insecure := True\<rparr>) certPin of
            Inl e \<Rightarrow> Err (ErrCertPin e) | Inr cfg \<Rightarrow> Ok cfg)
       else Ok cfg)"

lemma Normalize_cases:
  "NormalizeGatewayTLSMode m = Ok r \<Longrightarrow> r = GatewayTLSModePin \<or> r = GatewayTLSModeWebPKI"
  by (auto simp: NormalizeGatewayTLSMode_def Let_def split: if_splits)

section \<open>Properties\<close>

text \<open>A secret matches a stored hash exactly when the stored hash is the prefix \<open>sha256:\<close>
  followed by the lower-case hexadecimal digest of the secret: any other algorithm tag, length or
  letter case is refused.\<close>

theorem secret_matches_iff:
  "SecretMatches s h \<longleftrightarrow> h = ''sha256:'' @ hex_encode (sha256 (bytes_of s))"
  by (simp add: SecretMatches_iff sha256_prefix_def SHA256Hex_def)

text \<open>C22: \<open>VerifyFrame\<close> returns a frame exactly for that frame signed under the same key, refuses
  anything shorter than a MAC with the short-MAC error and everything else with the bad-MAC error.\<close>

theorem verify_frame_spec:
  "VerifyFrame key s =
     (if length s < 32 then Err ErrShortMAC
      else if s = SignFrame key (take (length s - 32) s) then Ok (take (length s - 32) s)
      else Err ErrBadMAC)"
  using VerifyFrame_Ok_iff [of key s "take (length s - 32) s"]
  by (auto simp: VerifyFrame_def HMACSize_def Let_def split: if_splits)

text \<open>C23: With a pin taken from a certificate, the runtime configuration of pin mode accepts a
  connection exactly when the peer's leaf certificate has the same SHA-256 digest; an empty chain
  is refused.\<close>

theorem runtime_pin_accepts_iff:
  assumes "NormalizeGatewayTLSMode mode = Ok GatewayTLSModePin"
  shows "\<exists>cfg v. RuntimeTLSConfig mode (CertFingerprintSHA256 der) = Ok cfg \<and> tls_verify cfg = Some v
    \<and> tls_min13 cfg \<and> (\<forall>chain. v chain = Ok () \<longleftrightarrow> chain \<noteq> [] \<and> sha256 (hd chain) = sha256 der)"
proof -
  have "AttachCertPin c (CertFingerprintSHA256 der)
      = Ok (c\<lparr>tls_verify := Some (verify_pin (sha256 der))\<rparr>)" for c
    by (subst AttachCertPin_ok_iff) (simp add: CertFingerprintSHA256_def)
  then show ?thesis
    using assms by (simp add: RuntimeTLSConfig_def tls13_def verify_pin_ok_iff)
qed

theorem runtime_pin_accepts_iff_witness:
  "\<exists>cfg v. RuntimeTLSConfig '' PIN '' (CertFingerprintSHA256 [1, 2]) = Ok cfg \<and> tls_verify cfg = Some v
    \<and> tls_min13 cfg \<and> (\<forall>chain. v chain = Ok () \<longleftrightarrow> chain \<noteq> [] \<and> sha256 (hd chain) = sha256 [1, 2])"
  by (rule runtime_pin_accepts_iff) code_simp

text \<open>Certificate verification is switched off at run time only where a pin check replaces it,
  whatever mode string and pin are given.\<close>

theorem runtime_insecure_only_pinned:
  "case RuntimeTLSConfig mode pin of
     Inl _ \<Rightarrow> True
   | Inr cfg \<Rightarrow> tls_insecure cfg = (tls_verify cfg \<noteq> None)
       \<and> (tls_insecure cfg \<longleftrightarrow> NormalizeGatewayTLSMode mode = Ok GatewayTLSModePin)"
  using AttachCertPin_ok_iff
  by (auto simp: RuntimeTLSConfig_def bind_res_def Let_def tls13_def AttachCertPin_def
      split: sum.splits option.splits)

end
