(* ===== verification/Errcode.thy ===== *)
theory Errcode
  imports Codec
begin

text \<open>
  \<open>internal/errcode/errcode.go\<close>: the classification of error codes that the bridge attaches to
  tool responses.  \<open>retry_after_ms\<close> is omitted from the JSON when it is zero, so it is an \<open>int\<close>
  here as in the source.
\<close>

record errcode_error =
  e_code :: string
  e_message :: string

record errcode_meta =
  m_error_code :: string
  m_category :: string
  m_retryable :: bool
  m_retry_after_ms :: int
  m_message :: string

definition new_error :: "string \<Rightarrow> string \<Rightarrow> errcode_error" where
  "new_error code message = \<lparr>e_code = code, e_message = message\<rparr>"

definition classify :: "string \<Rightarrow> string \<times> bool" where
  "classify code =
     (if code \<in> {''auth_failed'', ''bad_mac''} then (''auth'', False)
      else if code \<in> {''tool_forbidden'', ''path_forbidden'', ''port_forbidden'',
                     ''daemon_not_allowed''} then (''authz'', False)
      else if code \<in> {''network_lost'', ''daemon_offline'', ''daemon_send_failed'',
                     ''daemon_recv_failed''} then (''network'', True)
      else if code = ''exec_timeout'' then (''exec'', False)
      else if code \<in> {''exec_failed'', ''spawn_failed''} then (''exec'', False)
      else if code \<in> {''protocol_error'', ''bad_payload''} then (''protocol'', False)
      else (''unknown'', False))"

definition ToMCPMeta :: "errcode_error \<Rightarrow> errcode_meta" where
  "ToMCPMeta e =
     (let (cat, retry) = classify (e_code e);
          m = \<lparr>m_error_code = e_code e, m_category = cat, m_retryable = retry,
               m_retry_after_ms = 0, m_message = e_message e\<rparr> in
      if retry then m\<lparr>m_retry_after_ms := 1000\<rparr> else m)"

text \<open>An error is offered for retry exactly when it is one of the four network errors, and then
  after one second; codes of authentication and authorisation are never retryable, and the code
  and message travel unchanged.\<close>

theorem meta_retry_iff:
  "(m_retryable (ToMCPMeta e) \<longleftrightarrow>
      e_code e \<in> {''network_lost'', ''daemon_offline'', ''daemon_send_failed'', ''daemon_recv_failed''})
   \<and> (m_retryable (ToMCPMeta e) \<longleftrightarrow> m_category (ToMCPMeta e) = ''network'')
   \<and> m_retry_after_ms (ToMCPMeta e) = (if m_retryable (ToMCPMeta e) then 1000 else 0)
   \<and> m_error_code (ToMCPMeta e) = e_code e \<and> m_message (ToMCPMeta e) = e_message e"
  by (auto simp: ToMCPMeta_def classify_def Let_def)

section \<open>Error frames\<close>

record frame_payload =
  fp_code :: string
  fp_detail :: string

text \<open>New daemons send JSON, old ones the bare code; the codec of the JSON text is an argument.\<close>

definition EncodeFramePayload :: "(frame_payload \<Rightarrow> bytes) \<Rightarrow> string \<Rightarrow> string \<Rightarrow> bytes" where
  "EncodeFramePayload enc code detail = enc \<lparr>fp_code = code, fp_detail = detail\<rparr>"

definition DecodeFramePayload :: "(bytes \<Rightarrow> frame_payload option) \<Rightarrow> bytes \<Rightarrow> string \<times> string" where
  "DecodeFramePayload dec b =
     (if b = [] then (''unknown'', [])
      else case (if hd b = 123 then dec b else None) of
        Some p \<Rightarrow> if fp_code p \<noteq> [] then (fp_code p, fp_detail p) else (string_of b, [])
      | None \<Rightarrow> (string_of b, []))"

text \<open>Both forms are read back; the opening brace tells them apart.\<close>

lemma decode_frame_payload:
  assumes "codec enc dec ok" and "ok \<lparr>fp_code = code, fp_detail = detail\<rparr>" and "\<And>p. enc p \<noteq> [] \<and> hd (enc p) = 123"
    and "code \<noteq> []"
  shows "DecodeFramePayload dec (EncodeFramePayload enc code detail) = (code, detail)"
  using assms by (simp add: DecodeFramePayload_def EncodeFramePayload_def codec.dec_enc)

lemma decode_bare_payload:
  assumes "code \<noteq> []" and "hd (bytes_of code) \<noteq> 123"
  shows "DecodeFramePayload dec (bytes_of code) = (code, [])"
proof -
  have "bytes_of code \<noteq> []" using assms(1) by (simp add: bytes_of_def)
  with assms(2) show ?thesis by (simp add: DecodeFramePayload_def)
qed

end
