(* ===== verification/Path.thy ===== *)
theory Path
  imports Go_Strings
begin

text \<open>
  The lexical path functions of \<open>path/filepath\<close> on Unix that the source calls: \<open>Clean\<close>,
  \<open>Dir\<close>, \<open>Base\<close>, \<open>Join\<close> and \<open>IsAbs\<close>.  \<open>Clean\<close> processes the components from left to right with
  a stack; the stack it ends with is in the normal form \<open>clean_nf\<close>, from which idempotence
  follows.
\<close>

section \<open>Components\<close>

fun split_on :: "char \<Rightarrow> string \<Rightarrow> string list" where
  "split_on c [] = [[]]"
| "split_on c (x # xs) =
     (if x = c then [] # split_on c xs
      else case split_on c xs of [] \<Rightarrow> [[x]] | p # ps \<Rightarrow> (x # p) # ps)"

fun join_with :: "string \<Rightarrow> string list \<Rightarrow> string" where
  "join_with sep [] = []"
| "join_with sep [p] = p"
| "join_with sep (p # q # ps) = p @ sep @ join_with sep (q # ps)"

lemma split_on_not_Nil [simp]: "split_on c s \<noteq> []"
  by (induction s) (auto split: list.splits)

lemma split_on_no_sep [simp]: "c \<notin> set s \<Longrightarrow> split_on c s = [s]"
  by (induction s) auto

lemma split_on_append: "c \<notin> set p \<Longrightarrow> split_on c (p @ c # s) = p # split_on c s"
  by (induction p) auto

lemma split_on_parts: "p \<in> set (split_on c s) \<Longrightarrow> c \<notin> set p"
  by (induction s arbitrary: p) (auto split: list.splits if_splits)

lemma split_join: "ps \<noteq> [] \<Longrightarrow> \<forall>p \<in> set ps. c \<notin> set p \<Longrightarrow> split_on c (join_with [c] ps) = ps"
  by (induction "[c]" ps rule: join_with.induct) (auto simp: split_on_append)

lemma join_split: "join_with [c] (split_on c s) = s"
proof (induction s)
  case (Cons x s)
  then show ?case
    by (cases "split_on c s"; cases "tl (split_on c s)") (auto split: list.splits)
qed simp

section \<open>Clean\<close>

abbreviation slash :: char where "slash \<equiv> CHR ''/''"

fun clean_step :: "bool \<Rightarrow> string \<Rightarrow> string list \<Rightarrow> string list" where
  "clean_step rooted c st =
     (if c = [] \<or> c = ''.'' then st
      else if c = ''..'' then
        (case st of [] \<Rightarrow> (if rooted then [] else [''..''])
         | t # ts \<Rightarrow> (if t = ''..'' then ''..'' # st else ts))
      else c # st)"

declare clean_step.simps [simp del]

lemma clean_step_skip [simp]: "clean_step r [] st = st" "clean_step r ''.'' st = st"
  by (simp_all add: clean_step.simps)

definition clean_render :: "bool \<Rightarrow> string list \<Rightarrow> string" where
  "clean_render rooted st =
     (if rooted then slash # join_with [slash] (rev st)
      else if st = [] then ''.'' else join_with [slash] (rev st))"

definition is_abs :: "string \<Rightarrow> bool" where
  "is_abs p = has_prefix p [slash]"

definition path_clean :: "string \<Rightarrow> string" where
  "path_clean p =
     (if p = [] then ''.''
      else clean_render (is_abs p) (fold (clean_step (is_abs p)) (split_on slash p) []))"

text \<open>The normal form, innermost component first: \<open>..\<close> only at the outer end, and none in a
  rooted path.\<close>

fun clean_nf :: "bool \<Rightarrow> string list \<Rightarrow> bool" where
  "clean_nf rooted [] = True"
| "clean_nf rooted (c # st) =
     (c \<noteq> [] \<and> c \<noteq> ''.'' \<and> slash \<notin> set c \<and> clean_nf rooted st
      \<and> (c = ''..'' \<longrightarrow> \<not> rooted \<and> set st \<subseteq> {''..''}))"

lemma clean_step_nf: "clean_nf r st \<Longrightarrow> slash \<notin> set c \<Longrightarrow> clean_nf r (clean_step r c st)"
  by (cases st) (auto simp: clean_step.simps)

lemma clean_fold_nf:
  "clean_nf r st \<Longrightarrow> \<forall>c \<in> set cs. slash \<notin> set c \<Longrightarrow> clean_nf r (fold (clean_step r) cs st)"
  by (induction cs arbitrary: st) (simp_all add: clean_step_nf)

lemma clean_step_push: "clean_nf r (c # st) \<Longrightarrow> clean_step r c st = c # st"
  by (cases st) (auto simp: clean_step.simps)

lemma clean_nf_fold_id: "clean_nf r st \<Longrightarrow> fold (clean_step r) (rev st) [] = st"
proof (induction st)
  case (Cons c st)
  then show ?case using clean_step_push [OF Cons.prems] by simp
qed simp

lemma clean_nf_parts: "clean_nf r st \<Longrightarrow> c \<in> set st \<Longrightarrow> slash \<notin> set c \<and> c \<noteq> []"
  by (induction st) auto

lemma join_not_rooted:
  "ps \<noteq> [] \<Longrightarrow> hd ps \<noteq> [] \<Longrightarrow> slash \<notin> set (hd ps) \<Longrightarrow>
     join_with [slash] ps \<noteq> [] \<and> \<not> is_abs (join_with [slash] ps)"
  by (cases ps; cases "tl ps"; cases "hd ps") (auto simp: is_abs_def has_prefix_def)

lemma path_clean_render: "clean_nf r st \<Longrightarrow> path_clean (clean_render r st) = clean_render r st"
proof -
  assume nf: "clean_nf r st"
  have parts: "\<forall>c \<in> set (rev st). slash \<notin> set c" "st \<noteq> [] \<Longrightarrow> hd (rev st) \<noteq> []"
    using clean_nf_parts [OF nf] hd_in_set [of "rev st"] by auto
  show ?thesis
  proof (cases r)
    case True
    have "fold (clean_step True) (split_on slash (slash # join_with [slash] (rev st))) [] = st"
      using parts clean_nf_fold_id [of True st] nf True split_join [of "rev st" slash]
      by (cases "st = []") simp_all
    then show ?thesis
      using True by (simp add: path_clean_def clean_render_def is_abs_def has_prefix_def)
  next
    case False
    show ?thesis
    proof (cases "st = []")
      case True
      then show ?thesis
        using False by (simp add: path_clean_def clean_render_def is_abs_def has_prefix_def)
    next
      case ne: False
      have j: "join_with [slash] (rev st) \<noteq> []" "\<not> is_abs (join_with [slash] (rev st))"
        using join_not_rooted [of "rev st"] parts ne hd_in_set [of "rev st"] by auto
      have "split_on slash (join_with [slash] (rev st)) = rev st"
        using parts ne by (intro split_join) auto
      then show ?thesis
        using j ne False nf clean_nf_fold_id [of False st]
        by (simp add: path_clean_def clean_render_def)
    qed
  qed
qed

lemma path_clean_nf:
  assumes "p \<noteq> []"
  obtains st where "clean_nf (is_abs p) st" and "path_clean p = clean_render (is_abs p) st"
proof -
  have "clean_nf (is_abs p) (fold (clean_step (is_abs p)) (split_on slash p) [])"
    by (rule clean_fold_nf) (auto dest: split_on_parts)
  then show ?thesis using assms that by (simp add: path_clean_def)
qed

lemma path_clean_idem [simp]: "path_clean (path_clean p) = path_clean p"
proof (cases "p = []")
  case True
  then show ?thesis by (simp add: path_clean_def is_abs_def has_prefix_def clean_render_def)
next
  case False
  then show ?thesis by (metis path_clean_nf path_clean_render)
qed

section \<open>Dir, Base, Join\<close>

definition path_dir :: "string \<Rightarrow> string" where
  "path_dir p = path_clean (rev (dropWhile (\<lambda>c. c \<noteq> slash) (rev p)))"

definition path_base :: "string \<Rightarrow> string" where
  "path_base p =
     (if p = [] then ''.''
      else let q = rev (dropWhile (\<lambda>c. c = slash) (rev p));
               b = rev (takeWhile (\<lambda>c. c \<noteq> slash) (rev q)) in
      if b = [] then [slash] else b)"

definition path_join :: "string list \<Rightarrow> string" where
  "path_join ps =
     (let ne = filter (\<lambda>p. p \<noteq> []) ps in
      if ne = [] then [] else path_clean (join_with [slash] ne))"

section \<open>The parents of a clean rooted path\<close>

lemma clean_rootedE:
  assumes "is_abs p" and "path_clean p = p"
  obtains st where "clean_nf True st" and "p = clean_render True st"
proof -
  from assms(1) have "p \<noteq> []" by (auto simp: is_abs_def has_prefix_def)
  then show ?thesis using path_clean_nf [of p] assms that by metis
qed

lemma join_snoc: "ps \<noteq> [] \<Longrightarrow> join_with sep (ps @ [c]) = join_with sep ps @ sep @ c"
  by (induction sep ps rule: join_with.induct) simp_all

lemma clean_render_Cons:
  "clean_render True (c # st) = (if st = [] then [slash] else clean_render True st @ [slash]) @ c"
  by (simp add: clean_render_def join_snoc)

lemma clean_render_rooted [simp]: "is_abs (clean_render True st)" "clean_render True [] = [slash]"
  by (simp_all add: clean_render_def is_abs_def has_prefix_def)

lemma last_cut: "slash \<notin> set c \<Longrightarrow> rev (dropWhile (\<lambda>x. x \<noteq> slash) (rev (s @ slash # c))) = s @ [slash]"
  by (auto simp: dropWhile_append3)

lemma split_on_snoc: "split_on c (s @ [c]) = split_on c s @ [[]]"
  by (induction s) (auto split: list.splits simp: append_eq_Cons_conv)

lemma path_clean_snoc_slash: "clean_nf True st \<Longrightarrow> path_clean (clean_render True st @ [slash]) = clean_render True st"
proof -
  assume nf: "clean_nf True st"
  have "path_clean (clean_render True st) = clean_render True st" using nf by (rule path_clean_render)
  then show ?thesis
    by (simp add: path_clean_def split_on_snoc is_abs_def has_prefix_def clean_render_def)
qed

lemma path_dir_render: "clean_nf True (c # st) \<Longrightarrow> path_dir (clean_render True (c # st)) = clean_render True st"
proof -
  assume nf: "clean_nf True (c # st)"
  then have c: "slash \<notin> set c" "clean_nf True st" by simp_all
  show ?thesis
  proof (cases "st = []")
    case True
    have "path_clean [slash] = [slash]" by code_simp
    then show ?thesis using c(1) last_cut [of c "[]"] True by (simp add: path_dir_def clean_render_Cons)
  next
    case False
    then show ?thesis using c last_cut [of c "clean_render True st"] path_clean_snoc_slash [OF c(2)]
      by (simp add: path_dir_def clean_render_Cons)
  qed
qed

lemma path_dir_root [simp]: "path_dir [slash] = [slash]"
  by code_simp

text \<open>The strict ancestors, from the nearest to the root.\<close>

fun ancestors :: "string list \<Rightarrow> string list" where
  "ancestors [] = []"
| "ancestors (c # st) = clean_render True st # ancestors st"

section \<open>Joining a directory and a name\<close>

text \<open>A name is one component that \<open>Clean\<close> keeps.\<close>

definition plain_name :: "string \<Rightarrow> bool" where
  "plain_name n \<longleftrightarrow> n \<noteq> [] \<and> n \<noteq> ''.'' \<and> n \<noteq> ''..'' \<and> slash \<notin> set n"

lemma split_on_join: "split_on c (s @ c # t) = split_on c s @ split_on c t"
proof (induction s)
  case (Cons x s)
  then show ?case by (cases "split_on c s") (auto split: list.splits)
qed simp

lemma path_join_name:
  assumes "plain_name n"
  shows "\<exists>x. \<forall>m. plain_name m \<longrightarrow> path_join [d, m] = x @ m"
proof (cases "d = []")
  case True
  have "path_join [d, m] = [] @ m" if "plain_name m" for m
  proof -
    from that have m: "m \<noteq> []" "\<not> is_abs m" "clean_step False m [] = [m]" "split_on slash m = [m]"
      by (auto simp: plain_name_def is_abs_def has_prefix_def clean_step.simps) (cases m; simp)
    with True show ?thesis by (simp add: path_join_def path_clean_def clean_render_def)
  qed
  then show ?thesis by blast
next
  case False
  let ?st = "fold (clean_step (is_abs d)) (split_on slash d) []"
  have j: "path_join [d, m] = clean_render (is_abs d) (m # ?st)" if "plain_name m" for m
  proof -
    from that have m: "m \<noteq> []" "clean_step r m st = m # st" "split_on slash m = [m]" for r st
      by (auto simp: plain_name_def clean_step.simps)
    have "is_abs (d @ slash # m) = is_abs d" using False by (cases d) (auto simp: is_abs_def has_prefix_def)
    with False m show ?thesis by (simp add: path_join_def path_clean_def split_on_join)
  qed
  have "clean_render (is_abs d) (m # st) = (if is_abs d then [slash] else []) @ (if st = [] then [] else join_with [slash] (rev st) @ [slash]) @ m" for m st
    by (simp add: clean_render_def join_snoc)
  with j show ?thesis by (metis append_assoc)
qed

lemma path_join_eq_iff: "plain_name n \<Longrightarrow> plain_name m \<Longrightarrow> path_join [d, n] = path_join [d, m] \<longleftrightarrow> n = m"
proof -
  assume n: "plain_name n" and m: "plain_name m"
  obtain x where x: "\<forall>m. plain_name m \<longrightarrow> path_join [d, m] = x @ m" using path_join_name [OF n] by blast
  show ?thesis unfolding x [rule_format, OF n] x [rule_format, OF m] by simp
qed

lemma path_join_last: "plain_name n \<Longrightarrow> last (path_join [d, n]) = last n \<and> path_join [d, n] \<noteq> []"
proof -
  assume n: "plain_name n"
  obtain x where x: "\<forall>m. plain_name m \<longrightarrow> path_join [d, m] = x @ m" using path_join_name [OF n] by blast
  show ?thesis unfolding x [rule_format, OF n] using n by (simp add: plain_name_def)
qed

end
