(* ===== verification/Os.thy ===== *)
theory Os
  imports Path "HOL-Library.AList"
begin

text \<open>
  The part of package \<open>os\<close> that the source calls, over an explicit world: the files by path (an
  association list), a clock in nanoseconds, the random parts of temporary names, the moment at
  which the request's context is cancelled, and a fault oracle.  Every system call is one tick;
  \<open>w_fail\<close> says which ticks fail and with which error, so a theorem over all worlds covers every
  combination of failing calls, and in particular a process that stops at any point (all
  later ticks fail).  A write that fails may have written a prefix of its bytes, \<open>w_short\<close>.

  Paths are compared as given: no two different strings name the same file, and symbolic links are
  entries of their own that are not followed.  A handle is the path it was opened with; no code
  modelled here renames a path between opening and closing it.
\<close>

section \<open>World\<close>

datatype os_error = ENOENT | EEXIST | EISDIR | ENOTDIR | ENOTEMPTY | ECLOSED | EACCES | EIO

datatype file_kind = KFile | KDir | KSymlink | KOther

record node =
  n_kind :: file_kind
  n_data :: bytes
  n_mode :: nat
  n_mtime :: int

record world =
  w_fs :: "(string \<times> node) list"
  w_tick :: nat
  w_fail :: "nat \<Rightarrow> os_error option"
  w_short :: "nat \<Rightarrow> nat"
  w_rand :: "nat \<Rightarrow> string"
  w_now :: "nat \<Rightarrow> int"
  w_cancel :: "nat \<Rightarrow> bool"

text \<open>What a function returns as its error when the request's context is cancelled.\<close>

datatype ctx_error = CtxCancelled

type_synonym ('e, 'a) io = "world \<Rightarrow> ('e + 'a) \<times> world"

definition io_ret :: "'a \<Rightarrow> ('e, 'a) io" where
  "io_ret v = (\<lambda>w. (Ok v, w))"

definition io_fail :: "'e \<Rightarrow> ('e, 'a) io" where
  "io_fail e = (\<lambda>w. (Err e, w))"

text \<open>\<open>v, err := m(); if err != nil { return err }\<close>, and the same with a wrapped error.\<close>

definition io_bind :: "('e, 'a) io \<Rightarrow> ('a \<Rightarrow> ('e, 'b) io) \<Rightarrow> ('e, 'b) io" where
  "io_bind m f = (\<lambda>w. case m w of (Inl e, w') \<Rightarrow> (Err e, w') | (Inr v, w') \<Rightarrow> f v w')"

definition on_err :: "('e \<Rightarrow> 'f) \<Rightarrow> ('e, 'a) io \<Rightarrow> ('f, 'a) io" where
  "on_err g m = (\<lambda>w. case m w of (Inl e, w') \<Rightarrow> (Err (g e), w') | (Inr v, w') \<Rightarrow> (Ok v, w'))"

text \<open>A call whose error the source inspects or drops, and a deferred call whose result it drops.\<close>

definition io_try :: "('e, 'a) io \<Rightarrow> ('f, 'e + 'a) io" where
  "io_try m = (\<lambda>w. let (r, w') = m w in (Ok r, w'))"

definition io_finally :: "('e, 'a) io \<Rightarrow> ('f, 'b) io \<Rightarrow> ('e, 'a) io" where
  "io_finally m c = (\<lambda>w. let (r, w') = m w in (r, snd (c w')))"

text \<open>\<open>r, err := m(); if err != nil { h } else { k }\<close>, where both branches go on.\<close>

definition io_case ::
  "('e, 'a) io \<Rightarrow> ('e \<Rightarrow> ('f, 'b) io) \<Rightarrow> ('a \<Rightarrow> ('f, 'b) io) \<Rightarrow> ('f, 'b) io" where
  "io_case m h k = (\<lambda>w. case m w of (Inl e, w') \<Rightarrow> h e w' | (Inr v, w') \<Rightarrow> k v w')"

text \<open>A call made for its effect only, \<open>_ = m()\<close>.\<close>

definition io_ignore :: "('e, 'a) io \<Rightarrow> ('f, 'b) io \<Rightarrow> ('f, 'b) io" where
  "io_ignore m k = (\<lambda>w. k (snd (m w)))"

lemma io_app [simp]: "io_ret v w = (Ok v, w)" "io_fail e w = (Err e, w)"
  by (simp_all add: io_ret_def io_fail_def)

lemma io_bind_try [simp]: "io_bind (io_try m) f w = f (fst (m w)) (snd (m w))"
  by (cases "m w") (simp add: io_bind_def io_try_def)

section \<open>Files\<close>

definition fs_get :: "world \<Rightarrow> string \<Rightarrow> node option" where
  "fs_get w = map_of (w_fs w)"

definition set_node :: "string \<Rightarrow> node option \<Rightarrow> world \<Rightarrow> world" where
  "set_node p n w =
     w\<lparr>w_fs := (case n of None \<Rightarrow> AList.delete p (w_fs w) | Some x \<Rightarrow> AList.update p x (w_fs w))\<rparr>"

definition tick :: "world \<Rightarrow> world" where
  "tick w = w\<lparr>w_tick := Suc (w_tick w)\<rparr>"

lemma fs_get_set [simp]: "fs_get (set_node p n w) q = (if q = p then n else fs_get w q)"
  by (simp add: fs_get_def set_node_def update_conv' delete_conv' split: option.split)

lemma fs_get_tick [simp]: "fs_get (tick w) = fs_get w"
  by (simp add: fs_get_def tick_def fun_eq_iff)

section \<open>System calls\<close>

definition sys :: "(os_error, 'a) io \<Rightarrow> (os_error, 'a) io" where
  "sys act = (\<lambda>w. case w_fail w (w_tick w) of Some e \<Rightarrow> (Err e, tick w) | None \<Rightarrow> act (tick w))"

text \<open>\<open>ctx.Err() != nil\<close>.\<close>

definition cancelled :: "world \<Rightarrow> bool" where
  "cancelled w = w_cancel w (w_tick w)"

definition sys_now :: "('e, int) io" where
  "sys_now = (\<lambda>w. (Ok (w_now w (w_tick w)), tick w))"

definition os_stat :: "string \<Rightarrow> (os_error, node) io" where
  "os_stat p = sys (\<lambda>w. case fs_get w p of None \<Rightarrow> (Err ENOENT, w) | Some n \<Rightarrow> (Ok n, w))"

text \<open>\<open>Open\<close> gives a reader over the bytes that the file holds; reading a directory fails.\<close>

definition os_open :: "string \<Rightarrow> (os_error, node) io" where
  "os_open p = sys (\<lambda>w. case fs_get w p of None \<Rightarrow> (Err ENOENT, w) | Some n \<Rightarrow> (Ok n, w))"

text \<open>\<open>Read\<close> with a buffer of \<open>n\<close> bytes at an offset: \<open>None\<close> is \<open>io.EOF\<close>; otherwise at least one byte,
  and possibly fewer than asked for.\<close>

definition os_read :: "node \<Rightarrow> nat \<Rightarrow> nat \<Rightarrow> (os_error, bytes option) io" where
  "os_read f off n = sys (\<lambda>w.
     if n_kind f = KDir then (Err EISDIR, w)
     else let rest = drop off (n_data f) in
          if n = 0 then (Ok (Some []), w)
          else if rest = [] then (Ok None, w)
          else (Ok (Some (take (min n (Suc (w_short w (w_tick w)))) rest)), w))"

text \<open>\<open>io.ReadAll(io.LimitReader(f, n))\<close>: a failing read fails the whole.\<close>

definition os_read_limit :: "node \<Rightarrow> nat \<Rightarrow> (os_error, bytes) io" where
  "os_read_limit f n = sys (\<lambda>w.
     if n_kind f = KDir then (Err EISDIR, w) else (Ok (take n (n_data f)), w))"

definition os_read_file :: "string \<Rightarrow> (os_error, bytes) io" where
  "os_read_file p = sys (\<lambda>w. case fs_get w p of
       None \<Rightarrow> (Err ENOENT, w)
     | Some n \<Rightarrow> if n_kind n = KDir then (Err EISDIR, w) else (Ok (n_data n), w))"

definition os_remove :: "string \<Rightarrow> (os_error, unit) io" where
  "os_remove p = sys (\<lambda>w. case fs_get w p of
       None \<Rightarrow> (Err ENOENT, w) | Some _ \<Rightarrow> (Ok (), set_node p None w))"

text \<open>What \<open>os.Chmod\<close> hands to the kernel for an \<open>os.FileMode\<close>: its nine permission bits, and 04000, 02000 and
  01000 for Go's own flags \<open>ModeSetuid\<close> (bit 23), \<open>ModeSetgid\<close> (bit 22) and \<open>ModeSticky\<close> (bit 20).  A number
  such as 04755 that was meant as a Unix mode therefore loses its leading digit.\<close>

definition syscall_mode :: "nat \<Rightarrow> nat" where
  "syscall_mode m = m mod 512 + (if odd (m div 2 ^ 23) then 2048 else 0)
     + (if odd (m div 2 ^ 22) then 1024 else 0) + (if odd (m div 2 ^ 20) then 512 else 0)"

lemma syscall_mode_perm [simp]: "m < 512 \<Longrightarrow> syscall_mode m = m"
  by (simp add: syscall_mode_def)

lemma syscall_mode_code [code]:
  "syscall_mode m = (if m < 512 then m else m mod 512 + (if odd (m div 2 ^ 23) then 2048 else 0)
     + (if odd (m div 2 ^ 22) then 1024 else 0) + (if odd (m div 2 ^ 20) then 512 else 0))"
  by (cases "m < 512") (simp_all only: if_True if_False syscall_mode_perm, simp add: syscall_mode_def)

text \<open>Between the permission bits and bit 20 nothing of a mode arrives.\<close>

lemma syscall_mode_low: "m < 2 ^ 20 \<Longrightarrow> syscall_mode m = m mod 512"
  by (simp add: syscall_mode_def)

definition os_chmod :: "string \<Rightarrow> nat \<Rightarrow> (os_error, unit) io" where
  "os_chmod p m = sys (\<lambda>w. case fs_get w p of
       None \<Rightarrow> (Err ENOENT, w)
     | Some n \<Rightarrow> (Ok (), set_node p (Some (n\<lparr>n_mode := syscall_mode m\<rparr>)) w))"

definition os_close :: "(os_error, unit) io" where
  "os_close = sys (\<lambda>w. (Ok (), w))"

definition os_fsync :: "(os_error, unit) io" where
  "os_fsync = sys (\<lambda>w. (Ok (), w))"

definition os_rename :: "string \<Rightarrow> string \<Rightarrow> (os_error, unit) io" where
  "os_rename a b = sys (\<lambda>w. case fs_get w a of
       None \<Rightarrow> (Err ENOENT, w)
     | Some n \<Rightarrow>
         (case fs_get w b of
            Some m \<Rightarrow> if n_kind m = KDir then (Err EISDIR, w)
                      else (Ok (), set_node b (Some n) (set_node a None w))
          | None \<Rightarrow> (Ok (), set_node b (Some n) (set_node a None w))))"

text \<open>\<open>Write\<close> on a handle at the end of the file; the number of bytes that reached the file comes
  with the error.\<close>

definition append_data :: "string \<Rightarrow> bytes \<Rightarrow> world \<Rightarrow> world" where
  "append_data p b w =
     (case fs_get w p of None \<Rightarrow> w
      | Some n \<Rightarrow> set_node p (Some (n\<lparr>n_data := n_data n @ b\<rparr>)) w)"

definition os_write :: "string \<Rightarrow> bytes \<Rightarrow> (os_error \<times> nat, nat) io" where
  "os_write p b = (\<lambda>w. let w' = tick w in
     case w_fail w (w_tick w) of
       Some e \<Rightarrow> let k = min (w_short w (w_tick w)) (length b) in
                 (Err (e, k), append_data p (take k b) w')
     | None \<Rightarrow> (Ok (length b), append_data p b w'))"

definition parent_ok :: "world \<Rightarrow> string \<Rightarrow> bool" where
  "parent_ok w p =
     (let d = path_dir p in d = ''.'' \<or> d = [slash]
      \<or> (case fs_get w d of None \<Rightarrow> False | Some n \<Rightarrow> n_kind n = KDir))"

definition new_file :: "nat \<Rightarrow> world \<Rightarrow> node" where
  "new_file m w = \<lparr>n_kind = KFile, n_data = [], n_mode = m, n_mtime = w_now w (w_tick w)\<rparr>"

text \<open>\<open>OpenFile\<close> with \<open>O_APPEND|O_CREATE\<close>, and with \<open>O_CREATE|O_TRUNC\<close>.\<close>

definition os_open_append :: "string \<Rightarrow> nat \<Rightarrow> (os_error, unit) io" where
  "os_open_append p m = sys (\<lambda>w. case fs_get w p of
       Some n \<Rightarrow> if n_kind n = KDir then (Err EISDIR, w) else (Ok (), w)
     | None \<Rightarrow> if parent_ok w p then (Ok (), set_node p (Some (new_file m w)) w)
               else (Err ENOENT, w))"

definition os_open_trunc :: "string \<Rightarrow> nat \<Rightarrow> (os_error, unit) io" where
  "os_open_trunc p m = sys (\<lambda>w. case fs_get w p of
       Some n \<Rightarrow> if n_kind n = KDir then (Err EISDIR, w)
                 else (Ok (), set_node p (Some (n\<lparr>n_data := []\<rparr>)) w)
     | None \<Rightarrow> if parent_ok w p then (Ok (), set_node p (Some (new_file m w)) w)
               else (Err ENOENT, w))"

text \<open>\<open>MkdirAll\<close>: every missing directory on the way is made, outermost first.\<close>

definition os_mkdir1 :: "nat \<Rightarrow> string \<Rightarrow> (os_error, unit) io" where
  "os_mkdir1 m p = sys (\<lambda>w. case fs_get w p of
       Some n \<Rightarrow> if n_kind n = KDir then (Ok (), w) else (Err ENOTDIR, w)
     | None \<Rightarrow> (Ok (), set_node p (Some ((new_file m w)\<lparr>n_kind := KDir\<rparr>)) w))"

fun io_each :: "('a \<Rightarrow> ('e, unit) io) \<Rightarrow> 'a list \<Rightarrow> ('e, unit) io" where
  "io_each f [] = io_ret ()"
| "io_each f (x # xs) = io_bind (f x) (\<lambda>_. io_each f xs)"

definition path_prefixes :: "string \<Rightarrow> string list" where
  "path_prefixes p =
     (let cs = split_on slash p in
      filter (\<lambda>d. d \<noteq> []) (map (\<lambda>k. join_with [slash] (take k cs)) [1..<Suc (length cs)]))"

definition os_mkdir_all :: "string \<Rightarrow> nat \<Rightarrow> (os_error, unit) io" where
  "os_mkdir_all p m = io_each (os_mkdir1 m) (path_prefixes p)"

text \<open>\<open>CreateTemp(dir, prefix + "*" + suffix)\<close> picks random names until one is new, 10000 times at
  most, and creates the file with mode 0600.\<close>

definition dir_join :: "string \<Rightarrow> string \<Rightarrow> string" where
  "dir_join d f = (if d \<noteq> [] \<and> last d = slash then d @ f else d @ [slash] @ f)"

fun create_temp_loop :: "nat \<Rightarrow> string \<Rightarrow> string \<Rightarrow> string \<Rightarrow> (os_error, string) io" where
  "create_temp_loop 0 d pre suf w = (Err EEXIST, w)"
| "create_temp_loop (Suc k) d pre suf w =
     (let p = dir_join d (pre @ w_rand w (w_tick w) @ suf) in
      case sys (\<lambda>w. case fs_get w p of Some _ \<Rightarrow> (Err EEXIST, w)
                  | None \<Rightarrow> if parent_ok w p then (Ok (), set_node p (Some (new_file 384 w)) w)
                            else (Err ENOENT, w)) w of
        (Inr _, w') \<Rightarrow> (Ok p, w')
      | (Inl e, w') \<Rightarrow> if e = EEXIST then create_temp_loop k d pre suf w' else (Err e, w'))"

definition os_create_temp :: "string \<Rightarrow> string \<Rightarrow> string \<Rightarrow> (os_error, string) io" where
  "os_create_temp d pre suf = create_temp_loop 10000 d pre suf"

text \<open>No temporary name the world has to offer is the path itself: the path exists, or its own name is not of
  the form of the temporary names.\<close>

definition no_clash :: "string \<Rightarrow> string \<Rightarrow> string \<Rightarrow> world \<Rightarrow> bool" where
  "no_clash pre suf path w \<longleftrightarrow>
     fs_get w path \<noteq> None \<or> (\<forall>t. dir_join (path_dir path) (pre @ w_rand w t @ suf) \<noteq> path)"

text \<open>\<open>WriteFile\<close>: create or truncate, write, close; the first error is returned.\<close>

definition os_write_file :: "string \<Rightarrow> bytes \<Rightarrow> nat \<Rightarrow> (os_error, unit) io" where
  "os_write_file p b m =
     io_bind (os_open_trunc p m) (\<lambda>_.
     io_bind (io_try (os_write p b)) (\<lambda>r.
     io_bind (io_try os_close) (\<lambda>c.
       case r of Inl (e, k) \<Rightarrow> io_fail e
       | Inr _ \<Rightarrow> (case c of Inl e \<Rightarrow> io_fail e | Inr _ \<Rightarrow> io_ret ()))))"

text \<open>No call fails and the context is not cancelled.\<close>

definition quiet :: "world \<Rightarrow> bool" where
  "quiet w \<longleftrightarrow> (\<forall>t. w_fail w t = None \<and> \<not> w_cancel w t)"

lemma quiet_tick [simp]: "quiet (tick w) = quiet w"
  by (simp add: quiet_def tick_def)

lemma quiet_set [simp]: "quiet (set_node p n w) = quiet w"
  by (simp add: quiet_def set_node_def)

lemma quiet_sys [simp]: "quiet w \<Longrightarrow> sys act w = act (tick w)"
  by (simp add: quiet_def sys_def)

lemma quiet_not_cancelled [simp]: "quiet w \<Longrightarrow> \<not> cancelled w"
  by (simp add: quiet_def cancelled_def)

section \<open>Worlds for examples\<close>

definition plain_file :: "bytes \<Rightarrow> node" where
  "plain_file b = \<lparr>n_kind = KFile, n_data = b, n_mode = 420, n_mtime = 0\<rparr>"

definition plain_world :: "(string \<times> node) list \<Rightarrow> (nat \<Rightarrow> os_error option) \<Rightarrow> world" where
  "plain_world fs fail = \<lparr>w_fs = fs, w_tick = 0, w_fail = fail, w_short = (\<lambda>_. 1),
     w_rand = (\<lambda>_. ''x''), w_now = (\<lambda>_. 0), w_cancel = (\<lambda>_. False)\<rparr>"

section \<open>Frames: what a call leaves alone\<close>

text \<open>\<open>leaves P m\<close>: the nodes at the paths in \<open>P\<close> are the same after \<open>m\<close>, however it ends.\<close>

definition leaves :: "(string \<Rightarrow> bool) \<Rightarrow> ('e, 'a) io \<Rightarrow> bool" where
  "leaves P m \<longleftrightarrow> (\<forall>w q. P q \<longrightarrow> fs_get (snd (m w)) q = fs_get w q)"

named_theorems leaves_intros

lemma leavesD: "leaves P m \<Longrightarrow> P q \<Longrightarrow> fs_get (snd (m w)) q = fs_get w q"
  by (simp add: leaves_def)

lemma leaves_ret [leaves_intros]: "leaves P (io_ret v)"
  by (simp add: leaves_def io_ret_def)

lemma leaves_fail [leaves_intros]: "leaves P (io_fail e)"
  by (simp add: leaves_def io_fail_def)

lemma leaves_pair [leaves_intros]: "leaves P (Pair r)"
  by (simp add: leaves_def)

lemma leaves_bind [leaves_intros]:
  "leaves P m \<Longrightarrow> (\<And>v. leaves P (f v)) \<Longrightarrow> leaves P (io_bind m f)"
  by (auto simp: leaves_def io_bind_def split: prod.splits sum.splits) (metis snd_conv)+

lemma leaves_bind_result:
  "leaves P m \<Longrightarrow> (\<And>v w w'. m w = (Ok v, w') \<Longrightarrow> leaves P (f v)) \<Longrightarrow> leaves P (io_bind m f)"
  by (auto simp: leaves_def io_bind_def split: prod.splits sum.splits) (metis snd_conv)+

lemma leaves_case [leaves_intros]:
  "leaves P m \<Longrightarrow> (\<And>e. leaves P (h e)) \<Longrightarrow> (\<And>v. leaves P (k v)) \<Longrightarrow> leaves P (io_case m h k)"
  by (auto simp: leaves_def io_case_def split: prod.splits sum.splits) (metis snd_conv)+

lemma leaves_ignore [leaves_intros]: "leaves P m \<Longrightarrow> leaves P k \<Longrightarrow> leaves P (io_ignore m k)"
  by (auto simp: leaves_def io_ignore_def)

lemma leaves_try [leaves_intros]: "leaves P m \<Longrightarrow> leaves P (io_try m)"
  by (auto simp: leaves_def io_try_def split: prod.splits) (metis snd_conv)

lemma leaves_on_err [leaves_intros]: "leaves P m \<Longrightarrow> leaves P (on_err g m)"
  by (auto simp: leaves_def on_err_def split: prod.splits sum.splits) (metis snd_conv)+

lemma leaves_finally [leaves_intros]: "leaves P m \<Longrightarrow> leaves P c \<Longrightarrow> leaves P (io_finally m c)"
  by (auto simp: leaves_def io_finally_def split: prod.splits) (metis snd_conv)

lemma leaves_if [leaves_intros]: "(b \<Longrightarrow> leaves P m) \<Longrightarrow> (\<not> b \<Longrightarrow> leaves P k) \<Longrightarrow> leaves P (if b then m else k)"
  by simp

lemma leaves_sys: "(\<And>w q. P q \<Longrightarrow> fs_get (snd (act w)) q = fs_get w q) \<Longrightarrow> leaves P (sys act)"
  by (auto simp: leaves_def sys_def split: option.splits)

lemma leaves_reads [leaves_intros]:
  "leaves P (os_stat p)" "leaves P (os_open p)" "leaves P (os_read f off n)"
  "leaves P (os_read_limit f n)" "leaves P (os_read_file p)" "leaves P os_close" "leaves P os_fsync"
  "leaves P sys_now"
  by (auto simp: leaves_def os_stat_def os_open_def os_read_def os_read_limit_def os_read_file_def
      os_close_def os_fsync_def sys_now_def sys_def Let_def split: option.splits)

lemma leaves_remove: "\<not> P p \<Longrightarrow> leaves P (os_remove p)"
  unfolding os_remove_def by (rule leaves_sys) (auto split: option.splits)

lemma leaves_chmod: "\<not> P p \<Longrightarrow> leaves P (os_chmod p m)"
  unfolding os_chmod_def by (rule leaves_sys) (auto split: option.splits)

lemma leaves_rename: "\<not> P a \<Longrightarrow> \<not> P b \<Longrightarrow> leaves P (os_rename a b)"
  unfolding os_rename_def by (rule leaves_sys) (auto split: option.splits)

lemma leaves_open_trunc: "\<not> P p \<Longrightarrow> leaves P (os_open_trunc p m)"
  unfolding os_open_trunc_def by (rule leaves_sys) (auto split: option.splits)

lemma leaves_open_append: "\<not> P p \<Longrightarrow> leaves P (os_open_append p m)"
  unfolding os_open_append_def by (rule leaves_sys) (auto split: option.splits)

lemma leaves_write: "\<not> P p \<Longrightarrow> leaves P (os_write p b)"
  by (auto simp: leaves_def os_write_def append_data_def Let_def split: option.splits)

lemma leaves_write_file: "\<not> P p \<Longrightarrow> leaves P (os_write_file p b m)"
  unfolding os_write_file_def
  by (intro leaves_intros leaves_open_trunc leaves_write | simp split: sum.split prod.split)+
    (auto intro: leaves_intros split: sum.split)

text \<open>A temporary file is new: every path that existed is as before.\<close>

lemma create_temp_new:
  "create_temp_loop k d pre suf w = (Ok p, w') \<Longrightarrow>
     fs_get w p = None \<and> (\<exists>n. fs_get w' p = Some n \<and> n_kind n = KFile \<and> n_data n = [])
     \<and> (\<forall>q. q \<noteq> p \<longrightarrow> fs_get w' q = fs_get w q)"
proof (induction k arbitrary: w)
  case (Suc k)
  then show ?case
    by (auto simp: Let_def sys_def new_file_def
        split: prod.splits sum.splits option.splits if_splits) (metis fs_get_tick)+
qed simp

lemma create_temp_name:
  "create_temp_loop k d pre suf w = (Ok p, w') \<Longrightarrow> \<exists>t. p = dir_join d (pre @ w_rand w t @ suf)"
proof (induction k arbitrary: w)
  case (Suc k)
  have rand: "w_rand (tick w) = w_rand w" "w_rand (set_node q n w) = w_rand w" for q n w
    by (simp_all add: tick_def set_node_def)
  from Suc.prems show ?case
    by (auto simp: Let_def sys_def rand split: prod.splits sum.splits option.splits if_splits)
      (use Suc.IH rand in \<open>metis\<close>)+
qed simp

lemma temp_not_target:
  assumes "create_temp_loop k (path_dir p) pre suf w = (Ok tmp, w')" "no_clash pre suf p w"
  shows "p \<noteq> tmp"
proof -
  from create_temp_name [OF assms(1)] obtain t where "tmp = dir_join (path_dir p) (pre @ w_rand w t @ suf)" by blast
  moreover have "fs_get w tmp = None" using create_temp_new [OF assms(1)] by blast
  ultimately show ?thesis using assms(2) unfolding no_clash_def by metis
qed

lemma create_temp_fail:
  "create_temp_loop k d pre suf w = (Err e, w') \<Longrightarrow> fs_get w' = fs_get w"
proof (induction k arbitrary: w)
  case (Suc k)
  then show ?case
    by (fastforce simp: Let_def sys_def split: prod.splits sum.splits option.splits if_splits)
qed simp

section \<open>Effects of the calls on the files\<close>

lemma os_close_fs: "os_close w = (r, w') \<Longrightarrow> fs_get w' = fs_get w"
  by (auto simp: os_close_def sys_def split: option.splits)

lemma os_fsync_fs: "os_fsync w = (r, w') \<Longrightarrow> fs_get w' = fs_get w"
  by (auto simp: os_fsync_def sys_def split: option.splits)

lemma os_stat_fs: "os_stat p w = (r, w') \<Longrightarrow> fs_get w' = fs_get w \<and> (\<forall>n. r = Ok n \<longrightarrow> fs_get w p = Some n)"
  by (auto simp: os_stat_def sys_def split: option.splits)

lemma os_open_fs: "os_open p w = (r, w') \<Longrightarrow> fs_get w' = fs_get w \<and> (\<forall>n. r = Ok n \<longrightarrow> fs_get w p = Some n)"
  by (auto simp: os_open_def sys_def split: option.splits)

lemma os_read_limit_fs:
  "os_read_limit f n w = (r, w') \<Longrightarrow> fs_get w' = fs_get w \<and> (\<forall>b. r = Ok b \<longrightarrow> b = take n (n_data f))"
  by (auto simp: os_read_limit_def sys_def split: option.splits if_splits)

lemma os_chmod_fs:
  "os_chmod p m w = (r, w') \<Longrightarrow>
     fs_get w' = (case r of Inl _ \<Rightarrow> fs_get w
       | Inr _ \<Rightarrow> (fs_get w)(p := map_option (\<lambda>n. n\<lparr>n_mode := syscall_mode m\<rparr>) (fs_get w p)))"
  by (auto simp: os_chmod_def sys_def fun_eq_iff split: option.splits)

lemma os_rename_fs:
  "os_rename a b w = (r, w') \<Longrightarrow>
     fs_get w' = (case r of Inl _ \<Rightarrow> fs_get w
       | Inr _ \<Rightarrow> ((fs_get w)(a := None))(b := fs_get w a))"
  by (auto simp: os_rename_def sys_def fun_eq_iff split: option.splits if_splits)

lemma os_remove_fs:
  "os_remove p w = (r, w') \<Longrightarrow>
     fs_get w' = (case r of Inl _ \<Rightarrow> fs_get w | Inr _ \<Rightarrow> (fs_get w)(p := None))"
  by (auto simp: os_remove_def sys_def fun_eq_iff split: option.splits)

lemma os_remove_other [simp]: "q \<noteq> p \<Longrightarrow> fs_get (snd (os_remove p w)) q = fs_get w q"
  using os_remove_fs [of p w "fst (os_remove p w)" "snd (os_remove p w)"] by (auto split: sum.splits)

lemma os_chmod_keeps:
  "fs_get (snd (os_chmod p m w)) q = map_option (\<lambda>n. if q = p \<and> (\<exists>u. fst (os_chmod p m w) = Ok u)
     then n\<lparr>n_mode := syscall_mode m\<rparr> else n) (fs_get w q)"
  using os_chmod_fs [of p m w "fst (os_chmod p m w)" "snd (os_chmod p m w)"]
  by (cases "fs_get w q") (auto split: sum.splits)

lemma os_close_snd [simp]: "fs_get (snd (os_close w)) = fs_get w"
  using os_close_fs [of w "fst (os_close w)" "snd (os_close w)"] by simp

lemma os_write_fs:
  "os_write p b w = (r, w') \<Longrightarrow>
     (\<forall>q. q \<noteq> p \<longrightarrow> fs_get w' q = fs_get w q)
     \<and> (\<forall>n k. r = Ok k \<longrightarrow> fs_get w p = Some n \<longrightarrow> fs_get w' p = Some (n\<lparr>n_data := n_data n @ b\<rparr>))"
  by (auto simp: os_write_def append_data_def Let_def split: option.splits)

lemma mkdir1_keeps: "fs_get w q = Some n \<Longrightarrow> fs_get (snd (os_mkdir1 m p w)) q = Some n"
  by (auto simp: os_mkdir1_def sys_def split: option.splits)

lemma mkdirs_keep: "fs_get w q = Some n \<Longrightarrow> fs_get (snd (io_each (os_mkdir1 m) ps w)) q = Some n"
  by (induction ps arbitrary: w)
    (auto simp: io_bind_def dest: mkdir1_keeps split: prod.split sum.split,
      metis mkdir1_keeps snd_conv, metis mkdir1_keeps snd_conv)

lemma chmod_ignored:
  "fs_get w p = Some n \<Longrightarrow> \<exists>n'. fs_get (snd (os_chmod p m w)) p = Some n' \<and> n_data n' = n_data n
     \<and> n_kind n' = n_kind n \<and> (n_mode n' = syscall_mode m \<or> n' = n)"
  by (auto simp: os_chmod_keeps)

lemma chmod_other: "q \<noteq> p \<Longrightarrow> fs_get (snd (os_chmod p m w)) q = fs_get w q"
  by (auto simp: os_chmod_keeps option.map_ident_strong)

text \<open>\<open>WriteFile\<close> without an error leaves exactly its bytes.\<close>

lemma os_write_file_data: "os_write_file p b m w = (Ok (), w') \<Longrightarrow> \<exists>n. fs_get w' p = Some n \<and> n_data n = b"
proof -
  assume run: "os_write_file p b m w = (Ok (), w')"
  obtain r1 w1 where op: "os_open_trunc p m w = (r1, w1)" by fastforce
  obtain r2 w2 where wr: "os_write p b w1 = (r2, w2)" by fastforce
  obtain r3 w3 where c: "os_close w2 = (r3, w3)" by fastforce
  have r: "r1 = Ok ()" "\<exists>k. r2 = Ok k" "w' = w3"
    using run op wr c by (auto simp: os_write_file_def io_bind_def io_try_def split: sum.splits prod.splits)
  obtain n where n: "fs_get w1 p = Some n" "n_data n = []"
    using op r(1) by (auto simp: os_open_trunc_def sys_def new_file_def split: option.splits if_splits)
  then have "fs_get w2 p = Some (n\<lparr>n_data := b\<rparr>)" using os_write_fs [OF wr] r(2) by auto
  moreover have "fs_get w3 = fs_get w2" using c by (auto simp: os_close_def sys_def split: option.splits)
  ultimately show ?thesis using r(3) by auto
qed

end
