(* ===== verification/Config.thy ===== *)
theory Config
  imports Os
begin

text \<open>
  \<open>internal/config/config.go\<close>: the three YAML configurations and their validation.  The YAML
  library is third-party code: its \<open>Unmarshal\<close> is the argument \<open>parse\<close> of the loaders, any
  function from the file's bytes to a configuration or an error message.
\<close>

section \<open>Data\<close>

record agent_entry =
  a_name :: string
  a_key_hash :: string
  a_allowed :: "string list"

record daemon_entry =
  d_name :: string
  d_token_hash :: string

record gateway_config =
  gc_listen :: string
  gc_public_url :: string
  gc_audit_path :: string
  gc_audit_max_bytes :: int
  gc_audit_max_backups :: int
  gc_agents :: "agent_entry list"
  gc_daemons :: "daemon_entry list"

record bridge_config =
  bc_gateway_url :: string
  bc_agent_name :: string
  bc_api_key :: string
  bc_cert_pin :: string
  bc_tls_mode :: string
  bc_target_daemon :: string
  bc_e2e_mode :: string
  bc_static_key_path :: string
  bc_daemon_pubkey :: string

record daemon_config =
  dc_gateway_url :: string
  dc_daemon_name :: string
  dc_token :: string
  dc_cert_pin :: string
  dc_tls_mode :: string
  dc_exec_enabled :: bool
  dc_env_allowlist :: "string list"
  dc_forbidden_ports :: "int list"
  dc_default_working_dir :: string
  dc_e2e_mode :: string
  dc_static_key_path :: string
  dc_allowed_pubkeys :: "string list"

datatype config_error =
    CfgRead string os_error | CfgEmpty | CfgParse string string
  | CfgListenRequired | CfgAuditPathRequired | CfgBridgeRequired | CfgDaemonRequired
  | CfgTLSMode string | CfgE2EMode string
  | CfgBridgeKeyPath string | CfgDaemonPubkey string | CfgNoiseKeyPath string | CfgEmptyAllowlist

section \<open>Validation\<close>

definition normalizeGatewayTLS :: "string \<Rightarrow> config_error + string" where
  "normalizeGatewayTLS mode =
     (let m = to_lower (trim_space mode) in
      if m = [] \<or> m = ''pin'' then Ok ''pin''
      else if m = ''webpki'' then Ok ''webpki''
      else Err (CfgTLSMode mode))"

definition e2e_modes :: "string list" where
  "e2e_modes = [''disabled'', ''optional'', ''required'']"

definition normalizeE2EMode :: "string \<Rightarrow> config_error + string" where
  "normalizeE2EMode m =
     (if m = [] then Ok ''disabled'' else if m \<in> set e2e_modes then Ok m else Err (CfgE2EMode m))"

definition normalizeBridgeE2E :: "bridge_config \<Rightarrow> config_error + bridge_config" where
  "normalizeBridgeE2E cfg =
     bind_res (normalizeE2EMode (bc_e2e_mode cfg)) (\<lambda>m.
       let cfg = cfg\<lparr>bc_e2e_mode := m\<rparr> in
       if m = ''disabled'' then Ok cfg
       else if bc_static_key_path cfg = [] then Err (CfgBridgeKeyPath m)
       else if bc_daemon_pubkey cfg = [] then Err (CfgDaemonPubkey m)
       else Ok cfg)"

definition normalizeDaemonE2E :: "daemon_config \<Rightarrow> config_error + daemon_config" where
  "normalizeDaemonE2E cfg =
     bind_res (normalizeE2EMode (dc_e2e_mode cfg)) (\<lambda>m.
       let cfg = cfg\<lparr>dc_e2e_mode := m\<rparr> in
       if m = ''disabled'' then Ok cfg
       else if dc_static_key_path cfg = [] then Err (CfgNoiseKeyPath m)
       else if m = ''required'' \<and> dc_allowed_pubkeys cfg = [] then Err CfgEmptyAllowlist
       else Ok cfg)"

section \<open>Loading\<close>

definition loadYAML :: "(bytes \<Rightarrow> string + 'c) \<Rightarrow> string \<Rightarrow> (config_error, 'c) io" where
  "loadYAML parse path =
     io_bind (on_err (CfgRead path) (os_read_file path)) (\<lambda>b.
       if b = [] then io_fail CfgEmpty
       else case parse b of Inl e \<Rightarrow> io_fail (CfgParse path e) | Inr c \<Rightarrow> io_ret c)"

definition io_of :: "'e + 'a \<Rightarrow> ('e, 'a) io" where
  "io_of r = (\<lambda>w. (r, w))"

definition check_gateway :: "gateway_config \<Rightarrow> config_error + gateway_config" where
  "check_gateway cfg =
     (if gc_listen cfg = [] then Err CfgListenRequired
      else if gc_audit_path cfg = [] then Err CfgAuditPathRequired
      else Ok cfg)"

definition check_bridge :: "bridge_config \<Rightarrow> config_error + bridge_config" where
  "check_bridge cfg =
     (if bc_gateway_url cfg = [] \<or> bc_agent_name cfg = [] \<or> bc_api_key cfg = []
         \<or> bc_target_daemon cfg = [] then Err CfgBridgeRequired
      else bind_res (normalizeGatewayTLS (bc_tls_mode cfg)) (\<lambda>m.
             normalizeBridgeE2E (cfg\<lparr>bc_tls_mode := m\<rparr>)))"

definition check_daemon :: "daemon_config \<Rightarrow> config_error + daemon_config" where
  "check_daemon cfg =
     (if dc_gateway_url cfg = [] \<or> dc_daemon_name cfg = [] \<or> dc_token cfg = []
      then Err CfgDaemonRequired
      else bind_res (normalizeGatewayTLS (dc_tls_mode cfg)) (\<lambda>m.
             normalizeDaemonE2E (cfg\<lparr>dc_tls_mode := m\<rparr>)))"

definition LoadGateway ::
  "(bytes \<Rightarrow> string + gateway_config) \<Rightarrow> string \<Rightarrow> (config_error, gateway_config) io" where
  "LoadGateway parse path = io_bind (loadYAML parse path) (\<lambda>cfg. io_of (check_gateway cfg))"

definition LoadBridge ::
  "(bytes \<Rightarrow> string + bridge_config) \<Rightarrow> string \<Rightarrow> (config_error, bridge_config) io" where
  "LoadBridge parse path = io_bind (loadYAML parse path) (\<lambda>cfg. io_of (check_bridge cfg))"

definition LoadDaemon ::
  "(bytes \<Rightarrow> string + daemon_config) \<Rightarrow> string \<Rightarrow> (config_error, daemon_config) io" where
  "LoadDaemon parse path = io_bind (loadYAML parse path) (\<lambda>cfg. io_of (check_daemon cfg))"

section \<open>What a loaded configuration satisfies\<close>

lemma normalizeGatewayTLS_cases:
  "normalizeGatewayTLS m = Ok r \<Longrightarrow> r \<in> {''pin'', ''webpki''}"
  by (auto simp: normalizeGatewayTLS_def Let_def split: if_splits)

lemma normalizeE2EMode_cases: "normalizeE2EMode m = Ok r \<Longrightarrow> r \<in> set e2e_modes"
  by (auto simp: normalizeE2EMode_def e2e_modes_def split: if_splits)

text \<open>A configuration that the daemon can run on.\<close>

definition daemon_config_ok :: "daemon_config \<Rightarrow> bool" where
  "daemon_config_ok c \<longleftrightarrow>
     dc_gateway_url c \<noteq> [] \<and> dc_daemon_name c \<noteq> [] \<and> dc_token c \<noteq> []
     \<and> dc_tls_mode c \<in> {''pin'', ''webpki''} \<and> dc_e2e_mode c \<in> set e2e_modes
     \<and> (dc_e2e_mode c \<noteq> ''disabled'' \<longrightarrow> dc_static_key_path c \<noteq> [])
     \<and> (dc_e2e_mode c = ''required'' \<longrightarrow> dc_allowed_pubkeys c \<noteq> [])"

lemma check_daemon_ok: "check_daemon cfg = Ok c \<Longrightarrow> daemon_config_ok c"
  using normalizeGatewayTLS_cases normalizeE2EMode_cases
  by (fastforce simp: check_daemon_def normalizeDaemonE2E_def daemon_config_ok_def bind_res_Inr_iff
      Let_def split: if_splits)

lemma normalizeGatewayTLS_fixed:
  "m \<in> {''pin'', ''webpki''} \<Longrightarrow> normalizeGatewayTLS m = Ok m"
proof -
  have "normalizeGatewayTLS ''pin'' = Ok ''pin''" "normalizeGatewayTLS ''webpki'' = Ok ''webpki''"
    by code_simp+
  then show "m \<in> {''pin'', ''webpki''} \<Longrightarrow> ?thesis" by blast
qed

lemma check_daemon_fixed: "daemon_config_ok c \<Longrightarrow> check_daemon c = Ok c"
  by (auto simp: check_daemon_def daemon_config_ok_def normalizeGatewayTLS_fixed
      normalizeDaemonE2E_def normalizeE2EMode_def e2e_modes_def)

text \<open>A daemon configuration that loads has its three required fields, one of the two TLS modes
  and one of the three E2E modes, a key path unless E2E is disabled and a non-empty allowlist when
  E2E is required; and validation is idempotent, so what it returns is accepted as it is.\<close>

theorem daemon_config_validated:
  assumes "fst (LoadDaemon parse path w) = Ok c"
  shows "daemon_config_ok c \<and> check_daemon c = Ok c"
proof -
  from assms obtain cfg where "check_daemon cfg = Ok c"
    by (auto simp: LoadDaemon_def io_bind_def io_of_def split: prod.splits sum.splits)
  then show ?thesis using check_daemon_ok check_daemon_fixed by blast
qed

theorem daemon_config_validated_witness:
  "\<exists>c. daemon_config_ok c \<and> check_daemon c = Ok c \<and> dc_daemon_name c = ''d''"
proof -
  define c0 where "c0 = \<lparr>dc_gateway_url = ''u'', dc_daemon_name = ''d'', dc_token = ''t'',
    dc_cert_pin = [], dc_tls_mode = '' PIN'', dc_exec_enabled = True, dc_env_allowlist = [],
    dc_forbidden_ports = [], dc_default_working_dir = [], dc_e2e_mode = [],
    dc_static_key_path = [], dc_allowed_pubkeys = []\<rparr>"
  define w where "w = \<lparr>w_fs = [(''/c'', \<lparr>n_kind = KFile, n_data = [1], n_mode = 0, n_mtime = 0\<rparr>)],
    w_tick = 0, w_fail = (\<lambda>_. None), w_short = (\<lambda>_. 0), w_rand = (\<lambda>_. []), w_now = (\<lambda>_. 0), w_cancel = (\<lambda>_. False)\<rparr>"
  have "normalizeGatewayTLS '' PIN'' = Ok ''pin''" by code_simp
  then have "fst (LoadDaemon (\<lambda>_. Ok c0) ''/c'' w)
      = Ok (c0\<lparr>dc_tls_mode := ''pin'', dc_e2e_mode := ''disabled''\<rparr>)"
    by (simp add: LoadDaemon_def io_bind_def loadYAML_def on_err_def os_read_file_def sys_def fs_get_def tick_def w_def
        io_ret_def io_of_def check_daemon_def c0_def normalizeDaemonE2E_def normalizeE2EMode_def)
  from daemon_config_validated [OF this] show ?thesis by (auto simp: c0_def)
qed

end
