(* ===== verification/Cred_Registry.thy ===== *)
theory Cred_Registry
  imports Config
begin

text \<open>
  \<open>internal/gateway/credregistry.go\<close>: the hot-swappable credentials of the gateway.  Each method
  runs under the registry's lock, so each is one atomic function of the state.  The contract that
  the handlers and the enrolment rely on, lookup after insert, is the locale \<open>cred_store\<close>; it is
  interpreted on the agents and on the daemons.
\<close>

section \<open>State and operations\<close>

record creds =
  cr_agents :: "string \<Rightarrow> agent_entry option"
  cr_daemons :: "string \<Rightarrow> daemon_entry option"

definition LookupAgent :: "creds \<Rightarrow> string \<Rightarrow> agent_entry option" where
  "LookupAgent cr name = cr_agents cr name"

definition LookupDaemon :: "creds \<Rightarrow> string \<Rightarrow> daemon_entry option" where
  "LookupDaemon cr name = cr_daemons cr name"

definition Replace :: "gateway_config \<Rightarrow> creds \<Rightarrow> creds" where
  "Replace cfg cr =
     cr\<lparr>cr_agents := fold (\<lambda>a m. m(a_name a \<mapsto> a)) (gc_agents cfg) Map.empty,
        cr_daemons := fold (\<lambda>d m. m(d_name d \<mapsto> d)) (gc_daemons cfg) Map.empty\<rparr>"

definition NewCredRegistry :: "gateway_config \<Rightarrow> creds" where
  "NewCredRegistry cfg = Replace cfg \<lparr>cr_agents = Map.empty, cr_daemons = Map.empty\<rparr>"

definition AddAgent :: "agent_entry \<Rightarrow> creds \<Rightarrow> creds" where
  "AddAgent a cr = cr\<lparr>cr_agents := (cr_agents cr)(a_name a \<mapsto> a)\<rparr>"

definition AddDaemon :: "daemon_entry \<Rightarrow> creds \<Rightarrow> creds" where
  "AddDaemon d cr = cr\<lparr>cr_daemons := (cr_daemons cr)(d_name d \<mapsto> d)\<rparr>"

section \<open>The contract of a credential table\<close>

locale cred_store =
  fixes lookup :: "'s \<Rightarrow> string \<Rightarrow> 'e option"
    and add :: "'e \<Rightarrow> 's \<Rightarrow> 's"
    and key :: "'e \<Rightarrow> string"
    and load :: "'e list \<Rightarrow> 's \<Rightarrow> 's"
  assumes lookup_add: "lookup (add e s) n = (if n = key e then Some e else lookup s n)"
    and lookup_load: "lookup (load es s) n = find (\<lambda>e. key e = n) (rev es)"
begin

lemma lookup_add_same [simp]: "lookup (add e s) (key e) = Some e"
  by (simp add: lookup_add)

lemma lookup_add_other: "n \<noteq> key e \<Longrightarrow> lookup (add e s) n = lookup s n"
  by (simp add: lookup_add)

text \<open>Entries that are looked up carry the name they were looked up by.\<close>

lemma find_key: "find (\<lambda>e. key e = n) es = Some e \<Longrightarrow> key e = n \<and> e \<in> set es"
  by (auto simp: find_Some_iff)

lemma lookup_load_key: "lookup (load es s) n = Some e \<Longrightarrow> key e = n \<and> e \<in> set es"
  using find_key [of n "rev es" e] by (simp add: lookup_load)

lemma lookup_load_None: "lookup (load es s) n = None \<longleftrightarrow> n \<notin> key ` set es"
  by (auto simp: lookup_load find_None_iff)

lemma lookup_load_distinct:
  "distinct (map key es) \<Longrightarrow> e \<in> set es \<Longrightarrow> lookup (load es s) (key e) = Some e"
proof -
  assume d: "distinct (map key es)" and e: "e \<in> set es"
  then have "lookup (load es s) (key e) \<noteq> None" by (auto simp: lookup_load_None)
  then obtain e' where e': "lookup (load es s) (key e) = Some e'" by blast
  from lookup_load_key [OF this] d e have "e' = e"
    by (metis distinct_map inj_onD)
  with e' show ?thesis by simp
qed

end

lemma find_snoc:
  "find P (xs @ [e]) = (case find P xs of Some y \<Rightarrow> Some y | None \<Rightarrow> if P e then Some e else None)"
  by (induction xs) auto

lemma fold_upd_find:
  "fold (\<lambda>e m. m(key e \<mapsto> e)) es m n =
     (case find (\<lambda>e. key e = n) (rev es) of Some e \<Rightarrow> Some e | None \<Rightarrow> m n)"
  by (induction es arbitrary: m) (auto simp: find_snoc split: option.splits)

interpretation agents: cred_store LookupAgent AddAgent a_name
  "\<lambda>as cr. cr\<lparr>cr_agents := fold (\<lambda>a m. m(a_name a \<mapsto> a)) as Map.empty\<rparr>"
  by unfold_locales
    (simp_all add: LookupAgent_def AddAgent_def fold_upd_find [of a_name] split: option.split)

interpretation daemons: cred_store LookupDaemon AddDaemon d_name
  "\<lambda>ds cr. cr\<lparr>cr_daemons := fold (\<lambda>d m. m(d_name d \<mapsto> d)) ds Map.empty\<rparr>"
  by unfold_locales
    (simp_all add: LookupDaemon_def AddDaemon_def fold_upd_find [of d_name] split: option.split)

lemma LookupAgent_Replace:
  "LookupAgent (Replace cfg cr) n = find (\<lambda>a. a_name a = n) (rev (gc_agents cfg))"
  by (simp add: LookupAgent_def Replace_def fold_upd_find [of a_name] split: option.split)

lemma LookupDaemon_Replace:
  "LookupDaemon (Replace cfg cr) n = find (\<lambda>d. d_name d = n) (rev (gc_daemons cfg))"
  by (simp add: LookupDaemon_def Replace_def fold_upd_find [of d_name] split: option.split)

lemma LookupDaemon_AddAgent [simp]: "LookupDaemon (AddAgent a cr) n = LookupDaemon cr n"
  by (simp add: LookupDaemon_def AddAgent_def)

lemma LookupAgent_AddDaemon [simp]: "LookupAgent (AddDaemon d cr) n = LookupAgent cr n"
  by (simp add: LookupAgent_def AddDaemon_def)

text \<open>After \<open>Replace\<close> exactly the configured names are known, whatever was known before; of
  several rows with one name the last wins, for agents and for daemons.\<close>

theorem replace_is_config:
  "LookupAgent (Replace cfg cr) n = find (\<lambda>a. a_name a = n) (rev (gc_agents cfg))
   \<and> LookupDaemon (Replace cfg cr) n = find (\<lambda>d. d_name d = n) (rev (gc_daemons cfg))
   \<and> (LookupAgent (Replace cfg cr) n = None \<longleftrightarrow> n \<notin> a_name ` set (gc_agents cfg))
   \<and> (LookupDaemon (Replace cfg cr) n = None \<longleftrightarrow> n \<notin> d_name ` set (gc_daemons cfg))"
  by (auto simp: LookupAgent_Replace LookupDaemon_Replace find_None_iff)

end
