(* ===== verification/Sessions.thy ===== *)
theory Sessions
  imports Cred_Registry "HOL-Library.AList"
begin

text \<open>
  \<open>internal/gateway/sessions.go\<close>: the table of live sessions.  The map from session ids is an
  association list with distinct keys.  Go ranges over a map in an unspecified order: the
  functions that do take the order, a list of the ids, as an argument \<open>ord\<close>, and the lemmas hold
  for every order that enumerates the table.  A connection is its number.
\<close>

section \<open>State and operations\<close>

record session =
  s_role :: string
  s_name :: string
  s_hash :: string
  s_conn :: nat

record session_table =
  st_next :: nat
  st_sessions :: "(nat \<times> session) list"

definition NewSessionTable :: session_table where
  "NewSessionTable = \<lparr>st_next = 0, st_sessions = []\<rparr>"

definition get_session :: "session_table \<Rightarrow> nat \<Rightarrow> session option" where
  "get_session st = map_of (st_sessions st)"

definition Register :: "session \<Rightarrow> session_table \<Rightarrow> nat \<times> session_table" where
  "Register s st =
     (st_next st, \<lparr>st_next = st_next st + 1,
                   st_sessions = AList.update (st_next st) s (st_sessions st)\<rparr>)"

text \<open>The release function that \<open>Register\<close> and \<open>ReplaceByRoleName\<close> return, for the session id.\<close>

definition release :: "nat \<Rightarrow> session_table \<Rightarrow> session_table" where
  "release i st = st\<lparr>st_sessions := AList.delete i (st_sessions st)\<rparr>"

definition same_identity :: "session \<Rightarrow> session_table \<Rightarrow> nat \<Rightarrow> bool" where
  "same_identity s st i =
     (case get_session st i of None \<Rightarrow> False
      | Some e \<Rightarrow> s_role e = s_role s \<and> s_name e = s_name s)"

definition ReplaceByRoleName ::
  "nat list \<Rightarrow> session \<Rightarrow> session_table \<Rightarrow> nat option \<times> nat \<times> session_table" where
  "ReplaceByRoleName ord s st =
     (let (replaced, st) =
        (case find (same_identity s st) ord of
           None \<Rightarrow> (None, st)
         | Some i \<Rightarrow> (map_option s_conn (get_session st i), release i st));
        (i, st) = Register s st in
      (replaced, i, st))"

definition Count :: "session_table \<Rightarrow> nat" where
  "Count st = length (st_sessions st)"

text \<open>The body of the loop of \<open>Revoke\<close>, and the loop over a snapshot: what it closes, in order.\<close>

definition keep_session :: "creds \<Rightarrow> session \<Rightarrow> bool" where
  "keep_session cr s =
     (if s_role s = ''bridge'' then
        (case LookupAgent cr (s_name s) of None \<Rightarrow> False | Some e \<Rightarrow> a_key_hash e = s_hash s)
      else if s_role s = ''daemon'' then
        (case LookupDaemon cr (s_name s) of None \<Rightarrow> False | Some e \<Rightarrow> d_token_hash e = s_hash s)
      else False)"

definition snapshot :: "nat list \<Rightarrow> session_table \<Rightarrow> session list" where
  "snapshot ord st = map (\<lambda>i. the (get_session st i)) (filter (\<lambda>i. get_session st i \<noteq> None) ord)"

definition Revoke :: "nat list \<Rightarrow> creds \<Rightarrow> session_table \<Rightarrow> session list" where
  "Revoke ord cr st = filter (\<lambda>s. \<not> keep_session cr s) (snapshot ord st)"

definition closed_names :: "session list \<Rightarrow> string list" where
  "closed_names ss = map (\<lambda>s. s_role s @ ''/'' @ s_name s) ss"

section \<open>Well-formed tables\<close>

text \<open>Ids are distinct and below the next one.\<close>

definition st_wf :: "session_table \<Rightarrow> bool" where
  "st_wf st \<longleftrightarrow> distinct (map fst (st_sessions st)) \<and> (\<forall>i \<in> fst ` set (st_sessions st). i < st_next st)"

definition enumerates :: "nat list \<Rightarrow> session_table \<Rightarrow> bool" where
  "enumerates ord st \<longleftrightarrow> set ord = fst ` set (st_sessions st)"

lemma get_session_dom: "get_session st i \<noteq> None \<longleftrightarrow> i \<in> fst ` set (st_sessions st)"
  by (simp add: get_session_def map_of_eq_None_iff)

lemma get_session_lt: "st_wf st \<Longrightarrow> get_session st i = Some s \<Longrightarrow> i < st_next st"
  using get_session_dom [of st i] by (auto simp: st_wf_def)

lemma get_session_update [simp]:
  "map_of (AList.update i s xs) = (map_of xs)(i \<mapsto> s)"
  by (simp add: update_conv')

lemma get_session_Register:
  "get_session (snd (Register s st)) = (get_session st)(st_next st \<mapsto> s)"
  by (simp add: Register_def get_session_def)

lemma get_session_release: "get_session (release i st) = (get_session st)(i := None)"
  by (simp add: release_def get_session_def delete_conv')

lemma st_next_release [simp]: "st_next (release i st) = st_next st"
  by (simp add: release_def)

lemma st_next_Register [simp]: "st_next (snd (Register s st)) = Suc (st_next st)"
  by (simp add: Register_def)

lemma fst_Register [simp]: "fst (Register s st) = st_next st"
  by (simp add: Register_def)

lemma st_wf_New [simp]: "st_wf NewSessionTable"
  by (simp add: st_wf_def NewSessionTable_def)

lemma st_wf_Register [intro]: "st_wf st \<Longrightarrow> st_wf (snd (Register s st))"
  by (auto simp: st_wf_def Register_def distinct_update dom_update)

lemma st_wf_release [intro]: "st_wf st \<Longrightarrow> st_wf (release i st)"
  by (auto simp: st_wf_def release_def AList.delete_eq distinct_map_filter)

lemma ReplaceByRoleName_cases:
  obtains "find (same_identity s st) ord = None"
      "ReplaceByRoleName ord s st = (None, st_next st, snd (Register s st))"
  | i e where "find (same_identity s st) ord = Some i" "get_session st i = Some e"
      "s_role e = s_role s" "s_name e = s_name s" "i \<in> set ord"
      "ReplaceByRoleName ord s st = (Some (s_conn e), st_next st, snd (Register s (release i st)))"
proof (cases "find (same_identity s st) ord")
  case None
  then show ?thesis using that(1) by (simp add: ReplaceByRoleName_def Register_def)
next
  case (Some i)
  then have "same_identity s st i" "i \<in> set ord" by (auto simp: find_Some_iff)
  then obtain e where "get_session st i = Some e" "s_role e = s_role s" "s_name e = s_name s"
    by (auto simp: same_identity_def split: option.splits)
  with Some \<open>i \<in> set ord\<close> show ?thesis
    using that(2) [of i e] by (simp add: ReplaceByRoleName_def Register_def Let_def)
qed

lemma st_wf_Replace [intro]:
  "st_wf st \<Longrightarrow> ReplaceByRoleName ord s st = (r, i, st') \<Longrightarrow> st_wf st'"
  by (rule ReplaceByRoleName_cases [of s st ord]) auto

text \<open>At most one session per identity of a role.\<close>

definition unique_role :: "string \<Rightarrow> session_table \<Rightarrow> bool" where
  "unique_role r st \<longleftrightarrow>
     (\<forall>i j a b. get_session st i = Some a \<longrightarrow> get_session st j = Some b
        \<longrightarrow> s_role a = r \<longrightarrow> s_role b = r \<longrightarrow> s_name a = s_name b \<longrightarrow> i = j)"

lemma unique_role_release [intro]: "unique_role r st \<Longrightarrow> unique_role r (release i st)"
  by (auto simp: unique_role_def get_session_release split: if_splits)

lemma unique_role_Register:
  assumes u: "unique_role r st"
    and n: "\<And>i e. get_session st i = Some e \<Longrightarrow> s_role e = r \<Longrightarrow> s_role s = r \<Longrightarrow> s_name e \<noteq> s_name s"
  shows "unique_role r (snd (Register s st))"
  unfolding unique_role_def get_session_Register
proof (intro allI impI)
  fix i j a b
  assume a: "((get_session st)(st_next st \<mapsto> s)) i = Some a"
    and b: "((get_session st)(st_next st \<mapsto> s)) j = Some b"
    and r: "s_role a = r" "s_role b = r" "s_name a = s_name b"
  show "i = j"
  proof (cases "i = st_next st"; cases "j = st_next st")
    assume "i = st_next st" "j \<noteq> st_next st"
    with a b have "a = s" "get_session st j = Some b" by simp_all
    then show ?thesis using n [of j b] r by simp
  next
    assume "i \<noteq> st_next st" "j = st_next st"
    with a b have "b = s" "get_session st i = Some a" by simp_all
    then show ?thesis using n [of i a] r by simp
  next
    assume "i \<noteq> st_next st" "j \<noteq> st_next st"
    with a b have "get_session st i = Some a" "get_session st j = Some b" by simp_all
    then show ?thesis using u r unfolding unique_role_def by blast
  qed simp
qed

lemma unique_role_Replace:
  assumes u: "unique_role (s_role s) st" and en: "enumerates ord st"
    and r: "ReplaceByRoleName ord s st = (rep, i, st')"
  shows "unique_role (s_role s) st'"
proof (rule ReplaceByRoleName_cases [of s st ord])
  assume none: "find (same_identity s st) ord = None"
    and eq: "ReplaceByRoleName ord s st = (None, st_next st, snd (Register s st))"
  have "s_name e \<noteq> s_name s" if "get_session st j = Some e" "s_role e = s_role s" for j e
  proof -
    from that(1) en have "j \<in> set ord" using get_session_dom [of st j] by (auto simp: enumerates_def)
    with none have "\<not> same_identity s st j" by (auto simp: find_None_iff)
    with that show ?thesis by (simp add: same_identity_def)
  qed
  with u eq r show ?thesis by (auto intro!: unique_role_Register)
next
  fix j e
  assume j: "get_session st j = Some e" "s_role e = s_role s" "s_name e = s_name s"
    and eq: "ReplaceByRoleName ord s st = (Some (s_conn e), st_next st, snd (Register s (release j st)))"
  have "s_name e' \<noteq> s_name s" if "get_session (release j st) k = Some e'" "s_role e' = s_role s" for k e'
    using that j u unfolding unique_role_def get_session_release by (metis fun_upd_apply option.distinct(1))
  with u eq r show ?thesis by (auto intro!: unique_role_Register)
qed

lemma unique_role_Replace_other:
  assumes "unique_role r st" "r \<noteq> s_role s" "ReplaceByRoleName ord s st = (rep, i, st')"
  shows "unique_role r st'"
  by (rule ReplaceByRoleName_cases [of s st ord]) (use assms in \<open>auto intro!: unique_role_Register\<close>)

section \<open>Properties\<close>

text \<open>C17: \<open>ReplaceByRoleName\<close> installs the new session under a fresh id and removes the predecessor
  of the same role and name, whose connection it returns; every other session stays, whatever the
  order in which the map is ranged over.\<close>

theorem replace_by_role_name:
  assumes "st_wf st" and "unique_role (s_role s) st" and "enumerates ord st"
  shows "case ReplaceByRoleName ord s st of (rep, i, st') \<Rightarrow>
    get_session st i = None \<and> get_session st' i = Some s
    \<and> (\<forall>j e. j \<noteq> i \<longrightarrow> (get_session st' j = Some e \<longleftrightarrow>
          get_session st j = Some e \<and> \<not> (s_role e = s_role s \<and> s_name e = s_name s)))
    \<and> (\<forall>c. rep = Some c \<longleftrightarrow> (\<exists>j e. get_session st j = Some e \<and> s_role e = s_role s
          \<and> s_name e = s_name s \<and> s_conn e = c))"
proof -
  have fresh: "get_session st (st_next st) = None"
    using get_session_lt [OF assms(1), of "st_next st"] by (cases "get_session st (st_next st)") auto
  show ?thesis
  proof (rule ReplaceByRoleName_cases [of s st ord])
    assume none: "find (same_identity s st) ord = None"
      and eq: "ReplaceByRoleName ord s st = (None, st_next st, snd (Register s st))"
    have no: "\<not> (s_role e = s_role s \<and> s_name e = s_name s)" if "get_session st j = Some e" for j e
    proof -
      from that assms(3) have "j \<in> set ord"
        using get_session_dom [of st j] by (auto simp: enumerates_def)
      with none that show ?thesis by (auto simp: find_None_iff same_identity_def)
    qed
    show ?thesis
      unfolding eq prod.case using no fresh by (auto simp: get_session_Register)
  next
    fix i e
    assume e: "get_session st i = Some e" "s_role e = s_role s" "s_name e = s_name s"
      and eq: "ReplaceByRoleName ord s st
        = (Some (s_conn e), st_next st, snd (Register s (release i st)))"
    have u: "j = i \<and> e' = e" if "get_session st j = Some e'" "s_role e' = s_role s"
        "s_name e' = s_name s" for j e'
      using that e assms(2) unfolding unique_role_def by (metis option.inject)
    have others: "(get_session (snd (Register s (release i st))) j = Some e') \<longleftrightarrow>
        get_session st j = Some e' \<and> \<not> (s_role e' = s_role s \<and> s_name e' = s_name s)"
      if "j \<noteq> st_next st" for j e'
    proof (cases "j = i")
      case True
      with that e show ?thesis by (simp add: get_session_Register get_session_release) metis
    next
      case False
      with that u [of j e'] show ?thesis by (simp add: get_session_Register get_session_release) metis
    qed
    have conn: "(Some (s_conn e) = Some c) \<longleftrightarrow> (\<exists>j e. get_session st j = Some e
        \<and> s_role e = s_role s \<and> s_name e = s_name s \<and> s_conn e = c)" for c
      using e u by blast
    have new: "get_session (snd (Register s (release i st))) (st_next st) = Some s"
      by (simp add: get_session_Register)
    show ?thesis
      unfolding eq prod.case by (intro conjI allI impI) (fact fresh, fact new, fact others, fact conn)
  qed
qed

theorem replace_by_role_name_witness:
  "let e = \<lparr>s_role = ''bridge'', s_name = ''a'', s_hash = ''g'', s_conn = 5\<rparr>;
       st = \<lparr>st_next = 1, st_sessions = [(0, e)]\<rparr> in
   fst (ReplaceByRoleName [0] (e\<lparr>s_conn := 7\<rparr>) st) = Some 5"
proof -
  let ?e = "\<lparr>s_role = ''bridge'', s_name = ''a'', s_hash = ''g'', s_conn = 5\<rparr>"
  let ?st = "\<lparr>st_next = 1, st_sessions = [(0, ?e)]\<rparr>"
  have "st_wf ?st" "unique_role (s_role (?e\<lparr>s_conn := 7\<rparr>)) ?st" "enumerates [0] ?st"
    by (auto simp: st_wf_def unique_role_def enumerates_def get_session_def split: if_splits)
  from replace_by_role_name [OF this] have
    "\<forall>c. fst (ReplaceByRoleName [0] (?e\<lparr>s_conn := 7\<rparr>) ?st) = Some c \<longleftrightarrow>
       (\<exists>j e. get_session ?st j = Some e \<and> s_role e = ''bridge'' \<and> s_name e = ''a'' \<and> s_conn e = c)"
    by (auto split: prod.splits)
  moreover have "get_session ?st 0 = Some ?e" by (simp add: get_session_def)
  ultimately show ?thesis unfolding Let_def by force
qed

text \<open>C18: \<open>Revoke\<close> closes exactly the sessions of the table whose role, name and key hash are no
  longer in the credentials.\<close>

theorem revoke_exact:
  assumes "enumerates ord st"
  shows "set (Revoke ord cr st)
     = {s. (\<exists>i. get_session st i = Some s)
         \<and> \<not> (s_role s = ''bridge'' \<and> (\<exists>e. LookupAgent cr (s_name s) = Some e \<and> a_key_hash e = s_hash s))
         \<and> \<not> (s_role s = ''daemon'' \<and> (\<exists>e. LookupDaemon cr (s_name s) = Some e \<and> d_token_hash e = s_hash s))}"
proof -
  have "s \<in> set (snapshot ord st) \<longleftrightarrow> (\<exists>i. get_session st i = Some s)" for s
  proof
    assume "\<exists>i. get_session st i = Some s"
    then obtain i where i: "get_session st i = Some s" by blast
    then have "i \<in> set ord"
      using assms get_session_dom [of st i] by (auto simp: enumerates_def)
    with i show "s \<in> set (snapshot ord st)" by (force simp: snapshot_def)
  qed (auto simp: snapshot_def)
  then show ?thesis
    by (auto simp: Revoke_def keep_session_def split: option.splits)
qed

theorem revoke_exact_witness:
  "\<lparr>s_role = ''bridge'', s_name = ''a'', s_hash = ''g'', s_conn = 5\<rparr>
     \<in> set (Revoke [0] \<lparr>cr_agents = Map.empty, cr_daemons = Map.empty\<rparr>
         \<lparr>st_next = 1, st_sessions = [(0, \<lparr>s_role = ''bridge'', s_name = ''a'', s_hash = ''g'', s_conn = 5\<rparr>)]\<rparr>)"
  by (subst revoke_exact) (auto simp: enumerates_def get_session_def LookupAgent_def)

end
