(* ===== verification/Registry.thy ===== *)
theory Registry
  imports Prelude
begin

text \<open>
  \<open>internal/gateway/registry.go\<close>: the table of online daemons and their proxies.  Proxies are
  shared, mutable objects (a handler keeps its pointer after the table has forgotten the name), so
  they live in a heap and the table maps a name to a proxy number.  A writer callback is the
  number of the bridge connection whose handler installed it.
\<close>

record proxy =
  px_conn :: nat
  px_writer :: "nat option"

record registry =
  rg_daemons :: "string \<Rightarrow> nat option"
  rg_proxies :: "nat \<Rightarrow> proxy"
  rg_next :: nat

datatype registry_error = ErrRegistryDuplicate

definition NewRegistry :: registry where
  "NewRegistry = \<lparr>rg_daemons = Map.empty, rg_proxies = (\<lambda>_. \<lparr>px_conn = 0, px_writer = None\<rparr>), rg_next = 0\<rparr>"

definition NewDaemonProxy :: "nat \<Rightarrow> registry \<Rightarrow> nat \<times> registry" where
  "NewDaemonProxy c r =
     (rg_next r, r\<lparr>rg_proxies := (rg_proxies r)(rg_next r := \<lparr>px_conn = c, px_writer = None\<rparr>),
                   rg_next := rg_next r + 1\<rparr>)"

definition RegistryRegister :: "string \<Rightarrow> nat \<Rightarrow> registry \<Rightarrow> registry_error + registry" where
  "RegistryRegister name p r =
     (if rg_daemons r name \<noteq> None then Err ErrRegistryDuplicate
      else Ok (r\<lparr>rg_daemons := (rg_daemons r)(name \<mapsto> p)\<rparr>))"

definition Unregister :: "string \<Rightarrow> registry \<Rightarrow> registry" where
  "Unregister name r = r\<lparr>rg_daemons := (rg_daemons r)(name := None)\<rparr>"

definition RegistryLookup :: "registry \<Rightarrow> string \<Rightarrow> nat option" where
  "RegistryLookup r name = rg_daemons r name"

definition SetWriter :: "nat \<Rightarrow> nat option \<Rightarrow> registry \<Rightarrow> registry" where
  "SetWriter p w r = r\<lparr>rg_proxies := (rg_proxies r)(p := (rg_proxies r p)\<lparr>px_writer := w\<rparr>)\<rparr>"

text \<open>The read of \<open>Deliver\<close> under the lock; the call of the writer follows outside it.\<close>

definition writer :: "registry \<Rightarrow> nat \<Rightarrow> nat option" where
  "writer r p = px_writer (rg_proxies r p)"

definition proxy_conn :: "registry \<Rightarrow> nat \<Rightarrow> nat" where
  "proxy_conn r p = px_conn (rg_proxies r p)"

section \<open>Laws\<close>

lemma fst_NewDaemonProxy [simp]: "fst (NewDaemonProxy c r) = rg_next r"
  by (simp add: NewDaemonProxy_def)

lemma proxy_conn_New [simp]:
  "proxy_conn (snd (NewDaemonProxy c r)) p = (if p = rg_next r then c else proxy_conn r p)"
  by (simp add: NewDaemonProxy_def proxy_conn_def)

lemma writer_New [simp]:
  "writer (snd (NewDaemonProxy c r)) p = (if p = rg_next r then None else writer r p)"
  by (simp add: NewDaemonProxy_def writer_def)

lemma daemons_New [simp]: "rg_daemons (snd (NewDaemonProxy c r)) = rg_daemons r"
  by (simp add: NewDaemonProxy_def)

lemma next_New [simp]: "rg_next (snd (NewDaemonProxy c r)) = Suc (rg_next r)"
  by (simp add: NewDaemonProxy_def)

lemma SetWriter_simps [simp]:
  "rg_daemons (SetWriter p w r) = rg_daemons r"
  "rg_next (SetWriter p w r) = rg_next r"
  "proxy_conn (SetWriter p w r) q = proxy_conn r q"
  "writer (SetWriter p w r) q = (if q = p then w else writer r q)"
  by (simp_all add: SetWriter_def proxy_conn_def writer_def)

lemma Unregister_simps [simp]:
  "rg_daemons (Unregister n r) = (rg_daemons r)(n := None)"
  "rg_next (Unregister n r) = rg_next r"
  "proxy_conn (Unregister n r) q = proxy_conn r q"
  "writer (Unregister n r) q = writer r q"
  by (simp_all add: Unregister_def proxy_conn_def writer_def)

lemma RegistryRegister_Ok:
  "RegistryRegister n p r = Ok r' \<longleftrightarrow>
     rg_daemons r n = None \<and> r' = r\<lparr>rg_daemons := (rg_daemons r)(n \<mapsto> p)\<rparr>"
  by (auto simp: RegistryRegister_def)

lemma upd_daemons_simps [simp]:
  "proxy_conn (r\<lparr>rg_daemons := m\<rparr>) q = proxy_conn r q"
  "writer (r\<lparr>rg_daemons := m\<rparr>) q = writer r q"
  by (simp_all add: proxy_conn_def writer_def)

end
