(* ===== verification/Gateway.thy ===== *)
theory Gateway
  imports Frame Handshake Auth Sessions Registry
begin

text \<open>
  \<open>internal/gateway/server.go\<close>: one handler per accepted connection, interleaved with each other
  and with the administrative operations that reload and revoke credentials.

  A handler is a program counter and a stack of deferred calls.  Between two steps of a handler
  any other may run: besides receiving on its own connection, a step makes at most one call on a
  shared object (the credentials, the session table, the registry, a proxy, another connection, the
  audit log); pushing a deferred call belongs to the step that it follows in the source.  The input of a step is the
  record \<open>env\<close>: the frame that \<open>Recv\<close> returns or its failure, whether a \<open>Send\<close> succeeds, and the
  order in which the session map is ranged over.  The handler of connection \<open>c\<close> has the number
  \<open>c\<close>.  The audit log is the list of the events handed to \<open>Append\<close>, whose error the source drops.
\<close>

section \<open>State\<close>

datatype audit_event =
    EvMalformed
  | EvAuthFailed "string option" string "string option"
  | EvAuthzFailed string string
  | EvAuthOk string string "string option"
  | EvConnClose string string "string option"
  | EvBridgeReplaced string
  | EvRouteFailed string
  | EvMacFailed string string
  | EvRoute string string nat
  | EvNoiseRelay string string frame_type nat

datatype act = ASend frame | AAudit audit_event

datatype deferred =
    DClose
  | DUnregister string
  | DRelease nat
  | DAudit audit_event
  | DCancel
  | DClearWriter nat

datatype daemon_pc =
    DAuth | DRegister string | DSession string nat | DAck nat | DAuditOk nat
  | DLoop nat | DDeliver nat nat frame

datatype bridge_pc =
    BAuth | BSession string | BEvictSend nat | BEvictClose nat | BEvictAudit
  | BAck | BAuditOk | BLookup | BSetWriter nat | BLoop nat | BForward nat frame

datatype pc =
    PHello | PDaemon hello daemon_pc | PBridge hello bridge_pc
  | PExit "act list" | PUnwind | PDone

record thread =
  t_pc :: pc
  t_defers :: "deferred list"
  t_cancelled :: bool

record conn =
  c_out :: "frame list"
  c_closed :: bool

record gw =
  g_creds :: creds
  g_sessions :: session_table
  g_reg :: registry
  g_audit :: "audit_event list"
  g_conns :: "nat \<Rightarrow> conn"
  g_threads :: "nat \<Rightarrow> thread"
  g_nconn :: nat
  g_revoking :: "session list"

record env =
  e_recv :: "frame option"
  e_send :: bool
  e_ord :: "nat list"

definition errFrame :: "string \<Rightarrow> frame" where
  "errFrame code = \<lparr>f_type = FrameTypeError, f_reqid = [], f_payload = bytes_of code\<rparr>"

definition ackFrame :: frame where
  "ackFrame = \<lparr>f_type = FrameTypeHelloAck, f_reqid = [], f_payload = []\<rparr>"

section \<open>Calls on the shared objects\<close>

definition set_pc :: "nat \<Rightarrow> pc \<Rightarrow> gw \<Rightarrow> gw" where
  "set_pc c p g = g\<lparr>g_threads := (g_threads g)(c := (g_threads g c)\<lparr>t_pc := p\<rparr>)\<rparr>"

definition push_defer :: "nat \<Rightarrow> deferred \<Rightarrow> gw \<Rightarrow> gw" where
  "push_defer c d g =
     g\<lparr>g_threads := (g_threads g)(c := (g_threads g c)\<lparr>t_defers := d # t_defers (g_threads g c)\<rparr>)\<rparr>"

definition append_audit :: "audit_event \<Rightarrow> gw \<Rightarrow> gw" where
  "append_audit ev g = g\<lparr>g_audit := g_audit g @ [ev]\<rparr>"

definition close_conn :: "nat \<Rightarrow> gw \<Rightarrow> gw" where
  "close_conn c g = g\<lparr>g_conns := (g_conns g)(c := (g_conns g c)\<lparr>c_closed := True\<rparr>)\<rparr>"

definition send_ok :: "env \<Rightarrow> nat \<Rightarrow> gw \<Rightarrow> bool" where
  "send_ok env c g = (\<not> c_closed (g_conns g c) \<and> e_send env)"

definition send :: "env \<Rightarrow> nat \<Rightarrow> frame \<Rightarrow> gw \<Rightarrow> gw" where
  "send env c f g =
     (if send_ok env c g
      then g\<lparr>g_conns := (g_conns g)(c := (g_conns g c)\<lparr>c_out := c_out (g_conns g c) @ [f]\<rparr>)\<rparr>
      else g)"

definition recv :: "env \<Rightarrow> nat \<Rightarrow> gw \<Rightarrow> frame option" where
  "recv env c g = (if c_closed (g_conns g c) then None else e_recv env)"

section \<open>handleConn and readHello\<close>

definition readHello :: "env \<Rightarrow> nat \<Rightarrow> gw \<Rightarrow> hello option" where
  "readHello env c g =
     (case recv env c g of
        None \<Rightarrow> None
      | Some f \<Rightarrow>
          if f_type f \<noteq> FrameTypeHello then None
          else (case decode_hello (f_payload f) of Inl _ \<Rightarrow> None | Inr h \<Rightarrow> Some h))"

definition handleConn_step :: "env \<Rightarrow> nat \<Rightarrow> gw \<Rightarrow> gw" where
  "handleConn_step env c g =
     (case readHello env c g of
        None \<Rightarrow> set_pc c (PExit [AAudit EvMalformed]) g
      | Some h \<Rightarrow>
          if h_role h = ''daemon'' then set_pc c (PDaemon h DAuth) g
          else if h_role h = ''bridge'' then set_pc c (PBridge h BAuth) g
          else set_pc c (PExit [ASend (errFrame ''unknown_role''),
                 AAudit (EvAuthFailed None (h_name h) (Some ''unknown_role''))]) g)"

section \<open>handleDaemon\<close>

fun handleDaemon_step :: "env \<Rightarrow> nat \<Rightarrow> hello \<Rightarrow> daemon_pc \<Rightarrow> gw \<Rightarrow> gw" where
  "handleDaemon_step env c h DAuth g =
     (let fail = set_pc c (PExit [ASend (errFrame ''auth_failed''),
                   AAudit (EvAuthFailed (Some ''daemon'') (h_name h) None)]) g in
      case LookupDaemon (g_creds g) (h_name h) of
        None \<Rightarrow> fail
      | Some e \<Rightarrow>
          if \<not> SecretMatches (h_secret h) (d_token_hash e) then fail
          else set_pc c (PDaemon h (DRegister (d_token_hash e))) g)"
| "handleDaemon_step env c h (DRegister hash) g =
     (let (p, reg) = NewDaemonProxy c (g_reg g) in
      case RegistryRegister (h_name h) p reg of
        Inl _ \<Rightarrow> set_pc c (PExit [ASend (errFrame ''duplicate_daemon''),
                   AAudit (EvAuthFailed (Some ''daemon'') (h_name h) (Some ''duplicate''))])
                   (g\<lparr>g_reg := reg\<rparr>)
      | Inr reg \<Rightarrow> set_pc c (PDaemon h (DSession hash p))
                    (push_defer c (DUnregister (h_name h)) (g\<lparr>g_reg := reg\<rparr>)))"
| "handleDaemon_step env c h (DSession hash p) g =
     (let (i, st) = Register \<lparr>s_role = ''daemon'', s_name = h_name h, s_hash = hash, s_conn = c\<rparr>
                      (g_sessions g) in
      set_pc c (PDaemon h (DAck p)) (push_defer c (DRelease i) (g\<lparr>g_sessions := st\<rparr>)))"
| "handleDaemon_step env c h (DAck p) g =
     set_pc c (PDaemon h (DAuditOk p)) (send env c ackFrame g)"
| "handleDaemon_step env c h (DAuditOk p) g =
     set_pc c (PDaemon h (DLoop p))
       (push_defer c (DAudit (EvConnClose ''daemon'' (h_name h) None))
         (append_audit (EvAuthOk ''daemon'' (h_name h) None) g))"
| "handleDaemon_step env c h (DLoop p) g =
     (case recv env c g of
        None \<Rightarrow> set_pc c PUnwind g
      | Some f \<Rightarrow>
          (case writer (g_reg g) p of
             None \<Rightarrow> g
           | Some b \<Rightarrow> set_pc c (PDaemon h (DDeliver p b f)) g))"
| "handleDaemon_step env c h (DDeliver p b f) g =
     set_pc c (PDaemon h (DLoop p)) (if t_cancelled (g_threads g b) then g else send env b f g)"

section \<open>handleBridge\<close>

definition contains :: "string list \<Rightarrow> string \<Rightarrow> bool" where
  "contains xs x = list_ex (\<lambda>s. s = x) xs"

fun handleBridge_step :: "env \<Rightarrow> nat \<Rightarrow> hello \<Rightarrow> bridge_pc \<Rightarrow> gw \<Rightarrow> gw" where
  "handleBridge_step env c h BAuth g =
     (let fail = set_pc c (PExit [ASend (errFrame ''auth_failed''),
                   AAudit (EvAuthFailed (Some ''bridge'') (h_name h) None)]) g in
      case LookupAgent (g_creds g) (h_name h) of
        None \<Rightarrow> fail
      | Some e \<Rightarrow>
          if \<not> SecretMatches (h_secret h) (a_key_hash e) then fail
          else if \<not> contains (a_allowed e) (h_target h) then
            set_pc c (PExit [ASend (errFrame ''daemon_not_allowed''),
                        AAudit (EvAuthzFailed (h_name h) (h_target h))]) g
          else set_pc c (PBridge h (BSession (a_key_hash e))) g)"
| "handleBridge_step env c h (BSession hash) g =
     (let (replaced, i, st) = ReplaceByRoleName (e_ord env)
            \<lparr>s_role = ''bridge'', s_name = h_name h, s_hash = hash, s_conn = c\<rparr> (g_sessions g);
          g = push_defer c (DRelease i) (g\<lparr>g_sessions := st\<rparr>) in
      case replaced of
        None \<Rightarrow> set_pc c (PBridge h BAck) g
      | Some old \<Rightarrow> set_pc c (PBridge h (BEvictSend old)) g)"
| "handleBridge_step env c h (BEvictSend old) g =
     set_pc c (PBridge h (BEvictClose old)) (send env old (errFrame ''session_replaced'') g)"
| "handleBridge_step env c h (BEvictClose old) g =
     set_pc c (PBridge h BEvictAudit) (close_conn old g)"
| "handleBridge_step env c h BEvictAudit g =
     set_pc c (PBridge h BAck) (append_audit (EvBridgeReplaced (h_name h)) g)"
| "handleBridge_step env c h BAck g =
     set_pc c (PBridge h BAuditOk) (send env c ackFrame g)"
| "handleBridge_step env c h BAuditOk g =
     set_pc c (PBridge h BLookup)
       (push_defer c (DAudit (EvConnClose ''bridge'' (h_name h) (Some (h_target h))))
         (append_audit (EvAuthOk ''bridge'' (h_name h) (Some (h_target h))) g))"
| "handleBridge_step env c h BLookup g =
     (case RegistryLookup (g_reg g) (h_target h) of
        None \<Rightarrow> set_pc c (PExit [ASend (errFrame ''daemon_offline''),
                   AAudit (EvRouteFailed (h_target h))]) g
      | Some p \<Rightarrow> set_pc c (PBridge h (BSetWriter p)) (push_defer c DCancel g))"
| "handleBridge_step env c h (BSetWriter p) g =
     set_pc c (PBridge h (BLoop p))
       (push_defer c (DClearWriter p) (g\<lparr>g_reg := SetWriter p (Some c) (g_reg g)\<rparr>))"
| "handleBridge_step env c h (BLoop p) g =
     (case recv env c g of
        None \<Rightarrow> set_pc c PUnwind g
      | Some f \<Rightarrow>
          if f_type f = FrameTypeRoute then
            (case VerifyFrame (bytes_of (h_secret h)) (f_payload f) of
               Inl _ \<Rightarrow> set_pc c (PExit [ASend (errFrame ''bad_mac''),
                           AAudit (EvMacFailed (h_name h) (h_target h))]) g
             | Inr inner \<Rightarrow>
                 set_pc c (PBridge h (BForward p
                     \<lparr>f_type = FrameTypeRoute, f_reqid = [], f_payload = inner\<rparr>))
                   (append_audit (EvRoute (h_name h) (h_target h) (length (f_payload f))) g))
          else if f_type f = FrameTypeNoiseInit \<or> f_type f = FrameTypeNoiseRekey then
            set_pc c (PBridge h (BForward p f))
              (append_audit (EvNoiseRelay (h_name h) (h_target h) (f_type f)
                 (length (f_payload f))) g)
          else g)"
| "handleBridge_step env c h (BForward p f) g =
     (let d = proxy_conn (g_reg g) p in
      if send_ok env d g then set_pc c (PBridge h (BLoop p)) (send env d f g)
      else set_pc c (PExit [ASend (errFrame ''daemon_send_failed'')]) g)"

section \<open>Returning: the remaining calls and the deferred ones\<close>

fun exit_step :: "env \<Rightarrow> nat \<Rightarrow> act list \<Rightarrow> gw \<Rightarrow> gw" where
  "exit_step env c [] g = set_pc c PUnwind g"
| "exit_step env c (ASend f # as) g = set_pc c (PExit as) (send env c f g)"
| "exit_step env c (AAudit ev # as) g = set_pc c (PExit as) (append_audit ev g)"

fun run_deferred :: "nat \<Rightarrow> deferred \<Rightarrow> gw \<Rightarrow> gw" where
  "run_deferred c DClose g = close_conn c g"
| "run_deferred c (DUnregister name) g = g\<lparr>g_reg := Unregister name (g_reg g)\<rparr>"
| "run_deferred c (DRelease i) g = g\<lparr>g_sessions := release i (g_sessions g)\<rparr>"
| "run_deferred c (DAudit ev) g = append_audit ev g"
| "run_deferred c DCancel g =
     g\<lparr>g_threads := (g_threads g)(c := (g_threads g c)\<lparr>t_cancelled := True\<rparr>)\<rparr>"
| "run_deferred c (DClearWriter p) g = g\<lparr>g_reg := SetWriter p None (g_reg g)\<rparr>"

definition unwind_step :: "nat \<Rightarrow> gw \<Rightarrow> gw" where
  "unwind_step c g =
     (case t_defers (g_threads g c) of
        [] \<Rightarrow> set_pc c PDone g
      | d # ds \<Rightarrow> run_deferred c d
          (g\<lparr>g_threads := (g_threads g)(c := (g_threads g c)\<lparr>t_defers := ds\<rparr>)\<rparr>))"

definition handler_step :: "env \<Rightarrow> nat \<Rightarrow> gw \<Rightarrow> gw" where
  "handler_step env c g =
     (case t_pc (g_threads g c) of
        PHello \<Rightarrow> handleConn_step env c g
      | PDaemon h p \<Rightarrow> handleDaemon_step env c h p g
      | PBridge h p \<Rightarrow> handleBridge_step env c h p g
      | PExit as \<Rightarrow> exit_step env c as g
      | PUnwind \<Rightarrow> unwind_step c g
      | PDone \<Rightarrow> g)"

section \<open>The gateway as a step relation\<close>

definition NewInstance :: "gateway_config \<Rightarrow> gw" where
  "NewInstance cfg =
     \<lparr>g_creds = NewCredRegistry cfg, g_sessions = NewSessionTable, g_reg = NewRegistry,
      g_audit = [], g_conns = (\<lambda>_. \<lparr>c_out = [], c_closed = False\<rparr>),
      g_threads = (\<lambda>_. \<lparr>t_pc = PDone, t_defers = [], t_cancelled = False\<rparr>), g_nconn = 0,
      g_revoking = []\<rparr>"

definition accept :: "gw \<Rightarrow> gw" where
  "accept g =
     g\<lparr>g_threads := (g_threads g)(g_nconn g :=
          \<lparr>t_pc = PHello, t_defers = [DClose], t_cancelled = False\<rparr>),
       g_nconn := g_nconn g + 1\<rparr>"

text \<open>\<open>Revoke\<close> on the live instance: the snapshot, then one session at a time.\<close>

definition revoke_start :: "nat list \<Rightarrow> gw \<Rightarrow> gw" where
  "revoke_start ord g = g\<lparr>g_revoking := snapshot ord (g_sessions g)\<rparr>"

definition revoke_next :: "gw \<Rightarrow> gw" where
  "revoke_next g =
     (case g_revoking g of
        [] \<Rightarrow> g
      | s # ss \<Rightarrow>
          (if keep_session (g_creds g) s then g else close_conn (s_conn s) g)\<lparr>g_revoking := ss\<rparr>)"

inductive gw_step :: "gw \<Rightarrow> gw \<Rightarrow> bool" where
  step_accept: "gw_step g (accept g)"
| step_handler: "c < g_nconn g \<Longrightarrow> enumerates (e_ord env) (g_sessions g) \<Longrightarrow>
    gw_step g (handler_step env c g)"
| step_reload: "gw_step g (g\<lparr>g_creds := Replace cfg (g_creds g)\<rparr>)"
| step_add_agent: "gw_step g (g\<lparr>g_creds := AddAgent a (g_creds g)\<rparr>)"
| step_add_daemon: "gw_step g (g\<lparr>g_creds := AddDaemon d (g_creds g)\<rparr>)"
| step_revoke: "g_revoking g = [] \<Longrightarrow> enumerates ord (g_sessions g) \<Longrightarrow>
    gw_step g (revoke_start ord g)"
| step_revoke_next: "g_revoking g \<noteq> [] \<Longrightarrow> gw_step g (revoke_next g)"

inductive reachable :: "gateway_config \<Rightarrow> gw \<Rightarrow> bool" for cfg where
  init: "reachable cfg (NewInstance cfg)"
| step: "reachable cfg g \<Longrightarrow> gw_step g g' \<Longrightarrow> reachable cfg g'"

end
