(* ===== verification/Gateway_Inv.thy ===== *)
theory Gateway_Inv
  imports Gateway
begin

text \<open>
  Invariants of the gateway: the shape of the defer stacks, which ties every entry of the shared
  tables to the handler that will remove it; at most one bridge session per identity; one daemon
  per registered name; the audit log as a ledger of connects and disconnects; and what reaches a
  daemon's connection.
\<close>

section \<open>Effects of the primitive calls\<close>

abbreviation pc_of :: "gw \<Rightarrow> nat \<Rightarrow> pc" where "pc_of g c \<equiv> t_pc (g_threads g c)"
abbreviation defers :: "gw \<Rightarrow> nat \<Rightarrow> deferred list" where "defers g c \<equiv> t_defers (g_threads g c)"

lemma set_pc_simps [simp]:
  "pc_of (set_pc c p g) x = (if x = c then p else pc_of g x)"
  "defers (set_pc c p g) x = defers g x"
  "t_cancelled (g_threads (set_pc c p g) x) = t_cancelled (g_threads g x)"
  "g_creds (set_pc c p g) = g_creds g" "g_sessions (set_pc c p g) = g_sessions g"
  "g_reg (set_pc c p g) = g_reg g" "g_audit (set_pc c p g) = g_audit g"
  "g_conns (set_pc c p g) = g_conns g" "g_nconn (set_pc c p g) = g_nconn g"
  "g_revoking (set_pc c p g) = g_revoking g"
  by (simp_all add: set_pc_def)

lemma push_defer_simps [simp]:
  "pc_of (push_defer c d g) x = pc_of g x"
  "defers (push_defer c d g) x = (if x = c then d # defers g c else defers g x)"
  "t_cancelled (g_threads (push_defer c d g) x) = t_cancelled (g_threads g x)"
  "g_creds (push_defer c d g) = g_creds g" "g_sessions (push_defer c d g) = g_sessions g"
  "g_reg (push_defer c d g) = g_reg g" "g_audit (push_defer c d g) = g_audit g"
  "g_conns (push_defer c d g) = g_conns g" "g_nconn (push_defer c d g) = g_nconn g"
  "g_revoking (push_defer c d g) = g_revoking g"
  by (simp_all add: push_defer_def)

lemma append_audit_simps [simp]:
  "g_threads (append_audit ev g) = g_threads g"
  "g_creds (append_audit ev g) = g_creds g" "g_sessions (append_audit ev g) = g_sessions g"
  "g_reg (append_audit ev g) = g_reg g" "g_audit (append_audit ev g) = g_audit g @ [ev]"
  "g_conns (append_audit ev g) = g_conns g" "g_nconn (append_audit ev g) = g_nconn g"
  "g_revoking (append_audit ev g) = g_revoking g"
  by (simp_all add: append_audit_def)

lemma close_conn_simps [simp]:
  "g_threads (close_conn c g) = g_threads g"
  "g_creds (close_conn c g) = g_creds g" "g_sessions (close_conn c g) = g_sessions g"
  "g_reg (close_conn c g) = g_reg g" "g_audit (close_conn c g) = g_audit g"
  "g_nconn (close_conn c g) = g_nconn g" "g_revoking (close_conn c g) = g_revoking g"
  "c_out (g_conns (close_conn c g) x) = c_out (g_conns g x)"
  "c_closed (g_conns (close_conn c g) x) \<longleftrightarrow> x = c \<or> c_closed (g_conns g x)"
  by (auto simp: close_conn_def)

lemma send_simps [simp]:
  "g_threads (send env c f g) = g_threads g"
  "g_creds (send env c f g) = g_creds g" "g_sessions (send env c f g) = g_sessions g"
  "g_reg (send env c f g) = g_reg g" "g_audit (send env c f g) = g_audit g"
  "g_nconn (send env c f g) = g_nconn g" "g_revoking (send env c f g) = g_revoking g"
  "c_out (g_conns (send env c f g) x)
     = (if x = c \<and> send_ok env c g then c_out (g_conns g x) @ [f] else c_out (g_conns g x))"
  "c_closed (g_conns (send env c f g) x) = c_closed (g_conns g x)"
  by (auto simp: send_def)

text \<open>The cases of a handler's step: one per program counter.\<close>

lemmas handler_cases =
  handler_step_def handleConn_step_def unwind_step_def Let_def

lemmas handler_splits =
  pc.splits daemon_pc.splits bridge_pc.splits act.splits list.splits option.splits sum.splits
  prod.splits if_splits deferred.splits

section \<open>Defer stacks\<close>

fun daemon_stack :: "hello \<Rightarrow> daemon_pc \<Rightarrow> deferred list \<Rightarrow> bool" where
  "daemon_stack h DAuth ds \<longleftrightarrow> ds = [DClose]"
| "daemon_stack h (DRegister _) ds \<longleftrightarrow> ds = [DClose]"
| "daemon_stack h (DSession _ _) ds \<longleftrightarrow> ds = [DUnregister (h_name h), DClose]"
| "daemon_stack h (DAck _) ds \<longleftrightarrow> (\<exists>i. ds = [DRelease i, DUnregister (h_name h), DClose])"
| "daemon_stack h (DAuditOk _) ds \<longleftrightarrow> (\<exists>i. ds = [DRelease i, DUnregister (h_name h), DClose])"
| "daemon_stack h _ ds \<longleftrightarrow> (\<exists>i. ds = [DAudit (EvConnClose ''daemon'' (h_name h) None),
     DRelease i, DUnregister (h_name h), DClose])"

definition bridge_base :: "hello \<Rightarrow> nat \<Rightarrow> deferred list" where
  "bridge_base h i =
     [DAudit (EvConnClose ''bridge'' (h_name h) (Some (h_target h))), DRelease i, DClose]"

fun bridge_stack :: "hello \<Rightarrow> bridge_pc \<Rightarrow> deferred list \<Rightarrow> bool" where
  "bridge_stack h BAuth ds \<longleftrightarrow> ds = [DClose]"
| "bridge_stack h (BSession _) ds \<longleftrightarrow> ds = [DClose]"
| "bridge_stack h BLookup ds \<longleftrightarrow> (\<exists>i. ds = bridge_base h i)"
| "bridge_stack h (BSetWriter p) ds \<longleftrightarrow> (\<exists>i. ds = DCancel # bridge_base h i)"
| "bridge_stack h (BLoop p) ds \<longleftrightarrow> (\<exists>i. ds = DClearWriter p # DCancel # bridge_base h i)"
| "bridge_stack h (BForward p f) ds \<longleftrightarrow> (\<exists>i. ds = DClearWriter p # DCancel # bridge_base h i)"
| "bridge_stack h _ ds \<longleftrightarrow> (\<exists>i. ds = [DRelease i, DClose])"

fun is_ledger :: "audit_event \<Rightarrow> bool" where
  "is_ledger (EvAuthOk _ _ _) = True"
| "is_ledger (EvConnClose _ _ _) = True"
| "is_ledger _ = False"

fun is_close :: "deferred \<Rightarrow> bool" where
  "is_close (DAudit (EvConnClose _ _ _)) = True"
| "is_close (DAudit _) = False"
| "is_close _ = True"

definition good_stack :: "deferred list \<Rightarrow> bool" where
  "good_stack ds \<longleftrightarrow> distinct ds \<and> (\<forall>d \<in> set ds. is_close d)"

definition good_exit :: "act list \<Rightarrow> bool" where
  "good_exit as \<longleftrightarrow> (\<forall>a \<in> set as. case a of ASend f \<Rightarrow> f_type f = FrameTypeError
                                 | AAudit ev \<Rightarrow> \<not> is_ledger ev)"

fun stack_ok :: "pc \<Rightarrow> deferred list \<Rightarrow> bool" where
  "stack_ok PHello ds \<longleftrightarrow> ds = [DClose]"
| "stack_ok (PDaemon h p) ds \<longleftrightarrow> daemon_stack h p ds"
| "stack_ok (PBridge h p) ds \<longleftrightarrow> bridge_stack h p ds"
| "stack_ok (PExit as) ds \<longleftrightarrow> good_exit as \<and> good_stack ds"
| "stack_ok PUnwind ds \<longleftrightarrow> good_stack ds"
| "stack_ok PDone ds \<longleftrightarrow> ds = []"

lemma stack_ok_good: "stack_ok p ds \<Longrightarrow> good_stack ds"
proof (cases p)
  case (PDaemon h d)
  then show "stack_ok p ds \<Longrightarrow> good_stack ds" by (cases d) (auto simp: good_stack_def)
next
  case (PBridge h b)
  then show "stack_ok p ds \<Longrightarrow> good_stack ds"
    by (cases b) (auto simp: good_stack_def bridge_base_def)
qed (auto simp: good_stack_def)

lemma good_stack_Cons: "good_stack (d # ds) \<Longrightarrow> good_stack ds \<and> d \<notin> set ds \<and> is_close d"
  by (auto simp: good_stack_def)

lemma f_type_errFrame [simp]: "f_type (errFrame code) = FrameTypeError"
  by (simp add: errFrame_def)

lemma f_type_ackFrame [simp]: "f_type ackFrame = FrameTypeHelloAck"
  by (simp add: ackFrame_def)

lemma run_deferred_thread [simp]:
  "pc_of (run_deferred c d g) x = pc_of g x"
  "defers (run_deferred c d g) x = defers g x"
  by (cases d; simp)+

text \<open>A handler's step leaves the other handlers' counters and stacks alone.\<close>

lemma daemon_step_other [simp]:
  "x \<noteq> c \<Longrightarrow> g_threads (handleDaemon_step env c h p g) x = g_threads g x"
  by (cases p) (auto simp: Let_def set_pc_def push_defer_def send_def append_audit_def
      split: option.splits sum.splits prod.splits)

lemma bridge_step_other [simp]:
  "x \<noteq> c \<Longrightarrow> g_threads (handleBridge_step env c h p g) x = g_threads g x"
  by (cases p) (auto simp: Let_def set_pc_def push_defer_def send_def append_audit_def close_conn_def
      split: option.splits sum.splits prod.splits)

lemma handler_step_other [simp]:
  "x \<noteq> c \<Longrightarrow> g_threads (handler_step env c g) x = g_threads g x"
proof (cases "pc_of g c")
  case (PExit as)
  then show "x \<noteq> c \<Longrightarrow> ?thesis"
    by (cases as; cases "hd as") (auto simp: handler_step_def set_pc_def)
next
  case PUnwind
  then show "x \<noteq> c \<Longrightarrow> ?thesis"
    by (cases "defers g c"; cases "hd (defers g c)")
      (auto simp: handler_step_def unwind_step_def set_pc_def)
qed (auto simp: handler_step_def handleConn_step_def set_pc_def split: option.splits)

definition stacks_ok :: "gw \<Rightarrow> bool" where
  "stacks_ok g \<longleftrightarrow> (\<forall>c. stack_ok (pc_of g c) (defers g c))
     \<and> (\<forall>c \<ge> g_nconn g. pc_of g c = PDone)"

lemma daemon_stack_step:
  "daemon_stack h p (defers g c) \<Longrightarrow> pc_of g c = PDaemon h p \<Longrightarrow>
     stack_ok (pc_of (handleDaemon_step env c h p g) c) (defers (handleDaemon_step env c h p g) c)"
  by (cases p) (auto simp: Let_def good_exit_def good_stack_def
      split: option.splits sum.splits prod.splits)

lemma bridge_stack_step:
  "bridge_stack h p (defers g c) \<Longrightarrow> pc_of g c = PBridge h p \<Longrightarrow>
     stack_ok (pc_of (handleBridge_step env c h p g) c) (defers (handleBridge_step env c h p g) c)"
  by (cases p) (auto simp: Let_def good_exit_def good_stack_def bridge_base_def
      split: option.splits sum.splits prod.splits)

lemma handler_stack_step:
  assumes "stack_ok (pc_of g c) (defers g c)"
  shows "stack_ok (pc_of (handler_step env c g) c) (defers (handler_step env c g) c)"
proof (cases "pc_of g c")
  case PHello
  with assms show ?thesis
    by (auto simp: handler_step_def handleConn_step_def good_exit_def good_stack_def
        split: option.splits)
next
  case (PDaemon h p)
  with assms show ?thesis using daemon_stack_step [of h p g c env] by (simp add: handler_step_def)
next
  case (PBridge h p)
  with assms show ?thesis using bridge_stack_step [of h p g c env] by (simp add: handler_step_def)
next
  case (PExit as)
  with assms show ?thesis
    by (cases as; cases "hd as") (auto simp: handler_step_def good_exit_def)
next
  case PUnwind
  with assms show ?thesis
    by (cases "defers g c")
      (auto simp: handler_step_def unwind_step_def good_stack_def)
next
  case PDone
  with assms show ?thesis by (simp add: handler_step_def)
qed

lemma handler_nconn [simp]: "g_nconn (handler_step env c g) = g_nconn g"
proof -
  have d: "g_nconn (handleDaemon_step env c h p g) = g_nconn g" for h p
    by (cases p) (auto simp: Let_def split: option.splits sum.splits prod.splits)
  have b: "g_nconn (handleBridge_step env c h p g) = g_nconn g" for h p
    by (cases p) (auto simp: Let_def split: option.splits sum.splits prod.splits)
  have r: "g_nconn (run_deferred c x g) = g_nconn g" for x g by (cases x) simp_all
  have e: "g_nconn (exit_step env c as g) = g_nconn g" for as
    by (cases as; cases "hd as") auto
  show ?thesis
    by (auto simp: handler_step_def handleConn_step_def unwind_step_def d b r e
        split: pc.splits option.splits list.splits)
qed

lemma revoke_next_simps [simp]:
  "g_threads (revoke_next g) = g_threads g" "g_nconn (revoke_next g) = g_nconn g"
  "g_sessions (revoke_next g) = g_sessions g" "g_reg (revoke_next g) = g_reg g"
  "g_audit (revoke_next g) = g_audit g" "g_creds (revoke_next g) = g_creds g"
  "c_out (g_conns (revoke_next g) x) = c_out (g_conns g x)"
  by (auto simp: revoke_next_def split: list.splits)

lemma stacks_ok_step: "gw_step g g' \<Longrightarrow> stacks_ok g \<Longrightarrow> stacks_ok g'"
proof (induction rule: gw_step.induct)
  case (step_handler c g env)
  have "stack_ok (pc_of (handler_step env c g) x) (defers (handler_step env c g) x)" for x
    using step_handler handler_stack_step [of g c env]
    by (cases "x = c") (auto simp: stacks_ok_def)
  then show ?case using step_handler by (auto simp: stacks_ok_def)
qed (auto simp: stacks_ok_def accept_def revoke_start_def)

lemma reachable_stacks: "reachable cfg g \<Longrightarrow> stacks_ok g"
proof (induction rule: reachable.induct)
  case init
  then show ?case by (simp add: stacks_ok_def NewInstance_def)
qed (rule stacks_ok_step)

lemma stacks_okD: "stacks_ok g \<Longrightarrow> stack_ok (pc_of g c) (defers g c)"
  by (simp add: stacks_ok_def)

lemma stacks_ok_idle: "stacks_ok g \<Longrightarrow> g_nconn g \<le> c \<Longrightarrow> defers g c = []"
  using stacks_okD [of g c] by (simp add: stacks_ok_def)

section \<open>The session table\<close>

text \<open>
  Every session has an id below the next one and belongs to a live handler that will release it,
  no two handlers hold the same id, and an identity has one bridge session at most.
\<close>

definition sessions_ok :: "gw \<Rightarrow> bool" where
  "sessions_ok g \<longleftrightarrow> st_wf (g_sessions g) \<and> unique_role ''bridge'' (g_sessions g)
     \<and> (\<forall>i s. get_session (g_sessions g) i = Some s \<longrightarrow> DRelease i \<in> set (defers g (s_conn s)))
     \<and> (\<forall>c i. DRelease i \<in> set (defers g c) \<longrightarrow> i < st_next (g_sessions g))
     \<and> (\<forall>c c' i. DRelease i \<in> set (defers g c) \<longrightarrow> DRelease i \<in> set (defers g c') \<longrightarrow> c = c')"

text \<open>What a handler's step does to the table: nothing, a registration, a replacement, or the
  release of an id on its own stack.\<close>

inductive sess_effect :: "env \<Rightarrow> nat \<Rightarrow> gw \<Rightarrow> gw \<Rightarrow> bool" for env c g where
  se_none: "g_sessions g' = g_sessions g \<Longrightarrow>
    (\<And>i. DRelease i \<in> set (defers g' c) \<longleftrightarrow> DRelease i \<in> set (defers g c)) \<Longrightarrow> sess_effect env c g g'"
| se_register: "s_conn s = c \<Longrightarrow> s_role s = ''daemon'' \<Longrightarrow>
    g_sessions g' = snd (Register s (g_sessions g)) \<Longrightarrow>
    defers g' c = DRelease (st_next (g_sessions g)) # defers g c \<Longrightarrow> sess_effect env c g g'"
| se_replace: "s_conn s = c \<Longrightarrow> s_role s = ''bridge'' \<Longrightarrow>
    ReplaceByRoleName (e_ord env) s (g_sessions g) = (r, i, g_sessions g') \<Longrightarrow>
    defers g' c = DRelease (st_next (g_sessions g)) # defers g c \<Longrightarrow> sess_effect env c g g'"
| se_release: "g_sessions g' = release i (g_sessions g) \<Longrightarrow> defers g c = DRelease i # defers g' c \<Longrightarrow>
    sess_effect env c g g'"

lemma Replace_next:
  "ReplaceByRoleName ord s st = (r, i, st') \<Longrightarrow> i = st_next st \<and> st_next st' = Suc (st_next st)"
  by (rule ReplaceByRoleName_cases [of s st ord]) auto

lemma Replace_sub:
  assumes "ReplaceByRoleName ord s st = (r, i, st')" and "get_session st' j = Some e"
  shows "j = st_next st \<and> e = s \<or> get_session st j = Some e"
proof (rule ReplaceByRoleName_cases [of s st ord])
  assume "ReplaceByRoleName ord s st = (None, st_next st, snd (Register s st))"
  with assms have "st' = snd (Register s st)" by simp
  with assms(2) show ?thesis by (auto simp: get_session_Register split: if_splits)
next
  fix k x
  assume "ReplaceByRoleName ord s st = (Some (s_conn x), st_next st, snd (Register s (release k st)))"
  with assms have "st' = snd (Register s (release k st))" by simp
  with assms(2) show ?thesis
    by (auto simp: get_session_Register get_session_release split: if_splits)
qed

lemma daemon_sess_effect: "sess_effect env c g (handleDaemon_step env c h p g)"
proof (cases p)
  case (DSession hash q)
  show ?thesis
    by (rule se_register [where s = "\<lparr>s_role = ''daemon'', s_name = h_name h, s_hash = hash, s_conn = c\<rparr>"])
      (simp_all add: DSession Let_def case_prod_beta)
qed (rule se_none; auto simp: Let_def split: option.splits sum.splits prod.splits)+

lemma bridge_sess_effect: "sess_effect env c g (handleBridge_step env c h p g)"
proof (cases p)
  case (BSession hash)
  let ?s = "\<lparr>s_role = ''bridge'', s_name = h_name h, s_hash = hash, s_conn = c\<rparr>"
  obtain r i st where r: "ReplaceByRoleName (e_ord env) ?s (g_sessions g) = (r, i, st)"
    by (metis prod_cases3)
  show ?thesis
    by (rule se_replace [where s = ?s and r = r and i = i])
      (use r Replace_next [OF r] in \<open>auto simp: BSession Let_def split: option.splits\<close>)
qed (rule se_none; auto simp: Let_def split: option.splits sum.splits prod.splits)+

lemma handler_sess_effect: "sess_effect env c g (handler_step env c g)"
proof (cases "pc_of g c")
  case PHello
  then show ?thesis
    by (intro se_none) (auto simp: handler_step_def handleConn_step_def split: option.splits)
next
  case (PDaemon h p)
  then show ?thesis using daemon_sess_effect by (simp add: handler_step_def)
next
  case (PBridge h p)
  then show ?thesis using bridge_sess_effect by (simp add: handler_step_def)
next
  case (PExit as)
  then show ?thesis
    by (intro se_none; cases as; cases "hd as") (auto simp: handler_step_def)
next
  case PUnwind
  show ?thesis
  proof (cases "\<exists>i. defers g c \<noteq> [] \<and> hd (defers g c) = DRelease i")
    case True
    then obtain i ds where "defers g c = DRelease i # ds" by (metis list.exhaust_sel)
    with PUnwind show ?thesis
      by (intro se_release [where i = i]) (simp_all add: handler_step_def unwind_step_def)
  next
    case False
    with PUnwind show ?thesis
      by (intro se_none; cases "defers g c"; cases "hd (defers g c)")
        (auto simp: handler_step_def unwind_step_def)
  qed
next
  case PDone
  then show ?thesis by (intro se_none) (simp_all add: handler_step_def)
qed

lemma sessions_ok_new:
  assumes s: "sessions_ok g" and wf: "st_wf (g_sessions g')" "unique_role ''bridge'' (g_sessions g')"
    and next': "st_next (g_sessions g') = Suc (st_next (g_sessions g))"
    and sub: "\<And>i e. get_session (g_sessions g') i = Some e \<Longrightarrow>
        i = st_next (g_sessions g) \<and> s_conn e = c \<or> get_session (g_sessions g) i = Some e"
    and push: "defers g' c = DRelease (st_next (g_sessions g)) # defers g c"
    and other: "\<And>x. x \<noteq> c \<Longrightarrow> defers g' x = defers g x"
  shows "sessions_ok g'"
proof -
  let ?n = "st_next (g_sessions g)"
  have R: "DRelease i \<in> set (defers g' x) \<longleftrightarrow> DRelease i \<in> set (defers g x) \<or> x = c \<and> i = ?n" for i x
    using push other [of x] by (cases "x = c") auto
  have old: "DRelease i \<in> set (defers g x) \<Longrightarrow> i < ?n" for i x
    using s by (simp add: sessions_ok_def)
  have own: "DRelease i \<in> set (defers g' (s_conn e))" if "get_session (g_sessions g') i = Some e" for i e
    using sub [OF that] s R by (auto simp: sessions_ok_def)
  have one: "x = y" if "DRelease i \<in> set (defers g' x)" "DRelease i \<in> set (defers g' y)" for i x y
    using that R old s unfolding sessions_ok_def by (metis less_irrefl)
  have "DRelease i \<in> set (defers g' x) \<Longrightarrow> i < Suc ?n" for i x
    using R old by (metis less_Suc_eq)
  with wf own one next' show ?thesis unfolding sessions_ok_def by metis
qed

lemma sessions_ok_effect:
  assumes e: "sess_effect env c g g'" and s: "sessions_ok g"
    and other: "\<And>x. x \<noteq> c \<Longrightarrow> defers g' x = defers g x"
    and en: "enumerates (e_ord env) (g_sessions g)" and good: "good_stack (defers g c)"
  shows "sessions_ok g'"
  using e
proof cases
  case se_none
  then have "DRelease i \<in> set (defers g' x) \<longleftrightarrow> DRelease i \<in> set (defers g x)" for i x
    using other by (cases "x = c") simp_all
  with s show ?thesis unfolding sessions_ok_def se_none(1) by metis
next
  case (se_register s')
  show ?thesis
  proof (rule sessions_ok_new [OF s, where c = c])
    show "st_wf (g_sessions g')" "unique_role ''bridge'' (g_sessions g')"
      using s se_register by (auto simp: sessions_ok_def intro!: unique_role_Register)
  qed (use se_register other in \<open>auto simp: get_session_Register split: if_splits\<close>)
next
  case (se_replace s' r i)
  show ?thesis
  proof (rule sessions_ok_new [OF s, where c = c])
    show "st_wf (g_sessions g')"
      using s se_replace(3) by (auto simp: sessions_ok_def)
    show "unique_role ''bridge'' (g_sessions g')"
      using s se_replace(2) unique_role_Replace [OF _ en se_replace(3)] by (simp add: sessions_ok_def)
    show "st_next (g_sessions g') = Suc (st_next (g_sessions g))"
      using Replace_next [OF se_replace(3)] by simp
  next
    fix j e
    assume "get_session (g_sessions g') j = Some e"
    then show "j = st_next (g_sessions g) \<and> s_conn e = c \<or> get_session (g_sessions g) j = Some e"
      using Replace_sub [OF se_replace(3)] se_replace(1) by blast
  qed (use se_replace other in auto)
next
  case (se_release i)
  have only: "x = c" if "DRelease i \<in> set (defers g x)" for x
    using that s se_release(2) unfolding sessions_ok_def by (metis list.set_intros(1))
  have nin: "DRelease i \<notin> set (defers g' c)"
    using good good_stack_Cons se_release(2) by metis
  have R: "DRelease j \<in> set (defers g' x) \<longleftrightarrow> DRelease j \<in> set (defers g x) \<and> j \<noteq> i" for j x
    using only nin se_release(2) other by (cases "x = c") auto
  have own: "DRelease j \<in> set (defers g' (s_conn e))" if "get_session (g_sessions g') j = Some e" for j e
    using that s R by (auto simp: sessions_ok_def se_release(1) get_session_release split: if_splits)
  have wf: "st_wf (g_sessions g')" "unique_role ''bridge'' (g_sessions g')"
    using s by (auto simp: sessions_ok_def se_release(1))
  show ?thesis
    using own wf s R unfolding sessions_ok_def se_release(1) st_next_release by metis
qed

lemma sessions_ok_step:
  assumes "gw_step g g'" and "stacks_ok g" and "sessions_ok g"
  shows "sessions_ok g'"
  using assms
proof (induction rule: gw_step.induct)
  case (step_accept g)
  have "DRelease i \<in> set (defers (accept g) x) \<longleftrightarrow> DRelease i \<in> set (defers g x)" for i x
    using stacks_ok_idle [OF step_accept(1), of "g_nconn g"] by (simp add: accept_def)
  moreover have "g_sessions (accept g) = g_sessions g" by (simp add: accept_def)
  ultimately show ?case using step_accept(2) unfolding sessions_ok_def by metis
next
  case (step_handler c g env)
  then show ?case
    by (intro sessions_ok_effect [OF handler_sess_effect])
      (auto intro: stack_ok_good stacks_okD)
qed (simp_all add: sessions_ok_def revoke_start_def)

lemma reachable_sessions: "reachable cfg g \<Longrightarrow> sessions_ok g"
proof (induction rule: reachable.induct)
  case init
  then show ?case
    by (simp add: sessions_ok_def NewInstance_def unique_role_def get_session_def NewSessionTable_def
        st_wf_def)
next
  case (step g g')
  then show ?case using sessions_ok_step reachable_stacks by blast
qed

section \<open>The registry of daemons\<close>

text \<open>Every registered name belongs to the handler of its proxy's connection, which will unregister
  it, and a handler that will unregister a name is the owner of that name's entry.\<close>

definition registry_ok :: "gw \<Rightarrow> bool" where
  "registry_ok g \<longleftrightarrow>
     (\<forall>n p. rg_daemons (g_reg g) n = Some p \<longrightarrow> p < rg_next (g_reg g)
        \<and> DUnregister n \<in> set (defers g (proxy_conn (g_reg g) p)))
     \<and> (\<forall>c n. DUnregister n \<in> set (defers g c) \<longrightarrow>
        (\<exists>p. rg_daemons (g_reg g) n = Some p \<and> proxy_conn (g_reg g) p = c))"

inductive reg_effect :: "nat \<Rightarrow> gw \<Rightarrow> gw \<Rightarrow> bool" for c g where
  re_none: "rg_daemons (g_reg g') = rg_daemons (g_reg g) \<Longrightarrow> rg_next (g_reg g') = rg_next (g_reg g) \<Longrightarrow>
    (\<And>p. proxy_conn (g_reg g') p = proxy_conn (g_reg g) p) \<Longrightarrow>
    (\<And>n. DUnregister n \<in> set (defers g' c) \<longleftrightarrow> DUnregister n \<in> set (defers g c)) \<Longrightarrow> reg_effect c g g'"
| re_proxy: "rg_daemons (g_reg g') = rg_daemons (g_reg g) \<Longrightarrow>
    rg_next (g_reg g') = Suc (rg_next (g_reg g)) \<Longrightarrow>
    (\<And>p. proxy_conn (g_reg g') p = (if p = rg_next (g_reg g) then c else proxy_conn (g_reg g) p)) \<Longrightarrow>
    defers g' c = defers g c \<Longrightarrow> pc_of g c = PDaemon h (DRegister hash) \<Longrightarrow> reg_effect c g g'"
| re_register: "rg_daemons (g_reg g) n = None \<Longrightarrow>
    rg_daemons (g_reg g') = (rg_daemons (g_reg g))(n \<mapsto> rg_next (g_reg g)) \<Longrightarrow>
    rg_next (g_reg g') = Suc (rg_next (g_reg g)) \<Longrightarrow>
    (\<And>p. proxy_conn (g_reg g') p = (if p = rg_next (g_reg g) then c else proxy_conn (g_reg g) p)) \<Longrightarrow>
    defers g' c = DUnregister n # defers g c \<Longrightarrow> pc_of g c = PDaemon h (DRegister hash) \<Longrightarrow>
    reg_effect c g g'"
| re_unregister: "rg_daemons (g_reg g') = (rg_daemons (g_reg g))(n := None) \<Longrightarrow>
    rg_next (g_reg g') = rg_next (g_reg g) \<Longrightarrow>
    (\<And>p. proxy_conn (g_reg g') p = proxy_conn (g_reg g) p) \<Longrightarrow>
    defers g c = DUnregister n # defers g' c \<Longrightarrow> reg_effect c g g'"

lemma daemon_reg_effect:
  "pc_of g c = PDaemon h p \<Longrightarrow> reg_effect c g (handleDaemon_step env c h p g)"
proof (cases p)
  case (DRegister hash)
  assume pc: "pc_of g c = PDaemon h p"
  show ?thesis
  proof (cases "rg_daemons (g_reg g) (h_name h)")
    case None
    then show ?thesis
      by (intro re_register [where n = "h_name h" and h = h and hash = hash])
        (use DRegister pc in \<open>auto simp: Let_def case_prod_beta RegistryRegister_def\<close>)
  next
    case (Some q)
    then show ?thesis
      by (intro re_proxy [where h = h and hash = hash])
        (use DRegister pc in \<open>auto simp: Let_def case_prod_beta RegistryRegister_def\<close>)
  qed
qed (rule re_none; auto simp: Let_def split: option.splits sum.splits prod.splits)+

lemma bridge_reg_effect: "reg_effect c g (handleBridge_step env c h p g)"
  by (cases p; rule re_none; auto simp: Let_def split: option.splits sum.splits prod.splits)

lemma handler_reg_effect: "reg_effect c g (handler_step env c g)"
proof (cases "pc_of g c")
  case PHello
  then show ?thesis
    by (intro re_none) (auto simp: handler_step_def handleConn_step_def split: option.splits)
next
  case (PDaemon h p)
  then show ?thesis using daemon_reg_effect [OF PDaemon] by (simp add: handler_step_def)
next
  case (PBridge h p)
  then show ?thesis using bridge_reg_effect by (simp add: handler_step_def)
next
  case (PExit as)
  then show ?thesis
    by (intro re_none; cases as; cases "hd as") (auto simp: handler_step_def)
next
  case PUnwind
  show ?thesis
  proof (cases "\<exists>n. defers g c \<noteq> [] \<and> hd (defers g c) = DUnregister n")
    case True
    then obtain n ds where "defers g c = DUnregister n # ds" by (metis list.exhaust_sel)
    with PUnwind show ?thesis
      by (intro re_unregister [where n = n]) (simp_all add: handler_step_def unwind_step_def)
  next
    case False
    with PUnwind show ?thesis
      by (intro re_none; cases "defers g c"; cases "hd (defers g c)")
        (auto simp: handler_step_def unwind_step_def)
  qed
next
  case PDone
  then show ?thesis by (intro re_none) (simp_all add: handler_step_def)
qed

lemma registry_ok_effect:
  assumes e: "reg_effect c g g'" and s: "registry_ok g"
    and other: "\<And>x. x \<noteq> c \<Longrightarrow> defers g' x = defers g x" and good: "good_stack (defers g c)"
  shows "registry_ok g'"
  using e
proof cases
  case re_none
  then have "DUnregister n \<in> set (defers g' x) \<longleftrightarrow> DUnregister n \<in> set (defers g x)" for n x
    using other by (cases "x = c") simp_all
  with s show ?thesis by (simp add: registry_ok_def re_none)
next
  case (re_proxy h hash)
  have D: "defers g' x = defers g x" for x using re_proxy(4) other by (cases "x = c") simp_all
  have old: "p < rg_next (g_reg g)" if "rg_daemons (g_reg g) m = Some p" for m p
    using that s by (simp add: registry_ok_def)
  have "p < Suc (rg_next (g_reg g)) \<and> p \<noteq> rg_next (g_reg g)" if "rg_daemons (g_reg g) m = Some p" for m p
    using old [OF that] by simp
  with s show ?thesis unfolding registry_ok_def re_proxy(1,2,3) D by (simp; metis)
next
  case (re_register n h hash)
  have D: "DUnregister m \<in> set (defers g' x) \<longleftrightarrow> DUnregister m \<in> set (defers g x) \<or> x = c \<and> m = n" for m x
    using re_register(5) other by (cases "x = c") auto
  have old: "p < rg_next (g_reg g) \<and> DUnregister m \<in> set (defers g (proxy_conn (g_reg g) p))"
    if "rg_daemons (g_reg g) m = Some p" for m p
    using that s by (simp add: registry_ok_def)
  show ?thesis
    unfolding registry_ok_def re_register(2-4) D
  proof (intro conjI allI impI)
    fix m p
    assume "((rg_daemons (g_reg g))(n \<mapsto> rg_next (g_reg g))) m = Some p"
    then consider "m = n" "p = rg_next (g_reg g)" | "rg_daemons (g_reg g) m = Some p"
      by (cases "m = n") simp_all
    note cases_mp = this
    show "p < Suc (rg_next (g_reg g))"
      using cases_mp
    proof cases
      case 2
      then show ?thesis using old [of m p] by simp
    qed simp
    show "DUnregister m \<in> set (defers g (if p = rg_next (g_reg g) then c else proxy_conn (g_reg g) p))
        \<or> (if p = rg_next (g_reg g) then c else proxy_conn (g_reg g) p) = c \<and> m = n"
      using cases_mp
    proof cases
      case 2
      then show ?thesis using old [of m p] by simp
    qed simp
  next
    fix x m
    assume "DUnregister m \<in> set (defers g x) \<or> x = c \<and> m = n"
    then show "\<exists>p. ((rg_daemons (g_reg g))(n \<mapsto> rg_next (g_reg g))) m = Some p
        \<and> (if p = rg_next (g_reg g) then c else proxy_conn (g_reg g) p) = x"
    proof
      assume "DUnregister m \<in> set (defers g x)"
      then obtain p where p: "rg_daemons (g_reg g) m = Some p" "proxy_conn (g_reg g) p = x"
        using s unfolding registry_ok_def by blast
      with re_register(1) have "m \<noteq> n" by auto
      with p old [OF p(1)] show ?thesis by auto
    qed simp
  qed
next
  case (re_unregister n)
  have nin: "DUnregister n \<notin> set (defers g' c)"
    using good good_stack_Cons re_unregister(4) by metis
  have only: "x = c" if "DUnregister n \<in> set (defers g x)" for x
  proof -
    have "DUnregister n \<in> set (defers g c)" by (simp add: re_unregister(4))
    with that s show ?thesis unfolding registry_ok_def by (metis option.inject)
  qed
  have D: "DUnregister m \<in> set (defers g' x) \<longleftrightarrow> DUnregister m \<in> set (defers g x) \<and> m \<noteq> n" for m x
    using only nin re_unregister(4) other by (cases "x = c") auto
  show ?thesis
    using s unfolding registry_ok_def re_unregister(1-3) D by (simp add: fun_upd_def)
qed

lemma registry_ok_step:
  assumes "gw_step g g'" and "stacks_ok g" and "registry_ok g"
  shows "registry_ok g'"
  using assms
proof (induction rule: gw_step.induct)
  case (step_accept g)
  have "DUnregister n \<in> set (defers (accept g) x) \<longleftrightarrow> DUnregister n \<in> set (defers g x)" for n x
    using stacks_ok_idle [OF step_accept(1), of "g_nconn g"] by (simp add: accept_def)
  moreover have "g_reg (accept g) = g_reg g" by (simp add: accept_def)
  ultimately show ?case using step_accept(2) unfolding registry_ok_def by metis
next
  case (step_handler c g env)
  then show ?case
    by (intro registry_ok_effect [OF handler_reg_effect])
      (auto intro: stack_ok_good stacks_okD)
qed (simp_all add: registry_ok_def revoke_start_def)

lemma reachable_registry: "reachable cfg g \<Longrightarrow> registry_ok g"
proof (induction rule: reachable.induct)
  case init
  then show ?case by (simp add: registry_ok_def NewInstance_def NewRegistry_def)
next
  case (step g g')
  then show ?case using registry_ok_step reachable_stacks by blast
qed

section \<open>The audit log as a ledger\<close>

abbreviation ev_open :: "string \<Rightarrow> string \<Rightarrow> string option \<Rightarrow> gw \<Rightarrow> nat" where
  "ev_open r n t g \<equiv> count_list (g_audit g) (EvAuthOk r n t)"
abbreviation ev_close :: "string \<Rightarrow> string \<Rightarrow> string option \<Rightarrow> gw \<Rightarrow> nat" where
  "ev_close r n t g \<equiv> count_list (g_audit g) (EvConnClose r n t)"
abbreviation ev_owed :: "string \<Rightarrow> string \<Rightarrow> string option \<Rightarrow> gw \<Rightarrow> nat \<Rightarrow> nat" where
  "ev_owed r n t g c \<equiv> count_list (defers g c) (DAudit (EvConnClose r n t))"

definition owed :: "string \<Rightarrow> string \<Rightarrow> string option \<Rightarrow> gw \<Rightarrow> nat" where
  "owed r n t g = (\<Sum>c<g_nconn g. ev_owed r n t g c)"

text \<open>A step opens, closes or defers in balance.\<close>

definition balanced :: "nat \<Rightarrow> gw \<Rightarrow> gw \<Rightarrow> bool" where
  "balanced c g g' \<longleftrightarrow> (\<forall>r n t.
     ev_open r n t g' + ev_close r n t g + ev_owed r n t g c
       = ev_open r n t g + ev_close r n t g' + ev_owed r n t g' c)"

lemma daemon_balanced: "balanced c g (handleDaemon_step env c h p g)"
  by (cases p) (auto simp: balanced_def Let_def split: option.splits sum.splits prod.splits)

lemma bridge_balanced: "balanced c g (handleBridge_step env c h p g)"
  by (cases p) (auto simp: balanced_def Let_def split: option.splits sum.splits prod.splits)

lemma count_not_ledger [simp]:
  "\<not> is_ledger ev \<Longrightarrow> ev \<noteq> EvAuthOk r n t \<and> ev \<noteq> EvConnClose r n t"
  by (cases ev) auto

lemma exit_balanced: "good_exit as \<Longrightarrow> balanced c g (exit_step env c as g)"
proof (cases as)
  case (Cons a as')
  assume g: "good_exit as"
  show ?thesis
  proof (cases a)
    case (AAudit ev)
    with g Cons have "\<not> is_ledger ev" by (simp add: good_exit_def)
    then have "ev \<noteq> EvAuthOk r n t" "ev \<noteq> EvConnClose r n t" for r n t by (cases ev; simp)+
    with Cons AAudit show ?thesis by (simp add: balanced_def)
  qed (simp add: Cons balanced_def)
qed (simp add: balanced_def)

lemma unwind_balanced: "good_stack (defers g c) \<Longrightarrow> balanced c g (unwind_step c g)"
proof (cases "defers g c")
  case (Cons d ds)
  assume "good_stack (defers g c)"
  with Cons have "is_close d" by (simp add: good_stack_def)
  then show ?thesis
    by (cases d; cases "\<exists>ev. d = DAudit ev")
      (auto simp: balanced_def unwind_step_def Cons elim!: is_close.elims)
qed (simp add: balanced_def unwind_step_def)

lemma handler_balanced:
  assumes "stack_ok (pc_of g c) (defers g c)"
  shows "balanced c g (handler_step env c g)"
proof (cases "pc_of g c")
  case PHello
  then show ?thesis
    by (auto simp: handler_step_def handleConn_step_def balanced_def split: option.splits)
qed (use assms daemon_balanced bridge_balanced exit_balanced unwind_balanced in
    \<open>auto simp: handler_step_def balanced_def\<close>)

lemma owed_handler:
  assumes "c < g_nconn g"
  shows "owed r n t (handler_step env c g) + ev_owed r n t g c
    = owed r n t g + ev_owed r n t (handler_step env c g) c"
proof -
  let ?g = "handler_step env c g"
  have "owed r n t ?g = ev_owed r n t ?g c + (\<Sum>x\<in>{..<g_nconn g} - {c}. ev_owed r n t ?g x)"
    unfolding owed_def handler_nconn using assms by (intro sum.remove) auto
  moreover have "owed r n t g = ev_owed r n t g c + (\<Sum>x\<in>{..<g_nconn g} - {c}. ev_owed r n t g x)"
    unfolding owed_def using assms by (intro sum.remove) auto
  moreover have "(\<Sum>x\<in>{..<g_nconn g} - {c}. ev_owed r n t ?g x)
      = (\<Sum>x\<in>{..<g_nconn g} - {c}. ev_owed r n t g x)"
    by (intro sum.cong) auto
  ultimately show ?thesis by simp
qed

definition ledger_ok :: "gw \<Rightarrow> bool" where
  "ledger_ok g \<longleftrightarrow> (\<forall>r n t. ev_open r n t g = ev_close r n t g + owed r n t g)"

lemma ledger_ok_step:
  assumes "gw_step g g'" and "stacks_ok g" and "ledger_ok g"
  shows "ledger_ok g'"
  using assms
proof (induction rule: gw_step.induct)
  case (step_accept g)
  have "owed r n t (accept g) = owed r n t g" for r n t
    by (simp add: owed_def accept_def lessThan_Suc)
  moreover have "g_audit (accept g) = g_audit g" by (simp add: accept_def)
  ultimately show ?case using step_accept(2) by (simp add: ledger_ok_def)
next
  case (step_handler c g env)
  have b: "balanced c g (handler_step env c g)"
    using step_handler by (intro handler_balanced) (simp add: stacks_okD)
  show ?case
    unfolding ledger_ok_def
  proof (intro allI)
    fix r n t
    have "ev_open r n t g = ev_close r n t g + owed r n t g"
      using step_handler by (simp add: ledger_ok_def)
    with owed_handler [OF step_handler(1), of r n t env]
      b [unfolded balanced_def, rule_format, of r n t]
    show "ev_open r n t (handler_step env c g)
        = ev_close r n t (handler_step env c g) + owed r n t (handler_step env c g)"
      by linarith
  qed
qed (simp_all add: ledger_ok_def owed_def revoke_start_def)

lemma reachable_ledger: "reachable cfg g \<Longrightarrow> ledger_ok g"
proof (induction rule: reachable.induct)
  case init
  then show ?case by (simp add: ledger_ok_def NewInstance_def owed_def)
next
  case (step g g')
  then show ?case using ledger_ok_step reachable_stacks by blast
qed

end
