(* ===== verification/Gateway_Props.thy ===== *)
theory Gateway_Props
  imports Gateway_Inv
begin

text \<open>
  What reaches a daemon's connection, who is admitted, and the properties of the gateway; the two
  last theorems are schedules that show what the gateway does not guarantee.
\<close>

section \<open>What reaches a daemon's connection\<close>

definition daemon_conn :: "gw \<Rightarrow> nat \<Rightarrow> bool" where
  "daemon_conn g c \<longleftrightarrow> (\<exists>p < rg_next (g_reg g). proxy_conn (g_reg g) p = c)"

fun early :: "pc \<Rightarrow> bool" where
  "early PHello = True"
| "early (PDaemon h DAuth) = True"
| "early (PDaemon h (DRegister _)) = True"
| "early _ = False"

fun is_bridge :: "pc \<Rightarrow> bool" where
  "is_bridge (PBridge _ _) = True"
| "is_bridge _ = False"

definition bridge_side :: "gw \<Rightarrow> nat \<Rightarrow> bool" where
  "bridge_side g c \<longleftrightarrow> \<not> daemon_conn g c \<and> \<not> early (pc_of g c) \<and> c < g_nconn g"

definition gateway_types :: "frame_type set" where
  "gateway_types = {FrameTypeHelloAck, FrameTypeError, FrameTypeRoute, FrameTypeNoiseInit,
     FrameTypeNoiseRekey}"

fun forwards :: "pc \<Rightarrow> bool" where
  "forwards (PBridge h (BForward p f)) =
     (f_type f = FrameTypeRoute \<or> f_type f = FrameTypeNoiseInit \<or> f_type f = FrameTypeNoiseRekey)"
| "forwards _ = True"

fun delivers_to :: "pc \<Rightarrow> nat option" where
  "delivers_to (PDaemon h (DDeliver p b f)) = Some b"
| "delivers_to _ = None"

definition routes_ok :: "gw \<Rightarrow> bool" where
  "routes_ok g \<longleftrightarrow>
     (\<forall>p b. writer (g_reg g) p = Some b \<longrightarrow> bridge_side g b)
     \<and> (\<forall>c b. delivers_to (pc_of g c) = Some b \<longrightarrow> bridge_side g b)
     \<and> (\<forall>c. early (pc_of g c) \<or> is_bridge (pc_of g c) \<longrightarrow> \<not> daemon_conn g c)
     \<and> (\<forall>c. forwards (pc_of g c))
     \<and> (\<forall>c f. f \<in> set (c_out (g_conns g c)) \<longrightarrow> f_type f \<in> gateway_types \<or> bridge_side g c)
     \<and> (\<forall>c. daemon_conn g c \<longrightarrow> c < g_nconn g)"

lemma gateway_typesI [simp]:
  "FrameTypeHelloAck \<in> gateway_types" "FrameTypeError \<in> gateway_types"
  "FrameTypeRoute \<in> gateway_types" "FrameTypeNoiseInit \<in> gateway_types"
  "FrameTypeNoiseRekey \<in> gateway_types"
  by (simp_all add: gateway_types_def)

lemma writer_handler:
  assumes "writer (g_reg (handler_step env c g)) p = Some b"
  shows "writer (g_reg g) p = Some b \<or> b = c \<and> is_bridge (pc_of g c)"
proof (cases "pc_of g c")
  case PHello
  with assms show ?thesis
    by (auto simp: handler_step_def handleConn_step_def split: option.splits if_splits)
next
  case (PDaemon h d)
  with assms show ?thesis
    by (cases d) (auto simp: handler_step_def Let_def RegistryRegister_Ok case_prod_beta
        split: option.splits sum.splits if_splits)
next
  case (PBridge h d)
  with assms show ?thesis
    by (cases d) (auto simp: handler_step_def Let_def
        split: option.splits sum.splits prod.splits if_splits)
next
  case (PExit as)
  with assms show ?thesis by (cases as; cases "hd as") (auto simp: handler_step_def)
next
  case PUnwind
  with assms show ?thesis
    by (cases "defers g c"; cases "hd (defers g c)")
      (auto simp: handler_step_def unwind_step_def split: if_splits)
qed (use assms in \<open>auto simp: handler_step_def\<close>)

lemma pc_handler:
  shows "early (pc_of (handler_step env c g) c) \<Longrightarrow> early (pc_of g c)"
    and "is_bridge (pc_of (handler_step env c g) c) \<Longrightarrow> is_bridge (pc_of g c) \<or> early (pc_of g c)"
    and "pc_of g c = PDaemon h (DRegister hash) \<Longrightarrow>
           \<not> early (pc_of (handler_step env c g) c) \<and> \<not> is_bridge (pc_of (handler_step env c g) c)"
    and "forwards (pc_of g c) \<Longrightarrow> forwards (pc_of (handler_step env c g) c)"
    and "delivers_to (pc_of (handler_step env c g) c) = Some b \<Longrightarrow>
           \<exists>p. writer (g_reg g) p = Some b"
proof -
  let ?P = "\<lambda>q. (early q \<longrightarrow> early (pc_of g c)) \<and> (is_bridge q \<longrightarrow> is_bridge (pc_of g c) \<or> early (pc_of g c))
    \<and> (\<forall>h hash. pc_of g c = PDaemon h (DRegister hash) \<longrightarrow> \<not> early q \<and> \<not> is_bridge q)
    \<and> (forwards (pc_of g c) \<longrightarrow> forwards q)
    \<and> (\<forall>b. delivers_to q = Some b \<longrightarrow> (\<exists>p. writer (g_reg g) p = Some b) \<or> q = pc_of g c)"
  have "?P (pc_of (handler_step env c g) c) \<and>
     (\<forall>b. delivers_to (pc_of (handler_step env c g) c) = Some b \<longrightarrow> (\<exists>p. writer (g_reg g) p = Some b))"
  proof (cases "pc_of g c")
    case PHello
    then show ?thesis by (auto simp: handler_step_def handleConn_step_def split: option.splits)
  next
    case (PDaemon h d)
    then show ?thesis
      by (cases d) (auto simp: handler_step_def Let_def case_prod_beta
          split: option.splits sum.splits if_splits)
  next
    case (PBridge h d)
    then show ?thesis
      by (cases d) (auto simp: handler_step_def Let_def
          split: option.splits sum.splits prod.splits if_splits)
  next
    case (PExit as)
    then show ?thesis by (cases as; cases "hd as") (auto simp: handler_step_def)
  next
    case PUnwind
    then show ?thesis
      by (cases "defers g c"; cases "hd (defers g c)") (auto simp: handler_step_def unwind_step_def)
  qed (auto simp: handler_step_def)
  then show "early (pc_of (handler_step env c g) c) \<Longrightarrow> early (pc_of g c)"
    and "is_bridge (pc_of (handler_step env c g) c) \<Longrightarrow> is_bridge (pc_of g c) \<or> early (pc_of g c)"
    and "pc_of g c = PDaemon h (DRegister hash) \<Longrightarrow>
           \<not> early (pc_of (handler_step env c g) c) \<and> \<not> is_bridge (pc_of (handler_step env c g) c)"
    and "forwards (pc_of g c) \<Longrightarrow> forwards (pc_of (handler_step env c g) c)"
    and "delivers_to (pc_of (handler_step env c g) c) = Some b \<Longrightarrow>
           \<exists>p. writer (g_reg g) p = Some b"
    by blast+
qed

lemma daemon_conn_handler:
  "daemon_conn (handler_step env c g) x \<Longrightarrow>
     daemon_conn g x \<or> x = c \<and> (\<exists>h hash. pc_of g c = PDaemon h (DRegister hash))"
  using handler_reg_effect [of c g env]
  by cases (auto simp: daemon_conn_def less_Suc_eq split: if_splits)

lemma bridge_side_handler: "bridge_side g b \<Longrightarrow> bridge_side (handler_step env c g) b"
proof -
  assume b: "bridge_side g b"
  have e: "\<not> early (pc_of (handler_step env c g) b)"
    using b pc_handler(1) [of env c g] by (cases "b = c") (auto simp: bridge_side_def)
  have "\<not> daemon_conn (handler_step env c g) b"
    using b daemon_conn_handler [of env c g b] by (auto simp: bridge_side_def)
  with e b show ?thesis by (simp add: bridge_side_def)
qed

lemma out_handler:
  assumes f: "f \<in> set (c_out (g_conns (handler_step env c g) x))"
    and st: "stack_ok (pc_of g c) (defers g c)" and fw: "forwards (pc_of g c)"
  shows "f \<in> set (c_out (g_conns g x)) \<or> f_type f \<in> gateway_types
    \<or> delivers_to (pc_of g c) = Some x"
proof (cases "pc_of g c")
  case PHello
  with f show ?thesis
    by (auto simp: handler_step_def handleConn_step_def split: option.splits if_splits)
next
  case (PDaemon h d)
  with f show ?thesis
    by (cases d) (auto simp: handler_step_def Let_def case_prod_beta
        split: option.splits sum.splits if_splits)
next
  case (PBridge h d)
  with f fw show ?thesis
    by (cases d) (auto simp: handler_step_def Let_def gateway_types_def
        split: option.splits sum.splits prod.splits if_splits)
next
  case (PExit as)
  with f st show ?thesis
    by (cases as; cases "hd as")
      (auto simp: handler_step_def good_exit_def gateway_types_def split: if_splits)
next
  case PUnwind
  with f show ?thesis
    by (cases "defers g c"; cases "hd (defers g c)") (auto simp: handler_step_def unwind_step_def)
qed (use f in \<open>auto simp: handler_step_def\<close>)

lemma routes_ok_handler:
  assumes c: "c < g_nconn g" and st: "stacks_ok g" and r: "routes_ok g"
  shows "routes_ok (handler_step env c g)"
proof -
  let ?g = "handler_step env c g"
  note side = bridge_side_handler [of g _ env c]
  have own: "bridge_side ?g c" if "is_bridge (pc_of g c)"
  proof (rule side)
    have "\<not> early (pc_of g c)" using that by (cases "pc_of g c") auto
    with that r c show "bridge_side g c" by (simp add: bridge_side_def routes_ok_def)
  qed
  have w: "bridge_side ?g b" if "writer (g_reg ?g) p = Some b" for p b
    using writer_handler [OF that] r own side by (auto simp: routes_ok_def)
  have d: "bridge_side ?g b" if "delivers_to (pc_of ?g x) = Some b" for x b
  proof (cases "x = c")
    case True
    with that pc_handler(5) obtain p where "writer (g_reg g) p = Some b" by blast
    with r side show ?thesis by (auto simp: routes_ok_def)
  next
    case False
    with that r side show ?thesis by (auto simp: routes_ok_def)
  qed
  have e: "\<not> daemon_conn ?g x" if x: "early (pc_of ?g x) \<or> is_bridge (pc_of ?g x)" for x
  proof -
    have "early (pc_of g x) \<or> is_bridge (pc_of g x)"
      using x pc_handler(1,2) [of env c g] by (cases "x = c") auto
    then have "\<not> daemon_conn g x" using r unfolding routes_ok_def by blast
    then show ?thesis
      using daemon_conn_handler [of env c g x] x pc_handler(3) [of g c _ _ env] by blast
  qed
  have f: "forwards (pc_of ?g x)" for x
    using r pc_handler(4) [of g c env] by (cases "x = c") (auto simp: routes_ok_def)
  have o: "f_type f \<in> gateway_types \<or> bridge_side ?g x" if "f \<in> set (c_out (g_conns ?g x))" for x f
    using out_handler [OF that stacks_okD [OF st]] r side unfolding routes_ok_def by blast
  have n: "x < g_nconn ?g" if "daemon_conn ?g x" for x
    using daemon_conn_handler [OF that] r c unfolding routes_ok_def handler_nconn by blast
  from w d e f o n show ?thesis unfolding routes_ok_def by blast
qed

lemma routes_ok_step:
  assumes "gw_step g g'" and "stacks_ok g" and "routes_ok g"
  shows "routes_ok g'"
  using assms
proof (induction rule: gw_step.induct)
  case (step_accept g)
  have side: "bridge_side (accept g) b" if "bridge_side g b" for b
    using that by (auto simp: bridge_side_def accept_def daemon_conn_def)
  have same: "g_reg (accept g) = g_reg g" "g_conns (accept g) = g_conns g"
      "daemon_conn (accept g) x = daemon_conn g x" for x
    by (simp_all add: accept_def daemon_conn_def)
  have pc: "pc_of (accept g) x = (if x = g_nconn g then PHello else pc_of g x)"
      "g_nconn (accept g) = Suc (g_nconn g)" for x
    by (simp_all add: accept_def)
  have "\<not> daemon_conn g (g_nconn g)" using step_accept(2) by (auto simp: routes_ok_def)
  moreover have "f_type f \<in> gateway_types \<or> bridge_side (accept g) c"
    if "f \<in> set (c_out (g_conns g c))" for c f
    using that side step_accept(2) unfolding routes_ok_def by blast
  ultimately show ?case
    using step_accept(2) side unfolding routes_ok_def same pc by (auto intro: less_SucI)
next
  case (step_handler c g env)
  then show ?case by (intro routes_ok_handler)
qed (simp_all add: routes_ok_def bridge_side_def daemon_conn_def revoke_start_def)

lemma reachable_routes: "reachable cfg g \<Longrightarrow> routes_ok g"
proof (induction rule: reachable.induct)
  case init
  then show ?case
    by (simp add: routes_ok_def NewInstance_def writer_def NewRegistry_def daemon_conn_def)
next
  case (step g g')
  then show ?case using routes_ok_step reachable_stacks by blast
qed

section \<open>Schedules\<close>

text \<open>A schedule names the handler that steps and its input.\<close>

fun drive :: "(nat \<times> env) list \<Rightarrow> gw \<Rightarrow> gw" where
  "drive [] g = g"
| "drive ((c, env) # xs) g = drive xs (handler_step env c g)"

fun drive_ok :: "(nat \<times> env) list \<Rightarrow> gw \<Rightarrow> bool" where
  "drive_ok [] g \<longleftrightarrow> True"
| "drive_ok ((c, env) # xs) g \<longleftrightarrow>
     c < g_nconn g \<and> enumerates (e_ord env) (g_sessions g) \<and> drive_ok xs (handler_step env c g)"

lemma reachable_drive: "reachable cfg g \<Longrightarrow> drive_ok xs g \<Longrightarrow> reachable cfg (drive xs g)"
  by (induction xs g rule: drive.induct) (auto intro: reachable.step step_handler)

definition helloFrame :: "hello \<Rightarrow> frame" where
  "helloFrame h = \<lparr>f_type = FrameTypeHello, f_reqid = [], f_payload = hello_wire h\<rparr>"

definition key_hash :: string where
  "key_hash = sha256_prefix @ SHA256Hex (bytes_of ''k'')"

lemma key_matches [simp]: "SecretMatches ''k'' key_hash"
  by (simp add: SecretMatches_iff key_hash_def)

definition demo_config :: gateway_config where
  "demo_config = \<lparr>gc_listen = [], gc_public_url = [], gc_audit_path = [], gc_audit_max_bytes = 0,
     gc_audit_max_backups = 0,
     gc_agents = [\<lparr>a_name = ''a'', a_key_hash = key_hash, a_allowed = [''d'']\<rparr>],
     gc_daemons = [\<lparr>d_name = ''d'', d_token_hash = key_hash\<rparr>]\<rparr>"

definition hello_of_bridge :: hello where
  "hello_of_bridge = \<lparr>h_role = ''bridge'', h_name = ''a'', h_secret = ''k'', h_target = ''d''\<rparr>"

definition hello_of_daemon :: hello where
  "hello_of_daemon = \<lparr>h_role = ''daemon'', h_name = ''d'', h_secret = ''k'', h_target = []\<rparr>"

definition go :: "nat list \<Rightarrow> env" where
  "go ord = \<lparr>e_recv = None, e_send = True, e_ord = ord\<rparr>"

definition hear :: "hello \<Rightarrow> nat list \<Rightarrow> env" where
  "hear h ord = \<lparr>e_recv = Some (helloFrame h), e_send = True, e_ord = ord\<rparr>"

lemma go_simps [simp]:
  "e_ord (go ord) = ord" "e_send (go ord)" "recv (go ord) c g = None"
  "e_ord (hear h ord) = ord" "e_send (hear h ord)"
  by (simp_all add: go_def hear_def recv_def)

lemma readHello_hear [simp]:
  "hello_ok h \<Longrightarrow> \<not> c_closed (g_conns g c) \<Longrightarrow> readHello (hear h ord) c g = Some h"
  using decode_hello_wire [of h "[]"] by (simp add: readHello_def recv_def helloFrame_def hear_def)

lemma replicate_few:
  "replicate 2 x = [x, x]" "replicate 3 x = [x, x, x]" "replicate 4 x = [x, x, x, x]"
  "replicate 7 x = [x, x, x, x, x, x, x]"
  by (simp_all add: numeral_eq_Suc)

text \<open>The daemon connects, then a bridge, then a second bridge of the same identity; at last the
  handler of the first, whose connection was closed, unwinds its first deferred call.\<close>

definition evict_schedule :: "(nat \<times> env) list" where
  "evict_schedule =
     [(0, hear hello_of_daemon [])] @ replicate 3 (0, go []) @ replicate 2 (0, go [0])
     @ [(1, hear hello_of_bridge [0]), (1, go [0]), (1, go [0])] @ replicate 4 (1, go [0, 1])
     @ [(2, hear hello_of_bridge [0, 1]), (2, go [0, 1]), (2, go [0, 1])] @ replicate 7 (2, go [0, Suc 1])
     @ replicate 2 (1, go [0, Suc 1])"

lemma hellos [simp]:
  "hello_ok hello_of_bridge" "hello_ok hello_of_daemon"
  "h_role hello_of_bridge = ''bridge''" "h_name hello_of_bridge = ''a''" "h_secret hello_of_bridge = ''k''"
  "h_target hello_of_bridge = ''d''" "h_role hello_of_daemon = ''daemon''" "h_name hello_of_daemon = ''d''"
  "h_secret hello_of_daemon = ''k''"
  by (simp_all add: hello_of_bridge_def hello_of_daemon_def hello_ok_def maxStrU8_def maxStrU16_def)

lemma demo_lookup [simp]:
  "LookupAgent (NewCredRegistry demo_config) n
     = (if n = ''a'' then Some \<lparr>a_name = ''a'', a_key_hash = key_hash, a_allowed = [''d'']\<rparr> else None)"
  "LookupDaemon (NewCredRegistry demo_config) n
     = (if n = ''d'' then Some \<lparr>d_name = ''d'', d_token_hash = key_hash\<rparr> else None)"
  by (simp_all add: NewCredRegistry_def LookupAgent_Replace LookupDaemon_Replace demo_config_def)

text \<open>The states of the schedules, three handlers wide, and the calls on them.\<close>

definition demo ::
  "creds \<Rightarrow> thread \<Rightarrow> thread \<Rightarrow> thread \<Rightarrow> conn \<Rightarrow> conn \<Rightarrow> conn \<Rightarrow> session_table \<Rightarrow> registry \<Rightarrow>
   audit_event list \<Rightarrow> gw" where
  "demo cr t0 t1 t2 c0 c1 c2 st reg aud =
     \<lparr>g_creds = cr, g_sessions = st, g_reg = reg, g_audit = aud,
      g_conns = (\<lambda>_. \<lparr>c_out = [], c_closed = False\<rparr>)(0 := c0, 1 := c1, 2 := c2),
      g_threads = (\<lambda>_. \<lparr>t_pc = PDone, t_defers = [], t_cancelled = False\<rparr>)(0 := t0, 1 := t1, 2 := t2),
      g_nconn = 3, g_revoking = []\<rparr>"

lemma demo_sel [simp]:
  "g_creds (demo cr t0 t1 t2 c0 c1 c2 st reg aud) = cr"
  "g_sessions (demo cr t0 t1 t2 c0 c1 c2 st reg aud) = st"
  "g_reg (demo cr t0 t1 t2 c0 c1 c2 st reg aud) = reg"
  "g_nconn (demo cr t0 t1 t2 c0 c1 c2 st reg aud) = 3"
  "g_threads (demo cr t0 t1 t2 c0 c1 c2 st reg aud) 0 = t0"
  "g_threads (demo cr t0 t1 t2 c0 c1 c2 st reg aud) (Suc 0) = t1"
  "g_threads (demo cr t0 t1 t2 c0 c1 c2 st reg aud) 2 = t2"
  "g_conns (demo cr t0 t1 t2 c0 c1 c2 st reg aud) 0 = c0"
  "g_conns (demo cr t0 t1 t2 c0 c1 c2 st reg aud) (Suc 0) = c1"
  "g_conns (demo cr t0 t1 t2 c0 c1 c2 st reg aud) 2 = c2"
  by (simp_all add: demo_def)

lemma demo_revoking [simp]: "g_revoking (demo cr t0 t1 t2 c0 c1 c2 st reg aud) = []"
  by (simp add: demo_def)

lemma demo_upd [simp]:
  "(demo cr t0 t1 t2 c0 c1 c2 st reg aud)\<lparr>g_creds := cr'\<rparr> = demo cr' t0 t1 t2 c0 c1 c2 st reg aud"
  "(demo cr t0 t1 t2 c0 c1 c2 st reg aud)\<lparr>g_revoking := []\<rparr> = demo cr t0 t1 t2 c0 c1 c2 st reg aud"
  "(demo cr t0 t1 t2 c0 c1 c2 st reg aud)\<lparr>g_sessions := st'\<rparr> = demo cr t0 t1 t2 c0 c1 c2 st' reg aud"
  "(demo cr t0 t1 t2 c0 c1 c2 st reg aud)\<lparr>g_reg := reg'\<rparr> = demo cr t0 t1 t2 c0 c1 c2 st reg' aud"
  "set_pc 0 p (demo cr t0 t1 t2 c0 c1 c2 st reg aud) = demo cr (t0\<lparr>t_pc := p\<rparr>) t1 t2 c0 c1 c2 st reg aud"
  "set_pc (Suc 0) p (demo cr t0 t1 t2 c0 c1 c2 st reg aud) = demo cr t0 (t1\<lparr>t_pc := p\<rparr>) t2 c0 c1 c2 st reg aud"
  "set_pc 2 p (demo cr t0 t1 t2 c0 c1 c2 st reg aud) = demo cr t0 t1 (t2\<lparr>t_pc := p\<rparr>) c0 c1 c2 st reg aud"
  "push_defer 0 d (demo cr t0 t1 t2 c0 c1 c2 st reg aud)
     = demo cr (t0\<lparr>t_defers := d # t_defers t0\<rparr>) t1 t2 c0 c1 c2 st reg aud"
  "push_defer (Suc 0) d (demo cr t0 t1 t2 c0 c1 c2 st reg aud)
     = demo cr t0 (t1\<lparr>t_defers := d # t_defers t1\<rparr>) t2 c0 c1 c2 st reg aud"
  "push_defer 2 d (demo cr t0 t1 t2 c0 c1 c2 st reg aud)
     = demo cr t0 t1 (t2\<lparr>t_defers := d # t_defers t2\<rparr>) c0 c1 c2 st reg aud"
  "append_audit ev (demo cr t0 t1 t2 c0 c1 c2 st reg aud) = demo cr t0 t1 t2 c0 c1 c2 st reg (aud @ [ev])"
  "close_conn (Suc 0) (demo cr t0 t1 t2 c0 c1 c2 st reg aud)
     = demo cr t0 t1 t2 c0 (c1\<lparr>c_closed := True\<rparr>) c2 st reg aud"
  "(demo cr t0 t1 t2 c0 c1 c2 st reg aud)\<lparr>g_threads := (g_threads (demo cr t0 t1 t2 c0 c1 c2 st reg aud))(Suc 0 := t)\<rparr>
     = demo cr t0 t t2 c0 c1 c2 st reg aud"
  by (simp_all add: demo_def set_pc_def push_defer_def append_audit_def close_conn_def fun_eq_iff)

lemma demo_send [simp]:
  "e_send env \<Longrightarrow> \<not> c_closed c0 \<Longrightarrow> send env 0 f (demo cr t0 t1 t2 c0 c1 c2 st reg aud)
     = demo cr t0 t1 t2 (c0\<lparr>c_out := c_out c0 @ [f]\<rparr>) c1 c2 st reg aud"
  "e_send env \<Longrightarrow> \<not> c_closed c1 \<Longrightarrow> send env (Suc 0) f (demo cr t0 t1 t2 c0 c1 c2 st reg aud)
     = demo cr t0 t1 t2 c0 (c1\<lparr>c_out := c_out c1 @ [f]\<rparr>) c2 st reg aud"
  "e_send env \<Longrightarrow> \<not> c_closed c2 \<Longrightarrow> send env 2 f (demo cr t0 t1 t2 c0 c1 c2 st reg aud)
     = demo cr t0 t1 t2 c0 c1 (c2\<lparr>c_out := c_out c2 @ [f]\<rparr>) st reg aud"
  by (simp_all add: demo_def send_def send_ok_def fun_eq_iff)

definition demo_start :: gw where
  "demo_start = accept (accept (accept (NewInstance demo_config)))"

abbreviation fresh_thread :: thread where
  "fresh_thread \<equiv> \<lparr>t_pc = PHello, t_defers = [DClose], t_cancelled = False\<rparr>"
abbreviation fresh_conn :: conn where "fresh_conn \<equiv> \<lparr>c_out = [], c_closed = False\<rparr>"

lemma demo_start:
  "demo_start = demo (NewCredRegistry demo_config) fresh_thread fresh_thread fresh_thread
     fresh_conn fresh_conn fresh_conn NewSessionTable NewRegistry []"
  by (simp add: demo_start_def demo_def accept_def NewInstance_def fun_eq_iff)

lemma reachable_demo_start: "reachable demo_config demo_start"
  unfolding demo_start_def by (intro reachable.step [OF _ step_accept] reachable.init)

lemmas demo_simps =
  demo_start replicate_few handler_step_def handleConn_step_def enumerates_def NewSessionTable_def
  NewRegistry_def RegistryLookup_def Let_def contains_def NewDaemonProxy_def RegistryRegister_def
  Register_def ReplaceByRoleName_def same_identity_def get_session_def release_def

lemma evict_run:
  "drive_ok evict_schedule demo_start"
  "pc_of (drive evict_schedule demo_start) 2 = PBridge hello_of_bridge (BLoop 0)"
  "\<not> c_closed (g_conns (drive evict_schedule demo_start) 2)"
  "rg_daemons (g_reg (drive evict_schedule demo_start)) ''d'' = Some 0"
  "writer (g_reg (drive evict_schedule demo_start)) 0 = None"
  by (simp_all add: evict_schedule_def demo_simps unwind_step_def recv_def)

text \<open>A bridge is authenticated; the credentials are replaced by an empty configuration and the
  revocation runs to its end; then the bridge's handler goes on.\<close>

definition empty_config :: gateway_config where
  "empty_config = demo_config\<lparr>gc_agents := [], gc_daemons := []\<rparr>"

definition race_start :: gw where
  "race_start = drive [(0, hear hello_of_bridge []), (0, go [])] demo_start"

definition race_reloaded :: gw where
  "race_reloaded = revoke_start [] (race_start\<lparr>g_creds := Replace empty_config (g_creds race_start)\<rparr>)"

definition race_end :: gw where
  "race_end = drive [(0, go []), (0, go [0]), (0, go [0])] race_reloaded"

lemma race_run:
  "reachable demo_config race_end" "g_revoking race_end = []"
  "pc_of race_end 0 = PBridge hello_of_bridge BLookup"
  "\<not> c_closed (g_conns race_end 0)"
  "LookupAgent (g_creds race_end) ''a'' = None"
  "get_session (g_sessions race_end) 0
     = Some \<lparr>s_role = ''bridge'', s_name = ''a'', s_hash = key_hash, s_conn = 0\<rparr>"
proof -
  have start: "race_start = demo (NewCredRegistry demo_config)
      (fresh_thread\<lparr>t_pc := PBridge hello_of_bridge (BSession key_hash)\<rparr>) fresh_thread fresh_thread
      fresh_conn fresh_conn fresh_conn NewSessionTable NewRegistry []"
    by (simp add: race_start_def demo_simps)
  have "reachable demo_config race_start"
    unfolding race_start_def
    by (rule reachable_drive [OF reachable_demo_start]) (simp add: demo_simps)
  moreover have "g_revoking race_start = []" "enumerates [] (g_sessions race_start)"
    by (simp_all add: start demo_def enumerates_def NewSessionTable_def)
  ultimately have r: "reachable demo_config race_reloaded"
    unfolding race_reloaded_def
    by (intro reachable.step [OF reachable.step [OF _ step_reload] step_revoke]) simp_all
  have re: "race_reloaded = demo (Replace empty_config (NewCredRegistry demo_config))
      (fresh_thread\<lparr>t_pc := PBridge hello_of_bridge (BSession key_hash)\<rparr>) fresh_thread fresh_thread
      fresh_conn fresh_conn fresh_conn NewSessionTable NewRegistry []"
    by (simp add: race_reloaded_def start revoke_start_def snapshot_def)
  have "drive_ok [(0, go []), (0, go [0]), (0, go [0])] race_reloaded"
    by (simp add: re demo_simps)
  with r show "reachable demo_config race_end"
    unfolding race_end_def by (rule reachable_drive)
  show "g_revoking race_end = []" "pc_of race_end 0 = PBridge hello_of_bridge BLookup"
    "\<not> c_closed (g_conns race_end 0)" "LookupAgent (g_creds race_end) ''a'' = None"
    "get_session (g_sessions race_end) 0
      = Some \<lparr>s_role = ''bridge'', s_name = ''a'', s_hash = key_hash, s_conn = 0\<rparr>"
    by (simp_all add: race_end_def re demo_simps LookupAgent_Replace empty_config_def)
qed

section \<open>Properties\<close>

text \<open>C1: In every reachable state an agent has at most one bridge session, and every session of the
  table belongs to a handler that has not returned and that will release it.\<close>

theorem one_bridge_per_agent:
  assumes "reachable cfg g"
  shows "(\<forall>i j a b. get_session (g_sessions g) i = Some a \<longrightarrow> get_session (g_sessions g) j = Some b
      \<longrightarrow> s_role a = ''bridge'' \<longrightarrow> s_role b = ''bridge'' \<longrightarrow> s_name a = s_name b \<longrightarrow> i = j)
    \<and> (\<forall>i s. get_session (g_sessions g) i = Some s \<longrightarrow>
        pc_of g (s_conn s) \<noteq> PDone \<and> DRelease i \<in> set (defers g (s_conn s)))"
proof -
  have s: "sessions_ok g" and st: "stacks_ok g"
    using assms reachable_sessions reachable_stacks by blast+
  have "pc_of g (s_conn x) \<noteq> PDone" if "DRelease i \<in> set (defers g (s_conn x))" for i x
    using that stacks_okD [OF st, of "s_conn x"] by auto
  with s show ?thesis unfolding sessions_ok_def unique_role_def by blast
qed

theorem one_bridge_per_agent_witness:
  "pc_of race_end 0 \<noteq> PDone \<and> DRelease 0 \<in> set (defers race_end 0)"
  using one_bridge_per_agent [OF race_run(1)] race_run(6) by fastforce

text \<open>C13: A registered name leads to the proxy of a handler that has not returned and will
  unregister it; two daemon handlers in their read loops under one name are the same handler, and
  it is the one the name leads to.\<close>

theorem one_daemon_per_name:
  assumes "reachable cfg g"
  shows "(\<forall>n p. RegistryLookup (g_reg g) n = Some p \<longrightarrow>
      pc_of g (proxy_conn (g_reg g) p) \<noteq> PDone
      \<and> DUnregister n \<in> set (defers g (proxy_conn (g_reg g) p)))
    \<and> (\<forall>c h q. pc_of g c = PDaemon h (DLoop q) \<longrightarrow>
      (\<exists>p. RegistryLookup (g_reg g) (h_name h) = Some p \<and> proxy_conn (g_reg g) p = c))"
proof -
  have r: "registry_ok g" and st: "stacks_ok g"
    using assms reachable_registry reachable_stacks by blast+
  have "pc_of g c \<noteq> PDone" if "DUnregister n \<in> set (defers g c)" for n c
    using that stacks_okD [OF st, of c] by auto
  moreover have "DUnregister (h_name h) \<in> set (defers g c)" if "pc_of g c = PDaemon h (DLoop q)" for c h q
    using that stacks_okD [OF st, of c] by auto
  ultimately show ?thesis using r unfolding registry_ok_def RegistryLookup_def by blast
qed

theorem one_daemon_per_name_witness:
  "pc_of (drive evict_schedule demo_start) (proxy_conn (g_reg (drive evict_schedule demo_start)) 0) \<noteq> PDone"
  using one_daemon_per_name [OF reachable_drive [OF reachable_demo_start evict_run(1)]] evict_run(4)
  by (fastforce simp: RegistryLookup_def)

text \<open>C14: The audit log is a ledger: for every role, name and target the connects exceed the
  disconnects by the number of handlers that still owe one, so when every handler has returned the
  two counts agree.\<close>

theorem audit_ledger:
  assumes "reachable cfg g"
  shows "ev_open r n t g = ev_close r n t g + owed r n t g
    \<and> ((\<forall>c. pc_of g c = PDone) \<longrightarrow> ev_open r n t g = ev_close r n t g)"
proof -
  have l: "ledger_ok g" and st: "stacks_ok g"
    using assms reachable_ledger reachable_stacks by blast+
  have "owed r n t g = 0" if "\<forall>c. pc_of g c = PDone"
    unfolding owed_def using that stacks_okD [OF st] by simp
  with l show ?thesis by (simp add: ledger_ok_def)
qed

theorem audit_ledger_witness:
  "ev_open ''bridge'' ''a'' (Some ''d'') race_end
     = ev_close ''bridge'' ''a'' (Some ''d'') race_end + owed ''bridge'' ''a'' (Some ''d'') race_end"
  using audit_ledger [OF race_run(1)] by blast



text \<open>There is a schedule after which an agent's newer bridge is in its forwarding loop on an open
  connection, the daemon is registered, and yet the proxy has no writer: the deferred
  \<open>SetWriter(nil)\<close> of the replaced handler has cleared the newer bridge's callback, so everything
  the daemon answers is dropped.\<close>

theorem replaced_handler_clears_writer:
  "\<exists>g. reachable demo_config g \<and> pc_of g 2 = PBridge hello_of_bridge (BLoop 0)
     \<and> \<not> c_closed (g_conns g 2) \<and> RegistryLookup (g_reg g) (h_target hello_of_bridge) = Some 0
     \<and> writer (g_reg g) 0 = None"
  using reachable_drive [OF reachable_demo_start evict_run(1)] evict_run(2-5)
  by (intro exI [of _ "drive evict_schedule demo_start"]) (simp add: RegistryLookup_def)

text \<open>A reload with revocation does not sever every session of a removed agent: a handler that was
  authenticated before the reload and registers its session after the revocation's snapshot stays
  admitted, with its connection open and nothing left to revoke it.\<close>

theorem revocation_race:
  "\<exists>g s. reachable demo_config g \<and> get_session (g_sessions g) 0 = Some s
     \<and> pc_of g (s_conn s) = PBridge hello_of_bridge BLookup \<and> \<not> c_closed (g_conns g (s_conn s))
     \<and> \<not> keep_session (g_creds g) s \<and> g_revoking g = []"
  using race_run by (intro exI [of _ race_end]) (simp add: keep_session_def)

end
