(* ===== verification/Gateway_Trace.thy ===== *)
theory Gateway_Trace
  imports Gateway_Props
begin

text \<open>
  The history of a run of the gateway: what its handlers took from their connections, what they found in the
  credentials, and for which name each proxy was made.  Everything a daemon's connection has been sent is traced
  back to such an event.
\<close>

section \<open>Runs with their history\<close>

datatype event =
    Took nat frame
  | Looked nat "agent_entry option"
  | Made string nat

definition took :: "env \<Rightarrow> nat \<Rightarrow> gw \<Rightarrow> event list" where
  "took env c g = (case recv env c g of None \<Rightarrow> [] | Some f \<Rightarrow> [Took c f])"

fun step_events :: "pc \<Rightarrow> env \<Rightarrow> nat \<Rightarrow> gw \<Rightarrow> event list" where
  "step_events PHello env c g = took env c g"
| "step_events (PDaemon h (DLoop p)) env c g = took env c g"
| "step_events (PDaemon h (DRegister hash)) env c g = [Made (h_name h) (rg_next (g_reg g))]"
| "step_events (PBridge h (BLoop p)) env c g = took env c g"
| "step_events (PBridge h BAuth) env c g = [Looked c (LookupAgent (g_creds g) (h_name h))]"
| "step_events _ env c g = []"

text \<open>\<open>history cfg es g\<close>: the gateway started with \<open>cfg\<close> can be in state \<open>g\<close> after the events \<open>es\<close>.\<close>

inductive history :: "gateway_config \<Rightarrow> event list \<Rightarrow> gw \<Rightarrow> bool" for cfg where
  h_init: "history cfg [] (NewInstance cfg)"
| h_handler: "history cfg es g \<Longrightarrow> c < g_nconn g \<Longrightarrow> enumerates (e_ord env) (g_sessions g) \<Longrightarrow>
    history cfg (es @ step_events (pc_of g c) env c g) (handler_step env c g)"
| h_accept: "history cfg es g \<Longrightarrow> history cfg es (accept g)"
| h_reload: "history cfg es g \<Longrightarrow> history cfg es (g\<lparr>g_creds := Replace cfg' (g_creds g)\<rparr>)"
| h_add_agent: "history cfg es g \<Longrightarrow> history cfg es (g\<lparr>g_creds := AddAgent a (g_creds g)\<rparr>)"
| h_add_daemon: "history cfg es g \<Longrightarrow> history cfg es (g\<lparr>g_creds := AddDaemon d (g_creds g)\<rparr>)"
| h_revoke: "history cfg es g \<Longrightarrow> g_revoking g = [] \<Longrightarrow> enumerates ord (g_sessions g) \<Longrightarrow>
    history cfg es (revoke_start ord g)"
| h_revoke_next: "history cfg es g \<Longrightarrow> g_revoking g \<noteq> [] \<Longrightarrow> history cfg es (revoke_next g)"

text \<open>The histories are those of the reachable states, and every reachable state has one.\<close>

lemma history_reachable: "history cfg es g \<Longrightarrow> reachable cfg g"
  by (induction rule: history.induct) (auto intro: reachable.intros gw_step.intros)

lemma reachable_history: "reachable cfg g \<Longrightarrow> \<exists>es. history cfg es g"
proof (induction rule: reachable.induct)
  case init
  then show ?case by (blast intro: h_init)
next
  case (step g g')
  then obtain es where h: "history cfg es g" by blast
  from step(2) show ?case by cases (use h in \<open>blast intro: history.intros\<close>)+
qed

section \<open>What a history vouches for\<close>

text \<open>The handler of \<open>c\<close> took the hello \<open>h\<close> of a bridge; the credentials then had an agent of that name whose key
  the hello carries and which may reach the target.\<close>

definition said_hello :: "event list \<Rightarrow> nat \<Rightarrow> hello \<Rightarrow> bool" where
  "said_hello es c h \<longleftrightarrow> h_role h = ''bridge'' \<and>
     (\<exists>f. Took c f \<in> set es \<and> f_type f = FrameTypeHello \<and> decode_hello (f_payload f) = Ok h)"

definition let_in :: "event list \<Rightarrow> nat \<Rightarrow> hello \<Rightarrow> bool" where
  "let_in es c h \<longleftrightarrow>
     (\<exists>e. Looked c (Some e) \<in> set es \<and> SecretMatches (h_secret h) (a_key_hash e) \<and> h_target h \<in> set (a_allowed e))"

text \<open>The frame \<open>f\<close> is one that the bridge on \<open>c\<close> handed in: the inner bytes of a Route frame it signed with its
  key, or a handshake frame as it came.\<close>

definition handed_in :: "event list \<Rightarrow> nat \<Rightarrow> hello \<Rightarrow> frame \<Rightarrow> bool" where
  "handed_in es c h f \<longleftrightarrow>
     (f_type f = FrameTypeRoute \<and> f_reqid f = [] \<and>
        (\<exists>fr. Took c fr \<in> set es \<and> f_type fr = FrameTypeRoute
           \<and> f_payload fr = SignFrame (bytes_of (h_secret h)) (f_payload f)))
     \<or> (f_type f \<in> {FrameTypeNoiseInit, FrameTypeNoiseRekey} \<and> Took c f \<in> set es)"

fun named :: "bridge_pc \<Rightarrow> nat option" where
  "named (BSetWriter p) = Some p"
| "named (BLoop p) = Some p"
| "named (BForward p f) = Some p"
| "named _ = None"

fun pc_told :: "event list \<Rightarrow> nat \<Rightarrow> pc \<Rightarrow> bool" where
  "pc_told es c (PBridge h q) \<longleftrightarrow> said_hello es c h \<and> (q = BAuth \<or> let_in es c h)
     \<and> (\<forall>p. named q = Some p \<longrightarrow> Made (h_target h) p \<in> set es)
     \<and> (\<forall>p f. q = BForward p f \<longrightarrow> handed_in es c h f)"
| "pc_told es c _ \<longleftrightarrow> True"

definition from_bridge :: "event list \<Rightarrow> nat \<Rightarrow> frame \<Rightarrow> bool" where
  "from_bridge es p f \<longleftrightarrow>
     (\<exists>c h. said_hello es c h \<and> let_in es c h \<and> Made (h_target h) p \<in> set es \<and> handed_in es c h f)"

text \<open>What the gateway sends of its own.\<close>

definition own_frame :: "frame \<Rightarrow> bool" where
  "own_frame f \<longleftrightarrow> f = ackFrame \<or> (\<exists>code. f = errFrame code)"

definition told :: "event list \<Rightarrow> gw \<Rightarrow> bool" where
  "told es g \<longleftrightarrow>
     (\<forall>n p. rg_daemons (g_reg g) n = Some p \<longrightarrow> Made n p \<in> set es)
     \<and> (\<forall>n p. Made n p \<in> set es \<longrightarrow> p < rg_next (g_reg g))
     \<and> (\<forall>n m p. Made n p \<in> set es \<longrightarrow> Made m p \<in> set es \<longrightarrow> n = m)
     \<and> inj_on (proxy_conn (g_reg g)) {..<rg_next (g_reg g)}
     \<and> (\<forall>c. pc_told es c (pc_of g c))
     \<and> (\<forall>c as f. pc_of g c = PExit as \<longrightarrow> ASend f \<in> set as \<longrightarrow> own_frame f)
     \<and> (\<forall>d f. f \<in> set (c_out (g_conns g d)) \<longrightarrow> bridge_side g d \<or> own_frame f
          \<or> (\<exists>p < rg_next (g_reg g). proxy_conn (g_reg g) p = d \<and> from_bridge es p f))"

text \<open>A longer history vouches for as much.\<close>

lemma told_more:
  assumes "set es \<subseteq> set es'"
  shows "said_hello es c h \<Longrightarrow> said_hello es' c h" "let_in es c h \<Longrightarrow> let_in es' c h"
    "handed_in es c h f \<Longrightarrow> handed_in es' c h f" "pc_told es c q \<Longrightarrow> pc_told es' c q"
    "from_bridge es p f \<Longrightarrow> from_bridge es' p f"
proof -
  show s: "said_hello es c h \<Longrightarrow> said_hello es' c h" and l: "let_in es c h \<Longrightarrow> let_in es' c h"
    and f: "handed_in es c h f \<Longrightarrow> handed_in es' c h f" for c h f
    using assms unfolding said_hello_def let_in_def handed_in_def by blast+
  show "pc_told es c q \<Longrightarrow> pc_told es' c q"
    by (cases q) (use s l f assms in auto)
  show "from_bridge es p f \<Longrightarrow> from_bridge es' p f"
    using s l f assms unfolding from_bridge_def by blast
qed

section \<open>One step of a handler\<close>

lemma own_frames [simp]: "own_frame ackFrame" "own_frame (errFrame code)"
  by (auto simp: own_frame_def)

lemma exit_own_handler:
  assumes "\<And>as f. pc_of g c = PExit as \<Longrightarrow> ASend f \<in> set as \<Longrightarrow> own_frame f"
    and "pc_of (handler_step env c g) c = PExit as" "ASend f \<in> set as"
  shows "own_frame f"
proof (cases "pc_of g c")
  case PHello
  with assms(2,3) show ?thesis by (auto simp: handler_step_def handleConn_step_def split: option.splits if_splits)
next
  case (PDaemon h d)
  with assms(2,3) show ?thesis
    by (cases d) (auto simp: handler_step_def Let_def case_prod_beta split: option.splits sum.splits if_splits)
next
  case (PBridge h d)
  with assms(2,3) show ?thesis
    by (cases d) (auto simp: handler_step_def Let_def split: option.splits sum.splits prod.splits if_splits)
next
  case (PExit as')
  with assms show ?thesis by (cases as'; cases "hd as'") (auto simp: handler_step_def)
next
  case PUnwind
  with assms(2,3) show ?thesis
    by (cases "defers g c"; cases "hd (defers g c)") (auto simp: handler_step_def unwind_step_def)
qed (use assms(2,3) in \<open>auto simp: handler_step_def\<close>)

lemma contains_iff [simp]: "contains xs x \<longleftrightarrow> x \<in> set xs"
  by (simp add: contains_def list_ex_iff)

lemma pc_told_handler:
  assumes t: "told es g" and es: "es' = es @ step_events (pc_of g c) env c g"
  shows "pc_told es' c (pc_of (handler_step env c g) c)"
proof -
  have sub: "set es \<subseteq> set es'" by (simp add: es)
  have old: "pc_told es' c (pc_of g c)" using told_more(4) [OF sub] t unfolding told_def by blast
  show ?thesis
  proof (cases "pc_of g c")
    case PHello
    then show ?thesis
      by (auto simp: handler_step_def handleConn_step_def readHello_def said_hello_def es took_def
          split: option.splits if_splits sum.splits)
  next
    case (PDaemon h d)
    then show ?thesis
      by (cases d) (auto simp: handler_step_def Let_def case_prod_beta split: option.splits sum.splits if_splits)
  next
    case (PBridge h d)
    have reg: "Made n p \<in> set es'" if "RegistryLookup (g_reg g) n = Some p" for n p
      using that t sub by (auto simp: told_def RegistryLookup_def)
    from PBridge old reg show ?thesis
      by (cases d) (auto simp: handler_step_def Let_def let_in_def handed_in_def es took_def VerifyFrame_Ok_iff
          split: option.splits sum.splits prod.splits if_splits)
  next
    case (PExit as)
    then show ?thesis by (cases as; cases "hd as") (auto simp: handler_step_def)
  next
    case PUnwind
    then show ?thesis
      by (cases "defers g c"; cases "hd (defers g c)") (auto simp: handler_step_def unwind_step_def)
  qed (simp add: handler_step_def)
qed

lemma out_told_handler:
  assumes f: "f \<in> set (c_out (g_conns (handler_step env c g) d))" and t: "told es g"
  shows "f \<in> set (c_out (g_conns g d)) \<or> own_frame f \<or> delivers_to (pc_of g c) = Some d
    \<or> (\<exists>p < rg_next (g_reg g). proxy_conn (g_reg g) p = d \<and> from_bridge es p f)"
proof (cases "pc_of g c")
  case PHello
  with f show ?thesis by (auto simp: handler_step_def handleConn_step_def split: option.splits if_splits)
next
  case (PDaemon h q)
  with f show ?thesis
    by (cases q) (auto simp: handler_step_def Let_def case_prod_beta split: option.splits sum.splits if_splits)
next
  case (PBridge h q)
  show ?thesis
  proof (cases "\<exists>p f'. q = BForward p f'")
    case True
    then obtain p f' where q: "q = BForward p f'" by blast
    have "pc_told es c (PBridge h (BForward p f'))" using t PBridge q unfolding told_def by metis
    then have b: "from_bridge es p f'" "Made (h_target h) p \<in> set es" unfolding from_bridge_def by auto
    then have "p < rg_next (g_reg g)" using t unfolding told_def by blast
    with b f PBridge q show ?thesis by (auto simp: handler_step_def Let_def split: if_splits)
  next
    case False
    with f PBridge show ?thesis
      by (cases q) (auto simp: handler_step_def Let_def split: option.splits sum.splits prod.splits if_splits)
  qed
next
  case (PExit as)
  with f t show ?thesis
    by (cases as; cases "hd as") (auto simp: handler_step_def told_def split: if_splits)
next
  case PUnwind
  with f show ?thesis
    by (cases "defers g c"; cases "hd (defers g c)") (auto simp: handler_step_def unwind_step_def)
qed (use f in \<open>auto simp: handler_step_def\<close>)

text \<open>What a step does to the names of the proxies.\<close>

lemma made_events:
  "Made n p \<in> set (step_events q env c g) \<longleftrightarrow> (\<exists>h hash. q = PDaemon h (DRegister hash) \<and> n = h_name h \<and> p = rg_next (g_reg g))"
  by (cases "(q, env, c, g)" rule: step_events.cases) (auto simp: took_def split: option.splits)

lemma reg_handler:
  assumes "pc_of g c = PDaemon h (DRegister hash)"
  shows "rg_next (g_reg (handler_step env c g)) = Suc (rg_next (g_reg g))"
    "proxy_conn (g_reg (handler_step env c g)) p = (if p = rg_next (g_reg g) then c else proxy_conn (g_reg g) p)"
    "rg_daemons (g_reg (handler_step env c g)) n = Some p \<Longrightarrow>
       rg_daemons (g_reg g) n = Some p \<or> n = h_name h \<and> p = rg_next (g_reg g)"
  using assms by (auto simp: handler_step_def Let_def case_prod_beta RegistryRegister_def split: if_splits)

lemma unreg_handler:
  assumes "\<And>h hash. pc_of g c \<noteq> PDaemon h (DRegister hash)"
  shows "rg_next (g_reg (handler_step env c g)) = rg_next (g_reg g)"
    "proxy_conn (g_reg (handler_step env c g)) p = proxy_conn (g_reg g) p"
    "rg_daemons (g_reg (handler_step env c g)) n = Some q \<Longrightarrow> rg_daemons (g_reg g) n = Some q"
  using handler_reg_effect [of c g env] assms by (cases; auto split: if_splits)+

lemma told_registry_handler:
  assumes t: "told es g" and r: "routes_ok g" and es: "es' = es @ step_events (pc_of g c) env c g"
  defines "g' \<equiv> handler_step env c g"
  shows "(\<forall>n p. rg_daemons (g_reg g') n = Some p \<longrightarrow> Made n p \<in> set es')
    \<and> (\<forall>n p. Made n p \<in> set es' \<longrightarrow> p < rg_next (g_reg g'))
    \<and> (\<forall>n m p. Made n p \<in> set es' \<longrightarrow> Made m p \<in> set es' \<longrightarrow> n = m)
    \<and> inj_on (proxy_conn (g_reg g')) {..<rg_next (g_reg g')}
    \<and> (\<forall>p < rg_next (g_reg g). p < rg_next (g_reg g') \<and> proxy_conn (g_reg g') p = proxy_conn (g_reg g) p)"
proof (cases "\<exists>h hash. pc_of g c = PDaemon h (DRegister hash)")
  case True
  then obtain h hash where pc: "pc_of g c = PDaemon h (DRegister hash)" by blast
  note R = reg_handler [OF pc, of env, folded g'_def]
  have made: "Made n p \<in> set es' \<longleftrightarrow> Made n p \<in> set es \<or> n = h_name h \<and> p = rg_next (g_reg g)" for n p
    by (auto simp: es pc)
  have lt: "Made n p \<in> set es \<Longrightarrow> p < rg_next (g_reg g)" for n p using t unfolding told_def by blast
  have new: "c \<noteq> proxy_conn (g_reg g) p" if "p < rg_next (g_reg g)" for p
    using r that pc unfolding routes_ok_def daemon_conn_def by (metis early.simps(3))
  have inj: "inj_on (proxy_conn (g_reg g)) {..<rg_next (g_reg g)}" using t unfolding told_def by blast
  have "inj_on (proxy_conn (g_reg g')) {..<rg_next (g_reg g')}"
    unfolding R(1) lessThan_Suc by (rule inj_onI) (use inj new R(2) in \<open>auto simp: inj_on_def split: if_splits\<close>)
  moreover have "\<forall>n m p. Made n p \<in> set es' \<longrightarrow> Made m p \<in> set es' \<longrightarrow> n = m"
    using t lt unfolding made told_def by blast
  moreover have "\<forall>n p. rg_daemons (g_reg g') n = Some p \<longrightarrow> Made n p \<in> set es'"
    using t R(3) unfolding made told_def by blast
  ultimately show ?thesis using R(1,2) made lt by (auto simp: less_Suc_eq)
next
  case False
  note R = unreg_handler [of g c env, folded g'_def]
  have nr: "pc_of g c \<noteq> PDaemon h (DRegister hash)" for h hash using False by blast
  have made: "Made n p \<in> set es' \<longleftrightarrow> Made n p \<in> set es" for n p
    using made_events [of n p "pc_of g c" env c g] nr by (auto simp: es)
  have "proxy_conn (g_reg g') = proxy_conn (g_reg g)" using R(2) [OF nr] by blast
  with R(1) [OF nr] R(3) [OF nr] t show ?thesis unfolding told_def made by metis
qed

lemma told_handler:
  assumes t: "told es g" and r: "routes_ok g"
  shows "told (es @ step_events (pc_of g c) env c g) (handler_step env c g)"
proof -
  let ?es = "es @ step_events (pc_of g c) env c g" and ?g = "handler_step env c g"
  have sub: "set es \<subseteq> set ?es" by simp
  note reg = told_registry_handler [OF t r refl, where c = c and env = env]
  have pcs: "pc_told ?es x (pc_of ?g x)" for x
  proof (cases "x = c")
    case True
    with pc_told_handler [OF t refl] show ?thesis by simp
  next
    case False
    with t told_more(4) [OF sub] show ?thesis by (simp add: told_def)
  qed
  have exits: "own_frame f" if "pc_of ?g x = PExit as" "ASend f \<in> set as" for x as f
  proof (cases "x = c")
    case True
    with that exit_own_handler [of g c env as f] t show ?thesis unfolding told_def by blast
  next
    case False
    with that t show ?thesis unfolding told_def by (metis handler_step_other)
  qed
  have old: "bridge_side ?g d \<or> own_frame f \<or> (\<exists>p < rg_next (g_reg ?g). proxy_conn (g_reg ?g) p = d \<and> from_bridge ?es p f)"
    if "bridge_side g d \<or> own_frame f \<or> (\<exists>p < rg_next (g_reg g). proxy_conn (g_reg g) p = d \<and> from_bridge es p f)" for d f
    using that bridge_side_handler reg told_more(5) [OF sub] by metis
  have outs: "bridge_side ?g d \<or> own_frame f \<or> (\<exists>p < rg_next (g_reg ?g). proxy_conn (g_reg ?g) p = d \<and> from_bridge ?es p f)"
    if "f \<in> set (c_out (g_conns ?g d))" for d f
  proof (rule old)
    show "bridge_side g d \<or> own_frame f \<or> (\<exists>p < rg_next (g_reg g). proxy_conn (g_reg g) p = d \<and> from_bridge es p f)"
      using out_told_handler [OF that t] t r unfolding told_def routes_ok_def by blast
  qed
  from reg pcs exits outs show ?thesis unfolding told_def by blast
qed

text \<open>The other steps neither send nor register nor move a handler, but for accepting a connection.\<close>

lemma told_accept:
  assumes t: "told es g" and s: "stacks_ok g"
  shows "told es (accept g)"
proof -
  have same: "g_reg (accept g) = g_reg g" "g_conns (accept g) = g_conns g"
    "pc_of (accept g) x = (if x = g_nconn g then PHello else pc_of g x)" for x
    by (simp_all add: accept_def)
  have side: "bridge_side (accept g) b" if "bridge_side g b" for b
    using that by (auto simp: bridge_side_def accept_def daemon_conn_def)
  have "pc_told es x (pc_of (accept g) x)" "pc_of (accept g) x = PExit as \<Longrightarrow> pc_of g x = PExit as" for x as
    using t by (auto simp: same told_def split: if_splits)
  with t side show ?thesis unfolding told_def same(1,2) by blast
qed

lemma told_same:
  assumes "told es g" "g_reg g' = g_reg g" "g_threads g' = g_threads g" "g_nconn g' = g_nconn g"
    "\<And>x. c_out (g_conns g' x) = c_out (g_conns g x)"
  shows "told es g'"
proof -
  have "bridge_side g' b = bridge_side g b" for b using assms by (simp add: bridge_side_def daemon_conn_def)
  with assms show ?thesis by (simp add: told_def)
qed

lemma history_told: "history cfg es g \<Longrightarrow> told es g"
proof (induction rule: history.induct)
  case h_init
  show ?case by (simp add: told_def NewInstance_def NewRegistry_def)
next
  case (h_handler es g c env)
  then show ?case using told_handler reachable_routes history_reachable by blast
next
  case (h_accept es g)
  then show ?case using told_accept reachable_stacks history_reachable by blast
qed (erule told_same; simp add: revoke_start_def)+

section \<open>Property\<close>

text \<open>C2: Whatever bridges send, a registered daemon's connection has been sent nothing but the gateway's own
  acknowledgement and error frames and what a bridge handed in for this daemon.  Of each frame of the latter kind
  the history has the hello, of role bridge and naming this daemon as its target, and an entry of the credentials under
  which the gateway let that connection in: the hello carries the agent's key and the entry allows the
  target.  The frame is then either a Noise handshake frame that this connection sent as it is, or a Route frame whose
  payload that connection sent under a valid MAC of the same key, now without the MAC and the request id.\<close>

theorem daemon_conn_isolated:
  assumes run: "history cfg es g" and reg: "RegistryLookup (g_reg g) n = Some p"
    and f: "f \<in> set (c_out (g_conns g (proxy_conn (g_reg g) p)))"
  shows "f = ackFrame \<or> (\<exists>code. f = errFrame code)
    \<or> (\<exists>c h hf e. Took c hf \<in> set es \<and> f_type hf = FrameTypeHello \<and> decode_hello (f_payload hf) = Ok h
         \<and> h_role h = ''bridge'' \<and> h_target h = n
         \<and> Looked c (Some e) \<in> set es \<and> SecretMatches (h_secret h) (a_key_hash e) \<and> n \<in> set (a_allowed e)
         \<and> (f_type f \<in> {FrameTypeNoiseInit, FrameTypeNoiseRekey} \<and> Took c f \<in> set es
            \<or> f_type f = FrameTypeRoute \<and> f_reqid f = []
              \<and> (\<exists>fr. Took c fr \<in> set es \<and> f_type fr = FrameTypeRoute
                   \<and> f_payload fr = SignFrame (bytes_of (h_secret h)) (f_payload f))))"
proof -
  note t = history_told [OF run]
  have made: "Made n p \<in> set es" and lt: "p < rg_next (g_reg g)"
    using t reg unfolding told_def RegistryLookup_def by blast+
  have "\<not> bridge_side g (proxy_conn (g_reg g) p)" using lt by (auto simp: bridge_side_def daemon_conn_def)
  with t f consider "own_frame f"
    | q where "q < rg_next (g_reg g)" "proxy_conn (g_reg g) q = proxy_conn (g_reg g) p" "from_bridge es q f"
    unfolding told_def by blast
  then show ?thesis
  proof cases
    case 1
    then show ?thesis unfolding own_frame_def by blast
  next
    case 2
    have "q = p" using t 2(1,2) lt unfolding told_def inj_on_def by blast
    with 2(3) obtain c h where b: "said_hello es c h" "let_in es c h" "Made (h_target h) p \<in> set es" "handed_in es c h f"
      unfolding from_bridge_def by blast
    have "h_target h = n" using t b(3) made unfolding told_def by blast
    with b show ?thesis unfolding said_hello_def let_in_def handed_in_def by blast
  qed
qed

text \<open>The schedule of \<open>evict_schedule\<close> goes on: the second bridge hands in a signed route, which is forwarded.\<close>

definition demo_route :: frame where
  "demo_route = \<lparr>f_type = FrameTypeRoute, f_reqid = [], f_payload = [7]\<rparr>"

definition signed_route :: frame where
  "signed_route = \<lparr>f_type = FrameTypeRoute, f_reqid = ''r'', f_payload = SignFrame (bytes_of ''k'') [7]\<rparr>"

definition route_schedule :: "(nat \<times> env) list" where
  "route_schedule = evict_schedule
     @ [(2, \<lparr>e_recv = Some signed_route, e_send = True, e_ord = [0, Suc 1]\<rparr>), (2, go [0, Suc 1])]"

lemma route_run:
  "drive_ok route_schedule demo_start"
  "RegistryLookup (g_reg (drive route_schedule demo_start)) ''d'' = Some 0"
  "demo_route \<in> set (c_out (g_conns (drive route_schedule demo_start) (proxy_conn (g_reg (drive route_schedule demo_start)) 0)))"
  by (simp_all add: route_schedule_def evict_schedule_def demo_simps unwind_step_def recv_def proxy_conn_def SetWriter_def
      signed_route_def demo_route_def send_ok_def)

theorem daemon_conn_isolated_witness:
  "\<exists>es g c fr. \<exists>h :: hello. history demo_config es g \<and> demo_route \<in> set (c_out (g_conns g (proxy_conn (g_reg g) 0)))
     \<and> Took c fr \<in> set es \<and> f_payload fr = SignFrame (bytes_of (h_secret h)) [7] \<and> h_target h = ''d''"
proof -
  let ?g = "drive route_schedule demo_start"
  obtain es where es: "history demo_config es ?g"
    using reachable_history [OF reachable_drive [OF reachable_demo_start route_run(1)]] by blast
  have "demo_route \<noteq> ackFrame" "demo_route \<noteq> errFrame code" "f_type demo_route = FrameTypeRoute" "f_payload demo_route = [7]" for code
    by (simp_all add: demo_route_def ackFrame_def errFrame_def)
  with daemon_conn_isolated [OF es route_run(2,3)] obtain c fr and h :: hello where
    "Took c fr \<in> set es" "f_payload fr = SignFrame (bytes_of (h_secret h)) [7]" "h_target h = ''d''"
    by auto
  with route_run(3) es show ?thesis by (intro exI [of _ es] exI [of _ ?g] exI [of _ c] exI [of _ fr] exI [of _ h]) simp
qed

end
