(* ===== verification/File_Proto.thy ===== *)
theory File_Proto
  imports Os Sha256
begin

text \<open>
  The request and response records of \<open>internal/fileproto\<close>, whose JSON text is not modelled here,
  and what the file tools share: the error of a cancelled context and the digest of a file.
\<close>

record file_read_request =
  rr_path :: string
  rr_max_size :: int
  rr_offset :: int
  rr_limit :: int

record file_write_request =
  wr_path :: string
  wr_mode :: nat

record file_edit_request =
  er_path :: string
  er_old :: string
  er_new :: string
  er_replace_all :: bool

record upload_request =
  up_dest :: string
  up_mode :: nat
  up_source :: string
  up_url :: string
  up_expected_size :: int
  up_expected_sha :: string

record download_request =
  dl_src :: string
  dl_offset :: int
  dl_limit :: int

record file_chunk =
  ck_data :: bytes
  ck_eof :: bool

record file_complete =
  fc_size :: int
  fc_sha :: string
  fc_err :: string
  fc_detail :: string
  fc_backup :: string

definition fc_zero :: file_complete where
  "fc_zero = \<lparr>fc_size = 0, fc_sha = [], fc_err = [], fc_detail = [], fc_backup = []\<rparr>"

abbreviation fc_error :: "string \<Rightarrow> file_complete" where
  "fc_error e \<equiv> fc_zero\<lparr>fc_err := e\<rparr>"

definition sha_hex :: "bytes \<Rightarrow> string" where
  "sha_hex b = hex_encode (sha256 b)"

text \<open>\<open>FileComplete\<close> for the bytes \<open>b\<close> that were transferred.\<close>

definition fc_done :: "bytes \<Rightarrow> file_complete" where
  "fc_done b = fc_zero\<lparr>fc_size := int (length b), fc_sha := sha_hex b\<rparr>"

lemma fc_zero_simps [simp]:
  "fc_err fc_zero = []" "fc_size fc_zero = 0" "fc_sha fc_zero = []" "fc_backup fc_zero = []"
  by (simp_all add: fc_zero_def)

lemma fc_done_simps [simp]:
  "fc_err (fc_done b) = []" "fc_size (fc_done b) = int (length b)" "fc_sha (fc_done b) = sha_hex b"
  by (simp_all add: fc_done_def)

end
