(* ===== verification/Write_File.thy ===== *)
theory Write_File
  imports File_Proto
begin

text \<open>
  \<open>internal/tools/writefile.go\<close>: a file is received in chunks into a temporary file of the target's
  directory, which is renamed over the target at the end.  A chunk source is the list of what it
  yields, chunks or an error; one that is used up yields the error \<open>closed\<close>.
\<close>

section \<open>The writer\<close>

definition cleanup_tmp :: "string \<Rightarrow> ('e, 'a) io \<Rightarrow> ('e, 'a) io" where
  "cleanup_tmp tmp k = io_ignore os_close (io_ignore (os_remove tmp) k)"

text \<open>The receive loop: the bytes written so far are \<open>data\<close>; the result is a failure to report or all
  the bytes.\<close>

fun write_loop ::
  "string \<Rightarrow> int \<Rightarrow> (string + file_chunk) list \<Rightarrow> bytes \<Rightarrow> (ctx_error, file_complete + bytes) io" where
  "write_loop tmp maxBytes [] data w =
     (if cancelled w then cleanup_tmp tmp (io_fail CtxCancelled) w
      else cleanup_tmp tmp (io_ret (Inl (fc_zero\<lparr>fc_size := int (length data),
             fc_err := ''source_error: closed''\<rparr>))) w)"
| "write_loop tmp maxBytes (Inl e # src) data w =
     (if cancelled w then cleanup_tmp tmp (io_fail CtxCancelled) w
      else cleanup_tmp tmp (io_ret (Inl (fc_zero\<lparr>fc_size := int (length data),
             fc_err := ''source_error: '' @ e\<rparr>))) w)"
| "write_loop tmp maxBytes (Inr c # src) data w =
     (if cancelled w then cleanup_tmp tmp (io_fail CtxCancelled) w
      else if ck_data c = [] then
        (if ck_eof c then io_ret (Inr data) w else write_loop tmp maxBytes src data w)
      else if int (length data) + int (length (ck_data c)) > maxBytes then
        cleanup_tmp tmp (io_ret (Inl (fc_zero\<lparr>fc_size := int (length data),
          fc_err := ''exceeds_max_size''\<rparr>))) w
      else (case os_write tmp (ck_data c) w of
          (Inl _, w') \<Rightarrow> cleanup_tmp tmp (io_ret (Inl (fc_zero\<lparr>fc_size := int (length data),
             fc_err := ''write_failed''\<rparr>))) w'
        | (Inr _, w') \<Rightarrow>
            (if ck_eof c then io_ret (Inr (data @ ck_data c)) w'
             else write_loop tmp maxBytes src (data @ ck_data c) w')))"

text \<open>Close, chmod, rename: the end of \<open>WriteFile\<close> and of the upload.\<close>

definition commit :: "string \<Rightarrow> string \<Rightarrow> nat \<Rightarrow> bytes \<Rightarrow> (ctx_error, file_complete) io" where
  "commit tmp path mode data =
     (let failed = (\<lambda>code. io_ignore (os_remove tmp)
            (io_ret (fc_zero\<lparr>fc_size := int (length data), fc_err := code\<rparr>))) in
      io_case os_close (\<lambda>_. failed ''close_failed'') (\<lambda>_.
      io_case (os_chmod tmp mode) (\<lambda>_. failed ''chmod_failed'') (\<lambda>_.
      io_case (os_rename tmp path) (\<lambda>_. failed ''rename_failed'') (\<lambda>_.
        io_ret (fc_done data)))))"

definition WriteFile ::
  "file_write_request \<Rightarrow> int \<Rightarrow> (string + file_chunk) list \<Rightarrow> (ctx_error, file_complete) io" where
  "WriteFile req maxBytes src =
     (let mode = (if wr_mode req = 0 then 420 else wr_mode req) in
      io_case (os_create_temp (path_dir (wr_path req)) ''.agbridge-write-'' [])
        (\<lambda>_. io_ret (fc_error ''tmp_create_failed''))
        (\<lambda>tmp. io_bind (write_loop tmp maxBytes src []) (\<lambda>r.
           case r of Inl fc \<Rightarrow> io_ret fc | Inr data \<Rightarrow> commit tmp (wr_path req) mode data)))"

section \<open>What the loop does\<close>

text \<open>The world after the temporary file has been closed and removed.\<close>

definition cleaned :: "string \<Rightarrow> world \<Rightarrow> world" where
  "cleaned tmp w = snd (os_remove tmp (snd (os_close w)))"

lemma cleanup_app [simp]: "cleanup_tmp tmp k w = k (cleaned tmp w)"
  by (simp add: cleanup_tmp_def io_ignore_def cleaned_def)

lemma fs_get_cleaned [simp]: "q \<noteq> tmp \<Longrightarrow> fs_get (cleaned tmp w) q = fs_get w q"
  using leavesD [OF leaves_remove [of "\<lambda>x. x = q" tmp]] leavesD [OF leaves_reads(6), of "\<lambda>x. x = q"]
  by (simp add: cleaned_def)

lemma os_write_other: "q \<noteq> p \<Longrightarrow> fs_get (snd (os_write p b w)) q = fs_get w q"
  using leaves_write [of "\<lambda>x. x = q" p b] by (auto dest: leavesD)

lemma os_write_ok:
  "os_write p b w = (Inr k, w') \<Longrightarrow> fs_get w p = Some n \<Longrightarrow>
     fs_get w' p = Some (n\<lparr>n_data := n_data n @ b\<rparr>)"
  by (auto simp: os_write_def append_data_def Let_def split: option.splits)

lemma write_loop_other:
  "q \<noteq> tmp \<Longrightarrow> fs_get (snd (write_loop tmp m src data w)) q = fs_get w q"
proof (induction tmp m src data w rule: write_loop.induct)
  case (3 tmp m c src data w)
  have wr: "fs_get w' q = fs_get w q" if "os_write tmp (ck_data c) w = (r, w')" for r w'
    using os_write_other [of q tmp "ck_data c" w] 3 that by simp
  show ?case using 3 wr by (auto split: prod.splits sum.splits)
qed auto

text \<open>All chunks up to the first with the end mark, as the loop concatenates them.\<close>

fun received :: "(string + file_chunk) list \<Rightarrow> bytes" where
  "received [] = []"
| "received (Inl _ # _) = []"
| "received (Inr c # src) = ck_data c @ (if ck_eof c then [] else received src)"

lemma write_loop_data:
  "write_loop tmp m src data w = (Ok (Inr d), w') \<Longrightarrow> fs_get w tmp = Some n \<Longrightarrow> n_data n = data \<Longrightarrow>
     d = data @ received src \<and> (\<exists>n'. fs_get w' tmp = Some n' \<and> n_data n' = d)
     \<and> int (length d) \<le> max m (int (length data))"
proof (induction tmp m src data w arbitrary: n rule: write_loop.induct)
  case (3 tmp m c src data w)
  show ?case
  proof (cases "ck_data c = []")
    case True
    with 3 show ?thesis by (auto split: if_splits)
  next
    case False
    with 3(3) obtain k w1 where w1: "os_write tmp (ck_data c) w = (Inr k, w1)"
      and le: "int (length data) + int (length (ck_data c)) \<le> m" and nc: "\<not> cancelled w"
      and rest: "(if ck_eof c then io_ret (Inr (data @ ck_data c)) w1
          else write_loop tmp m src (data @ ck_data c) w1) = (Ok (Inr d), w')"
      by (auto split: if_splits prod.splits sum.splits)
    have n1: "fs_get w1 tmp = Some (n\<lparr>n_data := n_data n @ ck_data c\<rparr>)"
      using os_write_ok [OF w1 3(4)] .
    show ?thesis
    proof (cases "ck_eof c")
      case True
      with rest n1 3(5) le show ?thesis by auto
    next
      case eof: False
      have run: "write_loop tmp m src (data @ ck_data c) w1 = (Ok (Inr d), w')"
        using rest eof by simp
      have lim: "\<not> int (length data) + int (length (ck_data c)) > m" using le by simp
      have "n_data (n\<lparr>n_data := n_data n @ ck_data c\<rparr>) = data @ ck_data c" using 3(5) by simp
      note ih = 3(2) [OF nc False lim w1 [symmetric] refl eof run n1 this]
      have "int (length (data @ ck_data c)) \<le> m" using le by simp
      then have "int (length d) \<le> m"
        using ih [THEN conjunct2, THEN conjunct2] by simp
      with ih [THEN conjunct1] ih [THEN conjunct2, THEN conjunct1] eof show ?thesis by simp
    qed
  qed
qed (auto split: if_splits)

lemma write_loop_error: "write_loop tmp m src data w = (Ok (Inl fc), w') \<Longrightarrow> fc_err fc \<noteq> []"
  by (induction tmp m src data w rule: write_loop.induct) (auto split: if_splits prod.splits sum.splits)

lemma commit_spec:
  assumes c: "commit tmp path mode data w = (r, w')" and n: "fs_get w tmp = Some n"
  shows "\<exists>fc. r = Ok fc
    \<and> (fc_err fc \<noteq> [] \<longrightarrow> (\<forall>q. q \<noteq> tmp \<longrightarrow> fs_get w' q = fs_get w q))
    \<and> (fc_err fc = [] \<longrightarrow> fc = fc_done data
        \<and> fs_get w' path = Some (n\<lparr>n_mode := syscall_mode mode\<rparr>)
        \<and> (\<forall>q. q \<noteq> tmp \<longrightarrow> q \<noteq> path \<longrightarrow> fs_get w' q = fs_get w q))"
proof -
  show ?thesis
    using c n
    by (auto simp: commit_def Let_def io_case_def io_ignore_def
        dest!: os_close_fs os_chmod_fs os_rename_fs split: prod.splits sum.splits)
qed

lemma WriteFile_facts:
  assumes w: "WriteFile req maxBytes src w = (r, w')" and nc: "no_clash ''.agbridge-write-'' [] (wr_path req) w"
  shows "(case r of
      Inl _ \<Rightarrow> fs_get w' (wr_path req) = fs_get w (wr_path req)
    | Inr fc \<Rightarrow>
        if fc_err fc \<noteq> [] then fs_get w' (wr_path req) = fs_get w (wr_path req)
        else fc = fc_done (received src) \<and> int (length (received src)) \<le> max maxBytes 0
          \<and> (\<exists>n. fs_get w' (wr_path req) = Some n \<and> n_data n = received src
               \<and> n_mode n = syscall_mode (if wr_mode req = 0 then 420 else wr_mode req)))
    \<and> (\<forall>q. q \<noteq> wr_path req \<longrightarrow> fs_get w q \<noteq> None \<longrightarrow> fs_get w' q = fs_get w q)"
proof -
  let ?p = "wr_path req"
  let ?mode = "if wr_mode req = 0 then 420 else wr_mode req"
  obtain t w1 where t: "os_create_temp (path_dir ?p) ''.agbridge-write-'' [] w = (t, w1)"
    by (cases "os_create_temp (path_dir ?p) ''.agbridge-write-'' [] w")
  show ?thesis
  proof (cases t)
    case (Inl e)
    with t have "fs_get w1 = fs_get w"
      unfolding os_create_temp_def by (intro create_temp_fail) simp
    with w t Inl show ?thesis by (auto simp: WriteFile_def Let_def io_case_def)
  next
    case (Inr tmp)
    from create_temp_new [of 10000 "path_dir ?p" "''.agbridge-write-''" "[]" w tmp w1] t Inr
    obtain n where new: "fs_get w tmp = None" "fs_get w1 tmp = Some n" "n_data n = []"
      and same: "\<And>q. q \<noteq> tmp \<Longrightarrow> fs_get w1 q = fs_get w q"
      unfolding os_create_temp_def by auto
    have ne: "?p \<noteq> tmp"
      using temp_not_target [OF t [unfolded Inr os_create_temp_def] nc] .
    obtain l w2 where l: "write_loop tmp maxBytes src [] w1 = (l, w2)" by (cases "write_loop tmp maxBytes src [] w1")
    have w2: "fs_get w2 q = fs_get w q" if "q \<noteq> tmp" for q
      using write_loop_other [OF that, of maxBytes src "[]" w1] l same [OF that] by simp
    have body: "io_bind (write_loop tmp maxBytes src []) (\<lambda>r.
        case r of Inl fc \<Rightarrow> io_ret fc | Inr data \<Rightarrow> commit tmp ?p ?mode data) w1 = (r, w')"
      using w t Inr by (simp add: WriteFile_def Let_def io_case_def)
    show ?thesis
    proof (cases "\<exists>d. l = Ok (Inr d)")
      case True
      then obtain d where d: "l = Ok (Inr d)" by blast
      from write_loop_data [OF _ new(2,3), of maxBytes src d w2] l d
      obtain n' where dd: "d = received src" "int (length d) \<le> max maxBytes 0"
        and n': "fs_get w2 tmp = Some n'" "n_data n' = d" by auto
      from body l d have "commit tmp ?p ?mode d w2 = (r, w')" by (simp add: io_bind_def)
      from commit_spec [OF this n'(1)] w2 ne new(1) dd n'(2) show ?thesis
        by (auto split: if_splits) (metis option.distinct(1))+
    next
      case False
      with body l have "w' = w2" "r = Ok fc \<Longrightarrow> l = Ok (Inl fc)" for fc
        by (auto simp: io_bind_def split: sum.splits)
      moreover have "fs_get w2 q = fs_get w q" if "fs_get w q \<noteq> None" for q
        using w2 [of q] new(1) that by (cases "q = tmp") auto
      ultimately show ?thesis
        using write_loop_error l w2 [OF ne] by (auto split: sum.splits)
    qed
  qed
qed

section \<open>When nothing fails\<close>

text \<open>The source reaches the end mark; the first temporary name is new and its directory exists.\<close>

fun ended :: "(string + file_chunk) list \<Rightarrow> bool" where
  "ended [] \<longleftrightarrow> False"
| "ended (Inl _ # _) \<longleftrightarrow> False"
| "ended (Inr c # src) \<longleftrightarrow> ck_eof c \<or> ended src"

definition temp_free :: "string \<Rightarrow> string \<Rightarrow> world \<Rightarrow> bool" where
  "temp_free path pre w \<longleftrightarrow>
     (let t = dir_join (path_dir path) (pre @ w_rand w (w_tick w)) in fs_get w t = None \<and> parent_ok w t)"

lemma parent_ok_tick [simp]: "parent_ok (tick w) p = parent_ok w p"
  by (simp add: parent_ok_def)

lemma create_temp_quiet:
  assumes "quiet w" "temp_free path pre w"
  defines "t \<equiv> dir_join (path_dir path) (pre @ w_rand w (w_tick w))"
  shows "os_create_temp (path_dir path) pre [] w = (Ok t, set_node t (Some (new_file 384 (tick w))) (tick w))"
proof -
  have n: "(10000 :: nat) = Suc 9999" by simp
  show ?thesis
    using assms unfolding os_create_temp_def n create_temp_loop.simps temp_free_def by (simp add: Let_def)
qed

lemma write_loop_quiet:
  "quiet w \<Longrightarrow> fs_get w tmp \<noteq> None \<Longrightarrow> ended src \<Longrightarrow> int (length data) + int (length (received src)) \<le> m \<Longrightarrow>
     \<exists>w'. write_loop tmp m src data w = (Ok (Inr (data @ received src)), w') \<and> quiet w' \<and> fs_get w' tmp \<noteq> None"
proof (induction tmp m src data w rule: write_loop.induct)
  case (3 tmp m c src data w)
  have wr: "os_write tmp (ck_data c) w = (Ok (length (ck_data c)), append_data tmp (ck_data c) (tick w))"
    using 3(3) by (simp add: os_write_def quiet_def)
  have ap: "quiet (append_data tmp (ck_data c) (tick w))" "fs_get (append_data tmp (ck_data c) (tick w)) tmp \<noteq> None"
    using 3(3,4) by (auto simp: append_data_def split: option.split)
  show ?case
  proof (cases "ck_data c = []")
    case True
    with 3 show ?thesis by auto
  next
    case False
    have lim: "\<not> int (length data) + int (length (ck_data c)) > m" using "3.prems"(4) by simp
    show ?thesis
    proof (cases "ck_eof c")
      case True
      with False 3(3) lim wr ap show ?thesis by auto
    next
      case eof: False
      have nc: "\<not> cancelled w" using 3(3) by simp
      have "int (length (data @ ck_data c)) + int (length (received src)) \<le> m" using 3(6) eof by simp
      from 3(2) [OF nc False lim wr [symmetric] refl eof ap _ this] 3(5) eof False lim nc wr show ?thesis by simp
    qed
  qed
qed simp_all

lemma commit_quiet:
  assumes "quiet w" "fs_get w tmp \<noteq> None" "fs_get w path = None \<or> (\<exists>m. fs_get w path = Some m \<and> n_kind m \<noteq> KDir)" "path \<noteq> tmp"
  shows "fst (commit tmp path mode data w) = Ok (fc_done data)"
  using assms by (auto simp: commit_def Let_def io_case_def os_close_def os_chmod_def os_rename_def split: option.split)

text \<open>Then the write succeeds.\<close>

lemma WriteFile_quiet:
  assumes "quiet w" "temp_free (wr_path req) ''.agbridge-write-'' w" "ended src" "int (length (received src)) \<le> maxBytes"
    and "no_clash ''.agbridge-write-'' [] (wr_path req) w" "\<And>m. fs_get w (wr_path req) = Some m \<Longrightarrow> n_kind m \<noteq> KDir"
  shows "fst (WriteFile req maxBytes src w) = Ok (fc_done (received src))"
proof -
  let ?t = "dir_join (path_dir (wr_path req)) (''.agbridge-write-'' @ w_rand w (w_tick w))"
  let ?w1 = "set_node ?t (Some (new_file 384 (tick w))) (tick w)"
  have ne: "wr_path req \<noteq> ?t" using assms(2,5) unfolding temp_free_def no_clash_def Let_def by (metis append_Nil2)
  have "quiet ?w1" "fs_get ?w1 ?t \<noteq> None" using assms(1) by simp_all
  from write_loop_quiet [OF this assms(3), of "[]" maxBytes] assms(4) obtain w2 where
    w2: "write_loop ?t maxBytes src [] ?w1 = (Ok (Inr (received src)), w2)" "quiet w2" "fs_get w2 ?t \<noteq> None" by auto
  have "fs_get w2 (wr_path req) = fs_get w (wr_path req)"
    using write_loop_other [OF ne, of maxBytes src "[]" ?w1] w2(1) ne by simp
  with assms(6) have "fs_get w2 (wr_path req) = None \<or> (\<exists>m. fs_get w2 (wr_path req) = Some m \<and> n_kind m \<noteq> KDir)"
    by (cases "fs_get w (wr_path req)") auto
  with commit_quiet [OF w2(2,3) _ ne] w2(1) show ?thesis
    by (simp add: WriteFile_def Let_def io_case_def create_temp_quiet [OF assms(1,2)] io_bind_def)
qed

section \<open>Property\<close>


definition write_demo :: "os_error option \<Rightarrow> world" where
  "write_demo e = plain_world
     [(''/d'', \<lparr>n_kind = KDir, n_data = [], n_mode = 493, n_mtime = 0\<rparr>), (''/d/f'', plain_file [9])]
     (\<lambda>t. if t = 2 then e else None)"

lemma write_demo_dir: "path_dir ''/d/g'' = ''/d''" "path_dir ''/d/.agbridge-write-x'' = ''/d''"
  by code_simp+


end
