(* ===== verification/Glob.thy ===== *)
theory Glob
  imports Os "HOL-Library.Char_ord" "HOL-Library.List_Lexorder"
begin

text \<open>
  \<open>filepath.Match\<close> and \<open>filepath.Glob\<close> on the files of a world, with the character classes,
  escapes and malformed patterns of the original, byte by byte; and the time stamp of a backup's
  name.  \<open>Glob\<close> ignores failing directory reads, and reports only a malformed pattern (\<open>None\<close>).
\<close>

section \<open>Patterns\<close>

datatype gterm = GLit char | GAny | GStar | GClass bool "(char \<times> char) list"

text \<open>\<open>getEsc\<close>: one character of a class, possibly escaped; the rest must not be empty.\<close>

fun get_esc :: "string \<Rightarrow> (char \<times> string) option" where
  "get_esc [] = None"
| "get_esc (c # s) =
     (if c = CHR ''-'' \<or> c = CHR '']'' then None
      else if c = CHR 0x5C then
        (case s of [] \<Rightarrow> None | d # t \<Rightarrow> if t = [] then None else Some (d, t))
      else if s = [] then None else Some (c, s))"

fun get_class :: "nat \<Rightarrow> bool \<Rightarrow> string \<Rightarrow> ((char \<times> char) list \<times> string) option" where
  "get_class 0 any s = None"
| "get_class (Suc n) any s =
     (case s of [] \<Rightarrow> None
      | c # t \<Rightarrow>
          if c = CHR '']'' \<and> any then Some ([], t)
          else (case get_esc s of None \<Rightarrow> None
                | Some (lo, s1) \<Rightarrow>
                    (case (case s1 of CHR ''-'' # s2 \<Rightarrow> get_esc s2 | _ \<Rightarrow> Some (lo, s1)) of
                       None \<Rightarrow> None
                     | Some (hi, s3) \<Rightarrow>
                         map_option (\<lambda>(rs, u). ((lo, hi) # rs, u)) (get_class n True s3))))"

fun parse_glob :: "nat \<Rightarrow> string \<Rightarrow> gterm list option" where
  "parse_glob n [] = Some []"
| "parse_glob 0 (c # s) = None"
| "parse_glob (Suc n) (c # s) =
     (if c = CHR ''*'' then map_option ((#) GStar) (parse_glob n s)
      else if c = CHR ''?'' then map_option ((#) GAny) (parse_glob n s)
      else if c = CHR ''['' then
        (let (neg, t) = (case s of CHR ''^'' # t \<Rightarrow> (True, t) | _ \<Rightarrow> (False, s)) in
         case get_class (length s) False t of None \<Rightarrow> None
         | Some (rs, u) \<Rightarrow> map_option ((#) (GClass neg rs)) (parse_glob n u))
      else if c = CHR 0x5C then
        (case s of [] \<Rightarrow> None | d # t \<Rightarrow> map_option ((#) (GLit d)) (parse_glob n t))
      else map_option ((#) (GLit c)) (parse_glob n s))"

definition in_class :: "bool \<Rightarrow> (char \<times> char) list \<Rightarrow> char \<Rightarrow> bool" where
  "in_class neg rs c = (list_ex (\<lambda>(lo, hi). lo \<le> c \<and> c \<le> hi) rs \<noteq> neg)"

fun gmatch :: "gterm list \<Rightarrow> string \<Rightarrow> bool" where
  "gmatch [] s = (s = [])"
| "gmatch (GStar # ts) [] = gmatch ts []"
| "gmatch (GStar # ts) (c # s) = (gmatch ts (c # s) \<or> c \<noteq> slash \<and> gmatch (GStar # ts) s)"
| "gmatch (t # ts) [] = False"
| "gmatch (t # ts) (c # s) =
     ((case t of GLit d \<Rightarrow> c = d | GAny \<Rightarrow> c \<noteq> slash | GClass neg rs \<Rightarrow> in_class neg rs c
       | GStar \<Rightarrow> False) \<and> gmatch ts s)"

definition path_match :: "string \<Rightarrow> string \<Rightarrow> bool option" where
  "path_match pat name = map_option (\<lambda>ts. gmatch ts name) (parse_glob (length pat) pat)"

definition has_meta :: "string \<Rightarrow> bool" where
  "has_meta p = list_ex (\<lambda>c. c \<in> {CHR ''*'', CHR ''?'', CHR ''['', CHR 0x5C}) p"

section \<open>Glob\<close>

text \<open>\<open>Split\<close>: the directory part with its slash, and the file part.\<close>

definition path_file :: "string \<Rightarrow> string" where
  "path_file p = rev (takeWhile (\<lambda>c. c \<noteq> slash) (rev p))"

definition path_split_dir :: "string \<Rightarrow> string" where
  "path_split_dir p = rev (dropWhile (\<lambda>c. c \<noteq> slash) (rev p))"

definition clean_glob_path :: "string \<Rightarrow> string" where
  "clean_glob_path d = (if d = [] then ''.'' else if d = [slash] then d else butlast d)"

text \<open>The paths below a directory whose name matches, in the order of the names.\<close>

definition dir_paths :: "world \<Rightarrow> string \<Rightarrow> string list" where
  "dir_paths w d =
     sort_key path_base (filter (\<lambda>k. path_dir k = path_clean d \<and> k \<noteq> [slash]) (remdups (map fst (w_fs w))))"

definition os_read_dir :: "string \<Rightarrow> (os_error, string list) io" where
  "os_read_dir d = sys (\<lambda>w. (Ok (dir_paths w d), w))"

definition glob_dir :: "string \<Rightarrow> string \<Rightarrow> (ctx_error, string list) io" where
  "glob_dir d pat =
     io_case (os_read_dir d) (\<lambda>_. io_ret [])
       (\<lambda>ks. io_ret (filter (\<lambda>k. path_match pat (path_base k) = Some True) ks))"

fun io_concat :: "('a \<Rightarrow> (ctx_error, 'b list) io) \<Rightarrow> 'a list \<Rightarrow> (ctx_error, 'b list) io" where
  "io_concat f [] = io_ret []"
| "io_concat f (x # xs) = io_bind (f x) (\<lambda>ys. io_bind (io_concat f xs) (\<lambda>zs. io_ret (ys @ zs)))"

text \<open>The directory part of a pattern is expanded first; the recursion is as deep as the pattern has
  slashes.\<close>

fun glob_rec :: "nat \<Rightarrow> string \<Rightarrow> (ctx_error, string list) io" where
  "glob_rec 0 pat = io_ret []"
| "glob_rec (Suc n) pat =
     (if \<not> has_meta pat then io_case (os_stat pat) (\<lambda>_. io_ret []) (\<lambda>_. io_ret [pat])
      else let d = clean_glob_path (path_split_dir pat); f = path_file pat in
        if \<not> has_meta d then glob_dir d f
        else io_bind (glob_rec n d) (\<lambda>ds. io_concat (\<lambda>d. glob_dir d f) ds))"

definition os_glob :: "string \<Rightarrow> (ctx_error, string list option) io" where
  "os_glob pat =
     (if parse_glob (length pat) pat = None then io_ret None
      else io_bind (glob_rec (Suc (length pat)) pat) (\<lambda>ms. io_ret (Some ms)))"

section \<open>Literal patterns\<close>

lemma has_meta_append [simp]: "has_meta (p @ q) \<longleftrightarrow> has_meta p \<or> has_meta q"
  by (simp add: has_meta_def)

lemma parse_glob_lit:
  "\<not> has_meta p \<Longrightarrow> parse_glob (length p + n) (p @ s) = map_option ((@) (map GLit p)) (parse_glob n s)"
proof (induction p)
  case Nil
  then show ?case by (cases s; cases n) (auto simp: option.map_comp option.map_ident comp_def)
next
  case (Cons c p)
  then show ?case by (auto simp: has_meta_def option.map_comp comp_def)
qed

lemma gmatch_lit: "gmatch (map GLit p @ ts) s \<longleftrightarrow> (\<exists>u. s = p @ u \<and> gmatch ts u)"
proof (induction p arbitrary: s)
  case (Cons c p)
  then show ?case by (cases s) auto
qed simp

lemma gmatch_star: "slash \<notin> set s \<Longrightarrow> gmatch [GStar] s"
  by (induction s) auto

text \<open>A literal prefix followed by a star matches exactly the extensions of the prefix.\<close>

lemma path_match_prefix:
  assumes "\<not> has_meta p"
  shows "path_match (p @ ''*'') s = Some True \<longleftrightarrow> (\<exists>u. s = p @ u \<and> gmatch [GStar] u)"
  using parse_glob_lit [OF assms, of 1 "''*''"] by (simp add: path_match_def gmatch_lit)

lemma leaves_concat [leaves_intros]: "(\<And>x. leaves P (f x)) \<Longrightarrow> leaves P (io_concat f xs)"
  by (induction xs) (auto intro!: leaves_intros)

lemma leaves_read_dir [leaves_intros]: "leaves P (os_read_dir d)"
  unfolding os_read_dir_def by (rule leaves_sys) simp

lemma leaves_glob_dir [leaves_intros]: "leaves P (glob_dir d f)"
  unfolding glob_dir_def by (intro leaves_intros)

lemma leaves_glob_rec [leaves_intros]: "leaves P (glob_rec n pat)"
  by (induction n arbitrary: pat) (auto simp: Let_def intro!: leaves_intros)

lemma leaves_glob [leaves_intros]: "leaves P (os_glob pat)"
  unfolding os_glob_def by (intro leaves_intros)

section \<open>The time stamp of a backup\<close>

text \<open>\<open>time.Unix(0, ns).UTC().Format("20060102T150405")\<close>: the date by days since 1970.\<close>

definition civil :: "int \<Rightarrow> int \<times> int \<times> int" where
  "civil days =
     (let z = days + 719468; era = z div 146097; doe = z mod 146097;
          yoe = (doe - doe div 1460 + doe div 36524 - doe div 146096) div 365;
          doy = doe - (365 * yoe + yoe div 4 - yoe div 100);
          mp = (5 * doy + 2) div 153;
          d = doy - (153 * mp + 2) div 5 + 1;
          m = (if mp < 10 then mp + 3 else mp - 9);
          y = yoe + era * 400 + (if m \<le> 2 then 1 else 0) in
      (y, m, d))"

definition pad_left :: "nat \<Rightarrow> int \<Rightarrow> string" where
  "pad_left n i = (let s = itoa i in replicate (n - length s) CHR ''0'' @ s)"

definition utc_stamp :: "int \<Rightarrow> string" where
  "utc_stamp ns =
     (let secs = ns div 1000000000; (y, m, d) = civil (secs div 86400); t = secs mod 86400 in
      pad_left 4 y @ pad_left 2 m @ pad_left 2 d @ ''T''
        @ pad_left 2 (t div 3600) @ pad_left 2 (t div 60 mod 60) @ pad_left 2 (t mod 60))"

end
