(* ===== verification/Edit_File.thy ===== *)
theory Edit_File
  imports File_Proto Glob
begin

text \<open>
  \<open>internal/tools/editfile.go\<close>: a unique (or every) occurrence of a string is replaced in a file,
  with a backup beside it, an atomic rewrite, and the removal of old backups.  \<open>sort.Slice\<close> leaves
  the order of equal keys open; the model sorts stably, and no lemma depends on it.
\<close>

section \<open>Reporting the places of an ambiguous match\<close>

function match_lines_from :: "nat \<Rightarrow> string \<Rightarrow> string \<Rightarrow> int list" where
  "match_lines_from offset body needle =
     (if needle = [] \<or> offset \<ge> length body then []
      else case str_index (drop offset body) needle of
             None \<Rightarrow> []
           | Some i \<Rightarrow>
               let absIdx = offset + i in
               (1 + int (str_count (take absIdx body) [CHR 0x0A]))
                 # match_lines_from (absIdx + length needle) body needle)"
  by pat_completeness auto
termination
  by (relation "measure (\<lambda>(offset, body, needle). length body - offset)")
    (auto simp: diff_less_mono2)

declare match_lines_from.simps [simp del]

definition matchLines :: "string \<Rightarrow> string \<Rightarrow> int list" where
  "matchLines body needle = match_lines_from 0 body needle"

definition joinInts :: "int list \<Rightarrow> string \<Rightarrow> string" where
  "joinInts xs sep = join_with sep (map itoa xs)"

section \<open>Pruning backups\<close>

definition BackupRetainCount :: nat where "BackupRetainCount = 5"

fun stat_entries :: "string list \<Rightarrow> (ctx_error, (string \<times> int) list) io" where
  "stat_entries [] = io_ret []"
| "stat_entries (m # ms) =
     io_case (os_stat m) (\<lambda>_. stat_entries ms)
       (\<lambda>info. io_bind (stat_entries ms) (\<lambda>es. io_ret ((m, n_mtime info) # es)))"

fun remove_all :: "string list \<Rightarrow> (ctx_error, unit) io" where
  "remove_all [] = io_ret ()"
| "remove_all (p # ps) = io_ignore (os_remove p) (remove_all ps)"

definition pruneOldBackups :: "string \<Rightarrow> nat \<Rightarrow> (ctx_error, unit) io" where
  "pruneOldBackups path keep =
     (if keep = 0 then io_ret ()
      else io_bind (os_glob (path @ ''.bak.*'')) (\<lambda>matches.
        case matches of
          None \<Rightarrow> io_ret ()
        | Some ms \<Rightarrow>
            if length ms \<le> keep then io_ret ()
            else io_bind (stat_entries ms) (\<lambda>entries.
              remove_all (map fst (drop keep (sort_key (\<lambda>e. - snd e) entries))))))"

section \<open>The edit\<close>

definition perm :: "node \<Rightarrow> nat" where
  "perm n = n_mode n mod 512"

definition replaced :: "file_edit_request \<Rightarrow> string \<Rightarrow> string" where
  "replaced req body =
     str_replace body (er_old req) (er_new req) (if er_replace_all req then None else Some 1)"

definition write_backup :: "string \<Rightarrow> bytes \<Rightarrow> nat \<Rightarrow> (ctx_error, string) io" where
  "write_backup path contents mode =
     (if contents = [] then io_ret []
      else io_bind sys_now (\<lambda>now.
        let backup = path @ ''.bak.'' @ utc_stamp now @ ''.'' @ hex_encode (take 4 (sha256 contents)) in
        io_case (os_write_file backup contents mode) (\<lambda>_. io_ret []) (\<lambda>_. io_ret backup)))"

definition rewrite ::
  "string \<Rightarrow> node \<Rightarrow> bytes \<Rightarrow> string \<Rightarrow> (ctx_error, file_complete) io" where
  "rewrite path info next' backup =
     io_case (os_create_temp (path_dir path) ''.agbridge-edit-'' [])
       (\<lambda>_. io_ret (fc_error ''tmp_create_failed''))
       (\<lambda>tmp.
         io_case (os_write tmp next')
           (\<lambda>_. io_ignore os_close (io_ignore (os_remove tmp) (io_ret (fc_error ''write_failed'')))) (\<lambda>_.
         io_case os_fsync
           (\<lambda>_. io_ignore os_close (io_ignore (os_remove tmp) (io_ret (fc_error ''write_failed'')))) (\<lambda>_.
         io_case os_close
           (\<lambda>_. io_ignore (os_remove tmp) (io_ret (fc_error ''close_failed''))) (\<lambda>_.
         io_ignore (os_chmod tmp (perm info)) (
         io_case (os_rename tmp path)
           (\<lambda>_. io_ignore (os_remove tmp) (io_ret (fc_error ''rename_failed''))) (\<lambda>_.
         io_ignore (pruneOldBackups path BackupRetainCount)
           (io_ret ((fc_done next')\<lparr>fc_backup := backup\<rparr>))))))))"

definition EditFile :: "file_edit_request \<Rightarrow> int \<Rightarrow> (ctx_error, file_complete) io" where
  "EditFile req maxBytes =
     (if er_old req = [] then
        io_ret ((fc_error ''bad_payload'')\<lparr>fc_detail :=
          ''old_string must not be empty (would match every position)''\<rparr>)
      else io_case (os_stat (er_path req))
        (\<lambda>e. io_ret (fc_error (if e = ENOENT then ''not_found'' else ''open_failed''))) (\<lambda>info.
      if int (length (n_data info)) > maxBytes then
        io_ret ((fc_error ''exceeds_max_size'')\<lparr>fc_size := int (length (n_data info))\<rparr>)
      else io_case (os_open (er_path req)) (\<lambda>_. io_ret (fc_error ''open_failed'')) (\<lambda>src.
      io_bind (io_try (os_read_limit src (nat (maxBytes + 1)))) (\<lambda>r.
      io_ignore os_close (
      case r of Inl _ \<Rightarrow> io_ret (fc_error ''read_failed'')
      | Inr contents \<Rightarrow>
        if int (length contents) > maxBytes then
          io_ret ((fc_error ''exceeds_max_size'')\<lparr>fc_size := int (length contents)\<rparr>)
        else (\<lambda>w. if cancelled w then (Err CtxCancelled, w) else
          (let body = string_of contents; count = str_count body (er_old req) in
           if count = 0 then io_ret (fc_error ''old_string_not_found'')
           else if count > 1 \<and> \<not> er_replace_all req then
             io_ret ((fc_error ''ambiguous_match'')\<lparr>fc_detail :=
               ''old_string occurs '' @ itoa (int count) @ '' times (at lines ''
               @ joinInts (matchLines body (er_old req)) '', ''
               @ ''); pass replace_all=true or extend old_string with surrounding context to make the match unique''\<rparr>)
           else io_bind (write_backup (er_path req) contents (perm info)) (\<lambda>backup.
             rewrite (er_path req) info (bytes_of (replaced req body)) backup)) w))))))"

section \<open>Pruning leaves the file itself\<close>

lemma path_file_append: "slash \<notin> set s \<Longrightarrow> path_file (p @ s) = path_file p @ s"
  by (simp add: path_file_def takeWhile_append)

lemma path_base_file: "p \<noteq> [] \<Longrightarrow> last p \<noteq> slash \<Longrightarrow> path_base p = path_file p"
proof -
  assume p: "p \<noteq> []" "last p \<noteq> slash"
  then obtain c q where c: "rev p = c # q" "c \<noteq> slash" by (cases "rev p") (auto simp: last_rev)
  then show ?thesis using p by (simp add: path_base_def path_file_def Let_def)
qed

lemma has_meta_split: "\<not> has_meta p \<Longrightarrow> \<not> has_meta (clean_glob_path (path_split_dir (p @ s)))"
  if "slash \<notin> set s" for s
proof -
  have "set (path_split_dir (p @ s)) \<subseteq> set p"
  proof -
    have "dropWhile (\<lambda>c. c \<noteq> slash) (rev s @ rev p) = dropWhile (\<lambda>c. c \<noteq> slash) (rev p)"
      using that by (intro dropWhile_append2) auto
    then show ?thesis by (auto simp: path_split_dir_def dest: set_dropWhileD)
  qed
  moreover assume "\<not> has_meta p"
  ultimately show ?thesis
    by (auto simp: has_meta_def list_ex_iff clean_glob_path_def dest: in_set_butlastD)
qed

lemma glob_dir_result:
  "glob_dir d f w = (Ok ks, w') \<Longrightarrow> k \<in> set ks \<Longrightarrow> path_match f (path_base k) = Some True"
  by (auto simp: glob_dir_def io_case_def split: prod.splits sum.splits)

lemma has_meta_file: "\<not> has_meta p \<Longrightarrow> \<not> has_meta (path_file p)"
proof -
  have "set (path_file p) \<subseteq> set p"
    unfolding path_file_def set_rev using set_takeWhileD by (metis set_rev subsetI)
  then show "\<not> has_meta p \<Longrightarrow> ?thesis" unfolding has_meta_def list_ex_iff by blast
qed

text \<open>What \<open>pruneOldBackups\<close> takes for a backup of \<open>p\<close>: every path whose last element the pattern made
  from \<open>p\<close> matches.\<close>

definition taken_for_backup :: "string \<Rightarrow> string \<Rightarrow> bool" where
  "taken_for_backup p q = (path_match (path_file (p @ ''.bak.*'')) (path_base q) = Some True)"

lemma concat_glob_dir:
  "io_concat (\<lambda>d. glob_dir d f) ds w = (Ok ks, w') \<Longrightarrow> k \<in> set ks \<Longrightarrow> path_match f (path_base k) = Some True"
proof (induction ds arbitrary: w ks w')
  case (Cons d ds)
  from Cons.prems(1) obtain ys zs v u where "glob_dir d f w = (Ok ys, v)"
    "io_concat (\<lambda>d. glob_dir d f) ds v = (Ok zs, u)" "ks = ys @ zs"
    by (auto simp: io_bind_def split: prod.splits sum.splits)
  with Cons.IH Cons.prems(2) glob_dir_result show ?case by auto
qed simp

lemma glob_taken:
  assumes "os_glob (p @ ''.bak.*'') w = (Ok (Some ms), w')" and "k \<in> set ms"
  shows "taken_for_backup p k"
proof -
  let ?d = "clean_glob_path (path_split_dir (p @ ''.bak.*''))" and ?f = "path_file (p @ ''.bak.*'')"
  have m: "has_meta (p @ ''.bak.*'')" by (simp add: has_meta_def)
  have "(\<exists>v u. glob_dir ?d ?f v = (Ok ms, u)) \<or> (\<exists>ds v u. io_concat (\<lambda>d. glob_dir d ?f) ds v = (Ok ms, u))"
    using assms(1) m
    by (auto simp: os_glob_def io_bind_def Let_def simp del: has_meta_append
        split: prod.splits sum.splits if_splits)
  with assms(2) show ?thesis
    unfolding taken_for_backup_def using glob_dir_result concat_glob_dir by blast
qed

lemma plain_not_taken:
  assumes "\<not> has_meta p" "p \<noteq> []" "last p \<noteq> slash"
  shows "\<not> taken_for_backup p p"
proof
  let ?s = "''.bak.''"
  have "path_file (p @ ?s @ ''*'') = (path_file p @ ?s) @ ''*''"
    using path_file_append [of "?s @ ''*''" p] by simp
  moreover assume "taken_for_backup p p"
  ultimately have "path_match ((path_file p @ ?s) @ ''*'') (path_base p) = Some True"
    by (simp add: taken_for_backup_def)
  moreover have "\<not> has_meta (path_file p @ ?s)"
    using has_meta_file [OF assms(1)] by (simp add: has_meta_def)
  ultimately have "\<exists>u. path_base p = (path_file p @ ?s) @ u"
    using path_match_prefix [of "path_file p @ ?s" "path_base p"] by blast
  with path_base_file [OF assms(2,3)] show False by simp
qed

lemma stat_entries_names:
  "stat_entries ms w = (Ok es, w') \<Longrightarrow> fst ` set es \<subseteq> set ms"
  by (induction ms arbitrary: w es w')
    (auto simp: io_case_def io_bind_def split: prod.splits sum.splits, (metis image_subset_iff fst_conv)+)

lemma leaves_stat_entries [leaves_intros]: "leaves P (stat_entries ms)"
  by (induction ms) (auto intro!: leaves_intros)

lemma leaves_remove_all: "(\<And>p. p \<in> set ps \<Longrightarrow> \<not> P p) \<Longrightarrow> leaves P (remove_all ps)"
  by (induction ps) (auto intro!: leaves_intros leaves_remove)

lemma leaves_prune: "leaves (\<lambda>q. \<not> taken_for_backup p q) (pruneOldBackups p k)"
proof -
  have "leaves (\<lambda>q. \<not> taken_for_backup p q) (remove_all (map fst (drop k (sort_key (\<lambda>e. - snd e) es))))"
    if g: "os_glob (p @ ''.bak.*'') w = (Ok (Some ms), w')" and e: "stat_entries ms v = (Ok es, v')"
    for ms es w w' v v'
  proof (rule leaves_remove_all)
    fix x assume "x \<in> set (map fst (drop k (sort_key (\<lambda>e. - snd e) es)))"
    then have "x \<in> fst ` set es"
      using set_drop_subset [of k "sort_key (\<lambda>e. - snd e) es"] by force
    with stat_entries_names [OF e] glob_taken [OF g] show "\<not> \<not> taken_for_backup p x" by blast
  qed
  then show ?thesis
    unfolding pruneOldBackups_def
    by (auto intro!: leaves_intros leaves_bind_result split: option.splits)
qed

lemma remove_all_only: "fs_get (snd (remove_all ps w)) q \<in> {fs_get w q, None}"
proof (induction ps arbitrary: w)
  case (Cons p ps)
  have "fs_get (snd (os_remove p w)) q \<in> {fs_get w q, None}"
    using os_remove_fs [of p w "fst (os_remove p w)" "snd (os_remove p w)"] by (auto split: sum.splits)
  with Cons [of "snd (os_remove p w)"] show ?case by (auto simp: io_ignore_def)
qed (simp add: io_ret_def)

lemma prune_only: "fs_get (snd (pruneOldBackups p k w)) q \<in> {fs_get w q, None}"
proof -
  obtain g w1 where g: "os_glob (p @ ''.bak.*'') w = (g, w1)" by (cases "os_glob (p @ ''.bak.*'') w")
  have w1: "fs_get w1 q = fs_get w q"
    using leavesD [OF leaves_glob, of "\<lambda>_. True" q "p @ ''.bak.*''" w] g by simp
  have st: "fs_get (snd (stat_entries ms w1)) q = fs_get w q" for ms
    using leavesD [OF leaves_stat_entries, of "\<lambda>_. True" q ms w1] w1 by simp
  show ?thesis
  proof (cases "\<exists>ms. g = Ok (Some ms)")
    case True
    then obtain ms where ms: "g = Ok (Some ms)" by blast
    obtain es w2 where e: "stat_entries ms w1 = (es, w2)" by (cases "stat_entries ms w1")
    from st [of ms] e have "fs_get w2 q = fs_get w q" by simp
    with ms g w1 e remove_all_only [of _ w2 q] show ?thesis
      by (cases es) (auto simp: pruneOldBackups_def io_bind_def io_ret_def)
  next
    case False
    with g w1 show ?thesis
      by (auto simp: pruneOldBackups_def io_bind_def io_ret_def split: sum.splits option.splits)
  qed
qed

section \<open>The rewrite\<close>

lemma leaves_backup: "leaves (\<lambda>q. \<nexists>u. q = p @ ''.bak.'' @ u) (write_backup p c m)"
  unfolding write_backup_def Let_def
  by (intro leaves_intros leaves_write_file) auto

lemma rewrite_spec:
  assumes r: "rewrite p info new b w = (r, w')" and old: "fs_get w p = Some old"
  shows "\<exists>fc. r = Ok fc \<and> (fc_err fc \<noteq> [] \<longrightarrow> fs_get w' p = Some old)
    \<and> (fc_err fc = [] \<longrightarrow> fc = (fc_done new)\<lparr>fc_backup := b\<rparr>
        \<and> ((\<exists>n. fs_get w' p = Some n \<and> n_data n = new) \<or> taken_for_backup p p \<and> fs_get w' p = None))
    \<and> (\<forall>q. q \<noteq> p \<longrightarrow> fs_get w q \<noteq> None \<longrightarrow> \<not> taken_for_backup p q \<longrightarrow> fs_get w' q = fs_get w q)"
proof -
  obtain t w1 where t: "os_create_temp (path_dir p) ''.agbridge-edit-'' [] w = (t, w1)"
    by (cases "os_create_temp (path_dir p) ''.agbridge-edit-'' [] w")
  have prune: "fs_get (snd (pruneOldBackups p k v)) q = fs_get v q" if "\<not> taken_for_backup p q" for k v q
    using leavesD [OF leaves_prune that] by simp
  show ?thesis
  proof (cases t)
    case (Inl e)
    with t have "fs_get w1 = fs_get w"
      unfolding os_create_temp_def by (intro create_temp_fail) simp
    with r t Inl old show ?thesis by (auto simp: rewrite_def io_case_def)
  next
    case (Inr tmp)
    from create_temp_new [of 10000 "path_dir p" "''.agbridge-edit-''" "[]" w tmp w1] t Inr
    obtain n where new: "fs_get w tmp = None" "fs_get w1 tmp = Some n" "n_data n = []"
      and same: "\<And>q. q \<noteq> tmp \<Longrightarrow> fs_get w1 q = fs_get w q"
      unfolding os_create_temp_def by auto
    have ne: "p \<noteq> tmp" using new(1) old by auto
    have w1p: "fs_get w1 p = Some old" using same [OF ne] old by simp
    obtain x2 w2 where w2: "os_write tmp new w1 = (x2, w2)" by (cases "os_write tmp new w1")
    have gone: "q \<noteq> tmp" if "fs_get w q \<noteq> None" for q using new(1) that by auto
    have w2p: "fs_get w2 p = Some old" using os_write_fs [OF w2] ne w1p by auto
    obtain x3 w3 where w3: "os_fsync w2 = (x3, w3)" by (cases "os_fsync w2")
    obtain x4 w4 where w4: "os_close w3 = (x4, w4)" by (cases "os_close w3")
    have w4f: "fs_get w4 = fs_get w2" "fs_get w3 = fs_get w2"
      using os_fsync_fs [OF w3] os_close_fs [OF w4] by simp_all
    define w5 where "w5 = snd (os_chmod tmp (perm info) w4)"
    have w5p: "fs_get w5 p = Some old" using w2p ne by (simp add: w5_def os_chmod_keeps w4f)
    have w2q: "fs_get w2 q = fs_get w q" if "q \<noteq> tmp" for q using os_write_fs [OF w2] same [OF that] that by auto
    have w5q: "fs_get w5 q = fs_get w q" if "q \<noteq> tmp" for q
      using w2q [OF that] that by (simp add: w5_def os_chmod_keeps w4f option.map_ident)
    obtain x6 w6 where w6: "os_rename tmp p w5 = (x6, w6)" by (cases "os_rename tmp p w5")
    have w6q: "fs_get w6 q = fs_get w q" if "q \<noteq> tmp" "q \<noteq> p" for q
      using os_rename_fs [OF w6] w5q [OF that(1)] that by (auto split: sum.splits)
    show ?thesis
    proof (cases "(\<exists>k. x2 = Ok k) \<and> (\<exists>u. x3 = Ok u) \<and> (\<exists>u. x4 = Ok u) \<and> (\<exists>u. x6 = Ok u)")
      case True
      then have "r = Ok ((fc_done new)\<lparr>fc_backup := b\<rparr>)" "w' = snd (pruneOldBackups p BackupRetainCount w6)"
        using r t Inr w2 w3 w4 w5_def w6 by (auto simp: rewrite_def io_case_def io_ignore_def)
      moreover have "fs_get w2 tmp = Some (n\<lparr>n_data := new\<rparr>)"
        using os_write_fs [OF w2] True new(2,3) by auto
      then have "\<exists>n. fs_get w6 p = Some n \<and> n_data n = new"
        using os_rename_fs [OF w6] True by (auto simp: w5_def os_chmod_keeps w4f)
      ultimately have written: "\<exists>n. fs_get w6 p = Some n \<and> n_data n = new"
        and r: "r = Ok ((fc_done new)\<lparr>fc_backup := b\<rparr>)" and w': "w' = snd (pruneOldBackups p BackupRetainCount w6)"
        by blast+
      from written prune_only [of p BackupRetainCount w6 p] prune [of p]
      have "(\<exists>n. fs_get w' p = Some n \<and> n_data n = new) \<or> taken_for_backup p p \<and> fs_get w' p = None"
        unfolding w' by fastforce
      moreover have "\<forall>q. q \<noteq> p \<longrightarrow> fs_get w q \<noteq> None \<longrightarrow> \<not> taken_for_backup p q \<longrightarrow> fs_get w' q = fs_get w q"
        unfolding w' using gone w6q prune by simp
      ultimately show ?thesis using r by simp
    next
      case False
      have "(\<exists>e. x2 = Err e) \<or> (\<exists>e. x3 = Err e) \<or> (\<exists>e. x4 = Err e) \<or> (\<exists>e. x6 = Err e)"
        using False by (meson sum.exhaust)
      moreover have "fs_get w6 p = Some old" if "x6 = Err e" for e
        using os_rename_fs [OF w6] that w5p by simp
      ultimately show ?thesis
        using r t Inr w2 w3 w4 w5_def w6 w2p w4f ne
        by (auto simp: rewrite_def io_case_def io_ignore_def gone w2q w6q split: sum.splits)
    qed
  qed
qed

text \<open>An edit ends before it writes anything, with an error, or it is the backup and the rewrite of the
  file's whole content.\<close>

definition edit_body :: "file_edit_request \<Rightarrow> node \<Rightarrow> (ctx_error, file_complete) io" where
  "edit_body req info =
     io_bind (write_backup (er_path req) (n_data info) (perm info))
       (rewrite (er_path req) info (bytes_of (replaced req (string_of (n_data info)))))"

lemma edit_cases:
  assumes e: "EditFile req maxBytes w = (r, w')"
  obtains "fs_get w' = fs_get w" "\<And>fc. r = Ok fc \<Longrightarrow> fc_err fc \<noteq> []"
  | info v where "fs_get w (er_path req) = Some info" "fs_get v = fs_get w" "er_old req \<noteq> []"
      "str_count (string_of (n_data info)) (er_old req) \<noteq> 0"
      "er_replace_all req \<or> str_count (string_of (n_data info)) (er_old req) = 1"
      "int (length (n_data info)) \<le> maxBytes"
      "edit_body req info v = (r, w')"
proof -
  let ?p = "er_path req"
  obtain x1 w1 where w1: "os_stat ?p w = (x1, w1)" by (cases "os_stat ?p w")
  obtain x2 w2 where w2: "os_open ?p w1 = (x2, w2)" by (cases "os_open ?p w1")
  note f1 = os_stat_fs [OF w1] and f2 = os_open_fs [OF w2]
  show ?thesis
  proof (cases "er_old req \<noteq> [] \<and> (\<exists>info. x1 = Ok info \<and> int (length (n_data info)) \<le> maxBytes) \<and> (\<exists>src. x2 = Ok src)")
    case False
    with e w1 w2 f1 f2 show ?thesis
      by (intro that(1)) (auto simp: EditFile_def io_case_def split: if_splits sum.splits)
  next
    case True
    then obtain info where o: "er_old req \<noteq> []" and x1: "x1 = Ok info" and sz: "int (length (n_data info)) \<le> maxBytes"
      and x2: "x2 = Ok info" using f1 f2 by auto
    obtain x3 w3 where w3: "os_read_limit info (nat (maxBytes + 1)) w2 = (x3, w3)"
      by (cases "os_read_limit info (nat (maxBytes + 1)) w2")
    note f3 = os_read_limit_fs [OF w3]
    have whole: "take (nat (maxBytes + 1)) (n_data info) = n_data info" using sz by simp
    define v where "v = snd (os_close w3)"
    have fv: "fs_get v = fs_get w" using f1 f2 f3 by (simp add: v_def)
    show ?thesis
    proof (cases "(\<exists>c. x3 = Ok c) \<and> \<not> cancelled v \<and> str_count (string_of (n_data info)) (er_old req) \<noteq> 0
        \<and> (er_replace_all req \<or> str_count (string_of (n_data info)) (er_old req) = 1)")
      case True
      then have x3: "x3 = Ok (n_data info)" using f3 whole by auto
      have "edit_body req info v = (r, w')"
        using e True o w1 x1 sz w2 x2 w3 x3
        by (auto simp: EditFile_def edit_body_def io_case_def io_ignore_def v_def [symmetric]
            Let_def)
      with True f1 fv o x1 sz show ?thesis by (intro that(2) [of info v]) auto
    next
      case False
      with e o w1 x1 sz w2 x2 w3 f3 fv whole show ?thesis
        by (intro that(1); cases x3)
          (auto simp: EditFile_def io_case_def io_ignore_def v_def [symmetric]
            Let_def split: if_splits)
    qed
  qed
qed

section \<open>Properties\<close>

lemma edit_replaces_one:
  assumes "er_old req \<noteq> []" and "str_count body (er_old req) = 1" and "\<not> er_replace_all req"
  shows "\<exists>a b. body = a @ er_old req @ b \<and> replaced req body = a @ er_new req @ b"
proof -
  have "str_index body (er_old req) \<noteq> None"
    using str_count_0_iff [OF assms(1), of body] assms(2) by auto
  then obtain a b where "body = a @ er_old req @ b"
      "str_replace body (er_old req) (er_new req) (Some 1) = a @ er_new req @ b"
    by (rule str_replace_split [OF assms(1), of _ "er_new req"])
  with assms(3) show ?thesis by (auto simp: replaced_def)
qed

lemma edit_body_spec:
  assumes e: "edit_body req old w = (r, w')" and old: "fs_get w (er_path req) = Some old"
  defines "p \<equiv> er_path req" and "new \<equiv> bytes_of (replaced req (string_of (n_data old)))"
  shows "((\<forall>fc. r = Ok fc \<longrightarrow> fc_err fc \<noteq> []) \<longrightarrow> fs_get w' p = Some old)
    \<and> (\<forall>fc. r = Ok fc \<longrightarrow> fc_err fc = [] \<longrightarrow> fc_size fc = int (length new) \<and> fc_sha fc = sha_hex new
        \<and> ((\<exists>n. fs_get w' p = Some n \<and> n_data n = new) \<or> taken_for_backup p p \<and> fs_get w' p = None))
    \<and> (\<forall>q. q \<noteq> p \<longrightarrow> fs_get w q \<noteq> None \<longrightarrow> \<not> taken_for_backup p q \<longrightarrow> (\<nexists>u. q = p @ ''.bak.'' @ u)
        \<longrightarrow> fs_get w' q = fs_get w q)"
proof -
  have backup: "fs_get (snd (write_backup p c m v)) q = fs_get v q" if "\<nexists>u. q = p @ ''.bak.'' @ u" for c m v q
    using leavesD [OF leaves_backup that] .
  obtain b v where b: "write_backup p (n_data old) (perm old) w = (b, v)"
    by (cases "write_backup p (n_data old) (perm old) w")
  have v: "fs_get v q = fs_get w q" if "\<nexists>u. q = p @ ''.bak.'' @ u" for q
    using backup [OF that, of "n_data old" "perm old" w] b by simp
  have vp: "fs_get v p = Some old" using v [of p] old by (simp add: p_def)
  show ?thesis
  proof (cases b)
    case (Inl x)
    with e b have "r = Err x" "w' = v" by (simp_all add: edit_body_def io_bind_def p_def)
    with vp v show ?thesis by simp
  next
    case (Inr bp)
    with e b have "rewrite p old new bp v = (r, w')"
      by (simp add: edit_body_def io_bind_def p_def new_def)
    from rewrite_spec [OF this vp] v show ?thesis by auto
  qed
qed

text \<open>C25: Whatever system calls fail and whatever the path is, an edit that reports an error leaves
  the file at the path as it was, and after an edit that reports success the file holds the replaced
  text, completely, with the size and digest that are reported.  Without \<open>replace_all\<close> the old string
  occurred exactly once, and exactly that occurrence has been exchanged.  There is one exception, and
  the theorem names it: \<open>pruneOldBackups\<close> uses the path as a \<open>Glob\<close> pattern, and a path whose own
  pattern matches it may be removed as an old backup.  That cannot happen to a path without the
  characters \<open>* ? [ \\<close> that names a file.  No other file that existed is changed, unless its name extends the
  path by \<open>.bak.\<close> or is matched by that pattern.\<close>

theorem edit_file_atomic:
  assumes e: "EditFile req maxBytes w = (r, w')"
  defines "p \<equiv> er_path req"
  shows "(case r of
      Inl _ \<Rightarrow> fs_get w' p = fs_get w p
    | Inr fc \<Rightarrow>
        if fc_err fc \<noteq> [] then fs_get w' p = fs_get w p
        else \<exists>old new. fs_get w p = Some old \<and> new = bytes_of (replaced req (string_of (n_data old)))
          \<and> ((\<exists>n. fs_get w' p = Some n \<and> n_data n = new) \<or> taken_for_backup p p \<and> fs_get w' p = None)
          \<and> fc_size fc = int (length new) \<and> fc_sha fc = sha_hex new
          \<and> (\<not> er_replace_all req \<longrightarrow> str_count (string_of (n_data old)) (er_old req) = 1
              \<and> (\<exists>a b. string_of (n_data old) = a @ er_old req @ b
                    \<and> replaced req (string_of (n_data old)) = a @ er_new req @ b)))
    \<and> (\<not> has_meta p \<and> p \<noteq> [] \<and> last p \<noteq> slash \<longrightarrow> \<not> taken_for_backup p p)
    \<and> (\<forall>q. q \<noteq> p \<longrightarrow> fs_get w q \<noteq> None \<longrightarrow> \<not> taken_for_backup p q \<longrightarrow> (\<nexists>u. q = p @ ''.bak.'' @ u)
        \<longrightarrow> fs_get w' q = fs_get w q)"
  using e
proof (cases rule: edit_cases)
  case 1
  with plain_not_taken [of p] show ?thesis by (auto split: sum.split)
next
  case (2 info v)
  have "fs_get v (er_path req) = Some info" using 2(1,2) by simp
  note body = edit_body_spec [OF 2(7) this, folded p_def, unfolded 2(2)]
  have one: "str_count (string_of (n_data info)) (er_old req) = 1
      \<and> (\<exists>a b. string_of (n_data info) = a @ er_old req @ b
                \<and> replaced req (string_of (n_data info)) = a @ er_new req @ b)"
    if "\<not> er_replace_all req"
    using 2(5) that edit_replaces_one [OF 2(3) _ that] by blast
  have old: "fs_get w p = Some info" using 2(1) by (simp add: p_def)
  show ?thesis
  proof (cases "\<exists>fc. r = Ok fc \<and> fc_err fc = []")
    case True
    then obtain fc where fc: "r = Ok fc" "fc_err fc = []" by blast
    with body old one plain_not_taken [of p] show ?thesis by simp
  next
    case False
    with body old plain_not_taken [of p] show ?thesis by (auto split: sum.split)
  qed
qed

definition edit_demo :: world where
  "edit_demo = plain_world
     [(''/d'', \<lparr>n_kind = KDir, n_data = [], n_mode = 493, n_mtime = 0\<rparr>),
      (''/d/[f]'', plain_file (bytes_of ''aba'')), (''/d/i'', plain_file [1])] (\<lambda>_. None)"

theorem edit_file_atomic_witness:
  "fs_get (snd (EditFile \<lparr>er_path = ''/d/[f]'', er_old = ''a'', er_new = ''c'', er_replace_all = False\<rparr> 10 edit_demo))
     ''/d/[f]'' = Some (plain_file (bytes_of ''aba''))
   \<and> fs_get (snd (EditFile \<lparr>er_path = ''/d/[f]'', er_old = ''a'', er_new = ''c'', er_replace_all = False\<rparr> 10 edit_demo))
     ''/d/i'' = Some (plain_file [1])"
proof -
  let ?req = "\<lparr>er_path = ''/d/[f]'', er_old = ''a'', er_new = ''c'', er_replace_all = False\<rparr>"
  have m: "map_sum (\<lambda>_. ()) fc_err (fst (EditFile ?req 10 edit_demo)) = Ok ''ambiguous_match''"
    and h: "fs_get edit_demo ''/d/[f]'' = Some (plain_file (bytes_of ''aba''))"
      "fs_get edit_demo ''/d/i'' = Some (plain_file [1])" "\<not> taken_for_backup ''/d/[f]'' ''/d/i''"
    by code_simp+
  note claim = edit_file_atomic [OF surjective_pairing [of "EditFile ?req 10 edit_demo"]]
  from claim m h(1) have "fs_get (snd (EditFile ?req 10 edit_demo)) ''/d/[f]'' = Some (plain_file (bytes_of ''aba''))"
    by (auto split: sum.splits)
  moreover from claim have "fs_get (snd (EditFile ?req 10 edit_demo)) ''/d/i'' = Some (plain_file [1])"
    using h(2,3) by simp
  ultimately show ?thesis ..
qed

lemma match_lines_from_spec:
  assumes "needle \<noteq> []"
  shows "length (match_lines_from k body needle) = str_count (drop k body) needle
    \<and> (\<forall>l \<in> set (match_lines_from k body needle). \<exists>a b. body = a @ needle @ b \<and> k \<le> length a
          \<and> l = 1 + int (count_list a (CHR 0x0A)))
    \<and> sorted (match_lines_from k body needle)"
  using assms
proof (induction k body needle rule: match_lines_from.induct)
  case (1 k body needle)
  show ?case
  proof (cases "k \<ge> length body \<or> str_index (drop k body) needle = None")
    case True
    moreover have "str_index (drop k body) needle = None" if "k \<ge> length body"
      using that 1(2) by simp
    ultimately have "str_index (drop k body) needle = None" by blast
    with 1(2) show ?thesis
      by (subst (1 2 3) match_lines_from.simps) (simp add: str_count.simps [of _ needle])
  next
    case False
    then obtain i where i: "str_index (drop k body) needle = Some i" and k: "k < length body" by auto
    let ?l = "1 + int (str_count (take (k + i) body) [CHR 0x0A])"
    let ?k = "k + i + length needle"
    have "\<not> (needle = [] \<or> k \<ge> length body)" using k 1(2) by simp
    note ih = 1(1) [OF this i refl 1(2)]
    have eq: "match_lines_from k body needle = ?l # match_lines_from ?k body needle"
      using i k 1(2) by (subst match_lines_from.simps) (simp add: Let_def)
    obtain a b where ab: "drop k body = a @ needle @ b" "length a = i"
      using str_index_Some [OF i] by blast
    have body: "body = (take k body @ a) @ needle @ b" using ab(1) by (metis append.assoc append_take_drop_id)
    have len: "length (take k body @ a) = k + i" using k ab(2) by simp
    have pre: "take (k + i) body = take k body @ a"
      using body len by (metis append_eq_conv_conj)
    have first: "\<exists>a b. body = a @ needle @ b \<and> k \<le> length a \<and> ?l = 1 + int (count_list a (CHR 0x0A))"
      using body len pre by (intro exI [of _ "take k body @ a"] exI [of _ b]) (simp add: str_count_char)
    have mono: "?l \<le> l" if "l \<in> set (match_lines_from ?k body needle)" for l
    proof -
      from ih that k 1(2) obtain x y where x: "body = x @ needle @ y" "?k \<le> length x"
        "l = 1 + int (count_list x (CHR 0x0A))" by auto
      then have "take (k + i) body = take (k + i) x" by simp
      moreover have "count_list (take (k + i) x) c \<le> count_list x c" for c
        by (metis append_take_drop_id count_list_append le_add1)
      ultimately show ?thesis using x(3) by (simp add: str_count_char)
    qed
    have cnt: "str_count (drop k body) needle = Suc (str_count (drop ?k body) needle)"
      using i 1(2) by (subst str_count.simps) (simp add: add.commute add.left_commute)
    have tail: "length (match_lines_from ?k body needle) = str_count (drop ?k body) needle"
        "sorted (match_lines_from ?k body needle)"
      using ih by simp_all
    have rest: "\<exists>a b. body = a @ needle @ b \<and> k \<le> length a \<and> l = 1 + int (count_list a (CHR 0x0A))"
        if l: "l \<in> set (match_lines_from ?k body needle)" for l
    proof -
      from ih l obtain a b where "body = a @ needle @ b" "?k \<le> length a"
        "l = 1 + int (count_list a (CHR 0x0A))" by blast
      then show ?thesis by (intro exI [of _ a] exI [of _ b]) simp
    qed
    show ?thesis
      unfolding eq using tail cnt first rest mono by (simp del: append_assoc)
  qed
qed

text \<open>The lines that an ambiguous match reports are as many as the occurrences that were counted, in
  ascending order, and each is the line on which an occurrence of the needle starts.\<close>

theorem match_lines_sound:
  assumes "needle \<noteq> []"
  shows "length (matchLines body needle) = str_count body needle \<and> sorted (matchLines body needle)
    \<and> (\<forall>l \<in> set (matchLines body needle). \<exists>a b. body = a @ needle @ b
          \<and> l = 1 + int (count_list a (CHR 0x0A)))"
  using match_lines_from_spec [OF assms, of 0 body] by (auto simp: matchLines_def)

theorem match_lines_sound_witness:
  "length (matchLines [CHR ''x'', CHR 0x0A, CHR ''x''] ''x'') = str_count [CHR ''x'', CHR 0x0A, CHR ''x''] ''x''"
  using match_lines_sound [of "''x''" "[CHR ''x'', CHR 0x0A, CHR ''x'']"] by simp

definition prune_demo :: world where
  "prune_demo = plain_world
     ((''/d'', \<lparr>n_kind = KDir, n_data = [], n_mode = 493, n_mtime = 0\<rparr>)
      # map (\<lambda>c. (''/d/i.bak.'' @ [c], plain_file [1])) ''123456'') (\<lambda>_. None)"

text \<open>Pruning takes the path for a pattern: for a file named \<open>[id]\<close> it never finds the file's own
  backups, whatever their suffix, and it deletes a backup of the sibling \<open>i\<close>.\<close>

theorem prune_takes_path_for_pattern:
  "path_match (path_file (''/d/[id]'' @ ''.bak.*'')) (''[id].bak.'' @ u) = Some False
   \<and> fs_get prune_demo ''/d/i.bak.6'' \<noteq> None
   \<and> fs_get (snd (pruneOldBackups ''/d/[id]'' BackupRetainCount prune_demo)) ''/d/i.bak.6'' = None"
proof (intro conjI)
  have p: "parse_glob (length ''[id].bak.*'') ''[id].bak.*'' = Some (GClass False [(CHR ''i'', CHR ''i''), (CHR ''d'', CHR ''d'')]
      # map GLit ''.bak.'' @ [GStar])" and f: "path_file (''/d/[id]'' @ ''.bak.*'') = ''[id].bak.*''"
    by code_simp+
  have "\<not> in_class False [(CHR ''i'', CHR ''i''), (CHR ''d'', CHR ''d'')] (CHR ''['')" by code_simp
  then show "path_match (path_file (''/d/[id]'' @ ''.bak.*'')) (''[id].bak.'' @ u) = Some False"
    unfolding f path_match_def p by simp
  show "fs_get prune_demo ''/d/i.bak.6'' \<noteq> None"
    "fs_get (snd (pruneOldBackups ''/d/[id]'' BackupRetainCount prune_demo)) ''/d/i.bak.6'' = None"
    by code_simp+
qed

end
