(* ===== verification/Read_File.thy ===== *)
theory Read_File
  imports File_Proto
begin

text \<open>
  \<open>internal/tools/readfile.go\<close>: a file is read in chunks that are handed to an emitter.  The emitted
  chunks are a result of the model.  A read may return fewer bytes than asked for; the loop ends
  because every read that is not the last consumes at least one byte.
\<close>

definition readChunkSize :: nat where "readChunkSize = 1048576"

text \<open>The cap beyond which the read fails, and the polite limit; 0 is no limit.\<close>

definition hard_cap :: "file_read_request \<Rightarrow> int \<Rightarrow> int" where
  "hard_cap req maxBytes =
     (if rr_max_size req > 0 \<and> rr_max_size req < maxBytes then rr_max_size req else maxBytes)"

definition soft_cap :: "file_read_request \<Rightarrow> nat" where
  "soft_cap req = (if rr_limit req > 0 then nat (rr_limit req) else 0)"

definition read_size :: "nat \<Rightarrow> nat \<Rightarrow> nat" where
  "read_size soft sofar =
     (if soft > 0 \<and> soft - sofar < readChunkSize then soft - sofar else readChunkSize)"

lemma os_read_some:
  "os_read f off n w = (Inr (Some d), w') \<Longrightarrow> 0 < n \<Longrightarrow>
     \<exists>k>0. k \<le> n \<and> d = take k (drop off (n_data f)) \<and> off < length (n_data f)"
  by (rule exI [of _ "min n (Suc (w_short w (Suc (w_tick w))))"])
    (auto simp: os_read_def sys_def Let_def tick_def split: option.splits if_splits)

lemma os_read_progress:
  assumes "os_read f off n w = (Inr (Some d), w')" and "0 < n"
  shows "0 < length d \<and> length d \<le> n \<and> d = take (length d) (drop off (n_data f))
    \<and> off + length d \<le> length (n_data f)"
proof -
  from os_read_some [OF assms] obtain k where "0 < k" "k \<le> n" "d = take k (drop off (n_data f))"
    "off < length (n_data f)" by blast
  then show ?thesis by (cases "k \<le> length (n_data f) - off") auto
qed

lemma read_size_pos: "\<not> (soft > 0 \<and> n \<ge> soft) \<Longrightarrow> 0 < read_size soft n"
  by (auto simp: read_size_def readChunkSize_def)

text \<open>The loop: \<open>data\<close> is what has been read since the offset, \<open>out\<close> what has been emitted.\<close>

function read_loop ::
  "node \<Rightarrow> nat \<Rightarrow> int \<Rightarrow> nat \<Rightarrow> bytes \<Rightarrow> file_chunk list \<Rightarrow> world
   \<Rightarrow> ((ctx_error + file_complete) \<times> file_chunk list) \<times> world" where
  "read_loop f off hard soft data out w =
     (if cancelled w then ((Err CtxCancelled, out), w)
      else if soft > 0 \<and> length data \<ge> soft then
        ((Ok (fc_done data), out @ [\<lparr>ck_data = [], ck_eof = True\<rparr>]), w)
      else case os_read f (off + length data) (read_size soft (length data)) w of
        (Inl _, w') \<Rightarrow>
          ((Ok (fc_zero\<lparr>fc_size := int (length data), fc_err := ''read_failed''\<rparr>), out), w')
      | (Inr None, w') \<Rightarrow>
          ((Ok (fc_done data), out @ [\<lparr>ck_data = [], ck_eof = True\<rparr>]), w')
      | (Inr (Some d), w') \<Rightarrow>
          if int (length data) + int (length d) > hard then
            ((Ok (fc_zero\<lparr>fc_size := int (length data), fc_err := ''exceeds_max_size''\<rparr>), out), w')
          else read_loop f off hard soft (data @ d) (out @ [\<lparr>ck_data = d, ck_eof = False\<rparr>]) w')"
  by pat_completeness auto

termination
proof (relation "measure (\<lambda>(f, off, hard, soft, data, out, w). length (n_data f) - (off + length data))",
    goal_cases)
  case (2 f off hard soft data out w x y z d)
  then have "os_read f (off + length data) (read_size soft (length data)) w = (Inr (Some d), y)" by simp
  from os_read_progress [OF this read_size_pos] 2
  have "0 < length d \<and> off + length data + length d \<le> length (n_data f)" by blast
  then show ?case unfolding in_measure prod.case length_append by linarith
qed simp

declare read_loop.simps [simp del]

text \<open>\<open>f.Seek(off, io.SeekStart)\<close>, called for a positive offset only.\<close>

definition os_seek :: "int \<Rightarrow> (os_error, unit) io" where
  "os_seek off = (if off > 0 then sys (\<lambda>w. (Ok (), w)) else io_ret ())"

definition ReadFile ::
  "file_read_request \<Rightarrow> int \<Rightarrow> world \<Rightarrow> ((ctx_error + file_complete) \<times> file_chunk list) \<times> world" where
  "ReadFile req maxBytes w =
     (if rr_offset req < 0 then
        ((Ok ((fc_error ''bad_payload'')\<lparr>fc_detail := ''offset must be >= 0''\<rparr>), []), w)
      else if rr_limit req < 0 then
        ((Ok ((fc_error ''bad_payload'')\<lparr>fc_detail := ''limit must be >= 0 (0 means read to EOF)''\<rparr>), []), w)
      else case os_open (rr_path req) w of
        (Inl e, w') \<Rightarrow> ((Ok (fc_error (if e = ENOENT then ''not_found'' else ''open_failed'')), []), w')
      | (Inr f, w') \<Rightarrow>
          (let (r, w'') = (case os_seek (rr_offset req) w' of
                 (Inl _, w1) \<Rightarrow> ((Ok (fc_error ''read_failed''), []), w1)
               | (Inr _, w1) \<Rightarrow>
                   read_loop f (nat (rr_offset req)) (hard_cap req maxBytes) (soft_cap req) [] [] w1)
           in (r, snd (os_close w''))))"

section \<open>What is read\<close>

definition emitted :: "file_chunk list \<Rightarrow> bytes" where
  "emitted out = concat (map ck_data out)"

lemma emitted_append [simp]: "emitted (out @ [c]) = emitted out @ ck_data c"
  by (simp add: emitted_def)

definition wanted :: "node \<Rightarrow> nat \<Rightarrow> nat \<Rightarrow> bytes" where
  "wanted f off soft = (if soft = 0 then drop off (n_data f) else take soft (drop off (n_data f)))"

lemma wanted_extend:
  assumes "data = take (length data) (wanted f off soft)"
    and "d = take (length d) (drop (off + length data) (n_data f))" "length d \<le> read_size soft (length data)"
    and "\<not> (soft > 0 \<and> length data \<ge> soft)" and "off + length data + length d \<le> length (n_data f)"
  shows "data @ d = take (length (data @ d)) (wanted f off soft) \<and> length (data @ d) \<le> length (wanted f off soft)"
proof -
  define r where "r = drop off (n_data f)"
  have fit: "soft = 0 \<or> length data + length d \<le> soft"
    using assms(3,4) by (auto simp: read_size_def split: if_splits)
  have len: "length data + length d \<le> length r" using assms(5) by (simp add: r_def)
  have w: "wanted f off soft = (if soft = 0 then r else take soft r)" by (simp add: wanted_def r_def)
  have "data = take (length data) r" using assms(1) fit by (auto simp: w min_def split: if_splits)
  moreover have "d = take (length d) (drop (length data) r)" using assms(2) by (simp add: r_def add.commute)
  ultimately have "data @ d = take (length data + length d) r" by (metis take_add)
  then show ?thesis using fit len by (auto simp: w min_def)
qed

text \<open>What the loop guarantees when it ends with the result \<open>r\<close> and the emitted bytes \<open>e\<close>, where \<open>W\<close> are
  the bytes asked for.\<close>

definition read_post :: "bytes \<Rightarrow> int \<Rightarrow> (ctx_error + file_complete) \<Rightarrow> file_chunk list \<Rightarrow> bool" where
  "read_post W hard r out \<longleftrightarrow>
     (\<exists>m \<le> length W. emitted out = take m W \<and> int m \<le> max hard 0)
     \<and> (case r of Inl _ \<Rightarrow> True
        | Inr fc \<Rightarrow> fc_size fc = int (length (emitted out))
           \<and> (fc_err fc = [] \<longrightarrow> fc = fc_done W \<and> emitted out = W \<and> out \<noteq> [] \<and> ck_eof (last out))
           \<and> (fc_err fc \<noteq> [] \<longrightarrow> fc_err fc = ''read_failed''
               \<or> fc_err fc = ''exceeds_max_size'' \<and> int (length W) > hard))"

lemma take_length_le: "data = take (length data) W \<Longrightarrow> length data \<le> length W"
  by (cases "length W \<le> length data") auto

lemma read_post_partial:
  "emitted out = data \<Longrightarrow> data = take (length data) W \<Longrightarrow> int (length data) \<le> max hard 0 \<Longrightarrow>
     r = Err e \<or> r = Ok (fc_zero\<lparr>fc_size := int (length data), fc_err := ''read_failed''\<rparr>)
     \<or> int (length W) > hard \<and> r = Ok (fc_zero\<lparr>fc_size := int (length data), fc_err := ''exceeds_max_size''\<rparr>) \<Longrightarrow>
     read_post W hard r out"
  unfolding read_post_def
  by (rule conjI, rule exI [of _ "length data"], use take_length_le [of data W] in simp) auto

lemma read_post_whole:
  "emitted out = W \<Longrightarrow> int (length W) \<le> max hard 0 \<Longrightarrow>
     read_post W hard (Ok (fc_done W)) (out @ [\<lparr>ck_data = [], ck_eof = True\<rparr>])"
  unfolding read_post_def by (rule conjI, rule exI [of _ "length W"]) auto

lemma os_read_fs: "os_read f off n w = (x, w') \<Longrightarrow> fs_get w' = fs_get w"
  by (auto simp: os_read_def sys_def Let_def split: option.splits if_splits)

lemma read_loop_spec:
  assumes "read_loop f off hard soft data out w = ((r, out'), w')"
    and "emitted out = data" "data = take (length data) (wanted f off soft)" "int (length data) \<le> max hard 0"
  shows "fs_get w' = fs_get w \<and> read_post (wanted f off soft) hard r out'"
  using assms
proof (induction f off hard soft data out w rule: read_loop.induct)
  case (1 f off hard soft data out w)
  let ?W = "wanted f off soft"
  note run = 1(2) and inv = 1(3-5)
  have ld: "length data \<le> length ?W" using inv(2) by (rule take_length_le)
  show ?case
  proof (cases "cancelled w")
    case True
    then have "read_loop f off hard soft data out w = ((Err CtxCancelled, out), w)"
      by (subst read_loop.simps) simp
    with run inv show ?thesis by (auto intro: read_post_partial)
  next
    case nc: False
    show ?thesis
    proof (cases "soft > 0 \<and> length data \<ge> soft")
      case True
      have "?W = data" using True inv(2) ld by (simp add: wanted_def)
      moreover have "read_loop f off hard soft data out w
          = ((Ok (fc_done data), out @ [\<lparr>ck_data = [], ck_eof = True\<rparr>]), w)"
        using True nc by (subst read_loop.simps) simp
      ultimately show ?thesis using run inv read_post_whole [of out ?W hard] by auto
    next
      case ns: False
      obtain x w1 where x: "os_read f (off + length data) (read_size soft (length data)) w = (x, w1)"
        by (cases "os_read f (off + length data) (read_size soft (length data)) w")
      note step = read_loop.simps [of f off hard soft data out w]
      show ?thesis
      proof (cases x)
        case (Inl e)
        have "read_loop f off hard soft data out w
          = ((Ok (fc_zero\<lparr>fc_size := int (length data), fc_err := ''read_failed''\<rparr>), out), w1)"
          using nc ns x Inl by (subst step) auto
        with run inv os_read_fs [OF x] show ?thesis by (auto intro: read_post_partial)
      next
        case (Inr y)
        show ?thesis
        proof (cases y)
          case None
          with x Inr have "drop (off + length data) (n_data f) = []"
            by (auto simp: os_read_def sys_def Let_def split: option.splits if_splits)
          then have "?W = data" using inv(2) ld by (auto simp: wanted_def split: if_splits)
          moreover have "read_loop f off hard soft data out w
              = ((Ok (fc_done data), out @ [\<lparr>ck_data = [], ck_eof = True\<rparr>]), w1)"
            using nc ns x Inr None by (subst step) auto
          ultimately show ?thesis
            using run inv os_read_fs [OF x] read_post_whole [of out ?W hard] by auto
        next
          case (Some d)
          have pos: "0 < read_size soft (length data)" using ns by (rule read_size_pos)
          note d = os_read_progress [OF x [unfolded Inr Some] pos]
          have data': "data @ d = take (length (data @ d)) ?W" "length (data @ d) \<le> length ?W"
            using wanted_extend [OF inv(2) _ _ ns] d by blast+
          show ?thesis
          proof (cases "int (length data) + int (length d) > hard")
            case True
            have "read_loop f off hard soft data out w
              = ((Ok (fc_zero\<lparr>fc_size := int (length data), fc_err := ''exceeds_max_size''\<rparr>), out), w1)"
              using nc ns x Inr Some True by (subst step) auto
            moreover have "int (length ?W) > hard" using True data'(2) by simp
            ultimately show ?thesis using run inv os_read_fs [OF x] by (auto intro: read_post_partial)
          next
            case False
            have eq: "read_loop f off hard soft data out w
                = read_loop f off hard soft (data @ d) (out @ [\<lparr>ck_data = d, ck_eof = False\<rparr>]) w1"
              using nc ns x Inr Some False by (subst step) auto
            have "fs_get w' = fs_get w1 \<and> read_post ?W hard r out'"
              using 1(1) [OF nc ns x [symmetric] Inr Some False] run eq inv(1) data' False by simp
            with os_read_fs [OF x] show ?thesis by simp
          qed
        qed
      qed
    qed
  qed
qed

lemma os_read_quiet:
  "quiet w \<Longrightarrow> n_kind f \<noteq> KDir \<Longrightarrow> os_read f off n w = (x, w') \<Longrightarrow> quiet w' \<and> (\<exists>y. x = Ok y)"
  by (auto simp: os_read_def Let_def split: if_splits)

lemma read_loop_quiet:
  assumes "read_loop f off hard soft data out w = ((r, out'), w')" "quiet w" "n_kind f \<noteq> KDir"
  shows "\<exists>fc. r = Ok fc \<and> fc_err fc \<noteq> ''read_failed''"
  using assms
proof (induction f off hard soft data out w rule: read_loop.induct)
  case (1 f off hard soft data out w)
  obtain x w1 where x: "os_read f (off + length data) (read_size soft (length data)) w = (x, w1)"
    by (cases "os_read f (off + length data) (read_size soft (length data)) w")
  from os_read_quiet [OF 1(3,4) x] obtain y where y: "x = Ok y" "quiet w1" by blast
  show ?case
  proof (cases "soft > 0 \<and> length data \<ge> soft")
    case True
    with 1 show ?thesis by (subst (asm) (2) read_loop.simps) auto
  next
    case ns: False
    with 1(2,3) x y have run: "(case y of
          None \<Rightarrow> ((Ok (fc_done data), out @ [\<lparr>ck_data = [], ck_eof = True\<rparr>]), w1)
        | Some d \<Rightarrow> if int (length data) + int (length d) > hard then
            ((Ok (fc_zero\<lparr>fc_size := int (length data), fc_err := ''exceeds_max_size''\<rparr>), out), w1)
          else read_loop f off hard soft (data @ d) (out @ [\<lparr>ck_data = d, ck_eof = False\<rparr>]) w1)
        = ((r, out'), w')"
      by (subst (asm) read_loop.simps) (simp only: if_not_P prod.case sum.case quiet_not_cancelled not_False_eq_True if_False)
    show ?thesis
    proof (cases y)
      case None
      with run show ?thesis by auto
    next
      case (Some d)
      show ?thesis
      proof (cases "int (length data) + int (length d) > hard")
        case True
        with run Some show ?thesis by auto
      next
        case False
        with run Some have "read_loop f off hard soft (data @ d) (out @ [\<lparr>ck_data = d, ck_eof = False\<rparr>]) w1
          = ((r, out'), w')" by simp
        from 1(1) [OF _ ns x [symmetric] y(1) Some False this y(2) 1(4)] 1(3) show ?thesis by simp
      qed
    qed
  qed
qed

lemma ReadFile_facts:
  assumes "ReadFile req maxBytes w = ((r, out), w')"
  defines "hard \<equiv> hard_cap req maxBytes"
  shows "fs_get w' = fs_get w
    \<and> (out = [] \<or> (\<exists>f. fs_get w (rr_path req) = Some f
         \<and> (let W = wanted f (nat (rr_offset req)) (soft_cap req) in
              (\<exists>m. emitted out = take m W) \<and> int (length (emitted out)) \<le> max hard 0)))
    \<and> (\<forall>fc. r = Ok fc \<and> fc_err fc = [] \<longrightarrow>
         (\<exists>f. fs_get w (rr_path req) = Some f
           \<and> emitted out = wanted f (nat (rr_offset req)) (soft_cap req)
           \<and> fc = fc_done (emitted out) \<and> out \<noteq> [] \<and> ck_eof (last out)))
    \<and> (\<forall>f. quiet w \<and> fs_get w (rr_path req) = Some f \<and> n_kind f \<noteq> KDir \<and> 0 \<le> rr_offset req
         \<and> 0 \<le> rr_limit req \<and> int (length (wanted f (nat (rr_offset req)) (soft_cap req))) \<le> hard \<longrightarrow>
         (\<exists>fc. r = Ok fc \<and> fc_err fc = []))"
proof (cases "rr_offset req < 0 \<or> rr_limit req < 0")
  case True
  with assms(1) show ?thesis by (auto simp: ReadFile_def split: if_splits)
next
  case pos: False
  obtain o1 w1 where o1: "os_open (rr_path req) w = (o1, w1)" by (cases "os_open (rr_path req) w")
  note op = os_open_fs [OF o1]
  show ?thesis
  proof (cases o1)
    case (Inl e)
    with assms(1) pos o1 have "w' = w1" "out = []" "r = Ok (fc_error (if e = ENOENT then ''not_found'' else ''open_failed''))"
      by (simp_all add: ReadFile_def)
    moreover have "\<not> (quiet w \<and> fs_get w (rr_path req) \<noteq> None)" using o1 Inl by (auto simp: os_open_def split: option.splits)
    ultimately show ?thesis using op by auto
  next
    case (Inr f)
    with op have f: "fs_get w (rr_path req) = Some f" "fs_get w1 = fs_get w" by auto
    obtain s w2 where s: "os_seek (rr_offset req) w1 = (s, w2)" by (cases "os_seek (rr_offset req) w1")
    have w2: "fs_get w2 = fs_get w1" using s by (auto simp: os_seek_def sys_def split: if_splits option.splits)
    have q: "quiet w \<Longrightarrow> quiet w2 \<and> (\<exists>u. s = Ok u)"
      using s o1 Inr by (auto simp: os_seek_def os_open_def split: if_splits option.splits)
    show ?thesis
    proof (cases s)
      case (Inl e)
      with assms(1) pos o1 Inr s have "w' = snd (os_close w2)" "out = []" "r = Ok (fc_error ''read_failed'')"
        by (simp_all add: ReadFile_def \<open>o1 = Inr f\<close>)
      then show ?thesis using q Inl f w2 by auto
    next
      case ok: (Inr u)
      obtain x y w3 where l: "read_loop f (nat (rr_offset req)) hard (soft_cap req) [] [] w2 = ((x, y), w3)"
        by (metis surj_pair)
      with assms(1) pos o1 Inr s ok have e: "r = x" "out = y" "w' = snd (os_close w3)"
        by (simp_all add: ReadFile_def hard_def)
      from read_loop_spec [OF l] have post: "fs_get w3 = fs_get w2"
        "read_post (wanted f (nat (rr_offset req)) (soft_cap req)) hard r out"
        by (simp_all add: emitted_def e)
      have live: "quiet w \<Longrightarrow> n_kind f \<noteq> KDir \<Longrightarrow> \<exists>fc. r = Ok fc \<and> fc_err fc \<noteq> ''read_failed''"
        using read_loop_quiet [OF l] q e by simp
      let ?W = "wanted f (nat (rr_offset req)) (soft_cap req)"
      have 1: "(\<exists>m. emitted out = take m ?W) \<and> int (length (emitted out)) \<le> max hard 0"
        using post(2) unfolding read_post_def by auto
      have 2: "emitted out = ?W \<and> fc = fc_done (emitted out) \<and> out \<noteq> [] \<and> ck_eof (last out)"
        if "r = Ok fc" "fc_err fc = []" for fc
        using post(2) that unfolding read_post_def by auto
      have 3: "\<exists>fc. r = Ok fc \<and> fc_err fc = []" if "quiet w" "n_kind f \<noteq> KDir" "int (length ?W) \<le> hard"
      proof -
        from live [OF that(1,2)] obtain fc where "r = Ok fc" "fc_err fc \<noteq> ''read_failed''" by blast
        with post(2) that(3) show ?thesis unfolding read_post_def by (cases "fc_err fc = []") auto
      qed
      have same: "fs_get w' = fs_get w" using f w2 post(1) e(3) by simp
      show ?thesis unfolding Let_def
      proof (intro conjI)
        show "out = [] \<or> (\<exists>f. fs_get w (rr_path req) = Some f
            \<and> (\<exists>m. emitted out = take m (wanted f (nat (rr_offset req)) (soft_cap req)))
            \<and> int (length (emitted out)) \<le> max hard 0)"
          using f(1) 1 by blast
        show "\<forall>fc. r = Ok fc \<and> fc_err fc = [] \<longrightarrow> (\<exists>f. fs_get w (rr_path req) = Some f
            \<and> emitted out = wanted f (nat (rr_offset req)) (soft_cap req)
            \<and> fc = fc_done (emitted out) \<and> out \<noteq> [] \<and> ck_eof (last out))"
          using f(1) 2 by blast
        show "\<forall>f. quiet w \<and> fs_get w (rr_path req) = Some f \<and> n_kind f \<noteq> KDir \<and> 0 \<le> rr_offset req
            \<and> 0 \<le> rr_limit req \<and> int (length (wanted f (nat (rr_offset req)) (soft_cap req))) \<le> hard \<longrightarrow>
            (\<exists>fc. r = Ok fc \<and> fc_err fc = [])"
          using f(1) 3 by (metis option.inject)
      qed (rule same)
    qed
  qed
qed

text \<open>C27: \<open>ReadFile\<close> changes no file, and emits only bytes of the file it opened: the chunks it emits,
  joined, are a prefix of the bytes asked for (from the offset, at most \<open>limit\<close> of them when a limit is
  given) and never exceed the smaller of \<open>maxBytes\<close> and \<open>max_size\<close>.  When it reports success, all of them
  were emitted, the last chunk carries the end-of-file mark, and the reported size and SHA-256 are those
  of the emitted bytes.  When no system call fails, the file is not a directory and the bytes asked for fit
  the caps, it does report success.\<close>

theorem read_file_spec:
  assumes "ReadFile req maxBytes w = ((r, out), w')"
  defines "hard \<equiv> hard_cap req maxBytes"
  shows "fs_get w' = fs_get w
    \<and> (out = [] \<or> (\<exists>f. fs_get w (rr_path req) = Some f
         \<and> (let W = wanted f (nat (rr_offset req)) (soft_cap req) in
              (\<exists>m. emitted out = take m W) \<and> int (length (emitted out)) \<le> max hard 0)))
    \<and> (\<forall>fc. r = Ok fc \<and> fc_err fc = [] \<longrightarrow>
         (\<exists>f. fs_get w (rr_path req) = Some f
           \<and> emitted out = wanted f (nat (rr_offset req)) (soft_cap req)
           \<and> fc = fc_done (emitted out) \<and> out \<noteq> [] \<and> ck_eof (last out)))
    \<and> (\<forall>f. quiet w \<and> fs_get w (rr_path req) = Some f \<and> n_kind f \<noteq> KDir \<and> 0 \<le> rr_offset req
         \<and> 0 \<le> rr_limit req \<and> int (length (wanted f (nat (rr_offset req)) (soft_cap req))) \<le> hard \<longrightarrow>
         (\<exists>fc. r = Ok fc \<and> fc_err fc = []))"
  unfolding hard_def using assms(1) by (rule ReadFile_facts)

theorem read_file_spec_witness:
  "\<exists>fc out w'. ReadFile \<lparr>rr_path = ''/f'', rr_max_size = 9, rr_offset = 1, rr_limit = 2\<rparr> 100
        (plain_world [(''/f'', plain_file [1, 2, 3, 4])] (\<lambda>_. None)) = ((Ok fc, out), w')
    \<and> fc_err fc = [] \<and> fc_size fc = 2 \<and> emitted out = [2, 3]"
proof -
  let ?req = "\<lparr>rr_path = ''/f'', rr_max_size = 9, rr_offset = 1, rr_limit = 2\<rparr>"
  let ?w = "plain_world [(''/f'', plain_file [1, 2, 3, 4])] (\<lambda>_. None)"
  let ?f = "plain_file [1, 2, 3, 4]"
  obtain r out w' where run: "ReadFile ?req 100 ?w = ((r, out), w')" by (metis surj_pair)
  have w: "fs_get ?w (rr_path ?req) = Some ?f" "quiet ?w" "n_kind ?f \<noteq> KDir"
    by (simp_all add: fs_get_def plain_world_def quiet_def plain_file_def)
  have caps: "soft_cap ?req = 2" "hard_cap ?req 100 = 9" by (simp_all add: soft_cap_def hard_cap_def)
  have W: "wanted ?f (nat (rr_offset ?req)) (soft_cap ?req) = [2, 3]"
    unfolding caps by (simp add: wanted_def plain_file_def numeral_2_eq_2)
  note spec = read_file_spec [OF run]
  have "int (length (wanted ?f (nat (rr_offset ?req)) (soft_cap ?req))) \<le> hard_cap ?req 100"
    unfolding W caps(2) by simp
  with spec w obtain fc where fc: "r = Ok fc" "fc_err fc = []" by (metis file_read_request.select_convs(3,4) zero_le_one zero_le_numeral)
  with spec obtain f where "fs_get ?w (rr_path ?req) = Some f"
    "emitted out = wanted f (nat (rr_offset ?req)) (soft_cap ?req)" "fc = fc_done (emitted out)" by blast
  with w(1) W have "emitted out = [2, 3]" "fc_size fc = 2" by simp_all
  with run fc show ?thesis by blast
qed

end
