(* ===== verification/Upload.thy ===== *)
theory Upload
  imports Write_File
begin

text \<open>
  \<open>internal/tools/upload.go\<close>: a file arrives in chunks from the bridge or in the body of an HTTP
  response, is collected in a temporary file and renamed over the destination once its digest and
  size are what the request expects.  \<open>et\<close> is the text of an error of the operating system; the
  answer of the HTTP client is an argument.
\<close>

definition UploadMaxBytes :: int where "UploadMaxBytes = 2 ^ 30"

datatype http_result =
    BadURL string
  | FetchFailed string
  | Response int "(string + bytes) list"

definition openUploadTemp :: "string \<Rightarrow> nat \<Rightarrow> (os_error, string) io" where
  "openUploadTemp destPath mode =
     (let dir = path_dir destPath in
      io_bind (os_mkdir_all dir 493) (\<lambda>_.
      io_bind (os_create_temp dir ''.agbridge-upload-'' []) (\<lambda>tmp.
        if mode \<noteq> 0 then io_ignore (os_chmod tmp mode) (io_ret tmp) else io_ret tmp)))"

definition fc_fail :: "nat \<Rightarrow> string \<Rightarrow> string \<Rightarrow> file_complete" where
  "fc_fail n code detail = fc_zero\<lparr>fc_size := int n, fc_err := code, fc_detail := detail\<rparr>"

definition chmod_if :: "nat \<Rightarrow> string \<Rightarrow> ('e, 'a) io \<Rightarrow> ('e, 'a) io" where
  "chmod_if mode tmp k = (if mode \<noteq> 0 then io_ignore (os_chmod tmp mode) k else k)"

definition finalizeUpload ::
  "(os_error \<Rightarrow> string) \<Rightarrow> string \<Rightarrow> string \<Rightarrow> nat \<Rightarrow> int \<Rightarrow> string \<Rightarrow> bytes \<Rightarrow> (ctx_error, file_complete) io" where
  "finalizeUpload et tmp destPath mode expSize expSha data =
     (let n = length data;
          failed = (\<lambda>code detail. io_ignore (os_remove tmp) (io_ret (fc_fail n code detail))) in
      io_case os_fsync (\<lambda>e. cleanup_tmp tmp (io_ret (fc_fail n ''write_failed'' (et e)))) (\<lambda>_.
      io_case os_close (\<lambda>e. failed ''close_failed'' (et e)) (\<lambda>_.
        let sum = sha_hex data in
        if expSha \<noteq> [] \<and> sum \<noteq> expSha then
          failed ''sha256_mismatch'' (''expected '' @ expSha @ '' got '' @ sum)
        else if expSize > 0 \<and> expSize \<noteq> int n then
          failed ''size_mismatch'' (''expected '' @ itoa expSize @ '' got '' @ itoa (int n))
        else chmod_if mode tmp
          (io_case (os_rename tmp destPath) (\<lambda>e. failed ''rename_failed'' (et e))
             (\<lambda>_. io_ret (fc_done data))))))"

text \<open>The receive loop of \<open>UploadChunks\<close>; a source that is used up yields the error \<open>closed\<close>.\<close>

fun upload_loop ::
  "(os_error \<Rightarrow> string) \<Rightarrow> string \<Rightarrow> (string + file_chunk) list \<Rightarrow> bytes \<Rightarrow> (ctx_error, file_complete + bytes) io" where
  "upload_loop et tmp [] data w =
     (if cancelled w then cleanup_tmp tmp (io_fail CtxCancelled) w
      else cleanup_tmp tmp (io_ret (Inl (fc_fail (length data) ''source_error: closed'' []))) w)"
| "upload_loop et tmp (Inl e # src) data w =
     (if cancelled w then cleanup_tmp tmp (io_fail CtxCancelled) w
      else cleanup_tmp tmp (io_ret (Inl (fc_fail (length data) (''source_error: '' @ e) []))) w)"
| "upload_loop et tmp (Inr c # src) data w =
     (if cancelled w then cleanup_tmp tmp (io_fail CtxCancelled) w
      else if ck_data c = [] then
        (if ck_eof c then io_ret (Inr data) w else upload_loop et tmp src data w)
      else if int (length data) + int (length (ck_data c)) > UploadMaxBytes then
        cleanup_tmp tmp (io_ret (Inl (fc_fail (length data) ''exceeds_max_size''
          (''upload cap is '' @ itoa UploadMaxBytes @ '' bytes'')))) w
      else (case os_write tmp (ck_data c) w of
          (Inl (e, _), w') \<Rightarrow>
            cleanup_tmp tmp (io_ret (Inl (fc_fail (length data) ''write_failed'' (et e)))) w'
        | (Inr _, w') \<Rightarrow>
            (if ck_eof c then io_ret (Inr (data @ ck_data c)) w'
             else upload_loop et tmp src (data @ ck_data c) w')))"

definition UploadChunks ::
  "(os_error \<Rightarrow> string) \<Rightarrow> upload_request \<Rightarrow> (string + file_chunk) list \<Rightarrow> (ctx_error, file_complete) io" where
  "UploadChunks et req src =
     io_case (openUploadTemp (up_dest req) (up_mode req))
       (\<lambda>e. io_ret (fc_fail 0 ''tmp_create_failed'' (et e)))
       (\<lambda>tmp. io_bind (upload_loop et tmp src []) (\<lambda>r.
          case r of Inl fc \<Rightarrow> io_ret fc
          | Inr data \<Rightarrow> finalizeUpload et tmp (up_dest req) (up_mode req)
              (up_expected_size req) (up_expected_sha req) data))"

text \<open>\<open>io.Copy\<close> from the limited body into the temporary file: how much was copied, and the error.\<close>

fun copy_body ::
  "(os_error \<Rightarrow> string) \<Rightarrow> string \<Rightarrow> int \<Rightarrow> (string + bytes) list \<Rightarrow> bytes \<Rightarrow> (ctx_error, (nat \<times> string) + bytes) io" where
  "copy_body et tmp limit [] data w = io_ret (Inr data) w"
| "copy_body et tmp limit (r # body) data w =
     (if int (length data) \<ge> limit then io_ret (Inr data) w
      else case r of
        Inl e \<Rightarrow> io_ret (Inl (length data, e)) w
      | Inr b \<Rightarrow>
          (let b' = take (nat (min (int (length b)) (limit - int (length data)))) b in
           case os_write tmp b' w of
             (Inl (e, k), w') \<Rightarrow> io_ret (Inl (length data + k, et e)) w'
           | (Inr _, w') \<Rightarrow> copy_body et tmp limit body (data @ b') w'))"

definition UploadURL ::
  "(os_error \<Rightarrow> string) \<Rightarrow> upload_request \<Rightarrow> http_result \<Rightarrow> (ctx_error, file_complete) io" where
  "UploadURL et req http =
     (if up_url req = [] then io_ret (fc_fail 0 ''bad_payload'' ''url is required when source=url'')
      else case http of
        BadURL e \<Rightarrow> io_ret (fc_fail 0 ''bad_payload'' (''invalid url: '' @ e))
      | FetchFailed e \<Rightarrow> io_ret (fc_fail 0 ''fetch_failed'' e)
      | Response status body \<Rightarrow>
          if status < 200 \<or> status \<ge> 300 then
            io_ret (fc_fail 0 ''fetch_failed'' (''HTTP '' @ itoa status @ '' from upstream''))
          else io_case (openUploadTemp (up_dest req) (up_mode req))
            (\<lambda>e. io_ret (fc_fail 0 ''tmp_create_failed'' (et e)))
            (\<lambda>tmp. io_bind (copy_body et tmp (UploadMaxBytes + 1) body []) (\<lambda>r.
               case r of
                 Inl (n, e) \<Rightarrow> cleanup_tmp tmp (io_ret (fc_fail n ''fetch_failed'' e))
               | Inr data \<Rightarrow>
                   if int (length data) > UploadMaxBytes then
                     cleanup_tmp tmp (io_ret (fc_fail (length data) ''exceeds_max_size''
                       (''URL response > '' @ itoa UploadMaxBytes @ '' byte upload cap'')))
                   else finalizeUpload et tmp (up_dest req) (up_mode req)
                     (up_expected_size req) (up_expected_sha req) data)))"

section \<open>Opening the temporary file\<close>

lemma fc_fail_simps [simp]: "fc_err (fc_fail n c d) = c" "fc_size (fc_fail n c d) = int n"
  by (simp_all add: fc_fail_def)

text \<open>Whatever happens, no file that existed is touched; on success the temporary file is new and empty.\<close>

lemma open_upload_spec:
  assumes "openUploadTemp dest mode w = (t, w1)"
  shows "(\<forall>q n. fs_get w q = Some n \<longrightarrow> fs_get w1 q = Some n)
    \<and> (\<forall>tmp. t = Ok tmp \<longrightarrow> fs_get w tmp = None
         \<and> (\<exists>n. fs_get w1 tmp = Some n \<and> n_data n = [] \<and> n_kind n = KFile))"
proof -
  obtain d w2 where d: "os_mkdir_all (path_dir dest) 493 w = (d, w2)" by (cases "os_mkdir_all (path_dir dest) 493 w")
  have keep: "fs_get w q = Some n \<Longrightarrow> fs_get w2 q = Some n" for q n
    using mkdirs_keep d unfolding os_mkdir_all_def by (metis snd_conv)
  show ?thesis
  proof (cases d)
    case (Inl e)
    with assms d keep show ?thesis by (auto simp: openUploadTemp_def Let_def io_bind_def)
  next
    case (Inr u)
    obtain c w3 where c: "os_create_temp (path_dir dest) ''.agbridge-upload-'' [] w2 = (c, w3)"
      by (cases "os_create_temp (path_dir dest) ''.agbridge-upload-'' [] w2")
    show ?thesis
    proof (cases c)
      case (Inl e)
      with c have "fs_get w3 = fs_get w2" unfolding os_create_temp_def by (intro create_temp_fail) simp
      with assms d c Inl Inr keep show ?thesis by (auto simp: openUploadTemp_def Let_def io_bind_def)
    next
      case ok: (Inr tmp)
      from c ok have c': "create_temp_loop 10000 (path_dir dest) ''.agbridge-upload-'' [] w2 = (Ok tmp, w3)"
        unfolding os_create_temp_def by simp
      from create_temp_new [OF c'] obtain n where new: "fs_get w2 tmp = None" "fs_get w3 tmp = Some n"
        "n_kind n = KFile" "n_data n = []" and same: "\<And>q. q \<noteq> tmp \<Longrightarrow> fs_get w3 q = fs_get w2 q" by auto
      have none: "fs_get w tmp = None" using keep new(1) by (cases "fs_get w tmp") auto
      have res: "t = Ok tmp" "w1 = (if mode \<noteq> 0 then snd (os_chmod tmp mode w3) else w3)"
        using assms d c Inr ok by (auto simp: openUploadTemp_def Let_def io_bind_def io_ignore_def split: if_splits)
      have "\<exists>n. fs_get w1 tmp = Some n \<and> n_data n = [] \<and> n_kind n = KFile"
        using chmod_ignored [OF new(2), of mode] new res(2) by auto
      moreover have "fs_get w1 q = Some m" if "fs_get w q = Some m" for q m
      proof -
        have "q \<noteq> tmp" using that none by auto
        then show ?thesis using keep [OF that] same chmod_other res(2) by auto
      qed
      ultimately show ?thesis using res(1) none by blast
    qed
  qed
qed

section \<open>Receiving and finishing\<close>

lemma upload_loop_other:
  "q \<noteq> tmp \<Longrightarrow> fs_get (snd (upload_loop et tmp src data w)) q = fs_get w q"
proof (induction et tmp src data w rule: upload_loop.induct)
  case (3 et tmp c src data w)
  have wr: "fs_get w' q = fs_get w q" if "os_write tmp (ck_data c) w = (r, w')" for r w'
    using os_write_other [of q tmp "ck_data c" w] 3 that by simp
  show ?case using 3 wr by (auto split: prod.splits sum.splits)
qed auto

lemma upload_loop_data:
  "upload_loop et tmp src data w = (Ok (Inr d), w') \<Longrightarrow> fs_get w tmp = Some n \<Longrightarrow> n_data n = data \<Longrightarrow>
     d = data @ received src \<and> (\<exists>n'. fs_get w' tmp = Some n' \<and> n_data n' = d)
     \<and> int (length d) \<le> max UploadMaxBytes (int (length data))"
proof (induction et tmp src data w arbitrary: n rule: upload_loop.induct)
  case (3 et tmp c src data w)
  show ?case
  proof (cases "ck_data c = []")
    case True
    with 3 show ?thesis by (auto split: if_splits)
  next
    case False
    with 3(3) obtain k w1 where w1: "os_write tmp (ck_data c) w = (Inr k, w1)"
      and le: "int (length data) + int (length (ck_data c)) \<le> UploadMaxBytes" and nc: "\<not> cancelled w"
      and rest: "(if ck_eof c then io_ret (Inr (data @ ck_data c)) w1
          else upload_loop et tmp src (data @ ck_data c) w1) = (Ok (Inr d), w')"
      by (auto split: if_splits prod.splits sum.splits)
    have n1: "fs_get w1 tmp = Some (n\<lparr>n_data := n_data n @ ck_data c\<rparr>)"
      using os_write_ok [OF w1 3(4)] .
    show ?thesis
    proof (cases "ck_eof c")
      case True
      with rest n1 3(5) le show ?thesis by auto
    next
      case eof: False
      have run: "upload_loop et tmp src (data @ ck_data c) w1 = (Ok (Inr d), w')"
        using rest eof by simp
      have lim: "\<not> int (length data) + int (length (ck_data c)) > UploadMaxBytes" using le by simp
      have "n_data (n\<lparr>n_data := n_data n @ ck_data c\<rparr>) = data @ ck_data c" using 3(5) by simp
      note ih = 3(2) [OF nc False lim w1 [symmetric] refl eof run n1 this]
      have "int (length (data @ ck_data c)) \<le> UploadMaxBytes" using le by simp
      then have "int (length d) \<le> UploadMaxBytes"
        using ih [THEN conjunct2, THEN conjunct2] by simp
      with ih [THEN conjunct1] ih [THEN conjunct2, THEN conjunct1] eof show ?thesis by simp
    qed
  qed
qed (auto split: if_splits)

lemma upload_loop_error: "upload_loop et tmp src data w = (Ok (Inl fc), w') \<Longrightarrow> fc_err fc \<noteq> []"
  by (induction et tmp src data w rule: upload_loop.induct) (auto split: if_splits prod.splits sum.splits)

text \<open>The bytes of a body whose reads all succeed.\<close>

fun body_bytes :: "(string + bytes) list \<Rightarrow> bytes option" where
  "body_bytes [] = Some []"
| "body_bytes (Inl e # _) = None"
| "body_bytes (Inr b # body) = map_option (append b) (body_bytes body)"

lemma copy_body_other:
  "q \<noteq> tmp \<Longrightarrow> fs_get (snd (copy_body et tmp limit body data w)) q = fs_get w q"
proof (induction et tmp limit body data w rule: copy_body.induct)
  case (2 et tmp limit r body data w)
  have wr: "fs_get w' q = fs_get w q" if "os_write tmp b w = (x, w')" for b x w'
    using os_write_other [of q tmp b w] 2 that by simp
  show ?case using 2 wr by (auto simp: Let_def split: prod.splits sum.splits)
qed auto

lemma copy_body_data:
  "copy_body et tmp limit body data w = (Ok (Inr d), w') \<Longrightarrow> fs_get w tmp = Some n \<Longrightarrow> n_data n = data \<Longrightarrow>
     int (length data) \<le> limit \<Longrightarrow>
     (\<exists>n'. fs_get w' tmp = Some n' \<and> n_data n' = d) \<and> int (length d) \<le> limit
     \<and> (int (length d) < limit \<longrightarrow> (\<exists>b. body_bytes body = Some b \<and> d = data @ b))"
proof (induction et tmp limit body data w arbitrary: n rule: copy_body.induct)
  case (2 et tmp limit r body data w)
  show ?case
  proof (cases "int (length data) \<ge> limit")
    case True
    with 2 show ?thesis by auto
  next
    case False
    with 2(2) obtain b k w1 where r: "r = Inr b"
      and w1: "os_write tmp (take (nat (min (int (length b)) (limit - int (length data)))) b) w = (Inr k, w1)"
      and run: "copy_body et tmp limit body (data @ take (nat (min (int (length b)) (limit - int (length data)))) b) w1 = (Ok (Inr d), w')"
      by (auto simp: Let_def split: prod.splits sum.splits)
    let ?b = "take (nat (min (int (length b)) (limit - int (length data)))) b"
    have n1: "fs_get w1 tmp = Some (n\<lparr>n_data := n_data n @ ?b\<rparr>)" using os_write_ok [OF w1 2(3)] .
    have nd: "n_data (n\<lparr>n_data := n_data n @ ?b\<rparr>) = data @ ?b" using 2(4) by simp
    have le: "int (length (data @ ?b)) \<le> limit"
      using False by (cases "int (length b) \<le> limit - int (length data)") auto
    note ih = 2(1) [OF False r refl w1 [symmetric] refl run n1 nd le]
    have "\<exists>b'. body_bytes (r # body) = Some b' \<and> d = data @ b'" if lt: "int (length d) < limit"
    proof -
      from ih lt obtain b' where b': "body_bytes body = Some b'" "d = (data @ ?b) @ b'" by blast
      with lt have "?b = b" using False by (cases "int (length b) \<le> limit - int (length data)") auto
      with b' r show ?thesis by simp
    qed
    with ih show ?thesis by blast
  qed
qed auto

lemma finalize_spec:
  assumes run: "finalizeUpload et tmp dest mode expSize expSha data w = (r, w')"
    and n: "fs_get w tmp = Some n" "n_data n = data"
  shows "\<exists>fc. r = Ok fc
    \<and> (fc_err fc \<noteq> [] \<longrightarrow> (\<forall>q. q \<noteq> tmp \<longrightarrow> fs_get w' q = fs_get w q))
    \<and> (fc_err fc = [] \<longrightarrow> fc = fc_done data \<and> (expSha = [] \<or> expSha = sha_hex data)
        \<and> (expSize > 0 \<longrightarrow> expSize = int (length data))
        \<and> (\<exists>n'. fs_get w' dest = Some n' \<and> n_data n' = data)
        \<and> (\<forall>q. q \<noteq> tmp \<longrightarrow> q \<noteq> dest \<longrightarrow> fs_get w' q = fs_get w q))"
proof -
  obtain s w1 where s: "os_fsync w = (s, w1)" by (cases "os_fsync w")
  obtain c w2 where c: "os_close w1 = (c, w2)" by (cases "os_close w1")
  have w2: "fs_get w1 = fs_get w" "fs_get w2 = fs_get w" using os_fsync_fs [OF s] os_close_fs [OF c] by auto
  define w3 where "w3 = (if mode \<noteq> 0 then snd (os_chmod tmp mode w2) else w2)"
  obtain n3 where n3: "fs_get w3 tmp = Some n3" "n_data n3 = data"
    using chmod_ignored [of w2 tmp n mode] n w2 unfolding w3_def by (metis (full_types))
  have other: "q \<noteq> tmp \<Longrightarrow> fs_get w3 q = fs_get w q" for q by (simp add: w3_def chmod_other w2)
  obtain m w4 where m: "os_rename tmp dest w3 = (m, w4)" by (cases "os_rename tmp dest w3")
  note fs4 = os_rename_fs [OF m]
  consider "\<exists>e. s = Err e" | "\<exists>e. c = Err e" "\<exists>u. s = Ok u"
    | "\<exists>u. s = Ok u" "\<exists>u. c = Ok u" "expSha \<noteq> [] \<and> sha_hex data \<noteq> expSha \<or> expSize > 0 \<and> expSize \<noteq> int (length data)"
    | "\<exists>u. s = Ok u" "\<exists>u. c = Ok u" "\<not> (expSha \<noteq> [] \<and> sha_hex data \<noteq> expSha)" "\<not> (expSize > 0 \<and> expSize \<noteq> int (length data))"
    by (metis sum.exhaust_sel)
  then show ?thesis
  proof cases
    case 1
    with run s w2 show ?thesis by (auto simp: finalizeUpload_def Let_def io_case_def)
  next
    case 2
    with run s c w2 show ?thesis by (auto simp: finalizeUpload_def Let_def io_case_def io_ignore_def)
  next
    case 3
    with run s c w2 show ?thesis
      by (auto simp: finalizeUpload_def Let_def io_case_def io_ignore_def split: if_splits)
  next
    case 4
    have run': "io_case (os_rename tmp dest)
        (\<lambda>e. io_ignore (os_remove tmp) (io_ret (fc_fail (length data) ''rename_failed'' (et e))))
        (\<lambda>_. io_ret (fc_done data)) w3 = (r, w')"
      using run s c 4(1,2) unfolding finalizeUpload_def Let_def if_not_P [OF 4(3)] if_not_P [OF 4(4)]
      by (auto simp: io_case_def chmod_if_def io_ignore_def w3_def split: if_splits)
    show ?thesis
    proof (cases m)
      case (Inl e)
      with run' m fs4 other show ?thesis by (auto simp: io_case_def io_ignore_def)
    next
      case (Inr u)
      with run' m have "r = Ok (fc_done data)" "w' = w4" by (auto simp: io_case_def)
      with fs4 Inr n3 other 4(3,4) show ?thesis by auto
    qed
  qed
qed

text \<open>What an upload promises of its destination: \<open>ok\<close> says which contents may be stored.\<close>

definition upload_post ::
  "upload_request \<Rightarrow> (bytes \<Rightarrow> bool) \<Rightarrow> world \<Rightarrow> ctx_error + file_complete \<Rightarrow> world \<Rightarrow> bool" where
  "upload_post req ok w r w' \<longleftrightarrow>
     (\<forall>q n. fs_get w q = Some n \<longrightarrow> q \<noteq> up_dest req \<or> (\<forall>fc. r = Ok fc \<longrightarrow> fc_err fc \<noteq> []) \<longrightarrow>
        fs_get w' q = Some n)
     \<and> (\<forall>fc. r = Ok fc \<and> fc_err fc = [] \<longrightarrow>
        (\<exists>data n. ok data \<and> int (length data) \<le> UploadMaxBytes \<and> fc = fc_done data
           \<and> (up_expected_sha req = [] \<or> up_expected_sha req = sha_hex data)
           \<and> (up_expected_size req > 0 \<longrightarrow> up_expected_size req = int (length data))
           \<and> fs_get w' (up_dest req) = Some n \<and> n_data n = data))"

lemma upload_core:
  assumes open_ok: "openUploadTemp (up_dest req) (up_mode req) w = (Ok tmp, w1)"
    and other: "\<And>q. q \<noteq> tmp \<Longrightarrow> fs_get w2 q = fs_get w1 q"
    and stored: "\<And>d. r1 = Ok (Inr d) \<Longrightarrow> (\<exists>n. fs_get w2 tmp = Some n \<and> n_data n = d) \<and> ok d
      \<and> int (length d) \<le> UploadMaxBytes"
    and failed: "\<And>x. r1 = Ok (Inl x) \<Longrightarrow> \<exists>fc. r = Ok fc \<and> fc_err fc \<noteq> [] \<and> (\<forall>q. q \<noteq> tmp \<longrightarrow> fs_get w' q = fs_get w2 q)"
    and abort: "\<And>e. r1 = Err e \<Longrightarrow> r = Err e \<and> (\<forall>q. q \<noteq> tmp \<longrightarrow> fs_get w' q = fs_get w2 q)"
    and fin: "\<And>d. r1 = Ok (Inr d) \<Longrightarrow> finalizeUpload et tmp (up_dest req) (up_mode req)
      (up_expected_size req) (up_expected_sha req) d w2 = (r, w')"
  shows "upload_post req ok w r w'"
proof -
  note o = open_upload_spec [OF open_ok]
  have keep: "fs_get w2 q = Some n \<and> q \<noteq> tmp" if "fs_get w q = Some n" for q n
    using o other that by (cases "q = tmp") auto
  consider e where "r1 = Err e" | x where "r1 = Ok (Inl x)" | d where "r1 = Ok (Inr d)"
    by (metis sum.exhaust)
  then show ?thesis
  proof cases
    case 1
    from abort [OF this] keep show ?thesis by (simp add: upload_post_def)
  next
    case 2
    from failed [OF this] keep show ?thesis by (auto simp: upload_post_def)
  next
    case 3
    from stored [OF 3] obtain n where n: "fs_get w2 tmp = Some n" "n_data n = d" and d: "ok d"
      "int (length d) \<le> UploadMaxBytes" by blast
    from finalize_spec [OF fin [OF 3] n] obtain fc where fc: "r = Ok fc"
      "fc_err fc \<noteq> [] \<Longrightarrow> q \<noteq> tmp \<Longrightarrow> fs_get w' q = fs_get w2 q"
      "fc_err fc = [] \<Longrightarrow> q \<noteq> tmp \<Longrightarrow> q \<noteq> up_dest req \<Longrightarrow> fs_get w' q = fs_get w2 q"
      "fc_err fc = [] \<Longrightarrow> fc = fc_done d \<and> (up_expected_sha req = [] \<or> up_expected_sha req = sha_hex d)
        \<and> (up_expected_size req > 0 \<longrightarrow> up_expected_size req = int (length d))
        \<and> (\<exists>n'. fs_get w' (up_dest req) = Some n' \<and> n_data n' = d)" for q
      by blast
    show ?thesis unfolding upload_post_def
    proof (intro conjI allI impI)
      fix q n
      assume "fs_get w q = Some n" "q \<noteq> up_dest req \<or> (\<forall>fc. r = Ok fc \<longrightarrow> fc_err fc \<noteq> [])"
      with keep [of q n] fc(1-3) show "fs_get w' q = Some n" by (cases "fc_err fc = []") auto
    next
      fix fc' assume "r = Ok fc' \<and> fc_err fc' = []"
      with fc(1) fc(4) d show "\<exists>data n. ok data \<and> int (length data) \<le> UploadMaxBytes \<and> fc' = fc_done data
           \<and> (up_expected_sha req = [] \<or> up_expected_sha req = sha_hex data)
           \<and> (up_expected_size req > 0 \<longrightarrow> up_expected_size req = int (length data))
           \<and> fs_get w' (up_dest req) = Some n \<and> n_data n = data" by blast
    qed
  qed
qed

section \<open>Properties\<close>


definition upload_demo :: "nat \<Rightarrow> world" where
  "upload_demo k = plain_world
     [(''/d'', \<lparr>n_kind = KDir, n_data = [], n_mode = 493, n_mtime = 0\<rparr>), (''/d/f'', plain_file [9])]
     (\<lambda>t. if t = k then Some EIO else None)"

definition upload_req :: upload_request where
  "upload_req = \<lparr>up_dest = ''/d/f'', up_mode = 0, up_source = ''chunks'', up_url = ''u'',
     up_expected_size = 3, up_expected_sha = []\<rparr>"


text \<open>The same for a file fetched from a URL: on success the destination holds the whole body of a
  response with a status in 200--299 whose reads all succeeded; any other answer, a failing read and a body
  of more than 1 GiB leave every file that existed as it was.\<close>

theorem upload_url_atomic:
  assumes "UploadURL et req http w = (r, w')"
  shows "upload_post req (\<lambda>data. \<exists>status body. http = Response status body \<and> 200 \<le> status \<and> status < 300
     \<and> up_url req \<noteq> [] \<and> body_bytes body = Some data) w r w'"
proof -
  let ?ok = "\<lambda>data. \<exists>status body. http = Response status body \<and> 200 \<le> status \<and> status < 300
     \<and> up_url req \<noteq> [] \<and> body_bytes body = Some data"
  have early: "upload_post req ?ok w r w'" if "r = Ok fc" "fc_err fc \<noteq> []" "w' = w" for fc
    using that by (simp add: upload_post_def)
  show ?thesis
  proof (cases "\<exists>status body. http = Response status body \<and> 200 \<le> status \<and> status < 300 \<and> up_url req \<noteq> []")
    case False
    have "\<exists>fc. r = Ok fc \<and> fc_err fc \<noteq> [] \<and> w' = w"
    proof (cases http)
      case (Response status body)
      with False have "up_url req = [] \<or> status < 200 \<or> status \<ge> 300" by auto
      with assms Response show ?thesis by (auto simp: UploadURL_def split: if_splits)
    qed (use assms in \<open>auto simp: UploadURL_def split: if_splits\<close>)
    with early show ?thesis by blast
  next
    case True
    then obtain status body where http: "http = Response status body" "200 \<le> status" "status < 300" "up_url req \<noteq> []"
      by blast
    obtain t w1 where t: "openUploadTemp (up_dest req) (up_mode req) w = (t, w1)"
      by (cases "openUploadTemp (up_dest req) (up_mode req) w")
    note o = open_upload_spec [OF t]
    show ?thesis
    proof (cases t)
      case (Inl e)
      with assms t http have "r = Ok (fc_fail 0 ''tmp_create_failed'' (et e))" "w' = w1"
        by (auto simp: UploadURL_def io_case_def)
      with o show ?thesis by (auto simp: upload_post_def)
    next
      case (Inr tmp)
      with t have tmp: "openUploadTemp (up_dest req) (up_mode req) w = (Ok tmp, w1)" by simp
      let ?lim = "UploadMaxBytes + 1"
      obtain c w2 where l: "copy_body et tmp ?lim body [] w1 = (c, w2)" by (cases "copy_body et tmp ?lim body [] w1")
      define r1 where "r1 = (case c of Inl e \<Rightarrow> Err e | Inr (Inl x) \<Rightarrow> Ok (Inl (Inl x))
        | Inr (Inr d) \<Rightarrow> Ok (if int (length d) > UploadMaxBytes then Inl (Inr d) else Inr d))"
      have rest: "(case c of Inl e \<Rightarrow> (Err e, w2)
        | Inr (Inl (n, e)) \<Rightarrow> (Ok (fc_fail n ''fetch_failed'' e), cleaned tmp w2)
        | Inr (Inr data) \<Rightarrow> if int (length data) > UploadMaxBytes then
              (Ok (fc_fail (length data) ''exceeds_max_size''
                       (''URL response > '' @ itoa UploadMaxBytes @ '' byte upload cap'')), cleaned tmp w2)
            else finalizeUpload et tmp (up_dest req) (up_mode req) (up_expected_size req)
            (up_expected_sha req) data w2) = (r, w')"
        using assms tmp l http
        by (auto simp: UploadURL_def io_case_def io_bind_def split: sum.splits prod.splits if_splits)
      obtain n where n: "fs_get w1 tmp = Some n" "n_data n = []" using o Inr by blast
      show ?thesis
      proof (rule upload_core [OF tmp])
        show "q \<noteq> tmp \<Longrightarrow> fs_get w2 q = fs_get w1 q" for q
          using copy_body_other [of q tmp et ?lim body "[]" w1] l by simp
        show "(\<exists>n. fs_get w2 tmp = Some n \<and> n_data n = d) \<and> ?ok d \<and> int (length d) \<le> UploadMaxBytes"
          if "r1 = Ok (Inr d)" for d
        proof -
          from that have c: "c = Ok (Inr d)" "\<not> int (length d) > UploadMaxBytes"
            by (auto simp: r1_def split: sum.splits if_splits)
          from copy_body_data [OF l [unfolded c] n] c(2)
          show ?thesis using http by auto
        qed
        show "\<exists>fc. r = Ok fc \<and> fc_err fc \<noteq> [] \<and> (\<forall>q. q \<noteq> tmp \<longrightarrow> fs_get w' q = fs_get w2 q)"
          if "r1 = Ok (Inl x)" for x
          using rest that by (auto simp: r1_def split: sum.splits if_splits)
        show "r = Err e \<and> (\<forall>q. q \<noteq> tmp \<longrightarrow> fs_get w' q = fs_get w2 q)" if "r1 = Err e" for e
          using rest that by (auto simp: r1_def split: sum.splits if_splits)
        show "finalizeUpload et tmp (up_dest req) (up_mode req) (up_expected_size req)
            (up_expected_sha req) d w2 = (r, w')" if "r1 = Ok (Inr d)" for d
          using rest that by (auto simp: r1_def split: sum.splits if_splits)
      qed
    qed
  qed
qed

theorem upload_url_atomic_witness:
  "\<exists>w'. UploadURL (\<lambda>_. ''io'') upload_req (Response 200 [Ok [1, 2], Err ''reset'']) (upload_demo 99)
      = (Ok (fc_fail 2 ''fetch_failed'' ''reset''), w') \<and> fs_get w' ''/d/f'' = Some (plain_file [9])"
proof -
  let ?run = "UploadURL (\<lambda>_. ''io'') upload_req (Response 200 [Ok [1, 2], Err ''reset'']) (upload_demo 99)"
  have r: "fst ?run = Ok (fc_fail 2 ''fetch_failed'' ''reset'')" by code_simp
  have old: "fs_get (upload_demo 99) ''/d/f'' = Some (plain_file [9])" by code_simp
  from upload_url_atomic [OF surjective_pairing [of ?run]] r old
  have "fs_get (snd ?run) ''/d/f'' = Some (plain_file [9])" by (simp add: upload_post_def)
  with r show ?thesis by (metis surjective_pairing)
qed

end
