(* ===== verification/Exec.thy ===== *)
theory Exec
  imports Go_Strings Codec
begin

text \<open>
  \<open>internal/tools/exec.go\<close>: running a command.  The operating system's part, what the pipes deliver,
  how the process ends and how long it takes, is a record given to the model.
\<close>

section \<open>Requests and results\<close>

record exec_request =
  xr_cmd :: string
  xr_args :: "string list"
  xr_cwd :: string
  xr_env :: "(string \<times> string) list"
  xr_timeout_ms :: int

record exec_chunk =
  xc_stream :: string
  xc_data :: bytes

record exec_complete =
  xd_exit :: int
  xd_duration_ms :: int
  xd_timed_out :: bool
  xd_truncated :: bool

datatype exec_error = ExecDisabled | SpawnFailed string

text \<open>How \<open>cmd.Wait\<close> returns: without error, with an \<open>ExitError\<close> and its code, or with another error.\<close>

datatype wait_result = WaitOk | WaitExit int | WaitError

record command =
  cm_path :: string
  cm_args :: "string list"
  cm_dir :: string
  cm_env :: "string list"

record exec_run =
  ru_start :: "string option"
  ru_stdout :: "bytes list"
  ru_stderr :: "bytes list"
  ru_wait :: wait_result
  ru_duration :: int
  ru_deadline :: bool

section \<open>Environment\<close>

text \<open>The iteration order of the request's environment, a Go map, is the order of its list.\<close>

definition env_name :: "string \<Rightarrow> string option" where
  "env_name kv = map_option (\<lambda>i. take i kv) (index_byte kv CHR ''='')"

definition buildEnv :: "string list \<Rightarrow> string list \<Rightarrow> (string \<times> string) list \<Rightarrow> string list" where
  "buildEnv environ allow extra =
     filter (\<lambda>kv. case env_name kv of None \<Rightarrow> False | Some k \<Rightarrow> k \<in> set allow) environ
     @ map (\<lambda>(k, v). k @ ''='' @ v) (filter (\<lambda>(k, v). k \<in> set allow) extra)"

section \<open>Streams\<close>

definition MaxBytesPerStream :: nat where "MaxBytesPerStream = 1048576"

text \<open>One stream: \<open>reads\<close> are the results of the reads of up to 64 KiB until the pipe ends.  Beyond the
  cap the rest is discarded.\<close>

fun stream_from :: "string \<Rightarrow> nat \<Rightarrow> bytes list \<Rightarrow> exec_chunk list" where
  "stream_from name sofar [] = []"
| "stream_from name sofar (d # reads) =
     (if d = [] then stream_from name sofar reads
      else if sofar + length d > MaxBytesPerStream then
        (let n = MaxBytesPerStream - sofar in
         if n > 0 then [\<lparr>xc_stream = name, xc_data = take n d\<rparr>] else [])
      else \<lparr>xc_stream = name, xc_data = d\<rparr> # stream_from name (sofar + length d) reads)"

definition streamChunks :: "string \<Rightarrow> bytes list \<Rightarrow> exec_chunk list" where
  "streamChunks name reads = stream_from name 0 reads"

section \<open>The command\<close>

text \<open>Go's \<open>/\<close> truncates toward zero; a duration has 64 bits.\<close>

definition go_quot :: "int \<Rightarrow> int \<Rightarrow> int" where
  "go_quot a b = sgn a * sgn b * (\<bar>a\<bar> div \<bar>b\<bar>)"

definition millisecond :: int where "millisecond = 1000000"

definition exec_timeout :: "int \<Rightarrow> int" where
  "exec_timeout ms =
     (let t = sint (word_of_int (ms * millisecond) :: 64 word) in
      if t \<le> 0 then 5 * 60 * 1000 * millisecond else t)"

definition exec_command :: "string list \<Rightarrow> string list \<Rightarrow> exec_request \<Rightarrow> command" where
  "exec_command environ allow req = \<lparr>cm_path = xr_cmd req, cm_args = xr_args req, cm_dir = xr_cwd req,
     cm_env = buildEnv environ allow (xr_env req)\<rparr>"

definition exit_code :: "wait_result \<Rightarrow> int" where
  "exit_code r = (case r of WaitOk \<Rightarrow> 0 | WaitExit c \<Rightarrow> c | WaitError \<Rightarrow> - 1)"

text \<open>\<open>sys\<close> is the machine: what a command does within its timeout.  The two streams are pumped concurrently,
  so the emitter sees some interleaving of the two chunk lists of the result.\<close>

definition Exec ::
  "(command \<Rightarrow> int \<Rightarrow> exec_run) \<Rightarrow> string list \<Rightarrow> exec_request \<Rightarrow> bool \<Rightarrow> string list
   \<Rightarrow> exec_error + (exec_complete \<times> exec_chunk list \<times> exec_chunk list)" where
  "Exec mach environ req execEnabled envAllowlist =
     (if \<not> execEnabled then Err ExecDisabled
      else
        (let run = mach (exec_command environ envAllowlist req) (exec_timeout (xr_timeout_ms req)) in
         case ru_start run of
           Some e \<Rightarrow> Err (SpawnFailed e)
         | None \<Rightarrow>
             Ok (\<lparr>xd_exit = exit_code (ru_wait run), xd_duration_ms = go_quot (ru_duration run) millisecond,
                  xd_timed_out = ru_deadline run, xd_truncated = False\<rparr>,
                 streamChunks ''stdout'' (ru_stdout run), streamChunks ''stderr'' (ru_stderr run))))"

section \<open>Properties\<close>

definition stream_bytes :: "exec_chunk list \<Rightarrow> bytes" where
  "stream_bytes cs = concat (map xc_data cs)"

lemma stream_from_bytes:
  "sofar \<le> MaxBytesPerStream \<Longrightarrow>
     stream_bytes (stream_from name sofar reads) = take (MaxBytesPerStream - sofar) (concat reads)
     \<and> (\<forall>c \<in> set (stream_from name sofar reads). xc_stream c = name \<and> xc_data c \<noteq> [])"
  by (induction name sofar reads rule: stream_from.induct) (auto simp: stream_bytes_def Let_def)

lemma exec_timeout_pos: "0 < exec_timeout ms"
  by (auto simp: exec_timeout_def Let_def millisecond_def)

lemma sint_int64: "0 \<le> x \<Longrightarrow> x < 2 ^ 63 \<Longrightarrow> sint (word_of_int x :: 64 word) = x"
  unfolding sint_sbintrunc' by (rule signed_take_bit_int_eq_self) simp_all

lemma exec_timeout_ms:
  assumes "0 < ms" "ms < 2 ^ 63 div millisecond"
  shows "exec_timeout ms = ms * millisecond"
proof -
  have "0 \<le> ms * millisecond \<and> ms * millisecond < 2 ^ 63" "ms * millisecond > 0"
    using assms by (simp_all add: millisecond_def)
  then show ?thesis unfolding exec_timeout_def Let_def by (subst sint_int64, simp, simp)+ simp
qed

text \<open>C28: A command runs only when the exec capability is on.  It gets from the daemon's environment and from
  the request only variables that the allow list names, the request's after the daemon's so that they win;
  its timeout is positive; and each stream is delivered as the first MiB of what the process wrote, in
  order, in non-empty chunks that carry the stream's name.\<close>

theorem exec_spec:
  "(case Exec mach environ req enabled allow of
      Inl e \<Rightarrow> e = ExecDisabled \<and> \<not> enabled
        \<or> (enabled \<and> (\<exists>m. e = SpawnFailed m
             \<and> ru_start (mach (exec_command environ allow req) (exec_timeout (xr_timeout_ms req))) = Some m))
    | Inr (c, out, err) \<Rightarrow> enabled \<and> (\<exists>t > 0. \<exists>env run. run = mach \<lparr>cm_path = xr_cmd req, cm_args = xr_args req,
          cm_dir = xr_cwd req, cm_env = env\<rparr> t
        \<and> (0 < xr_timeout_ms req \<and> xr_timeout_ms req < 2 ^ 63 div millisecond \<longrightarrow> t = xr_timeout_ms req * millisecond)
        \<and> (\<exists>own extra. env = own @ extra \<and> set own = {kv \<in> set environ. \<exists>k \<in> set allow. env_name kv = Some k}
            \<and> set extra = {k @ ''='' @ v | k v. (k, v) \<in> set (xr_env req) \<and> k \<in> set allow})
        \<and> stream_bytes out = take MaxBytesPerStream (concat (ru_stdout run))
        \<and> stream_bytes err = take MaxBytesPerStream (concat (ru_stderr run))
        \<and> (\<forall>x \<in> set out. xc_stream x = ''stdout'' \<and> xc_data x \<noteq> [])
        \<and> (\<forall>x \<in> set err. xc_stream x = ''stderr'' \<and> xc_data x \<noteq> [])
        \<and> (xd_exit c = 0 \<longleftrightarrow> ru_wait run = WaitOk \<or> ru_wait run = WaitExit 0)))"
proof (cases "enabled \<and> ru_start (mach (exec_command environ allow req) (exec_timeout (xr_timeout_ms req))) = None")
  case True
  let ?env = "buildEnv environ allow (xr_env req)"
  let ?t = "exec_timeout (xr_timeout_ms req)"
  let ?run = "mach (exec_command environ allow req) ?t"
  let ?own = "filter (\<lambda>kv. case env_name kv of None \<Rightarrow> False | Some k \<Rightarrow> k \<in> set allow) environ"
  let ?extra = "map (\<lambda>(k, v). k @ ''='' @ v) (filter (\<lambda>(k, v). k \<in> set allow) (xr_env req))"
  have env: "\<exists>own extra. ?env = own @ extra \<and> set own = {kv \<in> set environ. \<exists>k \<in> set allow. env_name kv = Some k}
      \<and> set extra = {k @ ''='' @ v | k v. (k, v) \<in> set (xr_env req) \<and> k \<in> set allow}"
    by (rule exI [of _ ?own], rule exI [of _ ?extra]) (auto simp: buildEnv_def split: option.splits)
  have code: "exit_code (ru_wait ?run) = 0 \<longleftrightarrow> ru_wait ?run = WaitOk \<or> ru_wait ?run = WaitExit 0"
    by (simp add: exit_code_def split: wait_result.split)
  have ex: "Exec mach environ req enabled allow =
     Ok (\<lparr>xd_exit = exit_code (ru_wait ?run), xd_duration_ms = go_quot (ru_duration ?run) millisecond,
          xd_timed_out = ru_deadline ?run, xd_truncated = False\<rparr>,
         streamChunks ''stdout'' (ru_stdout ?run), streamChunks ''stderr'' (ru_stderr ?run))"
    using True by (simp add: Exec_def Let_def)
  show ?thesis
    unfolding ex sum.case prod.case
    apply (rule conjI, use True in simp)
    apply (rule exI [of _ ?t], rule conjI, rule exec_timeout_pos)
    apply (rule exI [of _ ?env], rule exI [of _ ?run])
    using env code stream_from_bytes [of 0 "''stdout''" "ru_stdout ?run"] stream_from_bytes [of 0 "''stderr''" "ru_stderr ?run"]
      exec_timeout_ms [of "xr_timeout_ms req"]
    by (simp add: exec_command_def streamChunks_def)
qed (auto simp: Exec_def Let_def split: option.splits)

definition demo_exec_run :: exec_run where
  "demo_exec_run = \<lparr>ru_start = None, ru_stdout = [[104], [105]], ru_stderr = [], ru_wait = WaitExit 2,
     ru_duration = 3500000, ru_deadline = False\<rparr>"

theorem exec_spec_witness:
  "\<exists>c out err. Exec (\<lambda>_ _. demo_exec_run) [''PATH=/bin'', ''KEY=x''] \<lparr>xr_cmd = ''ls'', xr_args = [], xr_cwd = ''/'',
       xr_env = [(''LANG'', ''C'')], xr_timeout_ms = 1000\<rparr> True [''PATH'', ''LANG''] = Ok (c, out, err)
     \<and> stream_bytes out = [104, 105] \<and> err = [] \<and> xd_exit c \<noteq> 0 \<and> xd_duration_ms c = 3"
proof -
  let ?req = "\<lparr>xr_cmd = ''ls'', xr_args = [], xr_cwd = ''/'', xr_env = [(''LANG'', ''C'')], xr_timeout_ms = 1000\<rparr>"
  obtain c out err where ex: "Exec (\<lambda>_ _. demo_exec_run) [''PATH=/bin'', ''KEY=x''] ?req True [''PATH'', ''LANG''] = Ok (c, out, err)"
    and c: "xd_duration_ms c = 3" and err: "err = []"
    by (simp add: Exec_def demo_exec_run_def streamChunks_def go_quot_def millisecond_def Let_def)
  have "stream_bytes out = take MaxBytesPerStream (concat (ru_stdout demo_exec_run))"
    "xd_exit c = 0 \<longleftrightarrow> ru_wait demo_exec_run = WaitOk \<or> ru_wait demo_exec_run = WaitExit 0"
    using exec_spec [where mach = "\<lambda>_ _. demo_exec_run" and environ = "[''PATH=/bin'', ''KEY=x'']" and req = ?req
        and enabled = True and allow = "[''PATH'', ''LANG'']"]
    unfolding ex sum.case prod.case by blast+
  then have "stream_bytes out = [104, 105]" "xd_exit c \<noteq> 0" by (simp_all add: demo_exec_run_def MaxBytesPerStream_def)
  with ex c err show ?thesis by blast
qed

end
