(* ===== verification/Bgexec.thy ===== *)
theory Bgexec
  imports Exec "HOL-Library.AList"
begin

text \<open>
  \<open>internal/tools/bgexec.go\<close> and \<open>internal/bgproto\<close>: background processes with their output buffers and the
  registry.  Each method is atomic under the registry's or the process's lock.  What the operating
  system answers (spawning, the result of \<open>kill\<close>, the end of the process), the clock and the random
  bytes of an identifier are arguments.
\<close>

section \<open>The output buffer\<close>

record bg_buffer =
  bb_data :: bytes
  bb_cap :: nat
  bb_written :: int

definition BgBufferCap :: nat where "BgBufferCap = 1048576"

definition newBgBuffer :: "nat \<Rightarrow> bg_buffer" where
  "newBgBuffer c = \<lparr>bb_data = [], bb_cap = c, bb_written = 0\<rparr>"

definition bb_write :: "bytes \<Rightarrow> bg_buffer \<Rightarrow> bg_buffer" where
  "bb_write p b =
     (let d = bb_data b @ p in
      b\<lparr>bb_written := bb_written b + int (length p),
        bb_data := (if length d > bb_cap b then drop (length d - bb_cap b) d else d)\<rparr>)"

definition SinceOffset :: "int \<Rightarrow> bg_buffer \<Rightarrow> bytes \<times> int \<times> bool" where
  "SinceOffset offset b =
     (if offset \<ge> bb_written b then ([], bb_written b, False)
      else
        (let bufStart = bb_written b - int (length (bb_data b));
             truncated = (offset < bufStart);
             sliceStart = (if truncated then 0 else offset - bufStart)
         in (drop (nat sliceStart) (bb_data b), bb_written b, truncated)))"

text \<open>The backward scan of \<open>Tail\<close>: \<open>k\<close> bytes are still to be looked at; \<open>None\<close> when it reaches the front.\<close>

fun tail_scan :: "int \<Rightarrow> bytes \<Rightarrow> nat \<Rightarrow> int \<Rightarrow> nat option" where
  "tail_scan n data 0 cnt = None"
| "tail_scan n data (Suc i) cnt =
     (if data ! i = 10 then (if cnt + 1 > n then Some (i + 1) else tail_scan n data i (cnt + 1))
      else tail_scan n data i cnt)"

definition Tail :: "int \<Rightarrow> bg_buffer \<Rightarrow> bytes \<times> int \<times> bool" where
  "Tail n b =
     (if n \<le> 0 \<or> bb_data b = [] then ([], bb_written b, False)
      else (case tail_scan n (bb_data b) (length (bb_data b)) 0 of
              Some i \<Rightarrow> drop i (bb_data b)
            | None \<Rightarrow> bb_data b,
            bb_written b, bb_written b > int (length (bb_data b))))"

section \<open>Requests and responses\<close>

record bg_request =
  bq_action :: string
  bq_cmd :: string
  bq_args :: "string list"
  bq_cwd :: string
  bq_env :: "(string \<times> string) list"
  bq_label :: string
  bq_pid :: string
  bq_tail :: int
  bq_since :: int
  bq_signal :: string

record bg_info =
  bi_pid :: string
  bi_label :: string
  bi_cmd :: string
  bi_state :: string
  bi_exit :: int
  bi_started :: int
  bi_ended :: int

record bg_response =
  bs_action :: string
  bs_err :: string
  bs_detail :: string
  bs_pid :: string
  bs_label :: string
  bs_state :: string
  bs_exit :: int
  bs_started :: int
  bs_ended :: int
  bs_last :: int
  bs_duration :: int
  bs_stdout :: string
  bs_stderr :: string
  bs_out_trunc :: bool
  bs_err_trunc :: bool
  bs_next :: int
  bs_procs :: "bg_info list"

definition bg_zero :: "string \<Rightarrow> bg_response" where
  "bg_zero a = \<lparr>bs_action = a, bs_err = [], bs_detail = [], bs_pid = [], bs_label = [], bs_state = [],
     bs_exit = 0, bs_started = 0, bs_ended = 0, bs_last = 0, bs_duration = 0, bs_stdout = [], bs_stderr = [],
     bs_out_trunc = False, bs_err_trunc = False, bs_next = 0, bs_procs = []\<rparr>"

definition bg_fail :: "string \<Rightarrow> string \<Rightarrow> string \<Rightarrow> bg_response" where
  "bg_fail a e d = (bg_zero a)\<lparr>bs_err := e, bs_detail := d\<rparr>"

section \<open>Processes and the registry\<close>

record bg_process =
  pr_id :: string
  pr_label :: string
  pr_cmd :: string
  pr_args :: "string list"
  pr_cwd :: string
  pr_os :: "int option"
  pr_stdout :: bg_buffer
  pr_stderr :: bg_buffer
  pr_started :: int
  pr_state :: string
  pr_exit :: int
  pr_ended :: "int option"
  pr_last :: "int option"
  pr_done :: bool

record bg_registry =
  br_procs :: "(string \<times> bg_process) list"
  br_idle :: int

definition second :: int where "second = 1000000000"

definition BgIdleGC :: int where "BgIdleGC = 3600 * second"

definition NewBgRegistry :: bg_registry where
  "NewBgRegistry = \<lparr>br_procs = [], br_idle = BgIdleGC\<rparr>"

definition unix :: "int \<Rightarrow> int" where "unix t = t div second"

definition genProcessID :: "bytes \<Rightarrow> string" where
  "genProcessID rnd = ''p_'' @ hex_encode rnd"

definition bg_lookup :: "string \<Rightarrow> bg_registry \<Rightarrow> bg_process option" where
  "bg_lookup i r = map_of (br_procs r) i"

definition put_proc :: "bg_process \<Rightarrow> bg_registry \<Rightarrow> bg_registry" where
  "put_proc p r = r\<lparr>br_procs := AList.update (pr_id p) p (br_procs r)\<rparr>"

definition bg_command :: "string list \<Rightarrow> string list \<Rightarrow> bg_request \<Rightarrow> command" where
  "bg_command environ allow req = \<lparr>cm_path = bq_cmd req, cm_args = bq_args req, cm_dir = bq_cwd req,
     cm_env = buildEnv environ allow (bq_env req)\<rparr>"

text \<open>\<open>spawn\<close>: the text of the error of the pipes or of \<open>Start\<close>, or the number of the process.\<close>

definition StartBg ::
  "(command \<Rightarrow> string + int) \<Rightarrow> string list \<Rightarrow> bg_request \<Rightarrow> bool \<Rightarrow> string list \<Rightarrow> bytes \<Rightarrow> int
   \<Rightarrow> bg_registry \<Rightarrow> bg_response \<times> bg_registry" where
  "StartBg spawn environ req execEnabled envAllowlist rnd now r =
     (if bq_cmd req = [] then (bg_fail ''start'' ''bad_payload'' ''cmd required'', r)
      else if bq_cwd req = [] then (bg_fail ''start'' ''bad_payload'' ''cwd required'', r)
      else if \<not> execEnabled then (bg_fail ''start'' ''tool_forbidden'' ''exec disabled on this daemon'', r)
      else case spawn (bg_command environ envAllowlist req) of
        Inl e \<Rightarrow> (bg_fail ''start'' ''spawn_failed'' e, r)
      | Inr os \<Rightarrow>
          (let p = \<lparr>pr_id = genProcessID rnd, pr_label = bq_label req, pr_cmd = bq_cmd req,
                 pr_args = bq_args req, pr_cwd = bq_cwd req, pr_os = Some os,
                 pr_stdout = newBgBuffer BgBufferCap, pr_stderr = newBgBuffer BgBufferCap,
                 pr_started = now, pr_state = ''running'', pr_exit = 0, pr_ended = None, pr_last = None,
                 pr_done = False\<rparr> in
           ((bg_zero ''start'')\<lparr>bs_pid := pr_id p, bs_label := pr_label p, bs_state := ''running'',
              bs_started := unix now\<rparr>, put_proc p r)))"

text \<open>One round of \<open>pump\<close> for either stream, and the goroutine that waits for the end of the process.\<close>

definition pump_out :: "bytes \<Rightarrow> int \<Rightarrow> bg_process \<Rightarrow> bg_process" where
  "pump_out b now p =
     (if b = [] then p else p\<lparr>pr_stdout := bb_write b (pr_stdout p), pr_last := Some now\<rparr>)"

definition pump_err :: "bytes \<Rightarrow> int \<Rightarrow> bg_process \<Rightarrow> bg_process" where
  "pump_err b now p =
     (if b = [] then p else p\<lparr>pr_stderr := bb_write b (pr_stderr p), pr_last := Some now\<rparr>)"

definition proc_exit :: "wait_result \<Rightarrow> int \<Rightarrow> bg_process \<Rightarrow> bg_process" where
  "proc_exit res now p =
     (let p = p\<lparr>pr_ended := Some now\<rparr>;
          p = (if pr_state p = ''killed'' then p
               else case res of
                 WaitOk \<Rightarrow> p\<lparr>pr_state := ''exited'', pr_exit := 0\<rparr>
               | WaitExit c \<Rightarrow> p\<lparr>pr_state := ''exited'', pr_exit := c\<rparr>
               | WaitError \<Rightarrow> p\<lparr>pr_state := ''failed'', pr_exit := - 1\<rparr>)
      in p\<lparr>pr_done := True\<rparr>)"

definition statusFrom :: "int \<Rightarrow> bg_process \<Rightarrow> string \<Rightarrow> bg_response" where
  "statusFrom now p action =
     (let resp = (bg_zero action)\<lparr>bs_pid := pr_id p, bs_label := pr_label p, bs_state := pr_state p,
            bs_exit := pr_exit p, bs_started := unix (pr_started p)\<rparr>;
          resp = (case pr_ended p of
              Some e \<Rightarrow> resp\<lparr>bs_ended := unix e, bs_duration := go_quot (e - pr_started p) millisecond\<rparr>
            | None \<Rightarrow> resp\<lparr>bs_duration := go_quot (now - pr_started p) millisecond\<rparr>)
      in case pr_last p of None \<Rightarrow> resp | Some t \<Rightarrow> resp\<lparr>bs_last := unix t\<rparr>)"

definition no_process :: "string \<Rightarrow> bg_request \<Rightarrow> bg_response" where
  "no_process action req = bg_fail action ''not_found'' (''no process named '' @ bq_pid req)"

definition Status :: "int \<Rightarrow> bg_request \<Rightarrow> bg_registry \<Rightarrow> bg_response" where
  "Status now req r = (case bg_lookup (bq_pid req) r of
       None \<Rightarrow> no_process ''status'' req | Some p \<Rightarrow> statusFrom now p ''status'')"

definition Logs :: "bg_request \<Rightarrow> bg_registry \<Rightarrow> bg_response" where
  "Logs req r = (case bg_lookup (bq_pid req) r of
       None \<Rightarrow> no_process ''logs'' req
     | Some p \<Rightarrow>
         (let get = (if bq_tail req > 0 then Tail (bq_tail req) else SinceOffset (bq_since req));
              (outBytes, outOff, outTrunc) = get (pr_stdout p);
              (errBytes, errOff, errTrunc) = get (pr_stderr p);
              next = (if errOff > outOff then errOff else outOff)
          in (bg_zero ''logs'')\<lparr>bs_pid := pr_id p, bs_stdout := string_of outBytes,
               bs_stderr := string_of errBytes, bs_out_trunc := outTrunc, bs_err_trunc := errTrunc,
               bs_next := next\<rparr>))"

datatype signal = SIGTERM | SIGKILL | SIGINT

text \<open>\<open>strings.ToUpper\<close> where it can give one of the names: ASCII letters, and the two further runes whose
  upper case is an ASCII letter, the dotless i and the long s.\<close>

fun to_upper :: "string \<Rightarrow> string" where
  "to_upper (a # b # s) =
     (if [a, b] = [CHR 0xC4, CHR 0xB1] then CHR ''I'' # to_upper s
      else if [a, b] = [CHR 0xC5, CHR 0xBF] then CHR ''S'' # to_upper s
      else upper_ascii a # to_upper (b # s))"
| "to_upper s = map upper_ascii s"

definition signal_of :: "string \<Rightarrow> signal option" where
  "signal_of s =
     (let u = to_upper s in
      if u = ''KILL'' then Some SIGKILL else if u = ''INT'' then Some SIGINT
      else if u = [] \<or> u = ''TERM'' then Some SIGTERM else None)"

text \<open>\<open>kill\<close>: the text of the error of \<open>kill(2)\<close> on the process group, if it fails.\<close>

definition Kill ::
  "(int \<Rightarrow> signal \<Rightarrow> string option) \<Rightarrow> int \<Rightarrow> bg_request \<Rightarrow> bg_registry \<Rightarrow> bg_response \<times> bg_registry" where
  "Kill kill now req r = (case bg_lookup (bq_pid req) r of
       None \<Rightarrow> (no_process ''kill'' req, r)
     | Some p \<Rightarrow>
         (case signal_of (bq_signal req) of
            None \<Rightarrow> (bg_fail ''kill'' ''bad_payload'' ''signal must be TERM, KILL, or INT'', r)
          | Some sig \<Rightarrow>
              (case pr_os p of
                 None \<Rightarrow> (bg_fail ''kill'' ''already_exited'' [], r)
               | Some os \<Rightarrow>
                   (case kill (- os) sig of
                      Some e \<Rightarrow>
                        if pr_state p \<noteq> ''running'' then (statusFrom now p ''kill'', r)
                        else (bg_fail ''kill'' ''kill_failed'' e, r)
                    | None \<Rightarrow>
                        (let p' = p\<lparr>pr_state := ''killed''\<rparr> in
                         (statusFrom now p' ''kill'', put_proc p' r))))))"

text \<open>\<open>ListBg\<close>, the method \<open>List\<close>, visits a Go map; the order of the list stands for the order of the visit.\<close>

definition bg_info_of :: "bg_process \<Rightarrow> bg_info" where
  "bg_info_of p = \<lparr>bi_pid = pr_id p, bi_label = pr_label p, bi_cmd = pr_cmd p, bi_state = pr_state p,
     bi_exit = pr_exit p, bi_started = unix (pr_started p),
     bi_ended = (case pr_ended p of None \<Rightarrow> 0 | Some e \<Rightarrow> unix e)\<rparr>"

definition ListBg :: "bg_registry \<Rightarrow> bg_response" where
  "ListBg r = (bg_zero ''list'')\<lparr>bs_procs := map (bg_info_of \<circ> snd) (br_procs r)\<rparr>"

definition gc_drop :: "int \<Rightarrow> int \<Rightarrow> bg_process \<Rightarrow> bool" where
  "gc_drop now idle p \<longleftrightarrow> pr_state p \<noteq> ''running'' \<and> (\<exists>e \<in> set_option (pr_ended p). now - e > idle)"

definition GC :: "int \<Rightarrow> bg_registry \<Rightarrow> string list \<times> bg_registry" where
  "GC now r =
     (map fst (filter (\<lambda>(i, p). gc_drop now (br_idle r) p) (br_procs r)),
      r\<lparr>br_procs := filter (\<lambda>(i, p). \<not> gc_drop now (br_idle r) p) (br_procs r)\<rparr>)"

section \<open>The buffer is a window of the stream\<close>

definition bb_writes :: "bytes list \<Rightarrow> nat \<Rightarrow> bg_buffer" where
  "bb_writes ps c = fold bb_write ps (newBgBuffer c)"

definition lastn :: "nat \<Rightarrow> 'a list \<Rightarrow> 'a list" where
  "lastn k xs = drop (length xs - k) xs"

lemma lastn_append: "lastn c (lastn c xs @ ys) = lastn c (xs @ ys)"
  by (cases "length xs \<le> c") (auto simp: lastn_def add.commute)

lemma bb_write_simps [simp]:
  "bb_data (bb_write p b) = lastn (bb_cap b) (bb_data b @ p)" "bb_cap (bb_write p b) = bb_cap b"
  "bb_written (bb_write p b) = bb_written b + int (length p)"
  by (auto simp: bb_write_def Let_def lastn_def)

lemma bb_fold:
  "bb_data b = lastn (bb_cap b) s \<Longrightarrow> bb_written b = int (length s) \<Longrightarrow>
     bb_data (fold bb_write ps b) = lastn (bb_cap b) (s @ concat ps)
     \<and> bb_written (fold bb_write ps b) = int (length (s @ concat ps)) \<and> bb_cap (fold bb_write ps b) = bb_cap b"
proof (induction ps arbitrary: b s)
  case (Cons p ps)
  from Cons.IH [of "bb_write p b" "s @ p"] Cons.prems show ?case by (simp add: lastn_append)
qed simp

lemma bb_writes_data:
  "bb_data (bb_writes ps c) = lastn c (concat ps)" "bb_written (bb_writes ps c) = int (length (concat ps))"
  "bb_cap (bb_writes ps c) = c"
  using bb_fold [of "newBgBuffer c" "[]" ps] by (simp_all add: bb_writes_def newBgBuffer_def lastn_def)

lemma since_lastn:
  "bb_data b = lastn c s \<Longrightarrow> bb_written b = int (length s) \<Longrightarrow>
     SinceOffset off b = (if off \<ge> int (length s) then [] else drop (max (nat off) (length s - c)) s,
       int (length s), off < int (length s) \<and> off < int (length s) - int (min c (length s)))"
  by (auto simp: SinceOffset_def lastn_def Let_def max_def min_def nat_diff_distrib' nat_le_iff intro!: arg_cong [where f = "\<lambda>k. drop k s"])

lemma tail_scan_spec:
  "tail_scan n data k cnt = r \<Longrightarrow> k \<le> length data \<Longrightarrow>
     cnt = int (count_list (drop k data) 10) \<Longrightarrow> cnt \<le> n \<Longrightarrow>
     (case r of None \<Rightarrow> int (count_list data 10) \<le> n
      | Some i \<Rightarrow> 0 < i \<and> i \<le> length data \<and> data ! (i - 1) = 10 \<and> int (count_list (drop i data) 10) = n)"
proof (induction n data k cnt arbitrary: r rule: tail_scan.induct)
  case (2 n data i cnt)
  have d: "drop i data = data ! i # drop (Suc i) data" using 2 by (simp add: Cons_nth_drop_Suc)
  show ?case
  proof (cases "data ! i = 10")
    case True
    then show ?thesis using 2 d by (cases "cnt + 1 > n") auto
  next
    case False
    then show ?thesis using 2 d by auto
  qed
qed auto

section \<open>Runs\<close>

datatype bg_event =
    EvStart "command \<Rightarrow> string + int" "string list" bg_request bool "string list" bytes int
  | EvOut string bytes int
  | EvErr string bytes int
  | EvExit string wait_result int
  | EvKill "int \<Rightarrow> signal \<Rightarrow> string option" int bg_request
  | EvGC int

definition on_proc :: "string \<Rightarrow> (bg_process \<Rightarrow> bg_process) \<Rightarrow> bg_registry \<Rightarrow> bg_registry" where
  "on_proc i f r = (case bg_lookup i r of None \<Rightarrow> r | Some p \<Rightarrow> put_proc (f p) r)"

text \<open>The waiting goroutine of a process returns once.\<close>

fun bg_apply :: "bg_event \<Rightarrow> bg_registry \<Rightarrow> bg_registry" where
  "bg_apply (EvStart spawn environ req en allow rnd now) r = snd (StartBg spawn environ req en allow rnd now r)"
| "bg_apply (EvOut i b now) r = on_proc i (pump_out b now) r"
| "bg_apply (EvErr i b now) r = on_proc i (pump_err b now) r"
| "bg_apply (EvExit i res now) r = on_proc i (\<lambda>p. if pr_done p then p else proc_exit res now p) r"
| "bg_apply (EvKill kill now req) r = snd (Kill kill now req r)"
| "bg_apply (EvGC now) r = snd (GC now r)"

definition bg_run :: "bg_event list \<Rightarrow> bg_registry" where
  "bg_run es = fold bg_apply es NewBgRegistry"

definition buffer_ok :: "bg_buffer \<Rightarrow> bool" where
  "buffer_ok b \<longleftrightarrow> bb_cap b = BgBufferCap \<and> int (length (bb_data b)) = min (int BgBufferCap) (bb_written b)"

definition process_ok :: "bg_process \<Rightarrow> bool" where
  "process_ok p \<longleftrightarrow> pr_state p \<in> {''running'', ''exited'', ''killed'', ''failed''}
     \<and> (pr_done p \<longleftrightarrow> pr_ended p \<noteq> None)
     \<and> (pr_done p \<longrightarrow> pr_state p \<noteq> ''running'')
     \<and> (pr_state p \<in> {''exited'', ''failed''} \<longrightarrow> pr_done p)
     \<and> (\<not> pr_done p \<longrightarrow> pr_exit p = 0) \<and> pr_os p \<noteq> None
     \<and> buffer_ok (pr_stdout p) \<and> buffer_ok (pr_stderr p)"

definition registry_inv :: "bg_registry \<Rightarrow> bool" where
  "registry_inv r \<longleftrightarrow> distinct (map fst (br_procs r)) \<and> br_idle r = BgIdleGC
     \<and> (\<forall>i p. bg_lookup i r = Some p \<longrightarrow> pr_id p = i \<and> process_ok p)"

lemma buffer_ok_new [simp]: "buffer_ok (newBgBuffer BgBufferCap)"
  by (simp add: buffer_ok_def newBgBuffer_def)

lemma buffer_ok_write [simp]: "buffer_ok b \<Longrightarrow> buffer_ok (bb_write p b)"
  by (auto simp: buffer_ok_def lastn_def min_def split: if_splits)

lemma lookup_put [simp]: "bg_lookup i (put_proc p r) = (if i = pr_id p then Some p else bg_lookup i r)"
  by (simp add: bg_lookup_def put_proc_def update_conv')

lemma inv_put: "registry_inv r \<Longrightarrow> process_ok p \<Longrightarrow> registry_inv (put_proc p r)"
  by (auto simp: registry_inv_def, auto simp: put_proc_def distinct_update)

lemma inv_on_proc:
  "registry_inv r \<Longrightarrow> (\<And>p. process_ok p \<Longrightarrow> process_ok (f p)) \<Longrightarrow> registry_inv (on_proc i f r)"
  by (auto simp: on_proc_def split: option.split intro!: inv_put) (auto simp: registry_inv_def)

lemma process_ok_pumps: "process_ok p \<Longrightarrow> process_ok (pump_out b now p) \<and> process_ok (pump_err b now p)"
  by (auto simp: process_ok_def pump_out_def pump_err_def)

lemma process_ok_exit: "process_ok p \<Longrightarrow> process_ok (proc_exit res now p)"
  by (auto simp: process_ok_def proc_exit_def Let_def split: wait_result.split)

lemma inv_start: "registry_inv r \<Longrightarrow> registry_inv (snd (StartBg spawn environ req en allow rnd now r))"
  by (auto simp: StartBg_def Let_def process_ok_def split: sum.split intro!: inv_put)

lemma inv_kill: "registry_inv r \<Longrightarrow> registry_inv (snd (Kill kill now req r))"
  unfolding Kill_def Let_def
  by (auto split: option.split intro!: inv_put) (auto simp: registry_inv_def process_ok_def)

lemma lookup_GC:
  assumes "distinct (map fst (br_procs r))"
  shows "bg_lookup i (snd (GC now r)) = (case bg_lookup i r of None \<Rightarrow> None
     | Some p \<Rightarrow> if gc_drop now (br_idle r) p then None else Some p)"
proof -
  have "distinct (map fst ps) \<Longrightarrow> map_of (filter (\<lambda>(i, p). \<not> d p) ps) i
      = (case map_of ps i of None \<Rightarrow> None | Some p \<Rightarrow> if d p then None else Some p)"
    for ps :: "(string \<times> bg_process) list" and d
    by (induction ps) (auto simp: map_of_eq_None_iff split: option.split)
  from this [OF assms, of "gc_drop now (br_idle r)"] show ?thesis by (simp add: GC_def bg_lookup_def)
qed

lemma inv_GC: "registry_inv r \<Longrightarrow> registry_inv (snd (GC now r))"
  unfolding registry_inv_def
  by (auto simp: lookup_GC split: option.splits if_splits) (auto simp: GC_def distinct_map_filter)

lemma bg_run_inv: "registry_inv (bg_run es)"
proof -
  have step: "registry_inv r \<Longrightarrow> registry_inv (bg_apply e r)" for e r
    by (cases e) (auto intro!: inv_start inv_kill inv_GC inv_on_proc simp: process_ok_pumps process_ok_exit)
  have "registry_inv r \<Longrightarrow> registry_inv (fold bg_apply es r)" for r
    by (induction es arbitrary: r) (auto intro: step)
  moreover have "registry_inv NewBgRegistry" by (simp add: registry_inv_def NewBgRegistry_def bg_lookup_def)
  ultimately show ?thesis unfolding bg_run_def by blast
qed

section \<open>Properties\<close>


definition bg_demo_events :: "bg_event list" where
  "bg_demo_events =
     [EvStart (\<lambda>_. Ok 7) [] \<lparr>bq_action = ''start'', bq_cmd = ''ls'', bq_args = [], bq_cwd = ''/'', bq_env = [],
        bq_label = [], bq_pid = [], bq_tail = 0, bq_since = 0, bq_signal = []\<rparr> True [] [0, 0, 0, 1] 5,
      EvOut ''p_00000001'' [104, 105, 10] 6, EvExit ''p_00000001'' WaitOk 8]"


text \<open>What a poller of one stream sees.  After any writes, reading from an offset gives the bytes of the
  stream from that offset on as far as they are among the last \<open>c\<close>, the truncation flag tells exactly when
  older bytes of the request are gone, and the returned counter is the length of the stream; so a poller
  that passes the counter back gets exactly what was written since, if that is no more than the cap.\<close>

theorem bg_buffer_window:
  "SinceOffset off (bb_writes ps c) =
     (let s = concat ps; gone = length s - c in
      (if off \<ge> int (length s) then [] else drop (max (nat off) gone) s, int (length s),
       off < int (length s) \<and> off < int gone))
   \<and> (length (concat qs) \<le> c \<longrightarrow>
      fst (SinceOffset (fst (snd (SinceOffset off (bb_writes ps c)))) (bb_writes (ps @ qs) c)) = concat qs)"
proof -
  have 1: "SinceOffset off (bb_writes ps c) = (if off \<ge> int (length (concat ps)) then []
      else drop (max (nat off) (length (concat ps) - c)) (concat ps), int (length (concat ps)),
      off < int (length (concat ps)) \<and> off < int (length (concat ps)) - int (min c (length (concat ps))))"
    for off ps by (rule since_lastn) (simp_all add: bb_writes_data)
  have 2: "int n - int (min c n) = int (n - c)" for n by (simp add: min_def)
  show ?thesis unfolding 1 Let_def 2 by (auto simp: max_def)
qed

text \<open>\<open>Tail\<close> gives whole lines: the longest end of the buffer with no more than \<open>n\<close> newlines.\<close>

lemma tail_lines:
  assumes "0 < n"
  shows "\<exists>p. bb_data b = p @ fst (Tail n b) \<and> int (count_list (fst (Tail n b)) 10) \<le> n
    \<and> (p = [] \<or> last p = 10 \<and> int (count_list (fst (Tail n b)) 10) = n)"
proof (cases "bb_data b = []")
  case False
  let ?d = "bb_data b"
  note spec = tail_scan_spec [of n ?d "length ?d" 0, OF refl]
  show ?thesis
  proof (cases "tail_scan n ?d (length ?d) 0")
    case None
    with spec assms False show ?thesis by (auto simp: Tail_def)
  next
    case (Some i)
    with spec assms have i: "0 < i" "i \<le> length ?d" "?d ! (i - 1) = 10" "int (count_list (drop i ?d) 10) = n" by auto
    then have "last (take i ?d) = 10" by (subst last_conv_nth) (auto simp: min_def)
    with i Some assms False show ?thesis by (intro exI [of _ "take i ?d"]) (auto simp: Tail_def)
  qed
qed (use assms in \<open>simp add: Tail_def\<close>)

text \<open>The counter that \<open>Logs\<close> returns for the next poll is the larger of the two streams' counters.
  When one stream is behind the other, what it writes next, up to the difference, is never delivered to a poller
  that passes the counter back, and no truncation is reported.\<close>

theorem logs_next_offset_skips:
  assumes "bg_lookup (bq_pid req) r = Some p" and "bq_tail req \<le> 0"
    and "int (length b) \<le> bb_written (pr_stderr p) - bb_written (pr_stdout p)"
  shows "let next = bs_next (Logs req r);
             resp = Logs (req\<lparr>bq_since := next\<rparr>) (on_proc (bq_pid req) (pump_out b now) r)
         in pr_id p = bq_pid req \<longrightarrow> bs_stdout resp = [] \<and> \<not> bs_out_trunc resp \<and> bs_next resp = next"
proof -
  let ?o = "bb_written (pr_stdout p)" and ?e = "bb_written (pr_stderr p)"
  have next': "bs_next (Logs req r) = max ?o ?e"
    using assms(1,2) by (simp add: Logs_def SinceOffset_def Let_def max_def bg_zero_def)
  have p': "bb_written (pr_stdout (pump_out b now p)) = ?o + int (length b)"
    "pr_stderr (pump_out b now p) = pr_stderr p" "pr_id (pump_out b now p) = pr_id p"
    by (simp_all add: pump_out_def)
  show ?thesis
    unfolding Let_def next'
  proof
    assume id: "pr_id p = bq_pid req"
    have l: "bg_lookup (bq_pid req) (on_proc (bq_pid req) (pump_out b now) r) = Some (pump_out b now p)"
      using assms(1) id p'(3) by (simp add: on_proc_def)
    show "bs_stdout (Logs (req\<lparr>bq_since := max ?o ?e\<rparr>) (on_proc (bq_pid req) (pump_out b now) r)) = []
      \<and> \<not> bs_out_trunc (Logs (req\<lparr>bq_since := max ?o ?e\<rparr>) (on_proc (bq_pid req) (pump_out b now) r))
      \<and> bs_next (Logs (req\<lparr>bq_since := max ?o ?e\<rparr>) (on_proc (bq_pid req) (pump_out b now) r)) = max ?o ?e"
      using assms(2,3) l p'(1,2)
      by (simp add: Logs_def SinceOffset_def bg_zero_def max_def string_of_def)
  qed
qed

definition bg_poll_events :: "bg_event list" where
  "bg_poll_events = [hd bg_demo_events, EvErr ''p_00000001'' [119, 97, 114, 110, 10] 6]"

definition bg_poll :: bg_request where
  "bg_poll = \<lparr>bq_action = ''logs'', bq_cmd = [], bq_args = [], bq_cwd = [], bq_env = [], bq_label = [],
     bq_pid = ''p_00000001'', bq_tail = 0, bq_since = 0, bq_signal = []\<rparr>"

theorem logs_next_offset_skips_witness:
  "bs_stdout (Logs (bg_poll\<lparr>bq_since := bs_next (Logs bg_poll (bg_run bg_poll_events))\<rparr>)
      (on_proc ''p_00000001'' (pump_out [104, 105, 10] 9) (bg_run bg_poll_events))) = []"
proof -
  have "map_option (\<lambda>p. (bb_written (pr_stderr p), bb_written (pr_stdout p), pr_id p))
      (bg_lookup ''p_00000001'' (bg_run bg_poll_events)) = Some (5, 0, ''p_00000001'')"
    by (simp add: bg_poll_events_def bg_demo_events_def bg_run_def NewBgRegistry_def StartBg_def Let_def genProcessID_def
        hex_nibble_def hex_digits_def on_proc_def pump_err_def newBgBuffer_def)
  then obtain p where "bg_lookup (bq_pid bg_poll) (bg_run bg_poll_events) = Some p"
    "bb_written (pr_stderr p) = 5" "bb_written (pr_stdout p) = 0" "pr_id p = bq_pid bg_poll"
    by (auto simp: bg_poll_def)
  with logs_next_offset_skips [of bg_poll "bg_run bg_poll_events" p "[104, 105, 10]" 9]
  show ?thesis by (simp add: Let_def bg_poll_def)
qed

theorem bg_buffer_window_witness:
  "fst (SinceOffset (fst (snd (SinceOffset 0 (bb_writes [[1, 2], [3]] 3)))) (bb_writes ([[1, 2], [3]] @ [[4], [5, 6]]) 3))
     = [4, 5, 6]"
  using bg_buffer_window [of 0 "[[1, 2], [3]]" 3 "[[4], [5, 6]]", THEN conjunct2] by simp

end
