(* ===== verification/State.thy ===== *)
theory State
  imports Os
begin

text \<open>
  \<open>internal/state\<close>: the state files of the three roles, their validation, and their atomic save and
  version-checked load.  The JSON codec is an argument: \<open>dec\<close> gives the error or the value.  \<open>et\<close> is the
  text of an error of the operating system.
\<close>

section \<open>Types\<close>

definition CurrentVersion :: int where "CurrentVersion = 1"

record gateway_ref =
  gr_url :: string
  gr_cert_pin :: string
  gr_tls_mode :: string

record daemon_ref =
  dr_device_id :: string
  dr_pubkey :: string
  dr_pin_source :: string
  dr_first_seen :: int
  dr_alias :: string

record bridge_state =
  bst_version :: int
  bst_device_id :: string
  bst_agent_name :: string
  bst_api_key :: string
  bst_gateway :: gateway_ref
  bst_key_path :: string
  bst_e2e_mode :: string
  bst_default_target :: string
  bst_known_daemons :: "(string \<times> daemon_ref) list"
  bst_working_dir :: string
  bst_enrolled_at :: int

record daemon_state =
  dst_version :: int
  dst_device_id :: string
  dst_name :: string
  dst_api_key :: string
  dst_gateway :: gateway_ref
  dst_key_path :: string
  dst_e2e_mode :: string
  dst_exec_enabled :: bool
  dst_env_allowlist :: "string list"
  dst_forbidden_ports :: "int list"
  dst_allowed_bridges :: "string list"
  dst_working_dir :: string
  dst_enrolled_at :: int

record state_agent =
  sa_name :: string
  sa_device_id :: string
  sa_key_hash :: string
  sa_allowed :: "string list"

record state_daemon =
  sd_name :: string
  sd_device_id :: string
  sd_token_hash :: string
  sd_noise_pub :: string

record gateway_state =
  gst_version :: int
  gst_listen :: string
  gst_audit_path :: string
  gst_audit_max_bytes :: int
  gst_audit_max_backups :: int
  gst_tokens_path :: string
  gst_agents :: "state_agent list"
  gst_daemons :: "state_daemon list"

section \<open>Validation\<close>

definition validateE2EMode :: "string \<Rightarrow> string + unit" where
  "validateE2EMode mode =
     (if mode = ''disabled'' \<or> mode = ''optional'' \<or> mode = ''required'' then Ok ()
      else Err (''state: invalid e2e_mode '' @ go_q mode @ '' (want disabled|optional|required)''))"

definition validateGatewayTLSMode :: "string \<Rightarrow> string + unit" where
  "validateGatewayTLSMode mode =
     (let m = to_lower (trim_space mode) in
      if m = [] \<or> m = ''pin'' \<or> m = ''webpki'' then Ok ()
      else Err (''state: invalid gateway.tls_mode '' @ go_q mode @ '' (want pin|webpki)''))"

definition ValidateBridge :: "bridge_state \<Rightarrow> string + unit" where
  "ValidateBridge s =
     (if bst_agent_name s = [] then Err ''state: agent_name is required''
      else if bst_api_key s = [] then Err ''state: api_key is required''
      else if gr_url (bst_gateway s) = [] then Err ''state: gateway.url is required''
      else bind_res (validateGatewayTLSMode (gr_tls_mode (bst_gateway s))) (\<lambda>_.
           bind_res (validateE2EMode (bst_e2e_mode s)) (\<lambda>_.
             if bst_e2e_mode s \<noteq> ''disabled'' \<and> bst_key_path s = [] then
               Err (''state: bridge_static_key_path required when e2e_mode='' @ bst_e2e_mode s)
             else Ok ())))"

definition ValidateDaemon :: "daemon_state \<Rightarrow> string + unit" where
  "ValidateDaemon s =
     (if dst_name s = [] then Err ''state: daemon_name is required''
      else if dst_api_key s = [] then Err ''state: api_key is required''
      else if gr_url (dst_gateway s) = [] then Err ''state: gateway.url is required''
      else bind_res (validateGatewayTLSMode (gr_tls_mode (dst_gateway s))) (\<lambda>_.
           bind_res (validateE2EMode (dst_e2e_mode s)) (\<lambda>_.
             if dst_e2e_mode s \<noteq> ''disabled'' \<and> dst_key_path s = [] then
               Err (''state: noise_static_key_path required when e2e_mode='' @ dst_e2e_mode s)
             else if dst_e2e_mode s = ''required'' \<and> dst_allowed_bridges s = [] then
               Err ''state: allowed_bridge_pubkeys must be non-empty when e2e_mode=required''
             else Ok ())))"

definition ValidateGateway :: "gateway_state \<Rightarrow> string + unit" where
  "ValidateGateway s =
     (if gst_listen s = [] then Err ''state: gateway listen address is required''
      else if gst_audit_path s = [] then Err ''state: gateway audit_path is required''
      else Ok ())"

section \<open>Saving and loading\<close>

text \<open>What \<open>saveJSON\<close> and the token store share: the encoded value goes into a new temporary file, which
  is made private, closed and renamed over the target; the deferred removal runs in any case.  \<open>lbl\<close>
  puts the step's name before the text of its error.\<close>

definition fill_tmp ::
  "(string \<Rightarrow> os_error \<Rightarrow> string) \<Rightarrow> string \<Rightarrow> string \<Rightarrow> bytes \<Rightarrow> (string, unit) io" where
  "fill_tmp lbl tmp path b =
     io_case (os_write tmp b) (\<lambda>(e, _). io_ignore os_close (io_fail (lbl ''marshal'' e))) (\<lambda>_.
     io_case (os_chmod tmp 384) (\<lambda>e. io_ignore os_close (io_fail (lbl ''chmod'' e))) (\<lambda>_.
     io_case os_close (\<lambda>e. io_fail (lbl ''close'' e)) (\<lambda>_.
     on_err (lbl (''rename '' @ path)) (os_rename tmp path))))"

definition replace_file ::
  "(string \<Rightarrow> os_error \<Rightarrow> string) \<Rightarrow> string \<Rightarrow> string \<Rightarrow> string \<Rightarrow> bytes \<Rightarrow> (string, unit) io" where
  "replace_file lbl pre suf path b =
     io_bind (on_err (lbl ''tempfile'') (os_create_temp (path_dir path) pre suf)) (\<lambda>tmp.
       io_finally (fill_tmp lbl tmp path b) (os_remove tmp))"

definition saveJSON :: "(os_error \<Rightarrow> string) \<Rightarrow> string \<Rightarrow> bytes \<Rightarrow> (string, unit) io" where
  "saveJSON et path b =
     (let lbl = (\<lambda>step e. ''state: '' @ step @ '': '' @ et e); dir = path_dir path in
      if path = [] then io_fail ''state: empty path''
      else io_bind (if dir \<noteq> [] \<and> dir \<noteq> ''.'' then on_err (lbl (''mkdir '' @ dir)) (os_mkdir_all dir 448)
                    else io_ret ())
             (\<lambda>_. replace_file lbl ''.state-'' ''.tmp'' path b))"

definition loadJSON :: "(os_error \<Rightarrow> string) \<Rightarrow> (bytes \<Rightarrow> string + 'a) \<Rightarrow> string \<Rightarrow> (string, 'a) io" where
  "loadJSON et dec path =
     io_bind (on_err (\<lambda>e. ''state: read '' @ path @ '': '' @ et e) (os_read_file path)) (\<lambda>b.
       if b = [] then io_fail ''state: empty file''
       else case dec b of Inl e \<Rightarrow> io_fail e | Inr v \<Rightarrow> io_ret v)"

definition load_versioned ::
  "(os_error \<Rightarrow> string) \<Rightarrow> (bytes \<Rightarrow> string + 'a) \<Rightarrow> ('a \<Rightarrow> int) \<Rightarrow> string \<Rightarrow> string \<Rightarrow> string \<Rightarrow> (string, 'a) io" where
  "load_versioned et dec version who note path =
     io_bind (loadJSON et dec path) (\<lambda>s.
       if version s \<noteq> CurrentVersion then
         io_fail (''state: '' @ who @ '' schema version '' @ itoa (version s) @ '', expected '' @ itoa CurrentVersion @ note)
       else io_ret s)"

definition SaveBridge :: "(os_error \<Rightarrow> string) \<Rightarrow> (bridge_state \<Rightarrow> bytes) \<Rightarrow> string \<Rightarrow> bridge_state \<Rightarrow> (string, unit) io" where
  "SaveBridge et enc path s = saveJSON et path (enc s)"

definition SaveDaemon :: "(os_error \<Rightarrow> string) \<Rightarrow> (daemon_state \<Rightarrow> bytes) \<Rightarrow> string \<Rightarrow> daemon_state \<Rightarrow> (string, unit) io" where
  "SaveDaemon et enc path s = saveJSON et path (enc s)"

definition SaveGateway :: "(os_error \<Rightarrow> string) \<Rightarrow> (gateway_state \<Rightarrow> bytes) \<Rightarrow> string \<Rightarrow> gateway_state \<Rightarrow> (string, unit) io" where
  "SaveGateway et enc path s = saveJSON et path (enc s)"

definition LoadBridgeState :: "(os_error \<Rightarrow> string) \<Rightarrow> (bytes \<Rightarrow> string + bridge_state) \<Rightarrow> string \<Rightarrow> (string, bridge_state) io" where
  "LoadBridgeState et dec = load_versioned et dec bst_version ''bridge'' '' (re-enroll required)''"

definition LoadDaemonState :: "(os_error \<Rightarrow> string) \<Rightarrow> (bytes \<Rightarrow> string + daemon_state) \<Rightarrow> string \<Rightarrow> (string, daemon_state) io" where
  "LoadDaemonState et dec = load_versioned et dec dst_version ''daemon'' '' (re-enroll required)''"

definition LoadGatewayState :: "(os_error \<Rightarrow> string) \<Rightarrow> (bytes \<Rightarrow> string + gateway_state) \<Rightarrow> string \<Rightarrow> (string, gateway_state) io" where
  "LoadGatewayState et dec = load_versioned et dec gst_version ''gateway'' []"

section \<open>What a save does\<close>

lemma fill_tmp_spec:
  assumes "fill_tmp lbl tmp path b w = (r, w')" and "fs_get w tmp = Some n" "n_data n = []"
  shows "(\<forall>q. q \<noteq> tmp \<longrightarrow> q \<noteq> path \<or> (\<exists>e. r = Err e) \<longrightarrow> fs_get w' q = fs_get w q)
    \<and> (\<forall>u. r = Ok u \<longrightarrow> fs_get w' path = Some (n\<lparr>n_data := b, n_mode := 384\<rparr>))"
proof -
  obtain x1 w1 where x1: "os_write tmp b w = (x1, w1)" by (cases "os_write tmp b w")
  obtain x2 w2 where x2: "os_chmod tmp 384 w1 = (x2, w2)" by (cases "os_chmod tmp 384 w1")
  obtain x3 w3 where x3: "os_close w2 = (x3, w3)" by (cases "os_close w2")
  obtain x4 w4 where x4: "os_rename tmp path w3 = (x4, w4)" by (cases "os_rename tmp path w3")
  note effects = os_write_fs [OF x1] os_chmod_fs [OF x2] os_close_fs [OF x3] os_rename_fs [OF x4]
  note run = assms(1) [unfolded fill_tmp_def io_case_def on_err_def io_ignore_def, simplified]
  consider "\<exists>e. x1 = Err e" | "\<exists>u. x1 = Ok u" "\<exists>e. x2 = Err e" | "\<exists>u. x1 = Ok u" "\<exists>u. x2 = Ok u" "\<exists>e. x3 = Err e"
    | "\<exists>u. x1 = Ok u" "\<exists>u. x2 = Ok u" "\<exists>u. x3 = Ok u" by (metis sum.exhaust)
  then show ?thesis
  proof cases
    case 1 with run x1 effects show ?thesis by (auto split: sum.splits prod.splits)
  next
    case 2 with run x1 x2 effects show ?thesis by (auto split: sum.splits prod.splits)
  next
    case 3 with run x1 x2 x3 effects show ?thesis by (auto split: sum.splits prod.splits)
  next
    case 4
    have "fs_get w1 tmp = Some (n\<lparr>n_data := b\<rparr>)" using 4(1) effects(1) assms(2,3) by auto
    with 4 effects have w3: "fs_get w3 tmp = Some (n\<lparr>n_data := b, n_mode := 384\<rparr>)" by auto
    have o3: "q \<noteq> tmp \<Longrightarrow> fs_get w3 q = fs_get w q" for q using 4 effects by auto
    show ?thesis using 4 run x1 x2 x3 x4 w3 o3 effects(4) by (cases x4) auto
  qed
qed

text \<open>Atomic replacement: either an error and every existing path as before, or the new contents.\<close>

definition replaced_file :: "string \<Rightarrow> bytes \<Rightarrow> world \<Rightarrow> string + unit \<Rightarrow> world \<Rightarrow> bool" where
  "replaced_file path b w r w' \<longleftrightarrow>
     (case r of
        Inl _ \<Rightarrow> (\<forall>q n. fs_get w q = Some n \<longrightarrow> fs_get w' q = Some n)
      | Inr _ \<Rightarrow> (\<exists>n. fs_get w' path = Some n \<and> n_kind n = KFile \<and> n_data n = b \<and> n_mode n = 384)
          \<and> (\<forall>q n. q \<noteq> path \<longrightarrow> fs_get w q = Some n \<longrightarrow> fs_get w' q = Some n))"

lemma replace_file_spec:
  assumes run: "replace_file lbl pre suf path b w = (r, w')" and nc: "no_clash pre suf path w"
  shows "replaced_file path b w r w'"
proof -
  obtain t w1 where t: "os_create_temp (path_dir path) pre suf w = (t, w1)"
    by (cases "os_create_temp (path_dir path) pre suf w")
  note t' = t [unfolded os_create_temp_def]
  show ?thesis
  proof (cases t)
    case (Inl e)
    with t' have "fs_get w1 = fs_get w" by (intro create_temp_fail) simp
    with run t Inl show ?thesis
      by (auto simp: replace_file_def io_bind_def on_err_def replaced_file_def)
  next
    case (Inr tmp)
    from create_temp_new [OF t' [unfolded Inr]] obtain n where new: "fs_get w tmp = None"
      "fs_get w1 tmp = Some n" "n_kind n = KFile" "n_data n = []"
      and same: "\<And>q. q \<noteq> tmp \<Longrightarrow> fs_get w1 q = fs_get w q" by blast
    have ne: "tmp \<noteq> path" using nc create_temp_name [OF t' [unfolded Inr]] new(1) by (auto simp: no_clash_def)
    obtain x w2 where x: "fill_tmp lbl tmp path b w1 = (x, w2)" by (cases "fill_tmp lbl tmp path b w1")
    note f = fill_tmp_spec [OF x new(2,4)]
    have r: "r = x" "w' = snd (os_remove tmp w2)"
      using run t Inr x by (auto simp: replace_file_def io_bind_def on_err_def io_finally_def)
    have keep: "fs_get w' q = fs_get w2 q" if "q \<noteq> tmp" for q using that r by simp
    have ex: "q \<noteq> tmp" if "fs_get w q = Some m" for q m using that new(1) by auto
    show ?thesis
    proof (cases x)
      case (Inl e)
      with f r keep ex same show ?thesis by (auto simp: replaced_file_def)
    next
      case ok: (Inr u)
      with f keep [of path] ne r new(3) have "\<exists>n. fs_get w' path = Some n \<and> n_kind n = KFile \<and> n_data n = b \<and> n_mode n = 384"
        by auto
      moreover have "fs_get w' q = Some m" if "q \<noteq> path" "fs_get w q = Some m" for q m
        using f keep [OF ex [OF that(2)]] ex [OF that(2)] same that by simp
      ultimately show ?thesis using r ok by (auto simp: replaced_file_def)
    qed
  qed
qed

lemma rand_keeps: "w_rand (tick w) = w_rand w" "w_rand (set_node q n w) = w_rand w"
  by (simp_all add: tick_def set_node_def)

lemma mkdir_all_rand: "w_rand (snd (os_mkdir_all d m w)) = w_rand w"
proof -
  have one: "w_rand (snd (os_mkdir1 m p w)) = w_rand w" for p w
    by (auto simp: os_mkdir1_def sys_def rand_keeps split: option.split)
  have "w_rand (snd (io_each (os_mkdir1 m) ps w)) = w_rand w" for ps
    by (induction ps arbitrary: w) (auto simp: io_bind_def split: prod.split sum.split, (metis one snd_conv)+)
  then show ?thesis by (simp add: os_mkdir_all_def)
qed

lemma mkdir_all_keeps: "fs_get w q = Some n \<Longrightarrow> fs_get (snd (os_mkdir_all d m w)) q = Some n"
  unfolding os_mkdir_all_def by (rule mkdirs_keep)

lemma replaced_file_from:
  assumes "replaced_file path b w1 r w'" "\<And>q n. fs_get w q = Some n \<Longrightarrow> fs_get w1 q = Some n"
  shows "replaced_file path b w r w'"
  using assms unfolding replaced_file_def by (cases r) auto

text \<open>The directories are made first; a path that they bring into being is not a temporary name.\<close>

lemma saveJSON_spec:
  assumes run: "saveJSON et path b w = (r, w')" and nc: "no_clash ''.state-'' ''.tmp'' path w"
  shows "replaced_file path b w r w'"
proof (cases "path = []")
  case True
  with run show ?thesis by (auto simp: saveJSON_def replaced_file_def)
next
  case path: False
  let ?d = "path_dir path"
  obtain x w1 where x: "(if ?d \<noteq> [] \<and> ?d \<noteq> ''.'' then os_mkdir_all ?d 448 else io_ret ()) w = (x, w1)"
    by (cases "(if ?d \<noteq> [] \<and> ?d \<noteq> ''.'' then os_mkdir_all ?d 448 else io_ret ()) w")
  have keep: "fs_get w q = Some n \<Longrightarrow> fs_get w1 q = Some n" for q n
    using mkdir_all_keeps [of w q n ?d 448] x by (auto split: if_splits)
  have "w_rand w1 = w_rand w" using mkdir_all_rand [of ?d 448 w] x by (auto split: if_splits)
  then have nc1: "no_clash ''.state-'' ''.tmp'' path w1" using nc keep by (auto simp: no_clash_def)
  show ?thesis
  proof (cases x)
    case (Inl e)
    with run x path keep show ?thesis
      by (auto simp: saveJSON_def Let_def io_bind_def on_err_def replaced_file_def split: if_splits)
  next
    case (Inr u)
    with run x path have "replace_file (\<lambda>step e. ''state: '' @ step @ '': '' @ et e) ''.state-'' ''.tmp'' path b w1 = (r, w')"
      by (auto simp: saveJSON_def Let_def io_bind_def on_err_def split: if_splits)
    from replaced_file_from [OF replace_file_spec [OF this nc1] keep] show ?thesis .
  qed
qed

lemma version_text: "itoa CurrentVersion = ''1''"
  by code_simp

section \<open>Property\<close>

text \<open>C35: Saving the gateway's state is atomic under failing system calls, and a saved state loads.  Either
  the save reports an error and the file that was there is as it was, or the file holds the encoding of
  the new state with mode 0600, and when no call fails a load gives exactly that state back if it has the
  current version, and the version error otherwise.\<close>

theorem gateway_save_load:
  assumes "SaveGateway et enc path s w = (r, w')" and "no_clash ''.state-'' ''.tmp'' path w"
    and "dec (enc s) = Ok s" "enc s \<noteq> []"
  shows "(case r of
      Inl _ \<Rightarrow> (\<forall>n. fs_get w path = Some n \<longrightarrow> fs_get w' path = Some n)
    | Inr _ \<Rightarrow> (\<exists>n. fs_get w' path = Some n \<and> n_data n = enc s \<and> n_mode n = 384)
        \<and> (quiet w' \<longrightarrow> fst (LoadGatewayState et dec path w') =
             (if gst_version s = CurrentVersion then Ok s
              else Err (''state: gateway schema version '' @ itoa (gst_version s) @ '', expected 1''))))"
proof -
  have rep: "replaced_file path (enc s) w r w'"
    using saveJSON_spec assms(1,2) unfolding SaveGateway_def by blast
  show ?thesis
  proof (cases r)
    case (Inl e)
    with rep show ?thesis by (simp add: replaced_file_def)
  next
    case (Inr u)
    with rep obtain n where n: "fs_get w' path = Some n" "n_kind n = KFile" "n_data n = enc s" "n_mode n = 384"
      by (auto simp: replaced_file_def)
    have "fst (loadJSON et dec path w') = Ok s" if "quiet w'"
      using that n assms(3,4) by (simp add: loadJSON_def io_bind_def on_err_def os_read_file_def)
    then have "fst (LoadGatewayState et dec path w') = (if gst_version s = CurrentVersion then Ok s
        else Err (''state: gateway schema version '' @ itoa (gst_version s) @ '', expected 1''))" if "quiet w'"
      using that version_text by (cases "loadJSON et dec path w'") (simp add: LoadGatewayState_def load_versioned_def io_bind_def)
    with n Inr show ?thesis by auto
  qed
qed

definition demo_gateway_state :: gateway_state where
  "demo_gateway_state = \<lparr>gst_version = 1, gst_listen = ''l'', gst_audit_path = ''a'', gst_audit_max_bytes = 0,
     gst_audit_max_backups = 0, gst_tokens_path = ''t'', gst_agents = [], gst_daemons = []\<rparr>"

theorem gateway_save_load_witness:
  "\<exists>w'. SaveGateway (\<lambda>_. ''io'') (\<lambda>_. [1]) ''s.json'' demo_gateway_state (plain_world [] (\<lambda>_. None)) = (Ok (), w')
     \<and> fst (LoadGatewayState (\<lambda>_. ''io'') (\<lambda>_. Ok demo_gateway_state) ''s.json'' w') = Ok demo_gateway_state"
proof -
  let ?w = "plain_world [] (\<lambda>_. None)"
  let ?run = "SaveGateway (\<lambda>_. ''io'') (\<lambda>_. [1]) ''s.json'' demo_gateway_state ?w"
  have r: "fst ?run = Ok ()" by code_simp
  have "w_fail (snd ?run) t = None" "w_cancel (snd ?run) t = False" for t by code_simp+
  then have q: "quiet (snd ?run)" unfolding quiet_def by simp
  have d: "dir_join (path_dir ''s.json'') (''.state-'' @ ''x'' @ ''.tmp'') \<noteq> ''s.json''" by code_simp
  have nc: "no_clash ''.state-'' ''.tmp'' ''s.json'' ?w"
    using d unfolding no_clash_def plain_world_def by simp
  from gateway_save_load [of "\<lambda>_. ''io''" "\<lambda>_. [1]" "''s.json''" demo_gateway_state ?w "Ok ()" "snd ?run"
      "\<lambda>_. Ok demo_gateway_state"] r nc q
  have "fst (LoadGatewayState (\<lambda>_. ''io'') (\<lambda>_. Ok demo_gateway_state) ''s.json'' (snd ?run)) = Ok demo_gateway_state"
    by (simp add: prod_eq_iff demo_gateway_state_def CurrentVersion_def)
  with r show ?thesis by (metis prod.collapse)
qed

end
