(* ===== verification/Base64.thy ===== *)
theory Base64
  imports Codec
begin

text \<open>
  The encodings of Go's \<open>encoding/base64\<close> (\<open>StdEncoding\<close>) and \<open>encoding/base32\<close> (without padding) that
  the source uses for keys and tokens.  Decoding skips line breaks, wants the padding, and does not
  look at unused bits of the last character, like Go's decoder.
\<close>

unbundle bit_operations_syntax

section \<open>Base64\<close>

definition b64_alphabet :: string where
  "b64_alphabet = ''ABCDEFGHIJKLMNOPQRSTUVWXYZabcdefghijklmnopqrstuvwxyz0123456789+/''"

definition b64_char :: "byte \<Rightarrow> char" where
  "b64_char v = b64_alphabet ! unat v"

definition b64_value :: "char \<Rightarrow> byte option" where
  "b64_value c =
     (let n = of_char c :: nat in
      if 65 \<le> n \<and> n \<le> 90 then Some (word_of_nat (n - 65))
      else if 97 \<le> n \<and> n \<le> 122 then Some (word_of_nat (n - 71))
      else if 48 \<le> n \<and> n \<le> 57 then Some (word_of_nat (n + 4))
      else if n = 43 then Some 62 else if n = 47 then Some 63 else None)"

text \<open>The four sextets of three bytes; missing bytes count as zero.\<close>

definition b64_s1 :: "byte \<Rightarrow> byte" where "b64_s1 x = drop_bit 2 x"
definition b64_s2 :: "byte \<Rightarrow> byte \<Rightarrow> byte" where "b64_s2 x y = push_bit 4 (x AND 3) OR drop_bit 4 y"
definition b64_s3 :: "byte \<Rightarrow> byte \<Rightarrow> byte" where "b64_s3 y z = push_bit 2 (y AND 15) OR drop_bit 6 z"
definition b64_s4 :: "byte \<Rightarrow> byte" where "b64_s4 z = z AND 63"

fun base64_encode :: "bytes \<Rightarrow> string" where
  "base64_encode [] = []"
| "base64_encode [x] = [b64_char (b64_s1 x), b64_char (b64_s2 x 0), CHR ''='', CHR ''='']"
| "base64_encode [x, y] = [b64_char (b64_s1 x), b64_char (b64_s2 x y), b64_char (b64_s3 y 0), CHR ''='']"
| "base64_encode (x # y # z # b) =
     [b64_char (b64_s1 x), b64_char (b64_s2 x y), b64_char (b64_s3 y z), b64_char (b64_s4 z)] @ base64_encode b"

fun b64_quads :: "string \<Rightarrow> bytes option" where
  "b64_quads [] = Some []"
| "b64_quads (a # b # c # d # s) =
     (case (b64_value a, b64_value b) of
        (Some p, Some q) \<Rightarrow>
          if d = CHR ''='' then
            (if s \<noteq> [] then None
             else if c = CHR ''='' then Some [push_bit 2 p OR drop_bit 4 q]
             else case b64_value c of
                 None \<Rightarrow> None
               | Some r \<Rightarrow> Some [push_bit 2 p OR drop_bit 4 q, push_bit 4 q OR drop_bit 2 r])
          else
            (case (b64_value c, b64_value d) of
               (Some r, Some t) \<Rightarrow>
                 map_option (\<lambda>rest. [push_bit 2 p OR drop_bit 4 q, push_bit 4 q OR drop_bit 2 r,
                   push_bit 6 r OR t] @ rest) (b64_quads s)
             | _ \<Rightarrow> None)
      | _ \<Rightarrow> None)"
| "b64_quads _ = None"

definition base64_decode :: "string \<Rightarrow> bytes option" where
  "base64_decode s = b64_quads (filter (\<lambda>c. c \<noteq> CHR 0x0A \<and> c \<noteq> CHR 0x0D) s)"

section \<open>Base32\<close>

definition b32_alphabet :: string where
  "b32_alphabet = ''ABCDEFGHIJKLMNOPQRSTUVWXYZ234567''"

definition byte_bits :: "byte \<Rightarrow> bool list" where
  "byte_bits x = map (bit x) [7, 6, 5, 4, 3, 2, 1, 0]"

fun b32_groups :: "bool list \<Rightarrow> string" where
  "b32_groups [] = []"
| "b32_groups (p # q # r # s # t # bs) =
     b32_alphabet ! (16 * of_bool p + 8 * of_bool q + 4 * of_bool r + 2 * of_bool s + of_bool t) # b32_groups bs"
| "b32_groups bs = [b32_alphabet ! (\<Sum>i<length bs. of_bool (bs ! i) * 2 ^ (4 - i))]"

definition base32_encode :: "bytes \<Rightarrow> string" where
  "base32_encode b = b32_groups (concat (map byte_bits b))"

section \<open>Round trip\<close>

lemma b64_value_alphabet: "n < 64 \<Longrightarrow> b64_value (b64_alphabet ! n) = Some (word_of_nat n)"
proof -
  have "\<forall>n \<in> set [0..<64]. b64_value (b64_alphabet ! n) = Some (word_of_nat n)"
    unfolding b64_alphabet_def by (simp add: upt_rec b64_value_def)
  then show "n < 64 \<Longrightarrow> ?thesis" by simp
qed

lemma b64_value_char [simp]: "v < 64 \<Longrightarrow> b64_value (b64_char v) = Some v"
  using b64_value_alphabet [of "unat v"] by (simp add: b64_char_def word_less_nat_alt)

lemma b64_char_plain: "v < 64 \<Longrightarrow> b64_char v \<noteq> c" if "b64_value c = None"
  using that b64_value_char [of v] by (metis option.distinct(1))

lemma b64_char_special [simp]:
  "v < 64 \<Longrightarrow> b64_char v \<noteq> CHR ''=''" "v < 64 \<Longrightarrow> b64_char v \<noteq> CHR 0x0A" "v < 64 \<Longrightarrow> b64_char v \<noteq> CHR 0x0D"
  by (rule b64_char_plain; simp add: b64_value_def)+

lemmas b64_sextets = b64_s1_def b64_s2_def b64_s3_def b64_s4_def

lemma byte_below_64: "(\<And>n. bit v n \<Longrightarrow> n < 6) \<Longrightarrow> v < 64" for v :: byte
proof -
  assume bits: "\<And>n. bit v n \<Longrightarrow> n < 6"
  have "v = take_bit 6 v" by (rule bit_word_eqI) (use bits in \<open>auto simp: bit_simps\<close>)
  then have "unat v = take_bit 6 (unat v)" by (metis unsigned_take_bit_eq)
  then have "unat v < 2 ^ 6" by (metis take_bit_nat_less_exp)
  then show "v < 64" by (simp add: word_less_nat_alt)
qed

lemma byte_bit_less: "bit (x :: byte) n \<Longrightarrow> n < 8"
  using bit_imp_le_length [of x n] by simp

lemma b64_masks: "x AND 3 = take_bit 2 x" "x AND 15 = take_bit 4 x" "x AND 63 = take_bit 6 x" for x :: byte
  by (simp_all add: take_bit_eq_mask mask_eq_exp_minus_1)

lemma b64_bounds [simp]: "b64_s1 x < 64" "b64_s2 x y < 64" "b64_s3 y z < 64" "b64_s4 z < 64"
  by (rule byte_below_64, auto simp: b64_sextets b64_masks bit_simps dest!: byte_bit_less)+

lemma b64_join [simp]:
  "push_bit 2 (b64_s1 x) OR drop_bit 4 (b64_s2 x y) = x"
  "push_bit 4 (b64_s2 x y) OR drop_bit 2 (b64_s3 y z) = y"
  "push_bit 6 (b64_s3 y z) OR b64_s4 z = z"
proof -
  show "push_bit 2 (b64_s1 x) OR drop_bit 4 (b64_s2 x y) = x"
  proof (rule bit_word_eqI)
    fix n assume "n < LENGTH(8)"
    then show "bit (push_bit 2 (b64_s1 x) OR drop_bit 4 (b64_s2 x y)) n = bit x n"
      by (cases "2 \<le> n") (auto simp: b64_sextets b64_masks bit_simps simp del: add_2_eq_Suc add_2_eq_Suc' dest: byte_bit_less)
  qed
  show "push_bit 4 (b64_s2 x y) OR drop_bit 2 (b64_s3 y z) = y"
  proof (rule bit_word_eqI)
    fix n assume "n < LENGTH(8)"
    then show "bit (push_bit 4 (b64_s2 x y) OR drop_bit 2 (b64_s3 y z)) n = bit y n"
      by (cases "4 \<le> n") (auto simp: b64_sextets b64_masks bit_simps simp del: add_2_eq_Suc add_2_eq_Suc' dest: byte_bit_less)
  qed
  show "push_bit 6 (b64_s3 y z) OR b64_s4 z = z"
  proof (rule bit_word_eqI)
    fix n assume "n < LENGTH(8)"
    then show "bit (push_bit 6 (b64_s3 y z) OR b64_s4 z) n = bit z n"
      by (cases "6 \<le> n") (auto simp: b64_sextets b64_masks bit_simps simp del: add_2_eq_Suc add_2_eq_Suc' dest: byte_bit_less)
  qed
qed

lemma b64_quads_encode: "b64_quads (base64_encode b) = Some b"
  by (induction b rule: base64_encode.induct) simp_all

lemma base64_encode_plain: "c \<in> set (base64_encode b) \<Longrightarrow> c \<noteq> CHR 0x0A \<and> c \<noteq> CHR 0x0D"
  by (induction b rule: base64_encode.induct) auto

lemma base64_decode_encode [codec_simps]: "base64_decode (base64_encode b) = Some b"
proof -
  have "filter (\<lambda>c. c \<noteq> CHR 0x0A \<and> c \<noteq> CHR 0x0D) (base64_encode b) = base64_encode b"
    using base64_encode_plain by (simp add: filter_id_conv)
  then show ?thesis by (simp add: base64_decode_def b64_quads_encode)
qed

interpretation b64: codec base64_encode base64_decode "\<lambda>_. True"
  by unfold_locales (rule base64_decode_encode)

end
