(* ===== verification/Tokens.thy ===== *)
theory Tokens
  imports State Base64
begin

text \<open>
  \<open>internal/gateway/tokens.go\<close>: the one-shot enrollment tokens, kept in memory and in one JSON file that
  several processes (the gateway and the command line) read and replace.  Each method is atomic in its
  process under the store's lock.  The JSON codec of the token map is \<open>enc\<close> and \<open>dec\<close>; \<open>et\<close> is the
  text of an error of the operating system; the clock and the random bytes are arguments.
\<close>

section \<open>Types\<close>

record daemon_policy =
  dp_exec_enabled :: bool
  dp_env_allowlist :: "string list"
  dp_forbidden_ports :: "int list"
  dp_allowed_bridges :: "string list"
  dp_working_dir :: string
  dp_strict :: bool

record token =
  tk_token :: string
  tk_role :: string
  tk_name :: string
  tk_target :: string
  tk_targets :: "string list"
  tk_policy :: "daemon_policy option"
  tk_expires :: int
  tk_used :: bool
  tk_used_at :: int

record token_request =
  tr_role :: string
  tr_name :: string
  tr_target :: string
  tr_targets :: "string list"
  tr_policy :: "daemon_policy option"
  tr_ttl :: int

type_synonym token_map = "(string \<times> token) list"

record token_store =
  ts_path :: string
  ts_toks :: token_map

text \<open>Go's zero time, the first of January of the year 1, in nanoseconds.\<close>

definition zero_time :: int where "zero_time = - 62135596800000000000"

section \<open>Operations\<close>

definition NewTokenStore ::
  "(os_error \<Rightarrow> string) \<Rightarrow> (bytes \<Rightarrow> string + token_map) \<Rightarrow> string \<Rightarrow> (string, token_store) io" where
  "NewTokenStore et dec path =
     io_case (os_read_file path)
       (\<lambda>e. if e = ENOENT then io_ret \<lparr>ts_path = path, ts_toks = []\<rparr> else io_fail (et e))
       (\<lambda>b. if b = [] then io_ret \<lparr>ts_path = path, ts_toks = []\<rparr>
            else case dec b of
              Inl e \<Rightarrow> io_fail (''tokens: parse '' @ path @ '': '' @ e)
            | Inr toks \<Rightarrow> io_ret \<lparr>ts_path = path, ts_toks = toks\<rparr>)"

text \<open>The callers ignore the error of a reload; the tokens in memory stay then.\<close>

definition reloadLocked ::
  "(bytes \<Rightarrow> string + token_map) \<Rightarrow> token_store \<Rightarrow> world \<Rightarrow> token_store \<times> world" where
  "reloadLocked dec s w =
     (case os_read_file (ts_path s) w of
        (Inl _, w') \<Rightarrow> (s, w')
      | (Inr b, w') \<Rightarrow>
          (if b = [] then (s, w')
           else case dec b of Inl _ \<Rightarrow> (s, w') | Inr fresh \<Rightarrow> (s\<lparr>ts_toks := fresh\<rparr>, w')))"

definition flushLocked ::
  "(os_error \<Rightarrow> string) \<Rightarrow> (token_map \<Rightarrow> bytes) \<Rightarrow> token_store \<Rightarrow> (string, unit) io" where
  "flushLocked et enc s =
     (let dir = path_dir (ts_path s);
          body = replace_file (\<lambda>_. et) ''.tokens-'' ''.tmp'' (ts_path s) (enc (ts_toks s)) in
      if dir \<noteq> [] \<and> dir \<noteq> ''.'' then io_ignore (os_mkdir_all dir 448) body else body)"

definition new_token :: "token_request \<Rightarrow> string list \<Rightarrow> string \<Rightarrow> bytes \<Rightarrow> int \<Rightarrow> token" where
  "new_token req targets target raw now =
     \<lparr>tk_token = ''et_'' @ base32_encode raw, tk_role = tr_role req, tk_name = tr_name req, tk_target = target,
      tk_targets = targets, tk_policy = tr_policy req,
      tk_expires = now + (if tr_ttl req \<le> 0 then 15 * 60 * 1000000000 else tr_ttl req),
      tk_used = False, tk_used_at = zero_time\<rparr>"

text \<open>The checks of \<open>Issue\<close>: the targets and the first target of the token.\<close>

definition issue_targets :: "token_request \<Rightarrow> string + (string list \<times> string)" where
  "issue_targets req =
     (if tr_role req \<noteq> ''bridge'' \<and> tr_role req \<noteq> ''daemon'' then
        Err (''tokens: role must be bridge or daemon, got '' @ go_q (tr_role req))
      else if tr_name req = [] then Err ''tokens: name required''
      else if tr_role req = ''bridge'' then
        (let targets = (if tr_targets req = [] \<and> tr_target req \<noteq> [] then [tr_target req] else tr_targets req) in
         if targets = [] then Err ''tokens: target daemon required for bridge tokens''
         else Ok (targets, hd targets))
      else Ok (tr_targets req, tr_target req))"

text \<open>\<open>raw\<close>: what the random source gives, 20 bytes or an error.\<close>

definition Issue ::
  "(os_error \<Rightarrow> string) \<Rightarrow> (token_map \<Rightarrow> bytes) \<Rightarrow> (bytes \<Rightarrow> string + token_map) \<Rightarrow> token_request
   \<Rightarrow> string + bytes \<Rightarrow> int \<Rightarrow> token_store \<Rightarrow> world \<Rightarrow> ((string + token) \<times> token_store) \<times> world" where
  "Issue et enc dec req raw now s w =
     (case issue_targets req of
        Inl e \<Rightarrow> ((Err e, s), w)
      | Inr (targets, target) \<Rightarrow>
          (case raw of
             Inl e \<Rightarrow> ((Err e, s), w)
           | Inr bs \<Rightarrow>
               (let tok = new_token req targets target bs now;
                    (s1, w1) = reloadLocked dec s w;
                    s2 = s1\<lparr>ts_toks := AList.update (tk_token tok) tok (ts_toks s1)\<rparr>;
                    (r, w2) = flushLocked et enc s2 w1
                in ((case r of Inl e \<Rightarrow> Err e | Inr _ \<Rightarrow> Ok tok, s2), w2))))"

definition Consume ::
  "(os_error \<Rightarrow> string) \<Rightarrow> (token_map \<Rightarrow> bytes) \<Rightarrow> (bytes \<Rightarrow> string + token_map) \<Rightarrow> string \<Rightarrow> int \<Rightarrow> int
   \<Rightarrow> token_store \<Rightarrow> world \<Rightarrow> ((string + token) \<times> token_store) \<times> world" where
  "Consume et enc dec t now now' s w =
     (let (s1, w1) = reloadLocked dec s w in
      case map_of (ts_toks s1) t of
        None \<Rightarrow> ((Err ''tokens: not found'', s1), w1)
      | Some tok \<Rightarrow>
          if tk_used tok then ((Err ''tokens: already used'', s1), w1)
          else if now > tk_expires tok then ((Err ''tokens: expired'', s1), w1)
          else
            (let tok' = tok\<lparr>tk_used := True, tk_used_at := now'\<rparr>;
                 s2 = s1\<lparr>ts_toks := AList.update t tok' (ts_toks s1)\<rparr>;
                 (r, w2) = flushLocked et enc s2 w1
             in ((case r of Inl e \<Rightarrow> Err e | Inr _ \<Rightarrow> Ok tok', s2), w2)))"

definition gc_token :: "int \<Rightarrow> token \<Rightarrow> bool" where
  "gc_token cutoff t \<longleftrightarrow> (tk_used t \<and> tk_used_at t < cutoff) \<or> (\<not> tk_used t \<and> tk_expires t < cutoff)"

definition TokensGC ::
  "(os_error \<Rightarrow> string) \<Rightarrow> (token_map \<Rightarrow> bytes) \<Rightarrow> int \<Rightarrow> int \<Rightarrow> token_store \<Rightarrow> world
   \<Rightarrow> ((string + unit) \<times> token_store) \<times> world" where
  "TokensGC et enc retention now s w =
     (let s1 = s\<lparr>ts_toks := filter (\<lambda>(k, t). \<not> gc_token (now - retention) t) (ts_toks s)\<rparr>;
          (r, w1) = flushLocked et enc s1 w
      in ((r, s1), w1))"

definition TokensList :: "token_store \<Rightarrow> token list" where
  "TokensList s = map snd (ts_toks s)"

section \<open>Reload and flush\<close>

lemma reload_path [simp]: "ts_path (fst (reloadLocked dec s w)) = ts_path s"
  by (auto simp: reloadLocked_def split: prod.split sum.split)

lemma os_read_file_fs: "fs_get (snd (os_read_file p w)) = fs_get w"
  by (auto simp: os_read_file_def sys_def split: option.split)

lemma os_read_file_rand: "w_rand (snd (os_read_file p w)) = w_rand w"
  by (auto simp: os_read_file_def sys_def tick_def split: option.split)

lemma reload_world: "fs_get (snd (reloadLocked dec s w)) = fs_get w" "w_rand (snd (reloadLocked dec s w)) = w_rand w"
  using os_read_file_fs [of "ts_path s" w] os_read_file_rand [of "ts_path s" w]
  by (auto simp: reloadLocked_def split: prod.split sum.split)

text \<open>A reload of a file with the encoding of \<open>m\<close> gives \<open>m\<close>, or leaves what is in memory.\<close>

lemma reload_holds:
  assumes "fs_get w (ts_path s) = Some n" "n_data n = enc m" "dec (enc m) = Ok m" "enc m \<noteq> []" "n_kind n = KFile"
  shows "ts_toks (fst (reloadLocked dec s w)) = m \<or> fst (reloadLocked dec s w) = s"
    and "w_fail w (w_tick w) = None \<Longrightarrow> ts_toks (fst (reloadLocked dec s w)) = m"
  using assms by (auto simp: reloadLocked_def os_read_file_def sys_def split: option.split prod.split sum.split)

lemma flush_spec:
  assumes run: "flushLocked et enc s w = (r, w')" and nc: "no_clash ''.tokens-'' ''.tmp'' (ts_path s) w"
  shows "replaced_file (ts_path s) (enc (ts_toks s)) w r w'"
proof (cases "path_dir (ts_path s) \<noteq> [] \<and> path_dir (ts_path s) \<noteq> ''.''")
  case True
  let ?w1 = "snd (os_mkdir_all (path_dir (ts_path s)) 448 w)"
  have keep: "fs_get w q = Some n \<Longrightarrow> fs_get ?w1 q = Some n" for q n by (rule mkdir_all_keeps)
  have "no_clash ''.tokens-'' ''.tmp'' (ts_path s) ?w1"
    using nc keep by (auto simp: no_clash_def mkdir_all_rand)
  from replaced_file_from [OF replace_file_spec [OF _ this] keep] run True show ?thesis
    by (auto simp: flushLocked_def Let_def io_ignore_def)
next
  case False
  with run replace_file_spec [OF _ nc] show ?thesis by (auto simp: flushLocked_def Let_def)
qed

section \<open>Consuming\<close>

lemma Consume_Ok:
  assumes run: "Consume et enc dec t now now' s w = ((Ok tok, s'), w')"
    and nc: "no_clash ''.tokens-'' ''.tmp'' (ts_path s) w"
  shows "\<exists>tok0. map_of (ts_toks (fst (reloadLocked dec s w))) t = Some tok0 \<and> \<not> tk_used tok0
      \<and> now \<le> tk_expires tok0 \<and> tok = tok0\<lparr>tk_used := True, tk_used_at := now'\<rparr>
      \<and> map_of (ts_toks s') t = Some tok \<and> ts_path s' = ts_path s
      \<and> (\<exists>n. fs_get w' (ts_path s) = Some n \<and> n_data n = enc (ts_toks s') \<and> n_kind n = KFile)"
proof -
  obtain s1 w1 where rl: "reloadLocked dec s w = (s1, w1)" by (cases "reloadLocked dec s w")
  have s1: "ts_path s1 = ts_path s" using reload_path [of dec s w] rl by simp
  from run rl obtain tok0 where tok0: "map_of (ts_toks s1) t = Some tok0" "\<not> tk_used tok0" "\<not> now > tk_expires tok0"
    by (auto simp: Consume_def Let_def split: option.splits if_splits)
  define s2 where "s2 = s1\<lparr>ts_toks := AList.update t (tok0\<lparr>tk_used := True, tk_used_at := now'\<rparr>) (ts_toks s1)\<rparr>"
  obtain r w2 where fl: "flushLocked et enc s2 w1 = (r, w2)" by (cases "flushLocked et enc s2 w1")
  from run rl tok0 fl have eqs: "r = Ok ()" "tok = tok0\<lparr>tk_used := True, tk_used_at := now'\<rparr>" "s' = s2" "w' = w2"
    by (auto simp: Consume_def Let_def s2_def split: sum.splits)
  have path: "ts_path s2 = ts_path s" using s1 by (simp add: s2_def)
  have "no_clash ''.tokens-'' ''.tmp'' (ts_path s2) w1"
    using nc reload_world [of dec s w] rl path by (simp add: no_clash_def)
  from flush_spec [OF fl this] eqs(1) path
  have "\<exists>n. fs_get w' (ts_path s) = Some n \<and> n_data n = enc (ts_toks s') \<and> n_kind n = KFile"
    unfolding replaced_file_def eqs(3,4) by auto
  with tok0 rl path show ?thesis unfolding eqs(2,3) by (auto simp: s2_def update_conv')
qed

lemma Consume_used:
  assumes "map_of (ts_toks (fst (reloadLocked dec s w))) t = Some tok" "tk_used tok"
  shows "fst (fst (Consume et enc dec t now now' s w)) = Err ''tokens: already used''"
  using assms by (auto simp: Consume_def split: prod.split)

section \<open>What happens later\<close>

text \<open>What a process that holds the store, and others that share its file, go on to do: operations of its own, under any
  failures; whole operations of other processes whose reload does not fail; and anything that leaves the file
  alone.  No newly issued token is \<open>t\<close> again.\<close>

definition fresh_raw :: "string \<Rightarrow> string + bytes \<Rightarrow> bool" where
  "fresh_raw t raw \<longleftrightarrow> (\<forall>b. raw = Ok b \<longrightarrow> ''et_'' @ base32_encode b \<noteq> t)"

inductive token_step ::
  "(os_error \<Rightarrow> string) \<Rightarrow> (token_map \<Rightarrow> bytes) \<Rightarrow> (bytes \<Rightarrow> string + token_map) \<Rightarrow> string
   \<Rightarrow> token_store \<times> world \<Rightarrow> token_store \<times> world \<Rightarrow> bool" for et enc dec t where
  own_issue: "Issue et enc dec req raw now s w = ((r, s1), w1) \<Longrightarrow> fresh_raw t raw \<Longrightarrow>
    token_step et enc dec t (s, w) (s1, w1)"
| own_consume: "Consume et enc dec u now now' s w = ((r, s1), w1) \<Longrightarrow> token_step et enc dec t (s, w) (s1, w1)"
| own_gc: "TokensGC et enc retention now s w = ((g, s1), w1) \<Longrightarrow> token_step et enc dec t (s, w) (s1, w1)"
| other_issue: "ts_path x = ts_path s \<Longrightarrow> w_fail w (w_tick w) = None \<Longrightarrow>
    Issue et enc dec req raw now x w = ((r, x1), w1) \<Longrightarrow> fresh_raw t raw \<Longrightarrow> token_step et enc dec t (s, w) (s, w1)"
| other_consume: "ts_path x = ts_path s \<Longrightarrow> w_fail w (w_tick w) = None \<Longrightarrow>
    Consume et enc dec u now now' x w = ((r, x1), w1) \<Longrightarrow> token_step et enc dec t (s, w) (s, w1)"
| elsewhere: "fs_get w1 (ts_path s) = fs_get w (ts_path s) \<Longrightarrow> token_step et enc dec t (s, w) (s, w1)"

definition spent :: "string \<Rightarrow> token_map \<Rightarrow> bool" where
  "spent t m \<longleftrightarrow> distinct (map fst m) \<and> (\<forall>tok. map_of m t = Some tok \<longrightarrow> tk_used tok)"

definition spent_file :: "(token_map \<Rightarrow> bytes) \<Rightarrow> string \<Rightarrow> string \<Rightarrow> world \<Rightarrow> bool" where
  "spent_file enc t p w \<longleftrightarrow> (\<exists>n m. fs_get w p = Some n \<and> n_kind n = KFile \<and> n_data n = enc m \<and> spent t m)"

text \<open>What is used of the codec: the file of a map is not empty, it decodes to a map, and this has the token, and as a used
  one, just when the encoded map had.\<close>

definition keeps_used :: "(token_map \<Rightarrow> bytes) \<Rightarrow> (bytes \<Rightarrow> string + token_map) \<Rightarrow> string \<Rightarrow> bool" where
  "keeps_used enc dec t \<longleftrightarrow> (\<forall>m. distinct (map fst m) \<longrightarrow> enc m \<noteq> []
     \<and> (\<exists>m'. dec (enc m) = Ok m' \<and> distinct (map fst m')
          \<and> map_option tk_used (map_of m' t) = map_option tk_used (map_of m t)))"

lemma spent_update: "spent t m \<Longrightarrow> k \<noteq> t \<or> tk_used v \<Longrightarrow> spent t (AList.update k v m)"
  by (auto simp: spent_def update_conv' distinct_update)

lemma spent_filter:
  assumes "spent t m"
  shows "spent t (filter P m)"
proof -
  have d: "distinct (map fst (filter P m))" using assms by (simp add: spent_def distinct_map_filter)
  have "tk_used tok" if "map_of (filter P m) t = Some tok" for tok
  proof -
    from that d have "(t, tok) \<in> set m" by (auto dest: map_of_SomeD)
    with assms show ?thesis by (simp add: spent_def)
  qed
  with d show ?thesis by (simp add: spent_def)
qed

lemma reload_spent:
  assumes law: "keeps_used enc dec t" and f: "spent_file enc t (ts_path s) w"
  shows "w_fail w (w_tick w) = None \<or> spent t (ts_toks s) \<Longrightarrow> spent t (ts_toks (fst (reloadLocked dec s w)))"
    and "spent_file enc t (ts_path s) (snd (reloadLocked dec s w))"
proof -
  from f obtain n m where n: "fs_get w (ts_path s) = Some n" "n_kind n = KFile" "n_data n = enc m" "spent t m"
    unfolding spent_file_def by blast
  from law n(4) obtain m' where m': "enc m \<noteq> []" "dec (enc m) = Ok m'" "distinct (map fst m')"
    "map_option tk_used (map_of m' t) = map_option tk_used (map_of m t)"
    unfolding keeps_used_def spent_def by blast
  have sm: "spent t m'" using n(4) m'(3,4) by (cases "map_of m t"; cases "map_of m' t") (auto simp: spent_def)
  have "ts_toks (fst (reloadLocked dec s w)) = m' \<or> w_fail w (w_tick w) \<noteq> None \<and> fst (reloadLocked dec s w) = s"
    using n(1-3) m'(1,2) by (auto simp: reloadLocked_def os_read_file_def sys_def split: option.split prod.split sum.split)
  then show "w_fail w (w_tick w) = None \<or> spent t (ts_toks s) \<Longrightarrow> spent t (ts_toks (fst (reloadLocked dec s w)))"
    using sm by auto
  show "spent_file enc t (ts_path s) (snd (reloadLocked dec s w))"
    using f by (simp add: spent_file_def reload_world)
qed

lemma flush_spent:
  assumes "flushLocked et enc s w = (r, w')" "spent t (ts_toks s)" "spent_file enc t (ts_path s) w"
  shows "spent_file enc t (ts_path s) w'"
proof -
  have "no_clash ''.tokens-'' ''.tmp'' (ts_path s) w" using assms(3) by (auto simp: no_clash_def spent_file_def)
  from flush_spec [OF assms(1) this] assms(2,3) show ?thesis
    by (cases r) (auto simp: replaced_file_def spent_file_def)
qed

lemma Issue_cases:
  assumes "Issue et enc dec req raw now s w = ((r, s1), w1)"
  obtains "s1 = s" "w1 = w"
  | b tok x where "raw = Ok b" "ts_path s1 = ts_path s"
      "ts_toks s1 = AList.update (''et_'' @ base32_encode b) tok (ts_toks (fst (reloadLocked dec s w)))"
      "flushLocked et enc s1 (snd (reloadLocked dec s w)) = (x, w1)"
proof (cases "s1 = s \<and> w1 = w")
  case False
  obtain sr wr where rl: "reloadLocked dec s w = (sr, wr)" by (cases "reloadLocked dec s w")
  from assms False obtain targets target b where ok: "issue_targets req = Ok (targets, target)" "raw = Ok b"
    by (auto simp: Issue_def split: sum.splits prod.splits)
  let ?tok = "new_token req targets target b now"
  let ?s2 = "sr\<lparr>ts_toks := AList.update (tk_token ?tok) ?tok (ts_toks sr)\<rparr>"
  obtain x w2 where fl: "flushLocked et enc ?s2 wr = (x, w2)" by (cases "flushLocked et enc ?s2 wr")
  from assms ok rl fl have eq: "s1 = ?s2" "w1 = w2" by (simp_all add: Issue_def Let_def)
  have key: "tk_token ?tok = ''et_'' @ base32_encode b" by (simp add: new_token_def)
  show thesis
  proof (rule that(2))
    show "raw = Ok b" by (rule ok(2))
    show "ts_path s1 = ts_path s" using reload_path [of dec s w] by (simp add: eq rl)
    show "ts_toks s1 = AList.update (''et_'' @ base32_encode b) ?tok (ts_toks (fst (reloadLocked dec s w)))"
      unfolding eq rl fst_conv key [symmetric] by simp
    show "flushLocked et enc s1 (snd (reloadLocked dec s w)) = (x, w1)" using fl by (simp add: eq rl)
  qed
qed (use that(1) in blast)

lemma Consume_cases:
  assumes "Consume et enc dec u now now' s w = ((r, s1), w1)"
  obtains "s1 = fst (reloadLocked dec s w)" "w1 = snd (reloadLocked dec s w)"
  | tok x where "tk_used tok" "ts_path s1 = ts_path s"
      "ts_toks s1 = AList.update u tok (ts_toks (fst (reloadLocked dec s w)))"
      "flushLocked et enc s1 (snd (reloadLocked dec s w)) = (x, w1)"
proof (cases "s1 = fst (reloadLocked dec s w) \<and> w1 = snd (reloadLocked dec s w)")
  case False
  obtain sr wr where rl: "reloadLocked dec s w = (sr, wr)" by (cases "reloadLocked dec s w")
  from assms rl False obtain tok0 where tok0: "map_of (ts_toks sr) u = Some tok0" "\<not> tk_used tok0" "\<not> now > tk_expires tok0"
    by (auto simp: Consume_def Let_def split: option.splits if_splits)
  let ?tok = "tok0\<lparr>tk_used := True, tk_used_at := now'\<rparr>"
  obtain x w2 where fl: "flushLocked et enc (sr\<lparr>ts_toks := AList.update u ?tok (ts_toks sr)\<rparr>) wr = (x, w2)"
    by (cases "flushLocked et enc (sr\<lparr>ts_toks := AList.update u ?tok (ts_toks sr)\<rparr>) wr")
  from assms rl tok0 fl have "s1 = sr\<lparr>ts_toks := AList.update u ?tok (ts_toks sr)\<rparr>" "w1 = w2"
    by (auto simp: Consume_def Let_def)
  with rl fl reload_path [of dec s w] show thesis by (intro that(2) [of ?tok x]) simp_all
qed (use that(1) in blast)

text \<open>A process whose reload gives a spent token leaves it spent, in its memory and in the file.\<close>

lemma ops_spent:
  assumes law: "keeps_used enc dec t" and f: "spent_file enc t (ts_path s) w"
    and mem: "w_fail w (w_tick w) = None \<or> spent t (ts_toks s)"
  shows "Issue et enc dec req raw now s w = ((r, s1), w1) \<Longrightarrow> fresh_raw t raw \<Longrightarrow>
      ts_path s1 = ts_path s \<and> spent_file enc t (ts_path s) w1 \<and> (spent t (ts_toks s) \<longrightarrow> spent t (ts_toks s1))"
    and "Consume et enc dec u now now' s w = ((r, s1), w1) \<Longrightarrow>
      ts_path s1 = ts_path s \<and> spent_file enc t (ts_path s) w1 \<and> (spent t (ts_toks s) \<longrightarrow> spent t (ts_toks s1))"
proof -
  note rl = reload_spent(1) [OF law f mem] reload_spent(2) [OF law f]
  show "ts_path s1 = ts_path s \<and> spent_file enc t (ts_path s) w1 \<and> (spent t (ts_toks s) \<longrightarrow> spent t (ts_toks s1))"
    if run: "Issue et enc dec req raw now s w = ((r, s1), w1)" and raw: "fresh_raw t raw"
    using run
  proof (cases rule: Issue_cases)
    case 1
    with f show ?thesis by simp
  next
    case (2 b tok x)
    have s1: "spent t (ts_toks s1)" using spent_update [OF rl(1)] raw 2(1,3) by (simp add: fresh_raw_def)
    from flush_spent [OF 2(4) s1] rl(2) 2(2) s1 show ?thesis by simp
  qed
  show "ts_path s1 = ts_path s \<and> spent_file enc t (ts_path s) w1 \<and> (spent t (ts_toks s) \<longrightarrow> spent t (ts_toks s1))"
    if run: "Consume et enc dec u now now' s w = ((r, s1), w1)"
    using run
  proof (cases rule: Consume_cases)
    case 1
    with rl show ?thesis by simp
  next
    case (2 tok x)
    have s1: "spent t (ts_toks s1)" using spent_update [OF rl(1)] 2(1,3) by simp
    from flush_spent [OF 2(4) s1] rl(2) 2(2) s1 show ?thesis by simp
  qed
qed

lemma token_step_spent:
  assumes "token_step et enc dec t a b" and law: "keeps_used enc dec t"
  shows "spent t (ts_toks (fst a)) \<and> spent_file enc t (ts_path (fst a)) (snd a) \<Longrightarrow>
    ts_path (fst b) = ts_path (fst a) \<and> spent t (ts_toks (fst b)) \<and> spent_file enc t (ts_path (fst b)) (snd b)"
  using assms(1)
proof cases
  case (own_issue req raw now s w r s1 w1)
  assume "spent t (ts_toks (fst a)) \<and> spent_file enc t (ts_path (fst a)) (snd a)"
  with own_issue ops_spent(1) [OF law, of s w et req raw now r s1 w1] show ?thesis by simp
next
  case (own_consume u now now' s w r s1 w1)
  assume "spent t (ts_toks (fst a)) \<and> spent_file enc t (ts_path (fst a)) (snd a)"
  with own_consume ops_spent(2) [OF law, of s w et u now now' r s1 w1] show ?thesis by simp
next
  case (own_gc retention now s w g s1 w1)
  assume sp: "spent t (ts_toks (fst a)) \<and> spent_file enc t (ts_path (fst a)) (snd a)"
  let ?s1 = "s\<lparr>ts_toks := filter (\<lambda>(k, t). \<not> gc_token (now - retention) t) (ts_toks s)\<rparr>"
  from own_gc(3) have s1: "s1 = ?s1" and fl: "flushLocked et enc ?s1 w = (g, w1)"
    by (auto simp: TokensGC_def Let_def split: prod.splits)
  have "spent t (ts_toks ?s1)" using sp own_gc(1) spent_filter by simp
  with flush_spent [OF fl] sp own_gc(1,2) s1 show ?thesis by simp
next
  case (other_issue x s w req raw now r x1 w1)
  assume "spent t (ts_toks (fst a)) \<and> spent_file enc t (ts_path (fst a)) (snd a)"
  with other_issue ops_spent(1) [OF law, of x w et req raw now r x1 w1] show ?thesis by simp
next
  case (other_consume x s w u now now' r x1 w1)
  assume "spent t (ts_toks (fst a)) \<and> spent_file enc t (ts_path (fst a)) (snd a)"
  with other_consume ops_spent(2) [OF law, of x w et u now now' r x1 w1] show ?thesis by simp
next
  case (elsewhere w1 s w)
  assume "spent t (ts_toks (fst a)) \<and> spent_file enc t (ts_path (fst a)) (snd a)"
  with elsewhere show ?thesis by (simp add: spent_file_def)
qed

lemma token_steps_spent:
  assumes "(token_step et enc dec t)\<^sup>*\<^sup>* a b" and "keeps_used enc dec t"
    and "spent t (ts_toks (fst a)) \<and> spent_file enc t (ts_path (fst a)) (snd a)"
  shows "ts_path (fst b) = ts_path (fst a) \<and> spent t (ts_toks (fst b)) \<and> spent_file enc t (ts_path (fst b)) (snd b)"
  using assms(1,3)
proof (induction rule: rtranclp_induct)
  case (step b c)
  from step.IH [OF step.prems] have b: "ts_path (fst b) = ts_path (fst a)" "spent t (ts_toks (fst b)) \<and> spent_file enc t (ts_path (fst b)) (snd b)"
    by blast+
  from token_step_spent [OF step.hyps(2) assms(2) b(2)] b(1) show ?case by auto
qed simp

lemma Consume_spent:
  assumes "keeps_used enc dec t" "spent_file enc t (ts_path s) w" "w_fail w (w_tick w) = None \<or> spent t (ts_toks s)"
  shows "fst (fst (Consume et enc dec t now now' s w)) \<in> {Err ''tokens: already used'', Err ''tokens: not found''}"
  using reload_spent(1) [OF assms]
  by (cases "map_of (ts_toks (fst (reloadLocked dec s w))) t") (auto simp: Consume_def spent_def split: prod.split)

section \<open>Properties\<close>

text \<open>C15: A token is consumed at most once.  When \<open>Consume\<close> succeeds, the token was known, unused and not expired, and
  it is marked used in memory and on disk before it is returned.  From then on, whatever operations the
  process and other processes that share the file perform (issuing, consuming, and in this process the garbage
  collection), every later attempt to consume it is refused: in this process even when the file cannot be
  read, and in any other process that reads it.  Two conditions are part of \<open>token_step\<close>: an operation of another
  process runs as a whole, between its reload and its flush nothing else touches the file (without that a consumed
  token comes back: \<open>token_reuse_race\<close> below), and its reload does not fail; the garbage collection of
  another process, which does not reload at all, is left out for the same reason.\<close>

theorem token_single_use:
  assumes "Consume et enc dec t now now' s w = ((Ok tok, s'), w')"
    and "no_clash ''.tokens-'' ''.tmp'' (ts_path s) w"
    and law: "keeps_used enc dec t" and maps: "distinct (map fst (ts_toks s))" "\<forall>b m. dec b = Ok m \<longrightarrow> distinct (map fst m)"
    and later: "(token_step et enc dec t)\<^sup>*\<^sup>* (s', w') (s2, w2)"
  shows "(\<exists>tok0. map_of (ts_toks (fst (reloadLocked dec s w))) t = Some tok0 \<and> \<not> tk_used tok0
      \<and> now \<le> tk_expires tok0) \<and> tk_used tok
    \<and> fst (fst (Consume et enc dec t now1 now2 s2 w2)) \<in> {Err ''tokens: already used'', Err ''tokens: not found''}
    \<and> (ts_path x = ts_path s \<and> w_fail w2 (w_tick w2) = None \<longrightarrow>
        fst (fst (Consume et enc dec t now1 now2 x w2)) \<in> {Err ''tokens: already used'', Err ''tokens: not found''})"
proof -
  from Consume_Ok [OF assms(1,2)] obtain tok0 n where c:
    "map_of (ts_toks (fst (reloadLocked dec s w))) t = Some tok0" "\<not> tk_used tok0" "now \<le> tk_expires tok0"
    "tok = tok0\<lparr>tk_used := True, tk_used_at := now'\<rparr>" "map_of (ts_toks s') t = Some tok" "ts_path s' = ts_path s"
    "fs_get w' (ts_path s) = Some n" "n_data n = enc (ts_toks s')" "n_kind n = KFile" by blast
  have used: "tk_used tok" using c(4) by simp
  have "distinct (map fst (ts_toks (fst (reloadLocked dec s w))))"
    using maps by (auto simp: reloadLocked_def split: prod.split sum.split)
  with assms(1) have "distinct (map fst (ts_toks s'))"
    by (cases rule: Consume_cases) (simp_all add: distinct_update)
  then have "spent t (ts_toks s')" using c(5) used by (simp add: spent_def)
  with c(6-9) have "spent t (ts_toks (fst (s', w'))) \<and> spent_file enc t (ts_path (fst (s', w'))) (snd (s', w'))"
    by (auto simp: spent_file_def)
  from token_steps_spent [OF later law this] c(6)
  have now: "ts_path s2 = ts_path s" "spent t (ts_toks s2)" "spent_file enc t (ts_path s) w2" by auto
  then show ?thesis
    using c(1-3) used Consume_spent [OF law, of s2 w2 et now1 now2] Consume_spent [OF law, of x w2 et now1 now2] by auto
qed

text \<open>Codecs for the examples: whether there is a token a and whether it is used; and the used flags of the tokens a and b.\<close>

definition demo_token :: "string \<Rightarrow> bool \<Rightarrow> token" where
  "demo_token t u = \<lparr>tk_token = t, tk_role = ''daemon'', tk_name = ''lab'', tk_target = [], tk_targets = [],
     tk_policy = None, tk_expires = 100, tk_used = u, tk_used_at = 7\<rparr>"

definition flag_enc :: "token_map \<Rightarrow> bytes" where
  "flag_enc m = (case map_of m ''a'' of None \<Rightarrow> [1] | Some tok \<Rightarrow> if tk_used tok then [3] else [2])"

definition flag_dec :: "bytes \<Rightarrow> string + token_map" where
  "flag_dec b = Ok (if b = [1] then [] else [(''a'', demo_token ''a'' (b = [3]))])"

lemma flag_codec: "keeps_used flag_enc flag_dec ''a''" "\<forall>b m. flag_dec b = Ok m \<longrightarrow> distinct (map fst m)"
  by (auto simp: keeps_used_def flag_enc_def flag_dec_def demo_token_def split: option.split if_splits)

definition demo_enc :: "token_map \<Rightarrow> bytes" where
  "demo_enc m = 9 # map (\<lambda>(k, t). if tk_used t then 1 else 0) m"

definition demo_dec :: "bytes \<Rightarrow> string + token_map" where
  "demo_dec b = Ok (map2 (\<lambda>k x. (k, demo_token k (x = 1))) [''a'', ''b''] (drop 1 b))"

definition demo_store :: token_store where
  "demo_store = \<lparr>ts_path = ''t'', ts_toks = [(''a'', demo_token ''a'' False)]\<rparr>"

definition demo_disk :: world where
  "demo_disk = plain_world [(''t'', plain_file [9, 0])] (\<lambda>_. None)"

definition flag_disk :: world where
  "flag_disk = plain_world [(''t'', plain_file [2])] (\<lambda>_. None)"

text \<open>The token is consumed; then the process collects garbage, and the token is still refused.\<close>

theorem token_single_use_witness:
  "\<exists>s' w' g s2 w2. Consume (\<lambda>_. ''io'') flag_enc flag_dec ''a'' 5 7 demo_store flag_disk = ((Ok (demo_token ''a'' True), s'), w')
     \<and> TokensGC (\<lambda>_. ''io'') flag_enc 0 6 s' w' = ((g, s2), w2)
     \<and> fst (fst (Consume (\<lambda>_. ''io'') flag_enc flag_dec ''a'' 6 8 s2 w2)) \<in> {Err ''tokens: already used'', Err ''tokens: not found''}"
proof -
  let ?run = "Consume (\<lambda>_. ''io'') flag_enc flag_dec ''a'' 5 7 demo_store flag_disk"
  have r: "fst (fst ?run) = Ok (demo_token ''a'' True)" by code_simp
  have "fs_get flag_disk ''t'' \<noteq> None" by code_simp
  then have nc: "no_clash ''.tokens-'' ''.tmp'' (ts_path demo_store) flag_disk" by (simp add: no_clash_def demo_store_def)
  have run: "?run = ((Ok (demo_token ''a'' True), snd (fst ?run)), snd ?run)" using r by (simp add: prod_eq_iff)
  obtain g s2 w2 where gc: "TokensGC (\<lambda>_. ''io'') flag_enc 0 6 (snd (fst ?run)) (snd ?run) = ((g, s2), w2)"
    by (metis surj_pair)
  have d: "distinct (map fst (ts_toks demo_store))" by (simp add: demo_store_def)
  from token_single_use [OF run nc flag_codec(1) d flag_codec(2) r_into_rtranclp [of "token_step (\<lambda>_. ''io'') flag_enc flag_dec ''a''", OF own_gc [OF gc]],
      where ?now1.0 = 6 and ?now2.0 = 8] run gc show ?thesis by blast
qed

text \<open>Nothing guards the file against another process.  The command line's \<open>Issue\<close> reloads the file, the
  gateway consumes a token, and then \<open>Issue\<close> flushes what it had loaded: the consumed token is unused
  again on disk, and the gateway accepts it a second time.\<close>

theorem token_reuse_race:
  "let (cli, w1) = reloadLocked demo_dec demo_store demo_disk;
       ((r1, gw), w2) = Consume (\<lambda>_. ''io'') demo_enc demo_dec ''a'' 5 7 demo_store w1;
       cli = cli\<lparr>ts_toks := AList.update ''b'' (demo_token ''b'' False) (ts_toks cli)\<rparr>;
       (r2, w3) = flushLocked (\<lambda>_. ''io'') demo_enc cli w2;
       ((r3, gw), w4) = Consume (\<lambda>_. ''io'') demo_enc demo_dec ''a'' 6 7 gw w3
   in r1 = Ok (demo_token ''a'' True) \<and> r2 = Ok () \<and> r3 = Ok (demo_token ''a'' True)"
  by code_simp

end
