(* ===== verification/Enroll.thy ===== *)
theory Enroll
  imports Tokens Cred_Registry Auth
begin

text \<open>
  \<open>internal/gateway/enrollserver.go\<close>: the enrolment request that turns a token into a credential.  The HTTP
  layer is the method, the outcome of decoding the body, and the answer; the random source and the clock are
  arguments.  The handler runs under the server's lock from the update of the state on; tokens are
  consumed before that.
\<close>

section \<open>Messages and the server\<close>

record enroll_request =
  eq_token :: string
  eq_pubkey :: string

record enroll_target =
  et_name :: string
  et_pubkey :: string

record enroll_response =
  es_device_id :: string
  es_name :: string
  es_api_key :: string
  es_api_key_hash :: string
  es_gateway_url :: string
  es_cert_pin :: string
  es_e2e_mode :: string
  es_target_daemon :: string
  es_daemon_pubkey :: string
  es_targets :: "enroll_target list"
  es_exec_enabled :: bool
  es_env_allowlist :: "string list"
  es_forbidden_ports :: "int list"
  es_allowed_bridges :: "string list"
  es_working_dir :: string

record enroll_server =
  sv_tokens :: token_store
  sv_state :: gateway_state
  sv_state_path :: string
  sv_gateway_url :: string
  sv_cert_pin :: string
  sv_live :: "creds option"

text \<open>A panic of the handler is caught by the HTTP server; the deferred unlock runs.\<close>

datatype enroll_answer = HttpError int string | HttpOk enroll_response | HttpPanic

section \<open>The handler\<close>

text \<open>Replace the first entry of the same name, or append.\<close>

fun upsert :: "('a \<Rightarrow> string) \<Rightarrow> 'a \<Rightarrow> 'a list \<Rightarrow> 'a list" where
  "upsert key e [] = [e]"
| "upsert key e (x # xs) = (if key x = key e then e # xs else x # upsert key e xs)"

definition api_hash :: "string \<Rightarrow> string" where
  "api_hash key = ''sha256:'' @ SHA256Hex (bytes_of key)"

definition default_e2e :: "token \<Rightarrow> string" where
  "default_e2e tok =
     (if tk_role tok = ''daemon'' \<and> (case tk_policy tok of None \<Rightarrow> True | Some p \<Rightarrow> \<not> dp_strict p)
      then ''optional'' else ''required'')"

definition base_response :: "enroll_server \<Rightarrow> token \<Rightarrow> string \<Rightarrow> string \<Rightarrow> enroll_response" where
  "base_response sv tok apiKey devID =
     \<lparr>es_device_id = devID, es_name = tk_name tok, es_api_key = apiKey, es_api_key_hash = api_hash apiKey,
      es_gateway_url = sv_gateway_url sv, es_cert_pin = sv_cert_pin sv, es_e2e_mode = default_e2e tok,
      es_target_daemon = [], es_daemon_pubkey = [], es_targets = [], es_exec_enabled = False,
      es_env_allowlist = [], es_forbidden_ports = [], es_allowed_bridges = [], es_working_dir = []\<rparr>"

definition with_policy :: "daemon_policy option \<Rightarrow> enroll_response \<Rightarrow> enroll_response" where
  "with_policy p resp = (case p of
       None \<Rightarrow> resp
     | Some p \<Rightarrow> resp\<lparr>es_exec_enabled := dp_exec_enabled p,
         es_env_allowlist := (if dp_env_allowlist p = [] then [''PATH'', ''HOME'', ''LANG''] else dp_env_allowlist p),
         es_forbidden_ports := dp_forbidden_ports p, es_allowed_bridges := dp_allowed_bridges p,
         es_working_dir := dp_working_dir p\<rparr>)"

definition daemon_pub :: "state_daemon list \<Rightarrow> string \<Rightarrow> string" where
  "daemon_pub ds name = (case find (\<lambda>d. sd_name d = name) ds of None \<Rightarrow> [] | Some d \<Rightarrow> sd_noise_pub d)"

fun resolve_targets :: "state_daemon list \<Rightarrow> string list \<Rightarrow> string + enroll_target list" where
  "resolve_targets ds [] = Ok []"
| "resolve_targets ds (n # ns) =
     (if daemon_pub ds n = [] then Err n
      else bind_res (resolve_targets ds ns) (\<lambda>ts. Ok (\<lparr>et_name = n, et_pubkey = daemon_pub ds n\<rparr> # ts)))"

text \<open>The update of the state under the lock: an answer that ends the handler, or the response, and the state.\<close>

definition grant ::
  "gateway_state \<Rightarrow> token \<Rightarrow> string \<Rightarrow> enroll_response \<Rightarrow> (enroll_answer + enroll_response) \<times> gateway_state" where
  "grant st tok pubkey resp =
     (if tk_role tok = ''daemon'' then
        (Inr (with_policy (tk_policy tok) resp),
         st\<lparr>gst_daemons := upsert sd_name \<lparr>sd_name = tk_name tok, sd_device_id = es_device_id resp,
              sd_token_hash = es_api_key_hash resp, sd_noise_pub = pubkey\<rparr> (gst_daemons st)\<rparr>)
      else if tk_role tok = ''bridge'' then
        (case resolve_targets (gst_daemons st) (tk_targets tok) of
           Inl name \<Rightarrow> (Inl (HttpError 409 (''target daemon '' @ go_q name @ '' not yet enrolled'')), st)
         | Inr ts \<Rightarrow>
             (let st' = st\<lparr>gst_agents := upsert sa_name \<lparr>sa_name = tk_name tok, sa_device_id = es_device_id resp,
                   sa_key_hash = es_api_key_hash resp, sa_allowed = tk_targets tok\<rparr> (gst_agents st)\<rparr> in
              case ts of
                [] \<Rightarrow> (Inl HttpPanic, st')
              | t # _ \<Rightarrow> (Inr (resp\<lparr>es_targets := ts, es_target_daemon := et_name t,
                    es_daemon_pubkey := et_pubkey t\<rparr>), st')))
      else (Inl (HttpError 500 ''unknown role''), st))"

definition push_live :: "token \<Rightarrow> string \<Rightarrow> creds \<Rightarrow> creds" where
  "push_live tok hash cr =
     (if tk_role tok = ''daemon'' then AddDaemon \<lparr>d_name = tk_name tok, d_token_hash = hash\<rparr> cr
      else if tk_role tok = ''bridge'' then
        AddAgent \<lparr>a_name = tk_name tok, a_key_hash = hash, a_allowed = tk_targets tok\<rparr> cr
      else cr)"

record enroll_env =
  ee_text :: "os_error \<Rightarrow> string"
  ee_enc :: "token_map \<Rightarrow> bytes"
  ee_dec :: "bytes \<Rightarrow> string + token_map"
  ee_enc_state :: "gateway_state \<Rightarrow> bytes"
  ee_now :: int
  ee_now' :: int
  ee_key :: "string + bytes"
  ee_dev :: bytes

definition randomBase64 :: "string + bytes \<Rightarrow> string + string" where
  "randomBase64 raw = (case raw of Inl e \<Rightarrow> Err e | Inr b \<Rightarrow> Ok (base64_encode b))"

definition randHex :: "bytes \<Rightarrow> string" where
  "randHex b = hex_encode b"

text \<open>What follows once the token has been consumed.\<close>

definition enroll_token ::
  "enroll_env \<Rightarrow> enroll_request \<Rightarrow> token \<Rightarrow> enroll_server \<Rightarrow> world \<Rightarrow> (enroll_answer \<times> enroll_server) \<times> world" where
  "enroll_token ee req tok sv w =
     (case randomBase64 (ee_key ee) of
        Inl e \<Rightarrow> ((HttpError 500 (''rand: '' @ e), sv), w)
      | Inr apiKey \<Rightarrow>
          (let resp = base_response sv tok apiKey (''d_'' @ randHex (ee_dev ee)) in
           case grant (sv_state sv) tok (eq_pubkey req) resp of
             (Inl a, st) \<Rightarrow> ((a, sv\<lparr>sv_state := st\<rparr>), w)
           | (Inr resp', st) \<Rightarrow>
               (let sv1 = sv\<lparr>sv_state := st\<rparr>;
                    (r, w') = (if sv_state_path sv = [] then (Ok (), w)
                               else SaveGateway (ee_text ee) (ee_enc_state ee) (sv_state_path sv) st w)
                in case r of
                  Inl e \<Rightarrow> ((HttpError 500 (''save state: '' @ e), sv1), w')
                | Inr _ \<Rightarrow> ((HttpOk resp',
                     sv1\<lparr>sv_live := map_option (push_live tok (es_api_key_hash resp)) (sv_live sv)\<rparr>), w'))))"

definition HandleEnroll ::
  "enroll_env \<Rightarrow> string \<Rightarrow> string + enroll_request \<Rightarrow> enroll_server \<Rightarrow> world
   \<Rightarrow> (enroll_answer \<times> enroll_server) \<times> world" where
  "HandleEnroll ee meth body sv w =
     (if meth \<noteq> ''POST'' then ((HttpError 405 ''POST only'', sv), w)
      else case body of
        Inl e \<Rightarrow> ((HttpError 400 (''bad JSON: '' @ e), sv), w)
      | Inr req \<Rightarrow>
          if eq_token req = [] \<or> eq_pubkey req = [] then
            ((HttpError 400 ''token and device_pubkey_b64 required'', sv), w)
          else
            (let ((r, toks), w1) = Consume (ee_text ee) (ee_enc ee) (ee_dec ee) (eq_token req)
                   (ee_now ee) (ee_now' ee) (sv_tokens sv) w;
                 sv1 = sv\<lparr>sv_tokens := toks\<rparr>
             in case r of
               Inl _ \<Rightarrow> ((HttpError 401 ''invalid token'', sv1), w1)
             | Inr tok \<Rightarrow> enroll_token ee req tok sv1 w1))"

section \<open>Properties\<close>

lemma upsert_find: "find (\<lambda>e. key e = n) (upsert key x xs) = (if n = key x then Some x else find (\<lambda>e. key e = n) xs)"
  by (induction xs) auto

lemma resolve_targets_Ok:
  "resolve_targets ds ns = Ok ts \<Longrightarrow> map et_name ts = ns
     \<and> (\<forall>t \<in> set ts. et_pubkey t \<noteq> [] \<and> et_pubkey t = daemon_pub ds (et_name t))"
  by (induction ns arbitrary: ts) (auto simp: bind_res_Inr_iff split: if_splits)

lemma api_hash_matches: "SecretMatches key (api_hash key)"
  by (simp add: SecretMatches_iff api_hash_def sha256_prefix_def)

text \<open>The credential that \<open>push_live\<close> adds, and nothing else.\<close>

definition live_adds :: "token \<Rightarrow> string \<Rightarrow> creds \<Rightarrow> creds \<Rightarrow> bool" where
  "live_adds tok hash cr cr' \<longleftrightarrow>
     (if tk_role tok = ''daemon'' then
        LookupAgent cr' = LookupAgent cr
        \<and> LookupDaemon cr' = (LookupDaemon cr)(tk_name tok \<mapsto> \<lparr>d_name = tk_name tok, d_token_hash = hash\<rparr>)
      else LookupDaemon cr' = LookupDaemon cr
        \<and> LookupAgent cr' = (LookupAgent cr)(tk_name tok \<mapsto>
            \<lparr>a_name = tk_name tok, a_key_hash = hash, a_allowed = tk_targets tok\<rparr>))"

lemma push_live_adds: "tk_role tok \<in> {''daemon'', ''bridge''} \<Longrightarrow> live_adds tok hash cr (push_live tok hash cr)"
  by (auto simp: live_adds_def push_live_def agents.lookup_add daemons.lookup_add fun_eq_iff)

text \<open>What a grant leaves behind: the response is for the token's principal with the key that was made for it.\<close>

definition granted :: "token \<Rightarrow> string \<Rightarrow> gateway_state \<Rightarrow> gateway_state \<Rightarrow> enroll_response \<Rightarrow> bool" where
  "granted tok pubkey st st' resp \<longleftrightarrow>
     es_name resp = tk_name tok \<and> SecretMatches (es_api_key resp) (es_api_key_hash resp)
     \<and> (if tk_role tok = ''daemon'' then
          gst_agents st' = gst_agents st
          \<and> (\<forall>n. find (\<lambda>d. sd_name d = n) (gst_daemons st') = (if n = tk_name tok
               then Some \<lparr>sd_name = n, sd_device_id = es_device_id resp, sd_token_hash = es_api_key_hash resp, sd_noise_pub = pubkey\<rparr>
               else find (\<lambda>d. sd_name d = n) (gst_daemons st)))
        else gst_daemons st' = gst_daemons st
          \<and> es_targets resp \<noteq> [] \<and> map et_name (es_targets resp) = tk_targets tok
          \<and> (\<forall>t \<in> set (es_targets resp). et_pubkey t \<noteq> [] \<and> et_pubkey t = daemon_pub (gst_daemons st) (et_name t))
          \<and> (\<forall>n. find (\<lambda>a. sa_name a = n) (gst_agents st') = (if n = tk_name tok
               then Some \<lparr>sa_name = n, sa_device_id = es_device_id resp, sa_key_hash = es_api_key_hash resp, sa_allowed = tk_targets tok\<rparr>
               else find (\<lambda>a. sa_name a = n) (gst_agents st))))"

lemma base_response_simps [simp]:
  "es_name (base_response sv tok k d) = tk_name tok" "es_api_key (base_response sv tok k d) = k"
  "es_api_key_hash (base_response sv tok k d) = api_hash k" "es_device_id (base_response sv tok k d) = d"
  by (simp_all add: base_response_def)

lemma with_policy_simps [simp]:
  "es_name (with_policy p r) = es_name r" "es_api_key (with_policy p r) = es_api_key r"
  "es_api_key_hash (with_policy p r) = es_api_key_hash r" "es_device_id (with_policy p r) = es_device_id r"
  by (simp_all add: with_policy_def split: option.split)

lemma grant_Ok:
  assumes "grant st tok pubkey (base_response sv tok k d) = (Inr resp, st')"
  shows "tk_role tok \<in> {''daemon'', ''bridge''} \<and> granted tok pubkey st st' resp \<and> es_api_key_hash resp = api_hash k"
proof -
  let ?r = "base_response sv tok k d"
  consider "tk_role tok = ''daemon''" | "tk_role tok = ''bridge''" "tk_role tok \<noteq> ''daemon''"
    using assms by (auto simp: grant_def split: if_splits)
  then show ?thesis
  proof cases
    case 1
    with assms have "resp = with_policy (tk_policy tok) ?r"
      "st' = st\<lparr>gst_daemons := upsert sd_name \<lparr>sd_name = tk_name tok, sd_device_id = d,
              sd_token_hash = api_hash k, sd_noise_pub = pubkey\<rparr> (gst_daemons st)\<rparr>"
      by (simp_all add: grant_def)
    with 1 show ?thesis by (simp add: granted_def upsert_find api_hash_matches)
  next
    case 2
    with assms obtain t ts where ts: "resolve_targets (gst_daemons st) (tk_targets tok) = Ok (t # ts)"
      "resp = ?r\<lparr>es_targets := t # ts, es_target_daemon := et_name t, es_daemon_pubkey := et_pubkey t\<rparr>"
      "st' = st\<lparr>gst_agents := upsert sa_name \<lparr>sa_name = tk_name tok, sa_device_id = d,
                   sa_key_hash = api_hash k, sa_allowed = tk_targets tok\<rparr> (gst_agents st)\<rparr>"
      by (auto simp: grant_def Let_def split: sum.splits list.splits)
    note res = resolve_targets_Ok [OF ts(1)]
    have "es_targets resp = t # ts" using ts(2) by simp
    moreover have "\<forall>x \<in> set (t # ts). et_pubkey x \<noteq> [] \<and> et_pubkey x = daemon_pub (gst_daemons st) (et_name x)"
      using res by blast
    ultimately show ?thesis
      using res 2 ts(2,3) unfolding granted_def by (simp add: upsert_find api_hash_matches del: set_simps)
  qed
qed

lemma grant_target:
  assumes "grant st tok pubkey (base_response sv tok k d) = (Inr resp, st')"
  shows "es_target_daemon resp = (if tk_role tok = ''daemon'' then [] else et_name (hd (es_targets resp)))"
proof (cases "tk_role tok = ''daemon''")
  case True
  with assms show ?thesis by (auto simp: grant_def with_policy_def base_response_def split: option.splits)
next
  case False
  with assms show ?thesis by (auto simp: grant_def Let_def split: if_splits sum.splits list.splits)
qed

lemma HandleEnroll_granted:
  assumes "HandleEnroll ee meth body sv w = ((HttpOk resp, sv'), w')"
  shows "\<exists>req tok toks w1. body = Ok req
    \<and> Consume (ee_text ee) (ee_enc ee) (ee_dec ee) (eq_token req) (ee_now ee) (ee_now' ee) (sv_tokens sv) w
        = ((Ok tok, toks), w1) \<and> sv_tokens sv' = toks
    \<and> tk_role tok \<in> {''daemon'', ''bridge''}
    \<and> granted tok (eq_pubkey req) (sv_state sv) (sv_state sv') resp
    \<and> (case sv_live sv of None \<Rightarrow> sv_live sv' = None
       | Some cr \<Rightarrow> \<exists>cr'. sv_live sv' = Some cr' \<and> live_adds tok (es_api_key_hash resp) cr cr')
    \<and> es_target_daemon resp = (if tk_role tok = ''daemon'' then [] else et_name (hd (es_targets resp)))"
proof -
  obtain req where req: "body = Ok req" "meth = ''POST''" "\<not> (eq_token req = [] \<or> eq_pubkey req = [])"
    using assms by (auto simp: HandleEnroll_def split: if_splits sum.splits)
  obtain r toks w1 where c: "Consume (ee_text ee) (ee_enc ee) (ee_dec ee) (eq_token req) (ee_now ee) (ee_now' ee)
      (sv_tokens sv) w = ((r, toks), w1)" by (metis surj_pair)
  from assms req c obtain tok where tok: "r = Ok tok"
    "enroll_token ee req tok (sv\<lparr>sv_tokens := toks\<rparr>) w1 = ((HttpOk resp, sv'), w')"
    by (auto simp: HandleEnroll_def Let_def split: sum.splits)
  let ?sv = "sv\<lparr>sv_tokens := toks\<rparr>"
  from tok(2) obtain k where k: "randomBase64 (ee_key ee) = Ok k" by (auto simp: enroll_token_def split: sum.splits)
  let ?r = "base_response ?sv tok k (''d_'' @ randHex (ee_dev ee))"
  obtain g st where g: "grant (sv_state ?sv) tok (eq_pubkey req) ?r = (g, st)" by (metis surj_pair)
  from tok(2) k g obtain resp' where g': "g = Inr resp'"
    by (auto simp: enroll_token_def Let_def grant_def split: sum.splits if_splits list.splits)
  obtain s w2 where s: "(if sv_state_path ?sv = [] then (Ok (), w1)
      else SaveGateway (ee_text ee) (ee_enc_state ee) (sv_state_path ?sv) st w1) = (s, w2)" by (metis surj_pair)
  from tok(2) k g g' s have fin: "resp' = resp" "sv_state sv' = st" "sv_tokens sv' = toks"
    "sv_live sv' = map_option (push_live tok (es_api_key_hash ?r)) (sv_live sv)"
    unfolding enroll_token_def Let_def by (auto split: sum.splits)
  from grant_Ok [OF g [unfolded g']] fin(1,2) have gr: "tk_role tok \<in> {''daemon'', ''bridge''}"
    "granted tok (eq_pubkey req) (sv_state sv) (sv_state sv') resp" "es_api_key_hash resp = es_api_key_hash ?r" by auto
  have "case sv_live sv of None \<Rightarrow> sv_live sv' = None
       | Some cr \<Rightarrow> \<exists>cr'. sv_live sv' = Some cr' \<and> live_adds tok (es_api_key_hash resp) cr cr'"
    unfolding fin(4) gr(3) [symmetric] using push_live_adds [OF gr(1)] by (simp split: option.split)
  moreover have "es_target_daemon resp = (if tk_role tok = ''daemon'' then [] else et_name (hd (es_targets resp)))"
    using grant_target [OF g [unfolded g' fin(1)]] by simp
  ultimately show ?thesis using req(1) c tok(1) fin(3) gr(1,2) by blast
qed

text \<open>C16: An enrolment that succeeds consumed a valid token and grants exactly what the token says: the
  response names the token's principal, its API key authenticates against the hash that goes into the
  state and into the live credentials, a bridge learns the stored key of every one of its targets, and no
  other principal's entry changes, in the state or in the live credentials.\<close>

theorem enroll_grants:
  assumes "HandleEnroll ee meth body sv w = ((HttpOk resp, sv'), w')"
  shows "\<exists>req tok toks w1. body = Ok req
    \<and> Consume (ee_text ee) (ee_enc ee) (ee_dec ee) (eq_token req) (ee_now ee) (ee_now' ee) (sv_tokens sv) w
        = ((Ok tok, toks), w1) \<and> sv_tokens sv' = toks
    \<and> tk_role tok \<in> {''daemon'', ''bridge''}
    \<and> granted tok (eq_pubkey req) (sv_state sv) (sv_state sv') resp
    \<and> (case sv_live sv of None \<Rightarrow> sv_live sv' = None
       | Some cr \<Rightarrow> \<exists>cr'. sv_live sv' = Some cr' \<and> live_adds tok (es_api_key_hash resp) cr cr')"
  using HandleEnroll_granted [OF assms] by blast

text \<open>The order of the handler's steps shows when it fails late.  A bridge token with a target that is not
  enrolled yet is answered with 409 and changes no entry, but the token is used up by then: the
  documented retry after enrolling the target fails.  An error while the state is saved leaves the new entry in
  the state in memory, although the request fails and the live credentials do not know it.\<close>

theorem enroll_late_failures:
  assumes "HandleEnroll ee meth body sv w = ((HttpError code msg, sv'), w')"
    and "no_clash ''.tokens-'' ''.tmp'' (ts_path (sv_tokens sv)) w"
    and "code = 409 \<or> sv_state sv' \<noteq> sv_state sv"
  shows "sv_live sv' = sv_live sv \<and> (code = 409 \<longrightarrow> sv_state sv' = sv_state sv)
    \<and> (\<exists>req tok. body = Ok req \<and> map_of (ts_toks (sv_tokens sv')) (eq_token req) = Some tok \<and> tk_used tok
         \<and> (code \<noteq> 409 \<longrightarrow> (\<exists>resp. granted tok (eq_pubkey req) (sv_state sv) (sv_state sv') resp)))"
proof -
  obtain req where req: "body = Ok req" "meth = ''POST''" "\<not> (eq_token req = [] \<or> eq_pubkey req = [])"
    using assms(1,3) by (auto simp: HandleEnroll_def split: if_splits sum.splits)
  obtain r toks w1 where c: "Consume (ee_text ee) (ee_enc ee) (ee_dec ee) (eq_token req) (ee_now ee) (ee_now' ee)
      (sv_tokens sv) w = ((r, toks), w1)" by (metis surj_pair)
  from assms(1,3) req c obtain tok where tok: "r = Ok tok"
    "enroll_token ee req tok (sv\<lparr>sv_tokens := toks\<rparr>) w1 = ((HttpError code msg, sv'), w')"
    by (auto simp: HandleEnroll_def Let_def split: sum.splits)
  from Consume_Ok [OF c [unfolded tok(1)] assms(2)]
  have used: "map_of (ts_toks toks) (eq_token req) = Some tok" "tk_used tok" by auto
  let ?sv = "sv\<lparr>sv_tokens := toks\<rparr>"
  from tok(2) assms(3) obtain k where k: "randomBase64 (ee_key ee) = Ok k"
    by (auto simp: enroll_token_def split: sum.splits)
  let ?r = "base_response ?sv tok k (''d_'' @ randHex (ee_dev ee))"
  obtain g st where g: "grant (sv_state sv) tok (eq_pubkey req) ?r = (g, st)" by (metis surj_pair)
  show ?thesis
  proof (cases g)
    case (Inl a)
    with tok(2) k g have e: "a = HttpError code msg" "sv' = ?sv\<lparr>sv_state := st\<rparr>"
      by (simp_all add: enroll_token_def Let_def)
    from g Inl e(1) have "st = sv_state sv"
      by (auto simp: grant_def Let_def split: if_splits sum.splits list.splits)
    with e(2) assms(3) used req(1) show ?thesis by auto
  next
    case (Inr resp)
    obtain s w2 where s: "(if sv_state_path ?sv = [] then (Ok (), w1)
        else SaveGateway (ee_text ee) (ee_enc_state ee) (sv_state_path ?sv) st w1) = (s, w2)" by (metis surj_pair)
    from tok(2) k g Inr s have e: "code = 500" "sv' = ?sv\<lparr>sv_state := st\<rparr>"
      unfolding enroll_token_def Let_def by (auto split: sum.splits)
    from grant_Ok [OF g [unfolded Inr]] e used req(1) show ?thesis by auto
  qed
qed

section \<open>Examples\<close>

definition demo_state :: gateway_state where
  "demo_state = \<lparr>gst_version = 1, gst_listen = ''l'', gst_audit_path = ''a'', gst_audit_max_bytes = 0,
     gst_audit_max_backups = 0, gst_tokens_path = ''t'', gst_agents = [], gst_daemons = []\<rparr>"

definition demo_server :: enroll_server where
  "demo_server = \<lparr>sv_tokens = demo_store, sv_state = demo_state, sv_state_path = [], sv_gateway_url = ''wss://g/'',
     sv_cert_pin = ''p'', sv_live = Some \<lparr>cr_agents = Map.empty, cr_daemons = Map.empty\<rparr>\<rparr>"

definition demo_env :: "(token \<Rightarrow> token) \<Rightarrow> enroll_env" where
  "demo_env f = \<lparr>ee_text = (\<lambda>_. ''io''), ee_enc = demo_enc,
     ee_dec = (\<lambda>b. map_sum id (map (map_prod id f)) (demo_dec b)), ee_enc_state = (\<lambda>_. []),
     ee_now = 5, ee_now' = 7, ee_key = Ok [1, 2, 3], ee_dev = [4]\<rparr>"

text \<open>A token of a bridge with the given targets.\<close>

definition as_bridge :: "string list \<Rightarrow> token \<Rightarrow> token" where
  "as_bridge ts t = t\<lparr>tk_role := ''bridge'', tk_targets := ts\<rparr>"

definition demo_req :: enroll_request where
  "demo_req = \<lparr>eq_token = ''a'', eq_pubkey = ''K''\<rparr>"

lemma demo_consume:
  "fst (fst (Consume (ee_text (demo_env id)) (ee_enc (demo_env id)) (ee_dec (demo_env id)) (eq_token demo_req)
     (ee_now (demo_env id)) (ee_now' (demo_env id)) (sv_tokens demo_server) demo_disk)) = Ok (demo_token ''a'' True)"
  by code_simp

lemma demo_consume_bridge:
  "fst (fst (Consume (ee_text (demo_env (as_bridge [''db'']))) (ee_enc (demo_env (as_bridge [''db''])))
     (ee_dec (demo_env (as_bridge [''db'']))) (eq_token demo_req)
     (ee_now (demo_env (as_bridge [''db'']))) (ee_now' (demo_env (as_bridge [''db'']))) (sv_tokens demo_server) demo_disk))
   = Ok (as_bridge [''db''] (demo_token ''a'' True))"
  by code_simp

theorem enroll_grants_witness:
  "\<exists>resp sv' cr'. fst (HandleEnroll (demo_env id) ''POST'' (Ok demo_req) demo_server demo_disk) = (HttpOk resp, sv')
     \<and> es_name resp = ''lab'' \<and> sv_live sv' = Some cr'
     \<and> LookupDaemon cr' ''lab'' = Some \<lparr>d_name = ''lab'', d_token_hash = es_api_key_hash resp\<rparr>"
proof -
  let ?run = "HandleEnroll (demo_env id) ''POST'' (Ok demo_req) demo_server demo_disk"
  have "eq_token demo_req \<noteq> []" "eq_pubkey demo_req \<noteq> []" by (simp_all add: demo_req_def)
  with demo_consume have "\<exists>resp. fst (fst ?run) = HttpOk resp"
    by (auto simp: HandleEnroll_def Let_def enroll_token_def randomBase64_def demo_env_def grant_def demo_token_def
        demo_server_def split: prod.split)
  then obtain resp sv' w' where run: "?run = ((HttpOk resp, sv'), w')" by (metis prod.collapse)
  from enroll_grants [OF run] obtain tok toks w1 where t:
    "Consume (ee_text (demo_env id)) (ee_enc (demo_env id)) (ee_dec (demo_env id)) (eq_token demo_req)
       (ee_now (demo_env id)) (ee_now' (demo_env id)) (sv_tokens demo_server) demo_disk = ((Ok tok, toks), w1)"
    "granted tok (eq_pubkey demo_req) (sv_state demo_server) (sv_state sv') resp"
    "case sv_live demo_server of None \<Rightarrow> sv_live sv' = None
       | Some cr \<Rightarrow> \<exists>cr'. sv_live sv' = Some cr' \<and> live_adds tok (es_api_key_hash resp) cr cr'" by auto
  have tok: "tok = demo_token ''a'' True" using demo_consume t(1) by simp
  from t(2,3) show ?thesis
    unfolding run tok by (auto simp: granted_def demo_server_def live_adds_def demo_token_def split: if_splits)
qed

theorem enroll_late_failures_witness:
  "\<exists>m sv' tok. fst (HandleEnroll (demo_env (as_bridge [''db''])) ''POST'' (Ok demo_req) demo_server demo_disk)
       = (HttpError 409 m, sv')
     \<and> map_of (ts_toks (sv_tokens sv')) ''a'' = Some tok \<and> tk_used tok"
proof -
  let ?ee = "demo_env (as_bridge [''db''])"
  let ?run = "HandleEnroll ?ee ''POST'' (Ok demo_req) demo_server demo_disk"
  have "eq_token demo_req \<noteq> []" "eq_pubkey demo_req \<noteq> []" by (simp_all add: demo_req_def)
  with demo_consume_bridge have "\<exists>m. fst (fst ?run) = HttpError 409 m"
    by (auto simp: HandleEnroll_def Let_def enroll_token_def randomBase64_def demo_env_def grant_def demo_token_def
        demo_server_def as_bridge_def daemon_pub_def demo_state_def split: prod.split)
  then obtain m sv' w' where run: "?run = ((HttpError 409 m, sv'), w')" by (metis prod.collapse)
  have "fs_get demo_disk ''t'' \<noteq> None" by code_simp
  then have nc: "no_clash ''.tokens-'' ''.tmp'' (ts_path (sv_tokens demo_server)) demo_disk"
    by (simp add: no_clash_def demo_server_def demo_store_def)
  from enroll_late_failures [OF run nc] obtain tok where
    "map_of (ts_toks (sv_tokens sv')) (eq_token demo_req) = Some tok" "tk_used tok" by auto
  with run show ?thesis by (simp add: demo_req_def)
qed

text \<open>A bridge token without targets, as an older version could have written it with \<open>target\<close> only, makes
  the handler panic after it has changed the state.\<close>

lemma enroll_empty_targets_panics:
  "tk_role tok = ''bridge'' \<Longrightarrow> tk_targets tok = [] \<Longrightarrow> ee_key ee = Ok b \<Longrightarrow>
     fst (fst (enroll_token ee req tok sv w)) = HttpPanic
     \<and> find (\<lambda>a. sa_name a = tk_name tok) (gst_agents (sv_state (snd (fst (enroll_token ee req tok sv w))))) \<noteq> None"
  by (simp add: enroll_token_def randomBase64_def grant_def Let_def upsert_find)

end
