(* ===== verification/Audit_Log.thy ===== *)
theory Audit_Log
  imports Os
begin

text \<open>
  \<open>internal/audit/writer.go\<close>: the audit log, a file of lines that is rotated by size.  The JSON text of an
  event is given by the argument \<open>marshal\<close>, the text of the current time by \<open>stamp\<close>.  A handle is the path
  it was opened with and whether it is open; writes go to the path, which nobody else renames.
\<close>

section \<open>The writer\<close>

record audit_writer =
  aw_path :: string
  aw_open :: bool
  aw_size :: int
  aw_max :: int
  aw_backups :: int

definition OpenWith :: "string \<Rightarrow> int \<Rightarrow> int \<Rightarrow> (os_error, audit_writer) io" where
  "OpenWith path maxBytes maxBackups =
     io_bind (os_open_append path 420) (\<lambda>_.
     io_case (os_stat path) (\<lambda>e. io_ignore os_close (io_fail e)) (\<lambda>info.
       io_ret \<lparr>aw_path = path, aw_open = True, aw_size = int (length (n_data info)), aw_max = maxBytes,
         aw_backups = maxBackups\<rparr>))"

definition Open :: "string \<Rightarrow> (os_error, audit_writer) io" where
  "Open path = OpenWith path 0 0"

text \<open>\<open>f.Close()\<close>: a closed handle gives an error; the handle is closed whatever \<open>close\<close> says.\<close>

definition aw_close :: "audit_writer \<Rightarrow> world \<Rightarrow> ((os_error + unit) \<times> audit_writer) \<times> world" where
  "aw_close a w =
     (if \<not> aw_open a then ((Err ECLOSED, a), w)
      else (let (r, w') = os_close w in ((r, a\<lparr>aw_open := False\<rparr>), w')))"

definition bak :: "string \<Rightarrow> nat \<Rightarrow> string" where
  "bak path i = path @ ''.'' @ itoa (int i)"

fun shift_backups :: "string \<Rightarrow> nat \<Rightarrow> (os_error, unit) io" where
  "shift_backups path 0 = io_ret ()"
| "shift_backups path (Suc i) =
     io_ignore (os_rename (bak path (Suc i)) (bak path (Suc (Suc i)))) (shift_backups path i)"

definition rotateLocked :: "audit_writer \<Rightarrow> world \<Rightarrow> ((os_error + unit) \<times> audit_writer) \<times> world" where
  "rotateLocked a w =
     (case aw_close a w of
        ((Inl e, a'), w') \<Rightarrow> ((Err e, a'), w')
      | ((Inr _, a'), w') \<Rightarrow>
          (let p = aw_path a; n = nat (aw_backups a) in
           case io_ignore (os_remove (bak p n)) (io_ignore (shift_backups p (n - 1))
                  (io_ignore (os_rename p (bak p 1)) (os_open_append p 420))) w' of
             (Inl e, w'') \<Rightarrow> ((Err e, a'), w'')
           | (Inr _, w'') \<Rightarrow> ((Ok (), a'\<lparr>aw_open := True, aw_size := 0\<rparr>), w'')))"

definition aw_write :: "bytes \<Rightarrow> audit_writer \<Rightarrow> world \<Rightarrow> ((os_error + unit) \<times> audit_writer) \<times> world" where
  "aw_write b a w =
     (if \<not> aw_open a then ((Err ECLOSED, a), w)
      else case os_write (aw_path a) b w of
        (Inl (e, k), w') \<Rightarrow> ((Err e, a\<lparr>aw_size := aw_size a + int k\<rparr>), w')
      | (Inr k, w') \<Rightarrow> ((Ok (), a\<lparr>aw_size := aw_size a + int k\<rparr>), w'))"

datatype append_error = MarshalError string | OsError os_error

definition stamped :: "(string \<times> 'v) list \<Rightarrow> 'v \<Rightarrow> (string \<times> 'v) list" where
  "stamped event stamp = (if map_of event ''ts'' \<noteq> None then event else AList.update ''ts'' stamp event)"

definition must_rotate :: "audit_writer \<Rightarrow> bytes \<Rightarrow> bool" where
  "must_rotate a b \<longleftrightarrow> aw_max a > 0 \<and> aw_backups a > 0 \<and> aw_size a + int (length b) > aw_max a"

definition append_line :: "bytes \<Rightarrow> audit_writer \<Rightarrow> world \<Rightarrow> ((os_error + unit) \<times> audit_writer) \<times> world" where
  "append_line b a w =
     (if must_rotate a b then
        (case rotateLocked a w of
           ((Inl e, a'), w') \<Rightarrow> ((Err e, a'), w')
         | ((Inr _, a'), w') \<Rightarrow> aw_write b a' w')
      else aw_write b a w)"

definition Append ::
  "((string \<times> 'v) list \<Rightarrow> string + bytes) \<Rightarrow> (string \<times> 'v) list \<Rightarrow> 'v \<Rightarrow> audit_writer \<Rightarrow> world
   \<Rightarrow> ((append_error + unit) \<times> audit_writer) \<times> world" where
  "Append marshal event stamp a w =
     (case marshal (stamped event stamp) of
        Inl e \<Rightarrow> ((Err (MarshalError e), a), w)
      | Inr b \<Rightarrow>
          (let ((r, a'), w') = append_line (b @ [10]) a w
           in ((map_sum OsError id r, a'), w')))"

section \<open>Names of the backups\<close>

lemma nat_digits_value:
  "nat_digits n \<noteq> [] \<and> foldl (\<lambda>v c. 10 * v + (of_char c - 48)) 0 (nat_digits n) = n"
proof (induction n rule: nat_digits.induct)
  case (1 n)
  then show ?case by (subst (1 2) nat_digits.simps) (auto simp: of_char_of)
qed

lemma bak_inj [simp]: "bak p i = bak p j \<longleftrightarrow> i = j"
proof -
  have "nat_digits i = nat_digits j \<Longrightarrow> i = j" by (metis nat_digits_value)
  then show ?thesis by (auto simp: bak_def itoa_def)
qed

lemma bak_ne [simp]: "bak p i \<noteq> p"
  by (simp add: bak_def)

section \<open>Rotation when no call fails\<close>

definition not_dir :: "node option \<Rightarrow> bool" where
  "not_dir n \<longleftrightarrow> (\<forall>x. n = Some x \<longrightarrow> n_kind x \<noteq> KDir)"

definition node_bytes :: "node option \<Rightarrow> bytes" where
  "node_bytes n = (case n of None \<Rightarrow> [] | Some x \<Rightarrow> n_data x)"

lemma node_bytes_simps [simp]: "node_bytes None = []" "node_bytes (Some x) = n_data x"
  by (simp_all add: node_bytes_def)

lemma quiet_rename:
  assumes "quiet w" "fs_get w b = None" "a \<noteq> b"
  shows "quiet (snd (os_rename a b w)) \<and> fs_get (snd (os_rename a b w)) = (fs_get w)(a := None, b := fs_get w a)"
  using assms by (cases "fs_get w a") (auto simp: os_rename_def fun_eq_iff)

lemma quiet_remove: "quiet w \<Longrightarrow> quiet (snd (os_remove p w)) \<and> fs_get (snd (os_remove p w)) = (fs_get w)(p := None)"
  by (cases "fs_get w p") (auto simp: os_remove_def fun_eq_iff)

lemma shift_quiet:
  "quiet w \<Longrightarrow> fs_get w (bak p (Suc n)) = None \<Longrightarrow>
     quiet (snd (shift_backups p n w)) \<and> fs_get (snd (shift_backups p n w)) (bak p 1) = None
     \<and> (\<forall>i. 1 \<le> i \<and> i \<le> n \<longrightarrow> fs_get (snd (shift_backups p n w)) (bak p (Suc i)) = fs_get w (bak p i))
     \<and> (\<forall>q. (\<forall>i. 1 \<le> i \<and> i \<le> Suc n \<longrightarrow> q \<noteq> bak p i) \<longrightarrow> fs_get (snd (shift_backups p n w)) q = fs_get w q)"
proof (induction n arbitrary: w)
  case (Suc n)
  let ?w1 = "snd (os_rename (bak p (Suc n)) (bak p (Suc (Suc n))) w)"
  let ?w2 = "snd (shift_backups p n ?w1)"
  have run: "snd (shift_backups p (Suc n) w) = ?w2" by (simp add: io_ignore_def)
  from quiet_rename [OF Suc.prems] have w1: "quiet ?w1"
    "fs_get ?w1 = (fs_get w)(bak p (Suc n) := None, bak p (Suc (Suc n)) := fs_get w (bak p (Suc n)))" by simp_all
  from Suc.IH [OF w1(1)] w1(2) have ih: "quiet ?w2" "fs_get ?w2 (bak p 1) = None"
    "\<And>i. 1 \<le> i \<Longrightarrow> i \<le> n \<Longrightarrow> fs_get ?w2 (bak p (Suc i)) = fs_get ?w1 (bak p i)"
    "\<And>q. (\<And>i. 1 \<le> i \<Longrightarrow> i \<le> Suc n \<Longrightarrow> q \<noteq> bak p i) \<Longrightarrow> fs_get ?w2 q = fs_get ?w1 q" by simp_all
  have "fs_get ?w2 (bak p (Suc i)) = fs_get w (bak p i)" if "1 \<le> i" "i \<le> Suc n" for i
  proof (cases "i = Suc n")
    case True
    have "fs_get ?w2 (bak p (Suc (Suc n))) = fs_get ?w1 (bak p (Suc (Suc n)))" by (rule ih(4)) auto
    with True w1(2) show ?thesis by simp
  next
    case False
    with that ih(3) [of i] w1(2) show ?thesis by simp
  qed
  moreover have "fs_get ?w2 q = fs_get w q" if "\<forall>i. 1 \<le> i \<and> i \<le> Suc (Suc n) \<longrightarrow> q \<noteq> bak p i" for q
  proof -
    have "fs_get ?w2 q = fs_get ?w1 q" using that by (intro ih(4)) auto
    then show ?thesis using w1(2) that by simp
  qed
  ultimately show ?case unfolding run using ih(1,2) by blast
qed simp

text \<open>The contents of all the files, the oldest first.\<close>

definition log_of :: "nat \<Rightarrow> string \<Rightarrow> (string \<Rightarrow> node option) \<Rightarrow> bytes" where
  "log_of n p fs = concat (map (\<lambda>i. node_bytes (fs (bak p i))) (rev [1..<Suc n])) @ node_bytes (fs p)"

definition writer_ok :: "audit_writer \<Rightarrow> world \<Rightarrow> bool" where
  "writer_ok a w \<longleftrightarrow> aw_open a
     \<and> (\<exists>n. fs_get w (aw_path a) = Some n \<and> n_kind n \<noteq> KDir \<and> int (length (n_data n)) = aw_size a)
     \<and> (\<forall>i. 1 \<le> i \<and> i \<le> nat (aw_backups a) \<longrightarrow> not_dir (fs_get w (bak (aw_path a) i)))
     \<and> parent_ok w (aw_path a)"

lemma log_shift:
  assumes "\<And>i. 1 \<le> i \<Longrightarrow> i \<le> n \<Longrightarrow> fs' (bak p (Suc i)) = fs (bak p i)"
    and "fs' (bak p 1) = fs p" "node_bytes (fs' p) = []"
  shows "log_of (Suc n) p fs' = drop (length (node_bytes (fs (bak p (Suc n))))) (log_of (Suc n) p fs)"
proof -
  have "rev [1..<Suc (Suc n)] = map Suc (rev [1..<Suc n]) @ [1]"
  proof -
    have "[1..<Suc (Suc n)] = 1 # map Suc [1..<Suc n]" by (simp add: map_Suc_upt upt_conv_Cons del: upt_Suc)
    then show ?thesis by (simp add: rev_map)
  qed
  then have "log_of (Suc n) p fs' = log_of n p fs"
    using assms
    by (auto simp: log_of_def o_def simp del: upt_Suc intro!: arg_cong [where f = concat] map_cong)
  moreover have "log_of (Suc n) p fs = node_bytes (fs (bak p (Suc n))) @ log_of n p fs" by (simp add: log_of_def)
  ultimately show ?thesis by simp
qed

lemma quiet_open_append:
  assumes "quiet w" "fs_get w p = None" "parent_ok w p"
  shows "\<exists>w'. os_open_append p m w = (Ok (), w') \<and> quiet w'
    \<and> (\<exists>n. fs_get w' = (fs_get w)(p \<mapsto> n) \<and> n_data n = [] \<and> n_kind n = KFile)"
  using assms by (auto simp: os_open_append_def parent_ok_def new_file_def Let_def fun_eq_iff)

lemma parent_ok_other:
  assumes "parent_ok w p" "\<And>q n. fs_get w q = Some n \<Longrightarrow> n_kind n = KDir \<Longrightarrow> fs_get w' q = Some n"
  shows "parent_ok w' p"
  using assms by (auto simp: parent_ok_def Let_def split: option.splits)

lemma rotate_quiet:
  assumes q: "quiet w" and ok: "writer_ok a w" and b: "aw_backups a > 0"
  defines "n \<equiv> nat (aw_backups a)" and "p \<equiv> aw_path a"
  shows "\<exists>w'. rotateLocked a w = ((Ok (), a\<lparr>aw_open := True, aw_size := 0\<rparr>), w') \<and> quiet w'
    \<and> writer_ok (a\<lparr>aw_open := True, aw_size := 0\<rparr>) w' \<and> node_bytes (fs_get w' p) = []
    \<and> log_of n p (fs_get w') = drop (length (node_bytes (fs_get w (bak p n)))) (log_of n p (fs_get w))"
proof -
  obtain m where n: "n = Suc m" using b by (cases n) (auto simp: n_def)
  obtain f where f: "fs_get w p = Some f" "n_kind f \<noteq> KDir" and nd: "\<And>i. 1 \<le> i \<Longrightarrow> i \<le> n \<Longrightarrow> not_dir (fs_get w (bak p i))"
    and par: "parent_ok w p" "aw_open a" using ok by (auto simp: writer_ok_def n_def p_def)
  define w0 where "w0 = tick w"
  have w0: "quiet w0" "fs_get w0 = fs_get w" using q by (simp_all add: w0_def)
  define w1 where "w1 = snd (os_remove (bak p n) w0)"
  have w1: "quiet w1" "fs_get w1 = (fs_get w)(bak p n := None)" using quiet_remove [OF w0(1)] w0(2) by (simp_all add: w1_def)
  define w2 where "w2 = snd (shift_backups p m w1)"
  have "fs_get w1 (bak p (Suc m)) = None" using w1(2) n by simp
  from shift_quiet [OF w1(1) this] have w2: "quiet w2" "fs_get w2 (bak p 1) = None"
    "\<And>i. 1 \<le> i \<Longrightarrow> i \<le> m \<Longrightarrow> fs_get w2 (bak p (Suc i)) = fs_get w1 (bak p i)"
    "\<And>q. (\<And>i. 1 \<le> i \<Longrightarrow> i \<le> n \<Longrightarrow> q \<noteq> bak p i) \<Longrightarrow> fs_get w2 q = fs_get w1 q"
    unfolding w2_def [symmetric] n by simp_all
  define w3 where "w3 = snd (os_rename p (bak p 1) w2)"
  have p2: "fs_get w2 p = Some f" using w2(4) [of p] w1(2) f by (metis bak_ne fun_upd_other)
  have w3: "quiet w3" "fs_get w3 = (fs_get w2)(p := None, bak p 1 := Some f)"
    using quiet_rename [OF w2(1,2), of p] p2 by (simp_all add: w3_def bak_ne [symmetric])
  have keep: "fs_get w3 x = Some k" if "fs_get w x = Some k" "n_kind k = KDir" for x k
  proof -
    have "\<And>i. 1 \<le> i \<Longrightarrow> i \<le> n \<Longrightarrow> x \<noteq> bak p i" "x \<noteq> p" using that nd f by (auto simp: not_dir_def)
    then show ?thesis using that w3(2) w2(4) [of x] w1(2) n by auto
  qed
  have p3: "fs_get w3 p = None" using w3(2) by (simp add: bak_ne [symmetric])
  from quiet_open_append [OF w3(1) p3 parent_ok_other [OF par(1) keep]] obtain w4 k where
    w4: "os_open_append p 420 w3 = (Ok (), w4)" "quiet w4" "fs_get w4 = (fs_get w3)(p \<mapsto> k)" "n_data k = []" "n_kind k = KFile"
    by blast
  have run: "rotateLocked a w = ((Ok (), a\<lparr>aw_open := True, aw_size := 0\<rparr>), w4)"
    using w4(1) par(2) q
    by (simp add: rotateLocked_def aw_close_def os_close_def io_ignore_def Let_def n n_def [symmetric] p_def [symmetric]
        w0_def [symmetric] w1_def [symmetric, unfolded n] w2_def [symmetric] w3_def [symmetric, unfolded One_nat_def])
  have b1: "fs_get w4 (bak p 1) = Some f" using w4(3) w3(2) by simp
  have bs: "fs_get w4 (bak p (Suc i)) = fs_get w (bak p i)" if "1 \<le> i" "i \<le> m" for i
    using w4(3) w3(2) w2(3) [OF that] w1(2) n that by simp
  have log: "log_of (Suc m) p (fs_get w4) = drop (length (node_bytes (fs_get w (bak p (Suc m))))) (log_of (Suc m) p (fs_get w))"
    by (rule log_shift) (use bs b1 f(1) w4 in auto)
  have "not_dir (fs_get w4 (bak p i))" if i: "1 \<le> i" "i \<le> n" for i
  proof (cases "i = 1")
    case True then show ?thesis using b1 f(2) by (simp add: not_dir_def)
  next
    case False
    then obtain j where "i = Suc j" "1 \<le> j" "j \<le> m" using i n by (cases i) auto
    then show ?thesis using bs [of j] nd [of j] n by simp
  qed
  moreover have "parent_ok w4 p"
    by (rule parent_ok_other [OF par(1)]) (use keep w4(3) f in auto)
  ultimately have "writer_ok (a\<lparr>aw_open := True, aw_size := 0\<rparr>) w4"
    using w4 by (auto simp: writer_ok_def n_def p_def)
  with run w4 log n show ?thesis by auto
qed

section \<open>Properties\<close>

lemma os_write_quiet:
  "quiet w \<Longrightarrow> fs_get w p = Some n \<Longrightarrow> \<exists>w'. os_write p b w = (Ok (length b), w') \<and> quiet w'
     \<and> fs_get w' = (fs_get w)(p \<mapsto> n\<lparr>n_data := n_data n @ b\<rparr>)"
  by (auto simp: os_write_def append_data_def Let_def quiet_def tick_def set_node_def fs_get_def update_conv' fun_eq_iff)

lemma append_write_quiet:
  assumes q: "quiet w" and ok: "writer_ok a w"
  shows "\<exists>a' w'. aw_write b a w = ((Ok (), a'), w') \<and> quiet w' \<and> writer_ok a' w' \<and> aw_path a' = aw_path a
    \<and> aw_max a' = aw_max a \<and> aw_backups a' = aw_backups a \<and> aw_size a' = aw_size a + int (length b)
    \<and> log_of n (aw_path a) (fs_get w') = log_of n (aw_path a) (fs_get w) @ b"
proof -
  let ?p = "aw_path a"
  obtain f where f: "fs_get w ?p = Some f" "n_kind f \<noteq> KDir" "int (length (n_data f)) = aw_size a"
    and rest: "aw_open a" "parent_ok w ?p" "\<And>i. 1 \<le> i \<Longrightarrow> i \<le> nat (aw_backups a) \<Longrightarrow> not_dir (fs_get w (bak ?p i))"
    using ok by (auto simp: writer_ok_def)
  from os_write_quiet [OF q f(1), of b] obtain w' where w': "os_write ?p b w = (Ok (length b), w')" "quiet w'"
    "fs_get w' = (fs_get w)(?p \<mapsto> f\<lparr>n_data := n_data f @ b\<rparr>)" by blast
  have par: "parent_ok w' ?p" by (rule parent_ok_other [OF rest(2)]) (use w'(3) f in auto)
  let ?a = "a\<lparr>aw_size := aw_size a + int (length b)\<rparr>"
  have "aw_write b a w = ((Ok (), ?a), w')" using rest(1) w'(1) by (simp add: aw_write_def)
  moreover have "writer_ok ?a w'" using rest f w'(3) par by (auto simp: writer_ok_def)
  moreover have "log_of n ?p (fs_get w') = log_of n ?p (fs_get w) @ b" using w'(3) f(1) by (simp add: log_of_def)
  ultimately show ?thesis using w'(2) by auto
qed

text \<open>C36: While no call fails, no event is lost or reordered by rotation.  Reading the kept files from the oldest
  backup to the active one gives, after an append, what it gave before, without the oldest backup if the
  line made the file rotate, followed by the new line; the writer's size is the size of the active file, and the file
  never grows past the configured maximum unless a single line is longer.\<close>

theorem audit_append_spec:
  assumes "quiet w" and "writer_ok a w" and "marshal (stamped event stamp) = Ok b"
    and "aw_max a > 0 \<longrightarrow> aw_size a \<le> max (aw_max a) m"
  shows "\<exists>a' w'. Append marshal event stamp a w = ((Ok (), a'), w') \<and> quiet w' \<and> writer_ok a' w'
    \<and> aw_path a' = aw_path a \<and> aw_max a' = aw_max a \<and> aw_backups a' = aw_backups a
    \<and> (let n = nat (aw_backups a); p = aw_path a; old = log_of n p (fs_get w) in
        log_of n p (fs_get w') =
          (if must_rotate a (b @ [10]) then drop (length (node_bytes (fs_get w (bak p n)))) old else old) @ b @ [10])
    \<and> (aw_max a > 0 \<and> aw_backups a > 0 \<longrightarrow> aw_size a' \<le> max (aw_max a) (int (length b) + 1))"
proof (cases "must_rotate a (b @ [10])")
  case True
  then have "aw_backups a > 0" by (simp add: must_rotate_def)
  from rotate_quiet [OF assms(1,2) this] obtain w1 where r:
    "rotateLocked a w = ((Ok (), a\<lparr>aw_open := True, aw_size := 0\<rparr>), w1)" "quiet w1"
    "writer_ok (a\<lparr>aw_open := True, aw_size := 0\<rparr>) w1"
    "log_of (nat (aw_backups a)) (aw_path a) (fs_get w1)
      = drop (length (node_bytes (fs_get w (bak (aw_path a) (nat (aw_backups a)))))) (log_of (nat (aw_backups a)) (aw_path a) (fs_get w))"
    by blast
  from append_write_quiet [OF r(2,3), of "b @ [10]" "nat (aw_backups a)"] r(1,4) True assms(3) show ?thesis
    by (auto simp: Append_def append_line_def Let_def)
next
  case False
  from append_write_quiet [OF assms(1,2), of "b @ [10]" "nat (aw_backups a)"] False assms(3) show ?thesis
    by (auto simp: Append_def append_line_def Let_def must_rotate_def)
qed

text \<open>When a rotation fails, the writer has already closed its file and never reopens it: every later event is
  refused, whatever the state of the disk.\<close>

theorem audit_dead_after_failed_rotation:
  assumes "rotateLocked a w = ((Err e, a'), w')"
  shows "\<exists>x. fst (Append marshal event stamp a' w'') = (Err x, a')"
proof -
  have "\<not> aw_open a'"
    using assms by (auto simp: rotateLocked_def aw_close_def Let_def split: if_splits prod.splits sum.splits)
  then show ?thesis
    by (cases "marshal (stamped event stamp)")
      (auto simp: Append_def append_line_def rotateLocked_def aw_close_def aw_write_def Let_def)
qed

definition audit_demo :: audit_writer where
  "audit_demo = \<lparr>aw_path = ''a.log'', aw_open = True, aw_size = 3, aw_max = 4, aw_backups = 2\<rparr>"

definition audit_disk :: "(nat \<Rightarrow> os_error option) \<Rightarrow> world" where
  "audit_disk = plain_world [(''a.log'', plain_file [1, 2, 10]), (''a.log.1'', plain_file [7, 10]), (''a.log.2'', plain_file [6, 10])]"

theorem audit_append_spec_witness:
  "\<exists>a' w'. Append (\<lambda>_. Ok [5]) [(''event'', ())] () audit_demo (audit_disk (\<lambda>_. None)) = ((Ok (), a'), w')
     \<and> log_of 2 ''a.log'' (fs_get w') = [7, 10, 1, 2, 10, 5, 10]"
proof -
  let ?w = "audit_disk (\<lambda>_. None)"
  have fs: "fs_get ?w = [''a.log'' \<mapsto> plain_file [1, 2, 10], ''a.log.1'' \<mapsto> plain_file [7, 10], ''a.log.2'' \<mapsto> plain_file [6, 10]]"
    by (simp add: audit_disk_def plain_world_def fs_get_def fun_eq_iff)
  have q: "quiet ?w" by (simp add: audit_disk_def plain_world_def quiet_def)
  have names: "bak ''a.log'' 1 = ''a.log.1''" "bak ''a.log'' 2 = ''a.log.2''" "path_dir ''a.log'' = ''.''" by code_simp+
  have two: "1 \<le> i \<and> i \<le> (2 :: nat) \<longleftrightarrow> i = 1 \<or> i = 2" for i by auto
  have ok: "writer_ok audit_demo ?w"
    by (simp add: writer_ok_def fs audit_demo_def plain_file_def two names not_dir_def parent_ok_def imp_disjL all_conj_distrib del: One_nat_def)
  have old: "log_of 2 ''a.log'' (fs_get ?w) = [6, 10, 7, 10, 1, 2, 10]" "fs_get ?w ''a.log.2'' = Some (plain_file [6, 10])"
    by (simp_all add: log_of_def fs names plain_file_def upt_rec del: One_nat_def)
  have m: "(\<lambda>_. Ok [5]) (stamped [(''event'', ())] ()) = (Ok [5] :: string + bytes)" by simp
  have "aw_max audit_demo > 0 \<longrightarrow> aw_size audit_demo \<le> max (aw_max audit_demo) 0" by (simp add: audit_demo_def)
  note spec = audit_append_spec [of ?w audit_demo "\<lambda>_. Ok [5]" "[(''event'', ())]" "()" "[5]" 0, OF q ok m this]
  from spec obtain a' w' where
    "Append (\<lambda>_. Ok [5]) [(''event'', ())] () audit_demo ?w = ((Ok (), a'), w')"
    "log_of 2 ''a.log'' (fs_get w') = [7, 10, 1, 2, 10, 5, 10]"
    by (auto simp: audit_demo_def must_rotate_def old names plain_file_def)
  then show ?thesis by blast
qed

theorem audit_dead_after_failed_rotation_witness:
  "\<exists>a' w'. rotateLocked audit_demo (audit_disk (\<lambda>t. if t = 4 then Some EACCES else None)) = ((Err EACCES, a'), w')
     \<and> (\<exists>x. fst (Append (\<lambda>_. Ok [5]) [(''event'', ())] () a' (audit_disk (\<lambda>_. None))) = (Err x, a'))"
proof -
  let ?run = "rotateLocked audit_demo (audit_disk (\<lambda>t. if t = 4 then Some EACCES else None))"
  have "fst (fst ?run) = Err EACCES" by code_simp
  then have run: "?run = ((Err EACCES, snd (fst ?run)), snd ?run)" by (simp add: prod_eq_iff)
  from audit_dead_after_failed_rotation [OF run, of "\<lambda>_. Ok [5]" "[(''event'', ())]" "()" "audit_disk (\<lambda>_. None)"] run
  show ?thesis by (intro exI [of _ "snd (fst ?run)"] exI [of _ "snd ?run"]) simp
qed

end
