(* ===== verification/Fs_Tools.thy ===== *)
theory Fs_Tools
  imports Glob
begin

text \<open>
  \<open>internal/tools/fs.go\<close> and \<open>internal/fsproto\<close>: listing a directory and the metadata of one path.
\<close>

record dir_entry =
  de_name :: string
  de_type :: string
  de_size :: int
  de_mode :: nat
  de_mtime :: int

record list_dir_response =
  ld_entries :: "dir_entry list"
  ld_err :: string
  ld_detail :: string

record stat_response =
  sr_entry :: "dir_entry option"
  sr_err :: string
  sr_detail :: string

definition entryType :: "node \<Rightarrow> string" where
  "entryType n = (case n_kind n of KFile \<Rightarrow> ''file'' | KDir \<Rightarrow> ''dir'' | KSymlink \<Rightarrow> ''symlink'' | KOther \<Rightarrow> ''other'')"

definition fileInfoToEntry :: "string \<Rightarrow> node \<Rightarrow> dir_entry" where
  "fileInfoToEntry name n =
     \<lparr>de_name = name, de_type = entryType n,
      de_size = (if n_kind n = KFile then int (length (n_data n)) else 0),
      de_mode = n_mode n mod 512, de_mtime = n_mtime n div 1000000000\<rparr>"

definition ld_fail :: "string \<Rightarrow> string \<Rightarrow> list_dir_response" where
  "ld_fail e d = \<lparr>ld_entries = [], ld_err = e, ld_detail = d\<rparr>"

text \<open>Entries whose information cannot be read any more are left out.\<close>

fun list_entries :: "string list \<Rightarrow> (ctx_error, dir_entry list) io" where
  "list_entries [] = io_ret []"
| "list_entries (k # ks) =
     io_case (os_stat k) (\<lambda>_. list_entries ks)
       (\<lambda>fi. io_bind (list_entries ks) (\<lambda>es. io_ret (fileInfoToEntry (path_base k) fi # es)))"

definition ListDirectory :: "string \<Rightarrow> (ctx_error, list_dir_response) io" where
  "ListDirectory path =
     io_case (os_stat path)
       (\<lambda>e. io_ret (ld_fail (if e = ENOENT then ''not_found'' else ''read_failed'') []))
       (\<lambda>info.
          if n_kind info \<noteq> KDir then
            io_ret (ld_fail ''not_a_directory'' (''path is '' @ entryType info @ '', expected directory''))
          else io_case (os_read_dir path) (\<lambda>_. io_ret (ld_fail ''read_failed'' []))
            (\<lambda>ks. io_bind (list_entries ks) (\<lambda>es. io_ret \<lparr>ld_entries = es, ld_err = [], ld_detail = []\<rparr>)))"

definition Stat :: "string \<Rightarrow> (ctx_error, stat_response) io" where
  "Stat path =
     io_case (os_stat path)
       (\<lambda>e. io_ret \<lparr>sr_entry = None, sr_err = (if e = ENOENT then ''not_found'' else ''read_failed''), sr_detail = []\<rparr>)
       (\<lambda>info. io_ret \<lparr>sr_entry = Some (fileInfoToEntry (path_base path) info), sr_err = [], sr_detail = []\<rparr>)"

text \<open>\<open>StatResponse\<close>: the entry is nil exactly when an error is set; nothing is changed by either call.\<close>

lemma stat_entry_iff: "Stat path w = (Ok r, w') \<Longrightarrow> fs_get w' = fs_get w \<and> (sr_entry r = None \<longleftrightarrow> sr_err r \<noteq> [])"
  by (auto simp: Stat_def io_case_def dest: os_stat_fs split: prod.splits sum.splits if_splits)

lemma entry_name [simp]: "de_name (fileInfoToEntry k n) = k"
  by (simp add: fileInfoToEntry_def)

lemma list_entries_spec:
  "list_entries ks w = (r, w') \<Longrightarrow> fs_get w' = fs_get w \<and> (\<exists>es. r = Ok es
     \<and> (\<forall>e \<in> set es. \<exists>k \<in> set ks. \<exists>n. fs_get w k = Some n \<and> e = fileInfoToEntry (path_base k) n)
     \<and> (quiet w \<and> (\<forall>k \<in> set ks. fs_get w k \<noteq> None) \<longrightarrow> map de_name es = map path_base ks))"
proof (induction ks arbitrary: r w w')
  case (Cons k ks)
  obtain s w1 where s: "os_stat k w = (s, w1)" by (cases "os_stat k w")
  obtain t w2 where t: "list_entries ks w1 = (t, w2)" by (cases "list_entries ks w1")
  from Cons.IH [OF t] obtain es where ih: "fs_get w2 = fs_get w1" "t = Ok es"
    "\<forall>e \<in> set es. \<exists>k \<in> set ks. \<exists>n. fs_get w1 k = Some n \<and> e = fileInfoToEntry (path_base k) n"
    "quiet w1 \<and> (\<forall>k \<in> set ks. fs_get w1 k \<noteq> None) \<longrightarrow> map de_name es = map path_base ks" by blast
  note w1 = os_stat_fs [OF s]
  show ?case
  proof (cases s)
    case (Inl e)
    have "\<not> (quiet w \<and> fs_get w k \<noteq> None)" using s Inl by (auto simp: os_stat_def split: option.splits)
    with Cons.prems s t Inl ih w1 show ?thesis by (auto simp: io_case_def)
  next
    case (Inr n)
    have "quiet w \<Longrightarrow> quiet w1" using s Inr by (auto simp: os_stat_def split: option.splits)
    with Cons.prems s t Inr ih w1 show ?thesis
      by (auto simp: io_case_def io_bind_def)
  qed
qed simp

lemma list_directory_spec:
  "ListDirectory path w = (Ok r, w') \<Longrightarrow> fs_get w' = fs_get w
     \<and> (\<forall>e \<in> set (ld_entries r). \<exists>k n. path_dir k = path_clean path \<and> fs_get w k = Some n
          \<and> e = fileInfoToEntry (path_base k) n)"
  by (auto simp: ListDirectory_def io_case_def io_bind_def ld_fail_def os_read_dir_def sys_def dir_paths_def
      dest!: os_stat_fs list_entries_spec split: prod.splits sum.splits if_splits option.splits) blast+

end
