(* ===== verification/Dialer.thy ===== *)
theory Dialer
  imports Complex_Main Prelude "HOL-Library.Log_Nat"
begin

text \<open>
  \<open>internal/dialer/loop.go\<close>: the retry loop around dialing with exponential backoff.  Durations are 64-bit
  nanoseconds.  The jitter is computed in \<open>float64\<close>: a number is the rational it stands for, and every operation
  rounds its exact result to 53 significant bits.  The loop's partners, the dial function, the context and the
  random source, are lists of answers.
\<close>

section \<open>Floating point\<close>

text \<open>Rounding to the nearest number of 53 significant bits, ties to even.  The range of the exponents is left out: what
  the loop computes stays far within it.\<close>

definition round_even :: "rat \<Rightarrow> int" where
  "round_even x =
     (let f = \<lfloor>x\<rfloor>; d = x - of_int f in
      if d < 1 / 2 then f else if d > 1 / 2 then f + 1 else if even f then f else f + 1)"

definition last_place :: "rat \<Rightarrow> int" where
  "last_place x =
     (let (p, q) = quotient_of x; k = bitlen p - bitlen q in if 2 powi k \<le> x then k - 52 else k - 53)"

definition float64 :: "rat \<Rightarrow> rat" where
  "float64 x =
     (if x = 0 then 0
      else let e = last_place \<bar>x\<bar>; y = of_int (round_even (\<bar>x\<bar> / 2 powi e)) * 2 powi e in if x < 0 then - y else y)"

section \<open>The loop\<close>

definition wrap64 :: "int \<Rightarrow> int" where
  "wrap64 x = sint (word_of_int x :: 64 word)"

record dial_options =
  do_base :: int
  do_cap :: int
  do_jitter :: rat

definition withDefaults :: "dial_options \<Rightarrow> dial_options" where
  "withDefaults opt =
     (let opt = (if do_base opt \<le> 0 then opt\<lparr>do_base := 500000000\<rparr> else opt) in
      if do_cap opt \<le> 0 then opt\<lparr>do_cap := 30000000000\<rparr> else opt)"

fun double_up :: "nat \<Rightarrow> int \<Rightarrow> int \<Rightarrow> int" where
  "double_up 0 c d = d"
| "double_up (Suc n) c d = (let d' = wrap64 (2 * d) in if d' \<ge> c then c else double_up n c d')"

text \<open>Conversion to a duration truncates toward zero; it is used on numbers below \<open>2^63\<close> only.\<close>

definition trunc_rat :: "rat \<Rightarrow> int" where
  "trunc_rat x = (if x < 0 then - \<lfloor>- x\<rfloor> else \<lfloor>x\<rfloor>)"

text \<open>The random number \<open>r\<close> and the jitter are themselves of type \<open>float64\<close>.\<close>

definition delayFor :: "dial_options \<Rightarrow> rat \<Rightarrow> nat \<Rightarrow> int" where
  "delayFor opt r attempt =
     (let d = double_up attempt (do_cap opt) (do_base opt);
          d = (if d > do_cap opt then do_cap opt else d) in
      if do_jitter opt > 0 then
        (let f = float64 (float64 (float64 (r * 2) - 1) * do_jitter opt);
             d = trunc_rat (float64 (float64 (of_int d) * float64 (1 + f)))
         in if d < 0 then 0 else d)
      else d)"

text \<open>One round of the loop: is the context cancelled before the dial, does the dial succeed, is it
  cancelled after it or while waiting, and the random number.\<close>

record dial_round =
  rd_cancel_before :: bool
  rd_dial_ok :: bool
  rd_cancel_after :: bool
  rd_cancel_wait :: bool
  rd_rand :: rat

datatype dial_result = DialOk | DialCancelled

text \<open>\<open>None\<close> when the loop still runs after the given rounds; the delays waited are the second result.\<close>

fun loop_from :: "dial_options \<Rightarrow> nat \<Rightarrow> dial_round list \<Rightarrow> dial_result option \<times> int list" where
  "loop_from opt n [] = (None, [])"
| "loop_from opt n (r # rs) =
     (if rd_cancel_before r then (Some DialCancelled, [])
      else if rd_dial_ok r then (Some DialOk, [])
      else if rd_cancel_after r then (Some DialCancelled, [])
      else (let d = delayFor opt (rd_rand r) n in
            if rd_cancel_wait r then (Some DialCancelled, [d])
            else (let (res, ds) = loop_from opt (Suc n) rs in (res, d # ds))))"

definition Loop :: "dial_options \<Rightarrow> dial_round list \<Rightarrow> dial_result option \<times> int list" where
  "Loop opts rs = loop_from (withDefaults opts) 0 rs"

section \<open>Rounding errors\<close>

lemma round_even_near: "\<bar>of_int (round_even x) - x\<bar> \<le> 1 / 2"
proof -
  define d where "d = x - of_int \<lfloor>x\<rfloor>"
  have d: "0 \<le> d" "d < 1" unfolding d_def by linarith+
  have x: "of_int \<lfloor>x\<rfloor> - x = - d" "of_int (\<lfloor>x\<rfloor> + 1) - x = 1 - d" by (simp_all add: d_def)
  have "round_even x = (if d < 1 / 2 then \<lfloor>x\<rfloor> else if d > 1 / 2 then \<lfloor>x\<rfloor> + 1 else if even \<lfloor>x\<rfloor> then \<lfloor>x\<rfloor> else \<lfloor>x\<rfloor> + 1)"
    by (simp add: round_even_def Let_def d_def)
  then show ?thesis using d by (simp only: x split: if_split) (simp add: abs_if)
qed

lemma bitlen_pow:
  assumes "0 < p"
  shows "2 powi (bitlen p - 1) \<le> (of_int p :: rat)" "(of_int p :: rat) < 2 powi bitlen p"
proof -
  have one: "1 \<le> bitlen p" using assms by (simp add: bitlen_alt_def)
  have "2 powi (bitlen p - 1) = (of_int (2 ^ nat (bitlen p - 1)) :: rat)" "2 powi bitlen p = (of_int (2 ^ nat (bitlen p)) :: rat)"
    using one by (simp_all add: power_int_def)
  with bitlen_bounds [OF assms] show "2 powi (bitlen p - 1) \<le> (of_int p :: rat)" "(of_int p :: rat) < 2 powi bitlen p"
    by (simp_all only: of_int_le_iff of_int_less_iff)
qed

lemma last_place_pow:
  assumes "0 < x"
  shows "2 powi (last_place x) * 2 ^ 52 \<le> x"
proof -
  obtain p q where pq: "quotient_of x = (p, q)" by (cases "quotient_of x")
  have q: "0 < q" using quotient_of_denom_pos [OF pq] .
  have x: "x = of_int p / of_int q" using quotient_of_div [OF pq] .
  have p: "0 < p" using assms q unfolding x by (simp add: zero_less_divide_iff)
  let ?k = "bitlen p - bitlen q"
  have split: "(2 :: rat) powi (?k - m) * 2 ^ 52 = 2 powi (?k - m + 52)" for m
    by (simp add: power_int_add)
  show ?thesis
  proof (cases "2 powi ?k \<le> x")
    case True
    with split [of 52] show ?thesis by (simp add: last_place_def pq)
  next
    case False
    have "2 powi (?k - 1) = (2 powi (bitlen p - 1) :: rat) / 2 powi bitlen q"
    proof -
      have eq: "?k - 1 = (bitlen p - 1) - bitlen q" by simp
      show ?thesis unfolding eq by (rule power_int_diff) simp
    qed
    also have "\<dots> \<le> of_int p / of_int q"
      using bitlen_pow(1) [OF p] bitlen_pow(2) [OF q] p q by (intro frac_le) auto
    finally have "2 powi (?k - 1) \<le> x" by (simp only: x)
    with False split [of 53] show ?thesis by (simp add: last_place_def pq)
  qed
qed

definition rounding :: rat where "rounding = 1 / 2 ^ 53"

lemma float64_near: "\<bar>float64 x - x\<bar> \<le> rounding * \<bar>x\<bar>"
proof (cases "x = 0")
  case False
  let ?e = "(2 :: rat) powi (last_place \<bar>x\<bar>)"
  let ?y = "of_int (round_even (\<bar>x\<bar> / ?e)) * ?e"
  have e: "0 < ?e" by simp
  have "?y - \<bar>x\<bar> = (of_int (round_even (\<bar>x\<bar> / ?e)) - \<bar>x\<bar> / ?e) * ?e" using e by (simp add: field_simps)
  then have "\<bar>?y - \<bar>x\<bar>\<bar> = \<bar>of_int (round_even (\<bar>x\<bar> / ?e)) - \<bar>x\<bar> / ?e\<bar> * ?e" using e by (simp add: abs_mult)
  also have "\<dots> \<le> 1 / 2 * ?e" using round_even_near e by (intro mult_right_mono) auto
  also have "\<dots> \<le> rounding * \<bar>x\<bar>" using last_place_pow [of "\<bar>x\<bar>"] False by (simp add: rounding_def)
  finally have y: "\<bar>?y - \<bar>x\<bar>\<bar> \<le> rounding * \<bar>x\<bar>" .
  have "float64 x = (if x < 0 then - ?y else ?y)" using False by (simp add: float64_def Let_def)
  with y show ?thesis by (auto simp: abs_if split: if_splits)
qed (simp add: float64_def)

lemma rounding_pos: "0 < rounding" "rounding < 1 / 100"
  by (simp_all add: rounding_def)

lemma float64_abs: "\<bar>x\<bar> \<le> m \<Longrightarrow> \<bar>float64 x\<bar> \<le> m * (1 + rounding)"
proof -
  assume m: "\<bar>x\<bar> \<le> m"
  have "\<bar>float64 x\<bar> \<le> \<bar>x\<bar> + rounding * \<bar>x\<bar>" using float64_near [of x] by linarith
  also have "\<dots> \<le> m + rounding * m" using m rounding_pos by (intro add_mono mult_left_mono) auto
  finally show ?thesis by (simp add: algebra_simps)
qed

lemma float64_le:
  assumes "x \<le> m" "0 \<le> m"
  shows "float64 x \<le> m * (1 + rounding)"
proof (cases "0 \<le> x")
  case True
  with assms float64_abs [of x m] show ?thesis by (simp add: abs_le_iff)
next
  case False
  have "rounding * \<bar>x\<bar> \<le> 1 * \<bar>x\<bar>" using rounding_pos by (intro mult_right_mono) auto
  with float64_near [of x] have "\<bar>float64 x - x\<bar> \<le> \<bar>x\<bar>" by linarith
  with False have "float64 x \<le> 0" by linarith
  also have "0 \<le> m * (1 + rounding)" using assms rounding_pos by simp
  finally show ?thesis .
qed

lemma float64_ge:
  assumes "m \<le> x" "0 \<le> m"
  shows "m * (1 - rounding) \<le> float64 x"
proof -
  have "m * (1 - rounding) \<le> x * (1 - rounding)" using assms rounding_pos by (intro mult_right_mono) auto
  also have "\<dots> \<le> float64 x" using float64_near [of x] assms by (simp add: abs_le_iff algebra_simps)
  finally show ?thesis .
qed

lemma float64_nonneg: "0 \<le> x \<Longrightarrow> 0 \<le> float64 x"
  using float64_ge [of 0 x] by simp

section \<open>Bounds\<close>

lemma wrap64_small: "- (2 ^ 63) \<le> x \<Longrightarrow> x < 2 ^ 63 \<Longrightarrow> wrap64 x = x"
  unfolding wrap64_def sint_sbintrunc' by (rule signed_take_bit_int_eq_self) simp_all

lemma double_up_min:
  "0 < d \<Longrightarrow> d \<le> c \<Longrightarrow> c < 2 ^ 62 \<Longrightarrow> double_up n c d = min c (d * 2 ^ n)"
proof (induction n arbitrary: d)
  case (Suc n)
  have w: "wrap64 (2 * d) = 2 * d" using Suc.prems by (intro wrap64_small) auto
  show ?case
  proof (cases "2 * d \<ge> c")
    case True
    have "c \<le> 2 * d * 2 ^ n" using True Suc.prems(1) by (smt (verit) mult_le_cancel_left1 one_le_power)
    with True w show ?thesis by (simp add: Let_def min_def algebra_simps)
  next
    case False
    with Suc w show ?thesis by (simp add: Let_def algebra_simps)
  qed
qed simp

lemma trunc_between: "0 \<le> x \<Longrightarrow> of_int (trunc_rat x) \<le> x \<and> x < of_int (trunc_rat x) + 1 \<and> 0 \<le> trunc_rat x"
  using floor_correct [of x] by (auto simp: trunc_rat_def)

lemma trunc_negative: "x < 0 \<Longrightarrow> trunc_rat x \<le> 0"
  using floor_correct [of "- x"] by (simp add: trunc_rat_def)

definition backoff :: "dial_options \<Rightarrow> nat \<Rightarrow> int" where
  "backoff opt n = min (do_cap opt) (do_base opt * 2 ^ n)"

lemma delay_backoff:
  assumes "0 < do_base opt" "0 < do_cap opt" "do_cap opt < 2 ^ 62" "do_base opt < 2 ^ 62"
  shows "delayFor (opt\<lparr>do_jitter := 0\<rparr>) r n = backoff opt n"
proof -
  have "min (do_cap opt) (double_up n (do_cap opt) (do_base opt)) = backoff opt n"
  proof (cases "do_base opt \<le> do_cap opt")
    case True
    with assms double_up_min [of "do_base opt" "do_cap opt" n] show ?thesis by (simp add: backoff_def)
  next
    case False
    have big: "do_cap opt \<le> do_base opt * 2 ^ n" using False assms(1) by (smt (verit) mult_le_cancel_left1 one_le_power)
    have "do_cap opt \<le> double_up n (do_cap opt) (do_base opt)"
    proof (cases n)
      case 0 with False show ?thesis by simp
    next
      case (Suc m)
      have "wrap64 (2 * do_base opt) = 2 * do_base opt" using assms by (intro wrap64_small) auto
      with Suc False assms(1) show ?thesis by (simp add: Let_def)
    qed
    with big show ?thesis by (simp add: backoff_def min_def)
  qed
  then show ?thesis by (simp add: delayFor_def Let_def min_def split: if_splits)
qed

definition jittered :: "rat \<Rightarrow> rat \<Rightarrow> rat \<Rightarrow> rat" where
  "jittered J r d = float64 (float64 d * float64 (1 + float64 (float64 (float64 (r * 2) - 1) * J)))"

lemma delayFor_split:
  "delayFor opt r n = (let d = delayFor (opt\<lparr>do_jitter := 0\<rparr>) r n in
     if do_jitter opt > 0 then max 0 (trunc_rat (jittered (do_jitter opt) r (of_int d))) else d)"
  by (auto simp: delayFor_def jittered_def Let_def max_def)

lemma backoff_nonneg: "0 < do_base opt \<Longrightarrow> 0 < do_cap opt \<Longrightarrow> 0 < backoff opt n"
  by (simp add: backoff_def)

text \<open>What the roundings of the jitter add to its fraction.\<close>

definition slack :: rat where "slack = 1 / 2 ^ 48"

lemma jitter_factor:
  assumes "0 \<le> r" "r \<le> 1" "0 \<le> J" "J \<le> 1"
  shows "\<bar>float64 (float64 (float64 (r * 2) - 1) * J)\<bar> \<le> J + 8 * rounding"
proof -
  have "\<bar>float64 (r * 2) - r * 2\<bar> \<le> rounding * (r * 2)" using float64_near [of "r * 2"] assms(1) by simp
  moreover have "rounding * (r * 2) \<le> rounding * 2" using assms(2) rounding_pos by (intro mult_left_mono) auto
  ultimately have "\<bar>float64 (r * 2) - 1\<bar> \<le> 1 + 2 * rounding" using assms(1,2) by linarith
  from float64_abs [OF this] have "\<bar>float64 (float64 (r * 2) - 1)\<bar> \<le> (1 + 2 * rounding) * (1 + rounding)" .
  then have "\<bar>float64 (float64 (r * 2) - 1)\<bar> * J \<le> (1 + 2 * rounding) * (1 + rounding) * J"
    using assms(3) by (rule mult_right_mono)
  then have "\<bar>float64 (float64 (r * 2) - 1) * J\<bar> \<le> (1 + 2 * rounding) * (1 + rounding) * J"
    using assms(3) by (simp add: abs_mult)
  from float64_abs [OF this]
  have "\<bar>float64 (float64 (float64 (r * 2) - 1) * J)\<bar> \<le> (1 + 2 * rounding) * (1 + rounding) * (1 + rounding) * J"
    by (simp add: mult.commute mult.left_commute)
  also have "\<dots> \<le> (1 + 8 * rounding) * J" using assms(3) by (intro mult_right_mono) (simp_all add: rounding_def)
  also have "\<dots> \<le> J + 8 * rounding" using assms(4) rounding_pos by (simp add: algebra_simps)
  finally show ?thesis .
qed

lemma jittered_le:
  assumes "0 \<le> r" "r \<le> 1" "0 \<le> J" "J \<le> 1" "0 \<le> d"
  shows "jittered J r d \<le> d * (1 + J + slack)"
proof -
  let ?g = "float64 (1 + float64 (float64 (float64 (r * 2) - 1) * J))" and ?u = rounding
  have "1 + float64 (float64 (float64 (r * 2) - 1) * J) \<le> 1 + J + 8 * ?u" using jitter_factor [OF assms(1-4)] by linarith
  from float64_le [OF this] have g: "?g \<le> (1 + J + 8 * ?u) * (1 + ?u)" using assms(3) rounding_pos by simp
  have D: "0 \<le> float64 d" "float64 d \<le> d * (1 + ?u)" using float64_nonneg float64_le [of d d] assms(5) by auto
  have "float64 d * ?g \<le> float64 d * ((1 + J + 8 * ?u) * (1 + ?u))" using g D(1) by (rule mult_left_mono)
  also have "\<dots> \<le> d * (1 + ?u) * ((1 + J + 8 * ?u) * (1 + ?u))"
    using D(2) assms(3) rounding_pos by (intro mult_right_mono) auto
  finally have "jittered J r d \<le> d * (1 + ?u) * ((1 + J + 8 * ?u) * (1 + ?u)) * (1 + ?u)"
    unfolding jittered_def using assms(3,5) rounding_pos by (intro float64_le) auto
  also have "\<dots> = d * ((1 + J + 8 * ?u) * ((1 + ?u) * (1 + ?u) * (1 + ?u)))" by (simp add: mult.commute mult.left_commute)
  also have "\<dots> \<le> d * ((1 + J + 8 * ?u) * (1 + 4 * ?u))"
    using assms(3,5) rounding_pos by (intro mult_left_mono) (simp_all add: rounding_def)
  also have "\<dots> \<le> d * (1 + J + slack)"
  proof (rule mult_left_mono [OF _ assms(5)])
    have "(1 + J + 8 * ?u) * (4 * ?u) \<le> 3 * (4 * ?u)" using assms(4) rounding_pos by (intro mult_right_mono) auto
    moreover have "8 * ?u + 3 * (4 * ?u) \<le> slack" by (simp add: rounding_def slack_def)
    moreover have "(1 + J + 8 * ?u) * (1 + 4 * ?u) = 1 + J + 8 * ?u + (1 + J + 8 * ?u) * (4 * ?u)" by (simp add: algebra_simps)
    ultimately show "(1 + J + 8 * ?u) * (1 + 4 * ?u) \<le> 1 + J + slack" by linarith
  qed
  finally show ?thesis .
qed

lemma jittered_ge:
  assumes "0 \<le> r" "r \<le> 1" "0 \<le> J" "J \<le> 1" "0 \<le> d" and pos: "8 * rounding \<le> 1 - J"
  shows "d * (1 - J - slack) \<le> jittered J r d" "0 \<le> jittered J r d"
proof -
  let ?g = "float64 (1 + float64 (float64 (float64 (r * 2) - 1) * J))" and ?u = rounding
  let ?m = "1 - J - 8 * ?u"
  have "?m \<le> 1 + float64 (float64 (float64 (r * 2) - 1) * J)" using jitter_factor [OF assms(1-4)] by linarith
  from float64_ge [OF this] have g: "?m * (1 - ?u) \<le> ?g" using pos by simp
  have D: "d * (1 - ?u) \<le> float64 d" "0 \<le> d * (1 - ?u)" using float64_ge [of d d] assms(5) rounding_pos by auto
  have nn: "0 \<le> ?m * (1 - ?u)" using pos rounding_pos by simp
  have "d * (1 - ?u) * (?m * (1 - ?u)) \<le> float64 d * ?g" using D g nn by (intro mult_mono) auto
  from float64_ge [OF this] D(2) nn have low: "d * (1 - ?u) * (?m * (1 - ?u)) * (1 - ?u) \<le> jittered J r d"
    unfolding jittered_def by simp
  have "0 \<le> d * (1 - ?u) * (?m * (1 - ?u)) * (1 - ?u)"
    using mult_nonneg_nonneg [OF mult_nonneg_nonneg [OF D(2) nn], of "1 - ?u"] rounding_pos by simp
  with low show "0 \<le> jittered J r d" by linarith
  have "d * (1 - J - slack) \<le> d * (?m * (1 - 3 * ?u))"
  proof (rule mult_left_mono [OF _ assms(5)])
    have "?m * (3 * ?u) \<le> 1 * (3 * ?u)" using assms(3) rounding_pos by (intro mult_right_mono) auto
    moreover have "8 * ?u + 3 * ?u \<le> slack" by (simp add: rounding_def slack_def)
    moreover have "?m * (1 - 3 * ?u) = ?m - ?m * (3 * ?u)" by (simp add: algebra_simps)
    ultimately show "1 - J - slack \<le> ?m * (1 - 3 * ?u)" by linarith
  qed
  also have "\<dots> \<le> d * (?m * ((1 - ?u) * (1 - ?u) * (1 - ?u)))"
    using assms(5) pos by (intro mult_left_mono) (simp_all add: rounding_def)
  also have "\<dots> = d * (1 - ?u) * (?m * (1 - ?u)) * (1 - ?u)" by (simp add: mult.commute mult.left_commute)
  finally show "d * (1 - J - slack) \<le> jittered J r d" using low by linarith
qed

lemma delay_bounds:
  assumes o: "0 < do_base opt" "0 < do_cap opt" "do_cap opt < 2 ^ 62" "do_base opt < 2 ^ 62"
    and j: "0 < do_jitter opt" "do_jitter opt \<le> 1" and r: "0 \<le> r" "r \<le> 1"
  shows "0 \<le> delayFor opt r n \<and> of_int (delayFor opt r n) \<le> of_int (backoff opt n) * (1 + do_jitter opt + slack)
    \<and> of_int (backoff opt n) * (1 - do_jitter opt - slack) < of_int (delayFor opt r n) + 1"
proof -
  let ?b = "backoff opt n" and ?J = "do_jitter opt"
  let ?x = "jittered ?J r (of_int ?b)"
  have b: "0 < (of_int ?b :: rat)" using backoff_nonneg [OF o(1,2), of n] by simp
  have d: "delayFor opt r n = max 0 (trunc_rat ?x)"
    using delayFor_split [of opt r n] delay_backoff [OF o] j(1) by (simp add: Let_def)
  have J: "0 \<le> ?J" using j(1) by simp
  note le = jittered_le [OF r J j(2), of "of_int ?b"] and ge = jittered_ge [OF r J j(2), of "of_int ?b"]
  have top: "0 \<le> of_int ?b * (1 + ?J + slack)" using b J by (simp add: slack_def)
  show ?thesis
  proof (cases "0 \<le> ?x")
    case True
    note t = trunc_between [OF True]
    have "of_int ?b * (1 - ?J - slack) \<le> ?x"
    proof (cases "8 * rounding \<le> 1 - ?J")
      case small: True
      then show ?thesis using ge(1) b by simp
    next
      case False
      then have "1 - ?J - slack < 0" by (simp add: rounding_def slack_def)
      with b have "of_int ?b * (1 - ?J - slack) \<le> 0" by (simp add: mult_le_0_iff)
      with True show ?thesis by linarith
    qed
    with t le b show ?thesis by (simp add: d)
  next
    case False
    then have "trunc_rat ?x \<le> 0" by (intro trunc_negative) simp
    moreover have "\<not> 8 * rounding \<le> 1 - ?J" using ge(2) b False by force
    then have "1 - ?J - slack < 0" by (simp add: rounding_def slack_def)
    with b have "of_int ?b * (1 - ?J - slack) \<le> 0" by (simp add: mult_le_0_iff)
    ultimately show ?thesis using top by (simp add: d max_def)
  qed
qed

text \<open>The round in which the loop ends with a successful dial: all earlier ones failed and nothing was cancelled.\<close>

definition goes_on :: "dial_round \<Rightarrow> bool" where
  "goes_on r \<longleftrightarrow> \<not> rd_cancel_before r \<and> \<not> rd_dial_ok r \<and> \<not> rd_cancel_after r \<and> \<not> rd_cancel_wait r"

lemma loop_from_spec:
  "loop_from opt n rs = (res, ds) \<Longrightarrow>
     length ds \<le> length rs \<and> (\<forall>i < length ds. ds ! i = delayFor opt (rd_rand (rs ! i)) (n + i))
     \<and> (res = Some DialOk \<longleftrightarrow> (\<exists>k < length rs. rd_dial_ok (rs ! k) \<and> \<not> rd_cancel_before (rs ! k)
          \<and> (\<forall>j < k. goes_on (rs ! j)) \<and> length ds = k))
     \<and> (res = None \<longleftrightarrow> (\<forall>r \<in> set rs. goes_on r))
     \<and> (res = Some DialCancelled \<longleftrightarrow> (\<exists>k < length rs. \<not> goes_on (rs ! k)
          \<and> (rd_dial_ok (rs ! k) \<longrightarrow> rd_cancel_before (rs ! k)) \<and> (\<forall>j < k. goes_on (rs ! j))))"
proof (induction opt n rs arbitrary: res ds rule: loop_from.induct)
  case (2 opt n r rs)
  show ?case
  proof (cases "goes_on r")
    case False
    with 2(2) have "ds = [] \<or> ds = [delayFor opt (rd_rand r) n]"
      "res = Some (if rd_dial_ok r \<and> \<not> rd_cancel_before r then DialOk else DialCancelled)"
      "rd_dial_ok r \<and> \<not> rd_cancel_before r \<longrightarrow> ds = []"
      by (auto simp: goes_on_def Let_def split: if_splits)
    moreover have "(\<forall>j < k. goes_on ((r # rs) ! j)) \<longleftrightarrow> k = 0" for k using False by (cases k) (simp_all add: All_less_Suc2)
    moreover have "\<not> (\<forall>x \<in> set (r # rs). goes_on x)" using False by simp
    moreover have "(\<exists>k < length (r # rs). \<not> goes_on ((r # rs) ! k)
          \<and> (rd_dial_ok ((r # rs) ! k) \<longrightarrow> rd_cancel_before ((r # rs) ! k)) \<and> (\<forall>j < k. goes_on ((r # rs) ! j)))
        \<longleftrightarrow> (rd_dial_ok r \<longrightarrow> rd_cancel_before r)" using False by (simp add: Ex_less_Suc2 All_less_Suc2)
    ultimately show ?thesis by (cases "rd_dial_ok r \<and> \<not> rd_cancel_before r") (elim disjE; simp)+
  next
    case True
    obtain res' ds' where l: "loop_from opt (Suc n) rs = (res', ds')" by (cases "loop_from opt (Suc n) rs")
    from 2(2) True l have r: "res = res'" "ds = delayFor opt (rd_rand r) n # ds'" by (auto simp: goes_on_def Let_def)
    from True have c: "\<not> rd_cancel_before r" "\<not> rd_dial_ok r" "\<not> rd_cancel_after r" "\<not> rd_cancel_wait r"
      by (auto simp: goes_on_def)
    note ih = 2(1) [OF c(1-3) refl c(4) l]
    have "(\<exists>k < length (r # rs). rd_dial_ok ((r # rs) ! k) \<and> \<not> rd_cancel_before ((r # rs) ! k)
          \<and> (\<forall>j < k. goes_on ((r # rs) ! j)) \<and> length ds = k)
      \<longleftrightarrow> (\<exists>k < length rs. rd_dial_ok (rs ! k) \<and> \<not> rd_cancel_before (rs ! k)
          \<and> (\<forall>j < k. goes_on (rs ! j)) \<and> length ds' = k)"
      using c(2) True r(2) by (simp add: Ex_less_Suc2 All_less_Suc2)
    moreover have "\<forall>i < length ds. ds ! i = delayFor opt (rd_rand ((r # rs) ! i)) (n + i)"
      using ih r(2) by (simp add: All_less_Suc2)
    moreover have "length ds \<le> length (r # rs)" using ih r(2) by simp
    moreover have "res = None \<longleftrightarrow> (\<forall>x \<in> set (r # rs). goes_on x)" using ih r(1) True by simp
    moreover have "(\<exists>k < length (r # rs). \<not> goes_on ((r # rs) ! k)
          \<and> (rd_dial_ok ((r # rs) ! k) \<longrightarrow> rd_cancel_before ((r # rs) ! k)) \<and> (\<forall>j < k. goes_on ((r # rs) ! j)))
        \<longleftrightarrow> (\<exists>k < length rs. \<not> goes_on (rs ! k)
          \<and> (rd_dial_ok (rs ! k) \<longrightarrow> rd_cancel_before (rs ! k)) \<and> (\<forall>j < k. goes_on (rs ! j)))"
      using True by (simp add: Ex_less_Suc2 All_less_Suc2)
    ultimately show ?thesis using ih r(1) by simp
  qed
qed auto

text \<open>C37: The retry loop with a jitter \<open>J\<close>, \<open>0 < J \<le> 1\<close> (the documented default is 0.2), caps below \<open>2^61\<close> nanoseconds
  (73 years), bases below \<open>2^62\<close> and random numbers in \<open>[0, 1]\<close>.  The i-th wait is not negative and within the fraction \<open>J + 2^-48\<close>, and
  less than a nanosecond, of \<open>min cap (base * 2^i)\<close>, the \<open>2^-48\<close> being more than all roundings of the
  floating point; the doubling never overflows.  The loop returns success exactly when some dial succeeds before
  anything is cancelled, after as many waits as there were failures; it is cancelled exactly when a cancellation comes
  first; and it keeps running exactly while every dial fails and nothing is cancelled.  Options with the jitter 0,
  which the documentation says become 0.2 and the code leaves at 0, are not part of this
  (\<open>zero_options_no_jitter\<close>).\<close>

theorem dial_loop_spec:
  assumes "Loop opts rs = (res, ds)"
    and "do_cap opts < 2 ^ 61" "do_base opts < 2 ^ 62"
    and "0 < do_jitter opts" "do_jitter opts \<le> 1" and "\<forall>r \<in> set rs. 0 \<le> rd_rand r \<and> rd_rand r \<le> 1"
  shows "(\<forall>i < length ds. 0 \<le> ds ! i
        \<and> of_int (ds ! i) \<le> of_int (backoff (withDefaults opts) i) * (1 + do_jitter opts + slack)
        \<and> of_int (backoff (withDefaults opts) i) * (1 - do_jitter opts - slack) < of_int (ds ! i) + 1)
    \<and> (res = Some DialOk \<longleftrightarrow> (\<exists>k < length rs. rd_dial_ok (rs ! k) \<and> \<not> rd_cancel_before (rs ! k)
          \<and> (\<forall>j < k. goes_on (rs ! j)) \<and> length ds = k))
    \<and> (res = Some DialCancelled \<longleftrightarrow> (\<exists>k < length rs. \<not> goes_on (rs ! k)
          \<and> (rd_dial_ok (rs ! k) \<longrightarrow> rd_cancel_before (rs ! k)) \<and> (\<forall>j < k. goes_on (rs ! j))))
    \<and> (res = None \<longleftrightarrow> (\<forall>r \<in> set rs. goes_on r))"
proof -
  let ?o = "withDefaults opts"
  have o: "0 < do_base ?o" "0 < do_cap ?o" "do_cap ?o < 2 ^ 62" "do_base ?o < 2 ^ 62" "do_jitter ?o = do_jitter opts"
    using assms(2,3) by (auto simp: withDefaults_def Let_def)
  note l = loop_from_spec [OF assms(1) [unfolded Loop_def]]
  have "0 \<le> ds ! i \<and> of_int (ds ! i) \<le> of_int (backoff ?o i) * (1 + do_jitter opts + slack)
        \<and> of_int (backoff ?o i) * (1 - do_jitter opts - slack) < of_int (ds ! i) + 1" if i: "i < length ds" for i
  proof -
    have "rs ! i \<in> set rs" using i l by auto
    with assms(6) have "0 \<le> rd_rand (rs ! i)" "rd_rand (rs ! i) \<le> 1" by auto
    from delay_bounds [OF o(1-4) _ _ this, of i] l i assms(4,5) o(5) show ?thesis by auto
  qed
  with l show ?thesis by auto
qed

text \<open>The documentation promises a jitter of 0.2 for zero options; the defaults leave it at 0.\<close>

lemma zero_options_no_jitter:
  "delayFor (withDefaults \<lparr>do_base = 0, do_cap = 0, do_jitter = 0\<rparr>) r 0 = 500000000"
  by (simp add: delayFor_def withDefaults_def)

theorem dial_loop_spec_witness:
  "\<exists>d. Loop \<lparr>do_base = 0, do_cap = 0, do_jitter = 1 / 5\<rparr>
     [\<lparr>rd_cancel_before = False, rd_dial_ok = False, rd_cancel_after = False, rd_cancel_wait = False, rd_rand = 0\<rparr>,
      \<lparr>rd_cancel_before = False, rd_dial_ok = True, rd_cancel_after = False, rd_cancel_wait = False, rd_rand = 0\<rparr>]
   = (Some DialOk, [d]) \<and> 399999998 \<le> d \<and> d \<le> 600000001"
proof -
  let ?o = "\<lparr>do_base = 0, do_cap = 0, do_jitter = 1 / 5 :: rat\<rparr>"
  let ?rs = "[\<lparr>rd_cancel_before = False, rd_dial_ok = False, rd_cancel_after = False, rd_cancel_wait = False, rd_rand = 0\<rparr>,
      \<lparr>rd_cancel_before = False, rd_dial_ok = True, rd_cancel_after = False, rd_cancel_wait = False, rd_rand = 0\<rparr>]"
  obtain d where d: "Loop ?o ?rs = (Some DialOk, [d])" by (simp add: Loop_def Let_def)
  have b: "backoff (withDefaults ?o) 0 = 500000000" by (simp add: backoff_def withDefaults_def)
  from dial_loop_spec [OF d]
  have "of_int d \<le> (500000000 :: rat) * (1 + 1 / 5 + slack)" "(500000000 :: rat) * (1 - 1 / 5 - slack) < of_int d + 1"
    by (simp_all add: b)
  then have "(of_int d :: rat) \<le> of_int 600000001" "(of_int 399999998 :: rat) \<le> of_int d" by (simp_all add: slack_def)
  then have "399999998 \<le> d" "d \<le> 600000001" by (simp_all only: of_int_le_iff)
  with d show ?thesis by blast
qed

end
