(* ===== verification/E2E.thy ===== *)
theory E2E
  imports Os Base64
begin

text \<open>
  \<open>internal/e2e\<close>: static keys, the Noise IK handshake of bridge and daemon, and the sessions that come
  out of it.  The Noise library and X25519 are third-party code: a record of functions that the
  definitions take as an argument.  \<open>'h\<close> is the library's handshake state, \<open>'c\<close> its cipher state.
\<close>

section \<open>The library\<close>

record ('h, 'c) noise_lib =
  nz_new :: "bool \<Rightarrow> bytes \<Rightarrow> bytes \<times> bytes \<Rightarrow> bytes option \<Rightarrow> string + 'h"
  nz_write :: "'h \<Rightarrow> (string + (bytes \<times> ('c \<times> 'c) option)) \<times> 'h"
  nz_read :: "'h \<Rightarrow> bytes \<Rightarrow> (string + ('c \<times> 'c) option) \<times> 'h"
  nz_peer :: "'h \<Rightarrow> bytes"
  nz_encrypt :: "'c \<Rightarrow> bytes \<Rightarrow> bytes \<Rightarrow> (string + bytes) \<times> 'c"
  nz_decrypt :: "'c \<Rightarrow> bytes \<Rightarrow> bytes \<Rightarrow> (string + bytes) \<times> 'c"

section \<open>Keys\<close>

record static_key =
  sk_private :: bytes
  sk_public :: bytes

definition PubBase64 :: "static_key \<Rightarrow> string" where
  "PubBase64 k = base64_encode (sk_public k)"

definition SaveKey :: "static_key \<Rightarrow> string \<Rightarrow> (os_error, unit) io" where
  "SaveKey k path = os_write_file path (sk_private k) 384"

datatype key_error = KeyOs os_error | KeySize | KeyDerive string | KeyBase64

definition LoadStatic :: "(bytes \<Rightarrow> string + bytes) \<Rightarrow> string \<Rightarrow> (key_error, static_key) io" where
  "LoadStatic x25519 path =
     io_bind (on_err KeyOs (os_read_file path)) (\<lambda>data.
       if length data \<noteq> 32 then io_fail KeySize
       else case x25519 data of
         Inl e \<Rightarrow> io_fail (KeyDerive e)
       | Inr pub \<Rightarrow> io_ret \<lparr>sk_private = data, sk_public = pub\<rparr>)"

definition PubFromBase64 :: "string \<Rightarrow> key_error + bytes" where
  "PubFromBase64 s = (case base64_decode s of
       None \<Rightarrow> Err KeyBase64
     | Some b \<Rightarrow> if length b \<noteq> 32 then Err KeySize else Ok b)"

section \<open>Sessions\<close>

record 'c e2e_session =
  se_send :: 'c
  se_recv :: 'c

definition Encrypt :: "('h, 'c) noise_lib \<Rightarrow> bytes \<Rightarrow> bytes \<Rightarrow> 'c e2e_session \<Rightarrow> (string + bytes) \<times> 'c e2e_session" where
  "Encrypt nz ad pt s = (let (r, c) = nz_encrypt nz (se_send s) ad pt in (r, s\<lparr>se_send := c\<rparr>))"

definition Decrypt :: "('h, 'c) noise_lib \<Rightarrow> bytes \<Rightarrow> bytes \<Rightarrow> 'c e2e_session \<Rightarrow> (string + bytes) \<times> 'c e2e_session" where
  "Decrypt nz ad ct s = (let (r, c) = nz_decrypt nz (se_recv s) ad ct in (r, s\<lparr>se_recv := c\<rparr>))"

section \<open>Handshake\<close>

definition NewInitiator ::
  "('h, 'c) noise_lib \<Rightarrow> static_key option \<Rightarrow> bytes \<Rightarrow> bytes \<Rightarrow> string + 'h" where
  "NewInitiator nz local remoteStatic prologue = (case local of
       None \<Rightarrow> Err ''e2e: nil local key''
     | Some k \<Rightarrow> if length remoteStatic \<noteq> 32 then Err ''e2e: remote static must be 32 bytes''
         else nz_new nz True prologue (sk_private k, sk_public k) (Some remoteStatic))"

definition WriteMessage1 :: "('h, 'c) noise_lib \<Rightarrow> 'h \<Rightarrow> (string + bytes) \<times> 'h" where
  "WriteMessage1 nz h = (let (r, h') = nz_write nz h in (map_sum id fst r, h'))"

definition ReadMessage2 :: "('h, 'c) noise_lib \<Rightarrow> bytes \<Rightarrow> 'h \<Rightarrow> (string + 'c e2e_session) \<times> 'h" where
  "ReadMessage2 nz msg2 h = (let (r, h') = nz_read nz h msg2 in
     (case r of Inl e \<Rightarrow> Err e
      | Inr None \<Rightarrow> Err ''e2e: handshake not finished after msg2''
      | Inr (Some (cs1, cs2)) \<Rightarrow> Ok \<lparr>se_send = cs1, se_recv = cs2\<rparr>, h'))"

record 'h responder =
  rp_hs :: 'h
  rp_peer :: bytes

definition NewResponder :: "('h, 'c) noise_lib \<Rightarrow> static_key option \<Rightarrow> bytes \<Rightarrow> string + 'h responder" where
  "NewResponder nz local prologue = (case local of
       None \<Rightarrow> Err ''e2e: nil local key''
     | Some k \<Rightarrow> (case nz_new nz False prologue (sk_private k, sk_public k) None of
           Inl e \<Rightarrow> Err e | Inr h \<Rightarrow> Ok \<lparr>rp_hs = h, rp_peer = []\<rparr>))"

definition ReadMessage1 :: "('h, 'c) noise_lib \<Rightarrow> bytes \<Rightarrow> 'h responder \<Rightarrow> (string + bytes) \<times> 'h responder" where
  "ReadMessage1 nz msg1 rp = (let (r, h') = nz_read nz (rp_hs rp) msg1 in
     case r of Inl e \<Rightarrow> (Err e, rp\<lparr>rp_hs := h'\<rparr>)
     | Inr _ \<Rightarrow> (Ok (nz_peer nz h'), rp\<lparr>rp_hs := h', rp_peer := nz_peer nz h'\<rparr>))"

definition WriteMessage2 ::
  "('h, 'c) noise_lib \<Rightarrow> 'h responder \<Rightarrow> (string + (bytes \<times> 'c e2e_session)) \<times> 'h responder" where
  "WriteMessage2 nz rp = (let (r, h') = nz_write nz (rp_hs rp) in
     (case r of Inl e \<Rightarrow> Err e
      | Inr (out, None) \<Rightarrow> Err ''e2e: handshake not finished after msg2''
      | Inr (out, Some (cs1, cs2)) \<Rightarrow> Ok (out, \<lparr>se_send = cs2, se_recv = cs1\<rparr>), rp\<lparr>rp_hs := h'\<rparr>))"

section \<open>Keys survive a save and a load\<close>

lemma pub_round_trip: "length (sk_public k) = 32 \<Longrightarrow> PubFromBase64 (PubBase64 k) = Ok (sk_public k)"
  by (simp add: PubFromBase64_def PubBase64_def base64_decode_encode)

lemma pub_from_base64_32: "PubFromBase64 s = Ok b \<Longrightarrow> length b = 32"
  by (auto simp: PubFromBase64_def split: option.splits if_splits)

section \<open>Frames in order\<close>

text \<open>The law of the library's ciphers that the code relies on: two equal cipher states stay equal when one
  encrypts and the other decrypts the result under the same additional data.\<close>

definition cipher_law :: "('h, 'c) noise_lib \<Rightarrow> bool" where
  "cipher_law nz \<longleftrightarrow> (\<forall>c ad pt ct c'. nz_encrypt nz c ad pt = (Ok ct, c') \<longrightarrow> nz_decrypt nz c ad ct = (Ok pt, c'))"

text \<open>Encrypting a list of messages, and decrypting a list of ciphertexts; both stop at the first error.\<close>

fun encrypt_all ::
  "('h, 'c) noise_lib \<Rightarrow> (bytes \<times> bytes) list \<Rightarrow> 'c e2e_session \<Rightarrow> (string + (bytes \<times> bytes) list) \<times> 'c e2e_session" where
  "encrypt_all nz [] s = (Ok [], s)"
| "encrypt_all nz ((ad, pt) # ms) s = (case Encrypt nz ad pt s of
       (Inl e, s') \<Rightarrow> (Err e, s')
     | (Inr ct, s') \<Rightarrow> (let (r, s'') = encrypt_all nz ms s' in (map_sum id (Cons (ad, ct)) r, s'')))"

fun decrypt_all ::
  "('h, 'c) noise_lib \<Rightarrow> (bytes \<times> bytes) list \<Rightarrow> 'c e2e_session \<Rightarrow> (string + (bytes \<times> bytes) list) \<times> 'c e2e_session" where
  "decrypt_all nz [] s = (Ok [], s)"
| "decrypt_all nz ((ad, ct) # ms) s = (case Decrypt nz ad ct s of
       (Inl e, s') \<Rightarrow> (Err e, s')
     | (Inr pt, s') \<Rightarrow> (let (r, s'') = decrypt_all nz ms s' in (map_sum id (Cons (ad, pt)) r, s'')))"

lemma decrypt_encrypt_all:
  assumes law: "cipher_law nz"
  shows "encrypt_all nz ms s = (Ok cs, s') \<Longrightarrow> se_recv t = se_send s \<Longrightarrow>
     \<exists>t'. decrypt_all nz cs t = (Ok ms, t')"
proof (induction ms arbitrary: s cs t)
  case (Cons m ms)
  obtain ad pt where m: "m = (ad, pt)" by (cases m)
  obtain e c where e: "nz_encrypt nz (se_send s) ad pt = (e, c)" by (cases "nz_encrypt nz (se_send s) ad pt")
  from Cons.prems(1) m e obtain ct where ct: "e = Ok ct" by (cases e) (auto simp: Encrypt_def)
  obtain r s'' where r: "encrypt_all nz ms (s\<lparr>se_send := c\<rparr>) = (r, s'')" by (cases "encrypt_all nz ms (s\<lparr>se_send := c\<rparr>)")
  from Cons.prems(1) m e ct r obtain cs' where cs: "r = Ok cs'" "cs = (ad, ct) # cs'" "s'' = s'"
    by (cases r) (auto simp: Encrypt_def)
  have d: "nz_decrypt nz (se_recv t) ad ct = (Ok pt, c)"
    using law e ct Cons.prems(2) unfolding cipher_law_def by metis
  from Cons.IH [OF r [unfolded cs(1) cs(3)], of "t\<lparr>se_recv := c\<rparr>"] obtain t' where
    "decrypt_all nz cs' (t\<lparr>se_recv := c\<rparr>) = (Ok ms, t')" by auto
  with d cs m show ?case by (simp add: Decrypt_def)
qed simp

text \<open>The law of the handshake: with one prologue and the responder's real key, both ends split into the same
  pair of ciphers.\<close>

definition split_law :: "('h, 'c) noise_lib \<Rightarrow> bool" where
  "split_law nz \<longleftrightarrow> (\<forall>pro bk dk h0 m1 h1 r0 x r1 m2 p r2 q h2.
     nz_new nz True pro bk (Some (snd dk)) = Ok h0 \<longrightarrow> nz_write nz h0 = (Ok (m1, x), h1) \<longrightarrow>
     nz_new nz False pro dk None = Ok r0 \<longrightarrow> fst (nz_read nz r0 m1) = Ok q \<longrightarrow> snd (nz_read nz r0 m1) = r1 \<longrightarrow>
     nz_write nz r1 = (Ok (m2, Some p), r2) \<longrightarrow> nz_read nz h1 m2 = (Ok (Some h2), snd (nz_read nz h1 m2)) \<longrightarrow> h2 = p)"

text \<open>C19: A completed handshake gives the two ends opposite sessions.  When bridge and daemon run the exchange
  with the same prologue and the bridge knows the daemon's key, then whatever list of messages either side
  encrypts, in order and each with its own additional data, the other side's session decrypts to that list.\<close>

theorem e2e_channel:
  assumes "cipher_law nz" and "split_law nz"
    and "NewInitiator nz (Some bk) (sk_public dk) pro = Ok h0" and "WriteMessage1 nz h0 = (Ok m1, h1)"
    and "NewResponder nz (Some dk) pro = Ok r0" and "ReadMessage1 nz m1 r0 = (Ok peer, r1)"
    and "WriteMessage2 nz r1 = (Ok (m2, daemon), r2)" and "ReadMessage2 nz m2 h1 = (Ok bridge, h2)"
    and "encrypt_all nz ms bridge = (Ok cs, bridge')" and "encrypt_all nz ns daemon = (Ok ds, daemon')"
  shows "fst (decrypt_all nz cs daemon) = Ok ms \<and> fst (decrypt_all nz ds bridge) = Ok ns"
proof -
  have i: "nz_new nz True pro (sk_private bk, sk_public bk) (Some (sk_public dk)) = Ok h0"
    using assms(3) by (auto simp: NewInitiator_def split: if_splits)
  obtain x where w1: "nz_write nz h0 = (Ok (m1, x), h1)"
    using assms(4) by (cases "nz_write nz h0", cases "fst (nz_write nz h0)") (auto simp: WriteMessage1_def)
  have n: "nz_new nz False pro (sk_private dk, sk_public dk) None = Ok (rp_hs r0)"
    using assms(5) by (auto simp: NewResponder_def split: sum.splits)
  obtain q where q: "fst (nz_read nz (rp_hs r0) m1) = Ok q" "snd (nz_read nz (rp_hs r0) m1) = rp_hs r1"
    using assms(6) by (auto simp: ReadMessage1_def Let_def split: prod.splits sum.splits)
  obtain p hr where p: "nz_write nz (rp_hs r1) = (Ok (m2, Some p), hr)" "daemon = \<lparr>se_send = snd p, se_recv = fst p\<rparr>"
    using assms(7) by (auto simp: WriteMessage2_def split: prod.splits sum.splits option.splits)
  obtain c where c: "nz_read nz h1 m2 = (Ok (Some c), snd (nz_read nz h1 m2))"
    "bridge = \<lparr>se_send = fst c, se_recv = snd c\<rparr>"
    using assms(8) by (auto simp: ReadMessage2_def split: prod.splits sum.splits option.splits)
  have "c = p" using assms(2) i w1 n q p(1) c(1) unfolding split_law_def by (metis snd_conv)
  then have "se_recv daemon = se_send bridge" "se_recv bridge = se_send daemon" using p(2) c(2) by simp_all
  with decrypt_encrypt_all [OF assms(1) assms(9), of daemon] decrypt_encrypt_all [OF assms(1) assms(10), of bridge]
  show ?thesis by auto
qed

text \<open>A library that satisfies both laws: counters for ciphers, a state number for the handshake.\<close>

definition toy_noise :: "(nat, nat) noise_lib" where
  "toy_noise =
     \<lparr>nz_new = (\<lambda>i _ _ _. Ok (if i then 0 else 3)),
      nz_write = (\<lambda>h. (Ok ([], if h = 4 then Some (10, 20) else None), h + 1)),
      nz_read = (\<lambda>h m. (Ok (if h = 1 then Some (10, 20) else None), h + 1)),
      nz_peer = (\<lambda>_. []),
      nz_encrypt = (\<lambda>c ad pt. (Ok (pt @ [word_of_nat c]), c + 1)),
      nz_decrypt = (\<lambda>c ad ct. if ct \<noteq> [] \<and> last ct = word_of_nat c then (Ok (butlast ct), c + 1) else (Err ''mac'', c))\<rparr>"

theorem e2e_channel_witness:
  "fst (decrypt_all toy_noise [([0], [1, 2, 10]), ([1], [3, 11])] \<lparr>se_send = 20, se_recv = 10\<rparr>)
     = Ok [([0], [1, 2]), ([1], [3])]"
proof -
  let ?bk = "\<lparr>sk_private = [], sk_public = []\<rparr>"
  let ?dk = "\<lparr>sk_private = [], sk_public = replicate 32 7\<rparr>"
  have law: "cipher_law toy_noise" by (simp add: cipher_law_def toy_noise_def)
  have split: "split_law toy_noise" by (auto simp: split_law_def toy_noise_def)
  have steps: "NewInitiator toy_noise (Some ?bk) (sk_public ?dk) [] = Ok 0" "WriteMessage1 toy_noise 0 = (Ok [], 1)"
    "NewResponder toy_noise (Some ?dk) [] = Ok \<lparr>rp_hs = 3, rp_peer = []\<rparr>"
    "ReadMessage1 toy_noise [] \<lparr>rp_hs = 3, rp_peer = []\<rparr> = (Ok [], \<lparr>rp_hs = 4, rp_peer = []\<rparr>)"
    "WriteMessage2 toy_noise \<lparr>rp_hs = 4, rp_peer = []\<rparr> = (Ok ([], \<lparr>se_send = 20, se_recv = 10\<rparr>), \<lparr>rp_hs = 5, rp_peer = []\<rparr>)"
    "ReadMessage2 toy_noise [] 1 = (Ok \<lparr>se_send = 10, se_recv = 20\<rparr>, 2)"
    "encrypt_all toy_noise [([0], [1, 2]), ([1], [3])] \<lparr>se_send = 10, se_recv = 20\<rparr>
       = (Ok [([0], [1, 2, 10]), ([1], [3, 11])], \<lparr>se_send = 12, se_recv = 20\<rparr>)"
    "encrypt_all toy_noise [] \<lparr>se_send = 20, se_recv = 10\<rparr> = (Ok [], \<lparr>se_send = 20, se_recv = 10\<rparr>)"
    by (simp_all add: NewInitiator_def NewResponder_def WriteMessage1_def WriteMessage2_def ReadMessage1_def
        ReadMessage2_def Encrypt_def toy_noise_def)
  from e2e_channel [OF law split steps] show ?thesis by simp
qed

end
