(* ===== verification/Search.thy ===== *)
theory Search
  imports Glob
begin

text \<open>
  \<open>internal/tools/search.go\<close> and \<open>internal/searchproto\<close>: searching the files below a directory.  What
  \<open>filepath.WalkDir\<close> visits is a tree in its lexical order; the regular expression engine is the
  argument \<open>compile\<close>, from a pattern to an error or the function that finds the leftmost match in a line.
\<close>

section \<open>Requests, responses, the tree\<close>

record search_request =
  sq_pattern :: string
  sq_path :: string
  sq_regex :: bool
  sq_glob :: string
  sq_nocase :: bool
  sq_max_results :: int
  sq_max_files :: int

record search_match =
  sm_file :: string
  sm_line :: int
  sm_column :: int
  sm_snippet :: string

record search_response =
  sx_results :: "search_match list"
  sx_truncated :: bool
  sx_total :: int
  sx_files :: int
  sx_duration_ms :: int
  sx_err :: string
  sx_detail :: string

text \<open>An entry that cannot be read, a file with its path and contents (or the error of opening it),
  a directory with its name.\<close>

datatype walk_node = WErr | WFile string "os_error + string" | WDir string "walk_node list"

definition SearchDefaultMaxResults :: int where "SearchDefaultMaxResults = 200"
definition SearchDefaultMaxFiles :: int where "SearchDefaultMaxFiles = 10000"
definition SearchSnippetCap :: nat where "SearchSnippetCap = 200"

definition defaultIgnoredDirs :: "string set" where
  "defaultIgnoredDirs = {''.git'', ''node_modules'', ''vendor'', ''__pycache__'', ''.next'', ''dist'', ''build'',
     ''target'', ''.venv'', ''venv'', ''.tox'', ''.pytest_cache'', ''.mypy_cache'', ''.ruff_cache'', ''.idea'',
     ''.vscode'', ''.DS_Store'', ''.cache'', ''.cargo'', ''.gradle'', ''.terraform''}"

section \<open>Helpers of the walk\<close>

definition isBinary :: "string \<Rightarrow> bool" where
  "isBinary buf =
     (if buf = [] then False
      else let code = (\<lambda>c. of_char c :: nat);
               nul = length (filter (\<lambda>c. code c = 0) buf);
               nonPrint = length (filter (\<lambda>c. code c < 7 \<or> (code c > 13 \<and> code c < 32)) buf) in
      if nul > 0 then True else nonPrint * 10 div length buf > 3)"

definition explicitlyLiteral :: "search_request \<Rightarrow> bool" where
  "explicitlyLiteral req = False"

text \<open>The lines of a \<open>bufio.Scanner\<close> with a buffer of 4 MiB: a longer line ends the scan.\<close>

definition drop_cr :: "string \<Rightarrow> string" where
  "drop_cr l = (if l \<noteq> [] \<and> last l = CHR 0x0D then butlast l else l)"

definition max_token :: nat where "max_token = 4194304"

definition scan_lines :: "string \<Rightarrow> string list" where
  "scan_lines s =
     (let ls = split_on (CHR 0x0A) s; ls = (if last ls = [] then butlast ls else ls) in
      map drop_cr (takeWhile (\<lambda>l. length l < max_token) ls))"

fun drop_common :: "string list \<Rightarrow> string list \<Rightarrow> string list \<times> string list" where
  "drop_common (x # xs) (y # ys) = (if x = y then drop_common xs ys else (x # xs, y # ys))"
| "drop_common xs ys = (xs, ys)"

text \<open>\<open>filepath.Rel\<close>; \<open>None\<close> is its error.\<close>

definition path_rel :: "string \<Rightarrow> string \<Rightarrow> string option" where
  "path_rel basepath targpath =
     (let b = path_clean basepath; t = path_clean targpath in
      if b = t then Some ''.''
      else let b = (if b = ''.'' then [] else b) in
      if is_abs b \<noteq> is_abs t then None
      else let (bs, ts) = drop_common (filter (\<lambda>p. p \<noteq> []) (split_on slash b)) (filter (\<lambda>p. p \<noteq> []) (split_on slash t)) in
      if bs \<noteq> [] \<and> hd bs = ''..'' then None
      else Some (join_with [slash] (replicate (length bs) ''..'' @ ts)))"

definition glob_ok :: "search_request \<Rightarrow> string \<Rightarrow> bool" where
  "glob_ok req p =
     (if sq_glob req = [] then True
      else let rel = (case path_rel (sq_path req) p of None \<Rightarrow> [] | Some r \<Rightarrow> r) in
        path_match (sq_glob req) (path_base p) = Some True \<or> path_match (sq_glob req) rel = Some True)"

definition ellipsis :: string where "ellipsis = [CHR 0xE2, CHR 0x80, CHR 0xA6]"

definition snippet_of :: "string \<Rightarrow> string" where
  "snippet_of line = (if length line > SearchSnippetCap then take SearchSnippetCap line @ ellipsis else line)"

section \<open>The walk\<close>

record search_acc =
  ac_results :: "search_match list"
  ac_total :: int
  ac_files :: int
  ac_stopped :: bool

text \<open>\<open>look\<close>: the position of the match in a line, if any.\<close>

fun scan_file :: "(string \<Rightarrow> nat option) \<Rightarrow> int \<Rightarrow> string \<Rightarrow> int \<Rightarrow> string list \<Rightarrow> search_acc \<Rightarrow> search_acc" where
  "scan_file look maxResults p n [] acc = acc"
| "scan_file look maxResults p n (line # ls) acc =
     (let lineNum = n + 1;
          acc = (case look line of
              None \<Rightarrow> acc
            | Some i \<Rightarrow>
                (let acc = acc\<lparr>ac_total := ac_total acc + 1\<rparr> in
                 if int (length (ac_results acc)) < maxResults then
                   acc\<lparr>ac_results := ac_results acc @ [\<lparr>sm_file = p, sm_line = lineNum,
                     sm_column = int i + 1, sm_snippet = snippet_of line\<rparr>]\<rparr>
                 else acc\<lparr>ac_stopped := True\<rparr>))
      in scan_file look maxResults p lineNum ls acc)"

text \<open>The flag of the result is \<open>SkipAll\<close>.\<close>

definition visit_file ::
  "(string \<Rightarrow> nat option) \<Rightarrow> search_request \<Rightarrow> int \<Rightarrow> int \<Rightarrow> string \<Rightarrow> os_error + string \<Rightarrow> search_acc \<Rightarrow> search_acc \<times> bool" where
  "visit_file look req maxResults maxFiles p content acc =
     (let acc = acc\<lparr>ac_files := ac_files acc + 1\<rparr> in
      if ac_files acc > maxFiles then (acc\<lparr>ac_stopped := True\<rparr>, True)
      else if \<not> glob_ok req p then (acc, False)
      else case content of
        Inl _ \<Rightarrow> (acc, False)
      | Inr s \<Rightarrow> if isBinary (take 512 s) then (acc, False)
                 else (scan_file look maxResults p 0 (scan_lines s) acc, False))"

fun walk :: "(string \<Rightarrow> nat option) \<Rightarrow> search_request \<Rightarrow> int \<Rightarrow> int \<Rightarrow> walk_node \<Rightarrow> search_acc \<Rightarrow> search_acc \<times> bool"
  and walk_all :: "(string \<Rightarrow> nat option) \<Rightarrow> search_request \<Rightarrow> int \<Rightarrow> int \<Rightarrow> walk_node list \<Rightarrow> search_acc \<Rightarrow> search_acc \<times> bool" where
  "walk look req mr mf WErr acc = (acc, False)"
| "walk look req mr mf (WFile p c) acc = visit_file look req mr mf p c acc"
| "walk look req mr mf (WDir name cs) acc =
     (if name \<in> defaultIgnoredDirs then (acc, False) else walk_all look req mr mf cs acc)"
| "walk_all look req mr mf [] acc = (acc, False)"
| "walk_all look req mr mf (c # cs) acc =
     (case walk look req mr mf c acc of
        (acc', True) \<Rightarrow> (acc', True) | (acc', False) \<Rightarrow> walk_all look req mr mf cs acc')"

definition sx_fail :: "string \<Rightarrow> string \<Rightarrow> search_response" where
  "sx_fail e d = \<lparr>sx_results = [], sx_truncated = False, sx_total = 0, sx_files = 0, sx_duration_ms = 0,
     sx_err = e, sx_detail = d\<rparr>"

text \<open>The finder of a request: with the regular expression, or with the literal text.\<close>

definition finder :: "(string \<Rightarrow> string + (string \<Rightarrow> nat option)) \<Rightarrow> search_request \<Rightarrow> string + (string \<Rightarrow> nat option)" where
  "finder compile req =
     (if sq_regex req \<or> \<not> explicitlyLiteral req then
        compile ((if sq_nocase req then ''(?i)'' else []) @ sq_pattern req)
      else let low = (\<lambda>s. if sq_nocase req then to_lower s else s) in
        Ok (\<lambda>line. str_index (low line) (low (sq_pattern req))))"

definition default_to :: "int \<Rightarrow> int \<Rightarrow> int" where
  "default_to d v = (if v \<le> 0 then d else v)"

definition Search ::
  "(string \<Rightarrow> string + (string \<Rightarrow> nat option)) \<Rightarrow> walk_node \<Rightarrow> int \<Rightarrow> search_request \<Rightarrow> search_response" where
  "Search compile tree ms req =
     (if sq_pattern req = [] then sx_fail ''bad_payload'' ''pattern required''
      else if sq_path req = [] then sx_fail ''bad_payload'' ''path required''
      else let maxResults = default_to SearchDefaultMaxResults (sq_max_results req);
               maxFiles = default_to SearchDefaultMaxFiles (sq_max_files req) in
      case finder compile req of
        Inl e \<Rightarrow> sx_fail ''bad_pattern'' e
      | Inr look \<Rightarrow>
          (let acc = fst (walk look req maxResults maxFiles tree
                 \<lparr>ac_results = [], ac_total = 0, ac_files = 0, ac_stopped = False\<rparr>)
           in \<lparr>sx_results = ac_results acc, sx_truncated = ac_stopped acc, sx_total = ac_total acc,
               sx_files = ac_files acc, sx_duration_ms = ms, sx_err = [], sx_detail = []\<rparr>))"

definition SearchSummaryLine :: "search_match \<Rightarrow> string" where
  "SearchSummaryLine m = sm_file m @ '':'' @ itoa (sm_line m) @ '':'' @ itoa (sm_column m) @ '': '' @ sm_snippet m"

section \<open>The reference: all matches of the files in order\<close>

fun files_of :: "walk_node \<Rightarrow> (string \<times> (os_error + string)) list" where
  "files_of WErr = []"
| "files_of (WFile p c) = [(p, c)]"
| "files_of (WDir name cs) = (if name \<in> defaultIgnoredDirs then [] else concat (map files_of cs))"

definition matches_of :: "(string \<Rightarrow> nat option) \<Rightarrow> string \<Rightarrow> string list \<Rightarrow> search_match list" where
  "matches_of look p ls =
     concat (map (\<lambda>(n, line). case look line of None \<Rightarrow> []
         | Some i \<Rightarrow> [\<lparr>sm_file = p, sm_line = int n, sm_column = int i + 1, sm_snippet = snippet_of line\<rparr>])
       (enumerate 1 ls))"

definition file_matches :: "(string \<Rightarrow> nat option) \<Rightarrow> search_request \<Rightarrow> string \<times> (os_error + string) \<Rightarrow> search_match list" where
  "file_matches look req pc = (case pc of (p, c) \<Rightarrow>
     if \<not> glob_ok req p then [] else case c of Inl _ \<Rightarrow> []
     | Inr s \<Rightarrow> if isBinary (take 512 s) then [] else matches_of look p (scan_lines s))"

text \<open>The accumulator after the files \<open>fs\<close>.\<close>

definition acc_after :: "(string \<Rightarrow> nat option) \<Rightarrow> search_request \<Rightarrow> int \<Rightarrow> (string \<times> (os_error + string)) list \<Rightarrow> search_acc" where
  "acc_after look req mr fs =
     (let ms = concat (map (file_matches look req) fs) in
      \<lparr>ac_results = take (nat mr) ms, ac_total = int (length ms), ac_files = int (length fs),
       ac_stopped = int (length ms) > mr\<rparr>)"

lemma scan_file_spec:
  assumes "0 < mr"
  shows "ac_results acc = take (nat mr) ms \<Longrightarrow> ac_total acc = int (length ms) \<Longrightarrow>
    ac_stopped acc = (int (length ms) > mr) \<Longrightarrow>
    scan_file look mr p (int n) ls acc =
      (let ms' = ms @ concat (map (\<lambda>(n, line). case look line of None \<Rightarrow> []
         | Some i \<Rightarrow> [\<lparr>sm_file = p, sm_line = int n, sm_column = int i + 1, sm_snippet = snippet_of line\<rparr>])
         (enumerate (Suc n) ls))
       in acc\<lparr>ac_results := take (nat mr) ms', ac_total := int (length ms'), ac_stopped := int (length ms') > mr\<rparr>)"
proof (induction ls arbitrary: acc ms n)
  case Nil
  then show ?case by (simp add: Let_def)
next
  case (Cons line ls)
  have suc: "int n + 1 = int (Suc n)" by simp
  show ?case
  proof (cases "look line")
    case None
    from Cons.IH [OF Cons.prems, of "Suc n"] None show ?thesis by (simp add: Let_def suc del: of_nat_Suc)
  next
    case (Some i)
    let ?m = "\<lparr>sm_file = p, sm_line = int (Suc n), sm_column = int i + 1, sm_snippet = snippet_of line\<rparr>"
    let ?acc = "acc\<lparr>ac_total := ac_total acc + 1\<rparr>"
    let ?acc' = "if int (length (ac_results ?acc)) < mr then ?acc\<lparr>ac_results := ac_results ?acc @ [?m]\<rparr>
      else ?acc\<lparr>ac_stopped := True\<rparr>"
    have len: "int (length (ac_results acc)) < mr \<longleftrightarrow> int (length ms) < mr" using Cons.prems(1) assms by auto
    have r: "ac_results ?acc' = take (nat mr) (ms @ [?m])" "ac_total ?acc' = int (length (ms @ [?m]))"
      "ac_stopped ?acc' = (int (length (ms @ [?m])) > mr)"
      using Cons.prems len by (auto simp: take_Cons' not_less)
    have step: "scan_file look mr p (int n) (line # ls) acc = scan_file look mr p (int (Suc n)) ls ?acc'"
      using Some by (simp add: Let_def add.commute)
    have "scan_file look mr p (int (Suc n)) ls ?acc' = (let ms' = (ms @ [?m]) @ concat (map (\<lambda>(n, line). case look line of None \<Rightarrow> []
         | Some i \<Rightarrow> [\<lparr>sm_file = p, sm_line = int n, sm_column = int i + 1, sm_snippet = snippet_of line\<rparr>])
         (enumerate (Suc (Suc n)) ls))
       in ?acc'\<lparr>ac_results := take (nat mr) ms', ac_total := int (length ms'), ac_stopped := int (length ms') > mr\<rparr>)"
      by (rule Cons.IH [OF r])
    then show ?thesis unfolding step using Some by (simp add: Let_def)
  qed
qed

lemma scan_file_matches:
  assumes "0 < mr" "acc = acc_after look req mr fs"
  shows "scan_file look mr p 0 ls acc =
    (let ms' = concat (map (file_matches look req) fs) @ matches_of look p ls
     in acc\<lparr>ac_results := take (nat mr) ms', ac_total := int (length ms'), ac_stopped := int (length ms') > mr\<rparr>)"
  using scan_file_spec [OF assms(1), of acc "concat (map (file_matches look req) fs)" look p 0 ls] assms(2)
  by (simp add: acc_after_def matches_of_def Let_def)

definition acc_full :: "(string \<Rightarrow> nat option) \<Rightarrow> search_request \<Rightarrow> int \<Rightarrow> int \<Rightarrow> (string \<times> (os_error + string)) list \<Rightarrow> search_acc \<times> bool" where
  "acc_full look req mr mf fs =
     (if int (length fs) \<le> mf then (acc_after look req mr fs, False)
      else ((acc_after look req mr (take (nat mf) fs))\<lparr>ac_files := mf + 1, ac_stopped := True\<rparr>, True))"

lemma visit_file_spec:
  assumes mr: "0 < mr" and fs: "int (length fs) \<le> mf"
  shows "visit_file look req mr mf p c (acc_after look req mr fs) = acc_full look req mr mf (fs @ [(p, c)])"
proof (cases "int (length fs) + 1 > mf")
  case True
  with fs have "nat mf = length fs" by linarith
  with True fs show ?thesis by (simp add: visit_file_def acc_full_def acc_after_def Let_def)
next
  case False
  let ?acc = "acc_after look req mr fs"
  have files: "ac_files ?acc = int (length fs)" by (simp add: acc_after_def Let_def)
  have goal: "acc_full look req mr mf (fs @ [(p, c)]) = (acc_after look req mr (fs @ [(p, c)]), False)" for c
    using False by (simp add: acc_full_def)
  have empty: "file_matches look req (p, c) = [] \<Longrightarrow> acc_after look req mr (fs @ [(p, c)]) = ?acc\<lparr>ac_files := ac_files ?acc + 1\<rparr>" for c
    by (simp add: acc_after_def Let_def)
  consider "\<not> glob_ok req p" | e where "glob_ok req p" "c = Inl e"
    | s where "glob_ok req p" "c = Inr s" "isBinary (take 512 s)" | s where "glob_ok req p" "c = Inr s" "\<not> isBinary (take 512 s)"
    by (metis sum.exhaust)
  then show ?thesis
  proof cases
    case 4
    have a: "ac_results (?acc\<lparr>ac_files := int (length fs) + 1\<rparr>) = take (nat mr) (concat (map (file_matches look req) fs))"
      "ac_total (?acc\<lparr>ac_files := int (length fs) + 1\<rparr>) = int (length (concat (map (file_matches look req) fs)))"
      "ac_stopped (?acc\<lparr>ac_files := int (length fs) + 1\<rparr>) = (int (length (concat (map (file_matches look req) fs))) > mr)"
      by (simp_all add: acc_after_def Let_def)
    have v: "visit_file look req mr mf p c ?acc =
        (scan_file look mr p 0 (scan_lines s) (?acc\<lparr>ac_files := int (length fs) + 1\<rparr>), False)"
      using False 4 by (simp add: visit_file_def files)
    have m: "file_matches look req (p, c) = matches_of look p (scan_lines s)"
      using 4 by (simp add: file_matches_def)
    show ?thesis
      unfolding v goal using scan_file_spec [OF mr a, of look p 0 "scan_lines s"]
      by (simp add: acc_after_def m) (simp add: matches_of_def Let_def)
  qed (use False files in \<open>simp_all add: visit_file_def goal empty file_matches_def Let_def\<close>)
qed

lemma acc_full_more: "int (length fs) \<le> mf \<Longrightarrow> snd (acc_full look req mr mf (fs @ gs)) \<Longrightarrow>
    acc_full look req mr mf (fs @ gs @ hs) = acc_full look req mr mf (fs @ gs)"
  by (auto simp: acc_full_def split: if_splits)

lemma walk_all_spec:
  assumes "\<And>c fs. c \<in> set cs \<Longrightarrow> int (length fs) \<le> mf \<Longrightarrow>
    walk look req mr mf c (acc_after look req mr fs) = acc_full look req mr mf (fs @ files_of c)"
  shows "int (length fs) \<le> mf \<Longrightarrow> walk_all look req mr mf cs (acc_after look req mr fs) =
    acc_full look req mr mf (fs @ concat (map files_of cs))"
  using assms
proof (induction cs arbitrary: fs)
  case Nil
  then show ?case by (simp add: acc_full_def)
next
  case (Cons c cs)
  let ?fs = "fs @ files_of c"
  have w: "walk look req mr mf c (acc_after look req mr fs) = acc_full look req mr mf ?fs"
    using Cons.prems by simp
  show ?case
  proof (cases "int (length ?fs) \<le> mf")
    case True
    then have f: "acc_full look req mr mf ?fs = (acc_after look req mr ?fs, False)" by (simp add: acc_full_def)
    have "walk_all look req mr mf cs (acc_after look req mr ?fs) = acc_full look req mr mf (?fs @ concat (map files_of cs))"
      using True Cons.prems(2) by (intro Cons.IH) auto
    then show ?thesis using w f by simp
  next
    case False
    then obtain a where f: "acc_full look req mr mf ?fs = (a, True)" by (simp add: acc_full_def)
    with acc_full_more [OF Cons.prems(1), of look req mr "files_of c" "concat (map files_of cs)"] w show ?thesis by simp
  qed
qed

lemma walk_spec:
  assumes "0 < mr"
  shows "int (length fs) \<le> mf \<Longrightarrow>
    walk look req mr mf node (acc_after look req mr fs) = acc_full look req mr mf (fs @ files_of node)"
proof (induction node arbitrary: fs)
  case WErr
  then show ?case by (simp add: acc_full_def)
next
  case (WFile p c)
  then show ?case using visit_file_spec [OF assms] by simp
next
  case (WDir name cs)
  show ?case
  proof (cases "name \<in> defaultIgnoredDirs")
    case True
    with WDir.prems show ?thesis by (simp add: acc_full_def)
  next
    case False
    have "walk_all look req mr mf cs (acc_after look req mr fs) = acc_full look req mr mf (fs @ concat (map files_of cs))"
      by (rule walk_all_spec [OF WDir.IH WDir.prems])
    with False show ?thesis by simp
  qed
qed

text \<open>A pattern is always compiled: the literal branch is never taken.\<close>

lemma finder_compiles: "finder compile req = compile ((if sq_nocase req then ''(?i)'' else []) @ sq_pattern req)"
  by (simp add: finder_def explicitlyLiteral_def)

text \<open>A buffer without a NUL counts as binary from 40 per cent of control characters on, for the division
  is of integers.\<close>

lemma isBinary_iff:
  assumes "CHR 0x00 \<notin> set buf"
  shows "isBinary buf \<longleftrightarrow>
    buf \<noteq> [] \<and> 4 * length buf \<le> 10 * length (filter (\<lambda>c. (of_char c :: nat) < 7 \<or> (13 < (of_char c :: nat) \<and> (of_char c :: nat) < 32)) buf)"
proof (cases "buf = []")
  case False
  have "(of_char c :: nat) = 0 \<longleftrightarrow> c = CHR 0x00" for c
    by (cases c) (simp add: of_char_def split: if_splits)
  then have "filter (\<lambda>c. (of_char c :: nat) = 0) buf = []" using assms by (auto simp: filter_empty_conv)
  moreover have "0 < length buf" using False by simp
  then have "n * 10 div length buf > 3 \<longleftrightarrow> 4 * length buf \<le> 10 * n" for n :: nat
    by (simp add: Suc_le_eq [symmetric] less_eq_div_iff_mult_less_eq mult.commute numeral_eq_Suc del: mult_Suc mult_Suc_right)
  ultimately show ?thesis using False by (simp add: isBinary_def Let_def)
qed (simp add: isBinary_def)

lemma search_finder:
  fixes tree :: walk_node
  assumes "sq_pattern req \<noteq> []" and "sq_path req \<noteq> []" and "finder compile req = Ok look"
  defines "mr \<equiv> if sq_max_results req \<le> 0 then 200 else sq_max_results req"
  defines "mf \<equiv> if sq_max_files req \<le> 0 then 10000 else sq_max_files req"
  defines "fs \<equiv> files_of tree"
  defines "matches \<equiv> concat (map (file_matches look req) (take (nat mf) fs))"
  shows "Search compile tree ms req =
    \<lparr>sx_results = take (nat mr) matches,
     sx_truncated = (int (length fs) > mf \<or> int (length matches) > mr),
     sx_total = int (length matches), sx_files = min (int (length fs)) (mf + 1), sx_duration_ms = ms,
     sx_err = [], sx_detail = []\<rparr>"
proof -
  have mr: "0 < mr" and mf: "int (length []) \<le> mf" by (auto simp: mr_def mf_def)
  have d: "default_to SearchDefaultMaxResults (sq_max_results req) = mr" "default_to SearchDefaultMaxFiles (sq_max_files req) = mf"
    by (auto simp: default_to_def SearchDefaultMaxResults_def SearchDefaultMaxFiles_def mr_def mf_def)
  have z: "acc_after look req mr [] = \<lparr>ac_results = [], ac_total = 0, ac_files = 0, ac_stopped = False\<rparr>"
    using mr by (simp add: acc_after_def)
  have w: "walk look req mr mf tree \<lparr>ac_results = [], ac_total = 0, ac_files = 0, ac_stopped = False\<rparr> = acc_full look req mr mf fs"
    using walk_spec [OF mr mf, of look req tree] unfolding z fs_def by simp
  show ?thesis
  proof (cases "int (length fs) \<le> mf")
    case True
    then have "take (nat mf) fs = fs" by simp
    with True assms(1-3) w d show ?thesis
      by (simp add: Search_def acc_full_def acc_after_def matches_def Let_def)
  next
    case False
    with assms(1-3) w d show ?thesis
      by (simp add: Search_def acc_full_def acc_after_def matches_def Let_def)
  qed
qed

text \<open>What the documentation of a request asks for: \<open>regex\<close> means a regular expression of the engine,
  and without it the pattern is a literal substring.  The code always compiles the pattern
  (\<open>finder_compiles\<close>).\<close>

definition documented_finder ::
  "(string \<Rightarrow> string + (string \<Rightarrow> nat option)) \<Rightarrow> search_request \<Rightarrow> string + (string \<Rightarrow> nat option)" where
  "documented_finder compile req =
     (let low = (\<lambda>s. if sq_nocase req then to_lower s else s) in
      if sq_regex req then compile ((if sq_nocase req then ''(?i)'' else []) @ sq_pattern req)
      else Ok (\<lambda>line. str_index (low line) (low (sq_pattern req))))"

text \<open>Where the two differ: a request for the literal \<open>a.b.c\<close> finds a line that holds no such text, as
  soon as the engine's dot matches any character.\<close>

theorem literal_searched_as_regex:
  assumes "compile ''a.b.c'' = Ok look" and "look ''aXbXc'' = Some 0"
  shows "sx_total (Search compile (WFile ''f'' (Ok ''aXbXc'')) ms
      \<lparr>sq_pattern = ''a.b.c'', sq_path = ''f'', sq_regex = False, sq_glob = [], sq_nocase = False,
       sq_max_results = 0, sq_max_files = 0\<rparr>) = 1
    \<and> str_index ''aXbXc'' ''a.b.c'' = None"
proof -
  have "str_index ''aXbXc'' ''a.b.c'' = None" by code_simp
  with assms show ?thesis
    by (simp add: Search_def finder_compiles visit_file_def default_to_def
        SearchDefaultMaxFiles_def SearchDefaultMaxResults_def has_prefix_def isBinary_def
        glob_ok_def scan_lines_def max_token_def drop_cr_def SearchSnippetCap_def snippet_of_def Let_def)
qed


definition todo_compile :: "string \<Rightarrow> string + (string \<Rightarrow> nat option)" where
  "todo_compile p = Ok (\<lambda>line. str_index line p)"

definition todo_tree :: walk_node where
  "todo_tree = WDir ''r'' [WFile ''r/a'' (Ok ''x TODO TODO''), WDir ''vendor'' [WFile ''r/vendor/c'' (Ok ''TODO'')],
     WErr, WFile ''r/b'' (Ok ''TODO'')]"


end
