(* ===== verification/Portforward.thy ===== *)
theory Portforward
  imports Frame Go_Strings
begin

text \<open>
  \<open>internal/tools/portforward.go\<close> and the messages of \<open>internal/streamproto\<close>: forwarding one TCP connection
  over the link.  The two pumps and the function that waits for them are interleaved steps over one
  state; the answers of the network and of the scheduler are the events.
\<close>

section \<open>Messages\<close>

record stream_open =
  so_id :: string
  so_host :: string
  so_port :: int

record stream_ack =
  sk_id :: string
  sk_ok :: bool
  sk_err :: string

record stream_data =
  dt_id :: string
  dt_data :: bytes

record stream_close =
  sc_id :: string
  sc_err :: string

datatype stream_msg = MAck stream_ack | MData stream_data | MClose stream_close

text \<open>The JSON encoders of the three messages, and the inner frame that carries one.\<close>

record stream_codec =
  jc_ack :: "stream_ack \<Rightarrow> bytes"
  jc_data :: "stream_data \<Rightarrow> bytes"
  jc_close :: "stream_close \<Rightarrow> bytes"

definition stream_frame :: "stream_codec \<Rightarrow> string \<Rightarrow> stream_msg \<Rightarrow> frame" where
  "stream_frame jc i m = (case m of
       MAck a \<Rightarrow> \<lparr>f_type = FrameTypeStreamAck, f_reqid = i, f_payload = jc_ack jc a\<rparr>
     | MData d \<Rightarrow> \<lparr>f_type = FrameTypeStreamData, f_reqid = i, f_payload = jc_data jc d\<rparr>
     | MClose c \<Rightarrow> \<lparr>f_type = FrameTypeStreamClose, f_reqid = i, f_payload = jc_close jc c\<rparr>)"

section \<open>Opening\<close>

text \<open>\<open>net.JoinHostPort\<close>.\<close>

definition join_host_port :: "string \<Rightarrow> string \<Rightarrow> string" where
  "join_host_port host port =
     (if CHR '':'' \<in> set host then ''['' @ host @ '']:'' @ port else host @ '':'' @ port)"

text \<open>\<open>pf_hold\<close>: what the reading goroutine has read and not yet sent, with the error of that read.\<close>

record stream_state =
  pf_cancelled :: bool
  pf_reader :: bool
  pf_hold :: "(bytes \<times> bool) option"
  pf_writer :: bool
  pf_conn :: bool
  pf_returned :: bool
  pf_sent :: "stream_msg list"
  pf_written :: bytes

definition stream_dead :: "stream_msg list \<Rightarrow> bool \<Rightarrow> stream_state" where
  "stream_dead ms c = \<lparr>pf_cancelled = True, pf_reader = False, pf_hold = None, pf_writer = False, pf_conn = False,
     pf_returned = c, pf_sent = ms, pf_written = []\<rparr>"

definition emit_ack :: "stream_open \<Rightarrow> bool \<Rightarrow> string \<Rightarrow> stream_msg" where
  "emit_ack req ok e = MAck \<lparr>sk_id = so_id req, sk_ok = ok, sk_err = e\<rparr>"

text \<open>Up to the start of the goroutines; \<open>dial\<close> is the error of dialing an address, if any, and
  \<open>ack_ok\<close> whether the acknowledgement is sent.  The first result is the address that is dialed.\<close>

definition open_stream ::
  "stream_open \<Rightarrow> int list \<Rightarrow> (string \<Rightarrow> string option) \<Rightarrow> bool \<Rightarrow> string option \<times> stream_state" where
  "open_stream req forbidden dial ack_ok =
     (if so_port req \<in> set forbidden then (None, stream_dead [emit_ack req False ''port_forbidden''] True)
      else let addr = join_host_port (so_host req) (itoa (so_port req)) in
        (Some addr,
         case dial addr of
           Some e \<Rightarrow> stream_dead [emit_ack req False e] True
         | None \<Rightarrow>
             if \<not> ack_ok then stream_dead [] True
             else \<lparr>pf_cancelled = False, pf_reader = True, pf_hold = None, pf_writer = True, pf_conn = True,
               pf_returned = False, pf_sent = [emit_ack req True []], pf_written = []\<rparr>))"

section \<open>The three goroutines\<close>

text \<open>\<open>EvRead b e\<close>: the connection delivers \<open>b\<close>, with an error if \<open>e\<close>.  \<open>EvSend ok\<close>: the data read is sent.
  \<open>EvInbound d ok\<close>: a message of the bridge is written.  \<open>EvInboundClosed\<close>: the channel is closed.
  \<open>EvWriterDone\<close>: the writer sees the cancelled context.  \<open>EvCancel\<close>: the caller cancels.  \<open>EvMain\<close>: the waiting
  function closes the connection and sends the close message.\<close>

datatype stream_event =
    EvRead bytes bool | EvSend bool | EvInbound stream_data bool | EvInboundClosed | EvWriterDone
  | EvCancel | EvMain

fun stream_step :: "stream_open \<Rightarrow> stream_event \<Rightarrow> stream_state \<Rightarrow> stream_state option" where
  "stream_step req (EvRead b e) s =
     (if \<not> pf_reader s \<or> pf_hold s \<noteq> None \<or> (\<not> pf_conn s \<and> \<not> (b = [] \<and> e)) then None
      else Some (s\<lparr>pf_hold := Some (b, e)\<rparr>))"
| "stream_step req (EvSend ok) s = (case pf_hold s of
       None \<Rightarrow> None
     | Some (b, e) \<Rightarrow>
         (let stop = (\<lambda>s. s\<lparr>pf_reader := False, pf_cancelled := True\<rparr>);
              s1 = s\<lparr>pf_hold := None\<rparr> in
          if b \<noteq> [] \<and> \<not> ok then Some (stop s1)
          else let s2 = (if b = [] then s1
                 else s1\<lparr>pf_sent := pf_sent s1 @ [MData \<lparr>dt_id = so_id req, dt_data = b\<rparr>]\<rparr>) in
            Some (if e then stop s2 else s2)))"
| "stream_step req (EvInbound d ok) s =
     (if \<not> pf_writer s \<or> (ok \<and> \<not> pf_conn s) then None
      else if ok then Some (s\<lparr>pf_written := pf_written s @ dt_data d\<rparr>)
      else Some (s\<lparr>pf_writer := False, pf_cancelled := True\<rparr>))"
| "stream_step req EvInboundClosed s =
     (if pf_writer s then Some (s\<lparr>pf_writer := False, pf_cancelled := True\<rparr>) else None)"
| "stream_step req EvWriterDone s =
     (if pf_writer s \<and> pf_cancelled s then Some (s\<lparr>pf_writer := False\<rparr>) else None)"
| "stream_step req EvCancel s = Some (s\<lparr>pf_cancelled := True\<rparr>)"
| "stream_step req EvMain s =
     (if pf_cancelled s \<and> \<not> pf_returned s then
        Some (s\<lparr>pf_conn := False, pf_returned := True,
                pf_sent := pf_sent s @ [MClose \<lparr>sc_id = so_id req, sc_err = []\<rparr>]\<rparr>)
      else None)"

fun stream_run :: "stream_open \<Rightarrow> stream_event list \<Rightarrow> stream_state \<Rightarrow> stream_state option" where
  "stream_run req [] s = Some s"
| "stream_run req (e # es) s = (case stream_step req e s of None \<Rightarrow> None | Some s' \<Rightarrow> stream_run req es s')"

definition HandleStreamOpen ::
  "stream_open \<Rightarrow> int list \<Rightarrow> (string \<Rightarrow> string option) \<Rightarrow> bool \<Rightarrow> stream_event list \<Rightarrow> string option \<times> stream_state option" where
  "HandleStreamOpen req forbidden dial ack_ok es =
     (let (addr, s) = open_stream req forbidden dial ack_ok in (addr, stream_run req es s))"

section \<open>What a run does\<close>

fun reads_of :: "stream_event list \<Rightarrow> bytes" where
  "reads_of [] = []"
| "reads_of (EvRead b e # es) = b @ reads_of es"
| "reads_of (_ # es) = reads_of es"

fun writes_of :: "stream_event list \<Rightarrow> bytes" where
  "writes_of [] = []"
| "writes_of (EvInbound d True # es) = dt_data d @ writes_of es"
| "writes_of (_ # es) = writes_of es"

definition held :: "stream_state \<Rightarrow> bytes" where
  "held s = (case pf_hold s of None \<Rightarrow> [] | Some (b, e) \<Rightarrow> b)"

definition data_msg :: "stream_open \<Rightarrow> bytes \<Rightarrow> stream_msg" where
  "data_msg req b = MData \<lparr>dt_id = so_id req, dt_data = b\<rparr>"

definition close_msg :: "stream_open \<Rightarrow> stream_msg" where
  "close_msg req = MClose \<lparr>sc_id = so_id req, sc_err = []\<rparr>"

text \<open>The messages of a stream, in their order: the acknowledgement, the data \<open>bs\<close>, and once the function
  has returned the close message and then the data \<open>late\<close>, which is at most the one read that was under
  way when the connection was closed.\<close>

definition sent_in_order :: "stream_open \<Rightarrow> stream_state \<Rightarrow> bytes list \<Rightarrow> bytes list \<Rightarrow> bool" where
  "sent_in_order req s bs late \<longleftrightarrow>
     pf_sent s = emit_ack req True [] # map (data_msg req) bs
       @ (if pf_returned s then close_msg req # map (data_msg req) late else [])
     \<and> [] \<notin> set (bs @ late) \<and> (late \<noteq> [] \<longrightarrow> pf_returned s)
     \<and> length late + (if pf_returned s \<and> held s \<noteq> [] then 1 else 0) \<le> 1
     \<and> (pf_returned s \<longrightarrow> \<not> pf_conn s \<and> pf_cancelled s)"

text \<open>What every step keeps, relative to the bytes \<open>R\<close> read and \<open>W\<close> written before it.  Bytes are lost only by
  a failing send, which stops the reader.\<close>

definition stream_inv :: "stream_open \<Rightarrow> bytes \<Rightarrow> bytes \<Rightarrow> bool \<Rightarrow> stream_state \<Rightarrow> bool" where
  "stream_inv req R W ok s \<longleftrightarrow> (\<exists>bs late lost. sent_in_order req s bs late
     \<and> R = concat (bs @ late) @ lost \<and> (lost = held s \<or> \<not> ok \<and> \<not> pf_reader s \<and> pf_hold s = None)
     \<and> W = pf_written s)"

lemma stream_send_inv:
  assumes "stream_inv req R W ok s" and h: "pf_hold s = Some (b, e)" "b \<noteq> []"
  shows "stream_inv req R W ok
    (s\<lparr>pf_hold := None, pf_sent := pf_sent s @ [data_msg req b], pf_reader := r, pf_cancelled := pf_cancelled s \<or> c\<rparr>)"
proof -
  from assms obtain bs late where o: "sent_in_order req s bs late" "R = concat (bs @ late) @ b" "W = pf_written s"
    unfolding stream_inv_def held_def by auto
  show ?thesis
  proof (cases "pf_returned s")
    case True
    with o h have "late = []" by (simp add: sent_in_order_def held_def)
    with True o h show ?thesis
      unfolding stream_inv_def by (intro exI [of _ bs] exI [of _ "[b]"]) (simp add: sent_in_order_def held_def)
  next
    case False
    with o have "late = []" by (auto simp: sent_in_order_def)
    with False o h show ?thesis
      unfolding stream_inv_def by (intro exI [of _ "bs @ [b]"] exI [of _ "[]"]) (auto simp: sent_in_order_def held_def)
  qed
qed

text \<open>Steps that send nothing, read nothing and leave the connection alone.\<close>

lemma stream_inv_keep:
  assumes "stream_inv req R W ok s" and "pf_sent s' = pf_sent s" "pf_returned s' = pf_returned s" "pf_conn s' = pf_conn s"
    and "pf_cancelled s \<longrightarrow> pf_cancelled s'" "held s' = held s" "pf_written s' = pf_written s @ x"
    and "\<not> pf_reader s \<and> pf_hold s = None \<longrightarrow> \<not> pf_reader s' \<and> pf_hold s' = None"
  shows "stream_inv req R (W @ x) ok s'"
proof -
  from assms(1) obtain bs late lost where o: "sent_in_order req s bs late" "R = concat (bs @ late) @ lost"
    "lost = held s \<or> \<not> ok \<and> \<not> pf_reader s \<and> pf_hold s = None" "W = pf_written s"
    unfolding stream_inv_def by blast
  from o(1) assms have "sent_in_order req s' bs late" by (simp add: sent_in_order_def)
  moreover from o(3) assms(6,8) have "lost = held s' \<or> \<not> ok \<and> \<not> pf_reader s' \<and> pf_hold s' = None" by argo
  ultimately show ?thesis
    unfolding stream_inv_def using o(2,4) assms(7)
    by (intro exI [of _ bs] exI [of _ late] exI [of _ lost]) simp
qed

lemma stream_drop_inv:
  assumes "stream_inv req R W ok s" and "pf_hold s = Some (b, e)"
  shows "stream_inv req R W False (s\<lparr>pf_hold := None, pf_reader := False, pf_cancelled := True\<rparr>)"
proof -
  from assms obtain bs late where o: "sent_in_order req s bs late" "R = concat (bs @ late) @ b" "W = pf_written s"
    unfolding stream_inv_def held_def by auto
  then have "sent_in_order req (s\<lparr>pf_hold := None, pf_reader := False, pf_cancelled := True\<rparr>) bs late"
    by (simp add: sent_in_order_def held_def)
  with o(2,3) show ?thesis unfolding stream_inv_def
    by (intro exI [of _ bs] exI [of _ late] exI [of _ b]) simp
qed

lemma stream_read_inv:
  assumes "stream_inv req R W ok s" and "pf_reader s" "pf_hold s = None" "pf_conn s \<or> b = []"
  shows "stream_inv req (R @ b) W ok (s\<lparr>pf_hold := Some (b, e)\<rparr>)"
proof -
  from assms obtain bs late where o: "sent_in_order req s bs late" "R = concat (bs @ late)" "W = pf_written s"
    unfolding stream_inv_def held_def by auto
  then have "sent_in_order req (s\<lparr>pf_hold := Some (b, e)\<rparr>) bs late"
    using assms(4) by (auto simp: sent_in_order_def held_def)
  with o(2,3) show ?thesis unfolding stream_inv_def
    by (intro exI [of _ bs] exI [of _ late] exI [of _ b]) (simp add: held_def)
qed

lemma stream_main_inv:
  assumes "stream_inv req R W ok s" and "pf_cancelled s" "\<not> pf_returned s"
  shows "stream_inv req R W ok
    (s\<lparr>pf_conn := False, pf_returned := True, pf_sent := pf_sent s @ [close_msg req]\<rparr>)"
proof -
  let ?s = "s\<lparr>pf_conn := False, pf_returned := True, pf_sent := pf_sent s @ [close_msg req]\<rparr>"
  from assms(1) obtain bs late lost where o: "sent_in_order req s bs late" "R = concat (bs @ late) @ lost"
    "lost = held s \<or> \<not> ok \<and> \<not> pf_reader s \<and> pf_hold s = None" "W = pf_written s"
    unfolding stream_inv_def by blast
  with assms(2,3) have "late = []" "sent_in_order req ?s bs []" by (auto simp: sent_in_order_def held_def)
  with o(2-4) show ?thesis unfolding stream_inv_def
    by (intro exI [of _ bs] exI [of _ "[]"] exI [of _ lost]) (simp add: held_def)
qed

lemma stream_step_inv:
  assumes step: "stream_step req e s = Some s'" and inv: "stream_inv req R W ok s"
  shows "stream_inv req (R @ reads_of [e]) (W @ writes_of [e]) (ok \<and> e \<noteq> EvSend False) s'"
proof (cases e)
  case (EvRead b f)
  with step have "pf_reader s" "pf_hold s = None" "pf_conn s \<or> b = []" "s' = s\<lparr>pf_hold := Some (b, f)\<rparr>"
    by (cases "pf_hold s"; auto split: if_splits)+
  with stream_read_inv [OF inv] EvRead show ?thesis by simp
next
  case (EvSend k)
  with step obtain b f where h: "pf_hold s = Some (b, f)" by (auto split: option.splits)
  consider "b \<noteq> []" "\<not> k" "s' = s\<lparr>pf_hold := None, pf_reader := False, pf_cancelled := True\<rparr>"
    | r c where "b \<noteq> []" "k"
      "s' = s\<lparr>pf_hold := None, pf_sent := pf_sent s @ [data_msg req b], pf_reader := r, pf_cancelled := pf_cancelled s \<or> c\<rparr>"
    | r c where "b = []" "s' = s\<lparr>pf_hold := None, pf_reader := r, pf_cancelled := pf_cancelled s \<or> c\<rparr>"
  proof (cases "b = []")
    case True
    with step EvSend h that(3) [where r = "if f then False else pf_reader s" and c = f] show ?thesis by (auto simp: Let_def split: if_splits)
  next
    case False
    with step EvSend h that(1) that(2) [where r = "if f then False else pf_reader s" and c = f] show ?thesis
      by (cases k) (auto simp: Let_def data_msg_def split: if_splits)
  qed
  then show ?thesis
  proof cases
    case 1
    with stream_drop_inv [OF inv h] EvSend show ?thesis by simp
  next
    case (2 r c)
    with stream_send_inv [OF inv h, where r = r and c = c] EvSend show ?thesis by simp
  next
    case (3 r c)
    with h EvSend stream_inv_keep [OF inv, of s' "[]"] have "stream_inv req R W ok s'" by (simp add: held_def)
    moreover have "stream_inv req R W (ok \<and> d) s'" if "stream_inv req R W ok s'" for d
      using that unfolding stream_inv_def by blast
    ultimately show ?thesis using EvSend by simp
  qed
next
  case (EvInbound d k)
  with step stream_inv_keep [OF inv, of s' "writes_of [e]"] show ?thesis
    by (cases k) (auto simp: held_def split: if_splits)
next
  case EvMain
  with step stream_main_inv [OF inv] show ?thesis by (auto simp: close_msg_def split: if_splits)
qed (use step stream_inv_keep [OF inv, of s' "[]"] in \<open>auto simp: held_def split: if_splits\<close>)

lemma reads_of_Cons: "reads_of (e # es) = reads_of [e] @ reads_of es"
  by (cases e) simp_all

lemma writes_of_Cons: "writes_of (e # es) = writes_of [e] @ writes_of es"
proof (cases e)
  case (EvInbound d ok)
  then show ?thesis by (cases ok) simp_all
qed simp_all

lemma stream_run_inv:
  "stream_run req es s = Some s' \<Longrightarrow> stream_inv req R W ok s \<Longrightarrow>
     stream_inv req (R @ reads_of es) (W @ writes_of es) (ok \<and> EvSend False \<notin> set es) s'"
proof (induction es arbitrary: s R W ok)
  case (Cons e es)
  from Cons.prems(1) obtain s1 where s1: "stream_step req e s = Some s1" "stream_run req es s1 = Some s'"
    by (auto split: option.splits)
  from Cons.IH [OF s1(2) stream_step_inv [OF s1(1) Cons.prems(2)]] show ?case
    unfolding reads_of_Cons [of e es] writes_of_Cons [of e es] by (simp add: eq_commute [of e] conj_ac)
qed simp

lemma dead_run: "stream_run req es (stream_dead ms True) = Some s \<Longrightarrow> s = stream_dead ms True"
proof (induction es)
  case (Cons e es)
  have "stream_step req e (stream_dead ms True) \<in> {None, Some (stream_dead ms True)}"
    by (cases e) (auto simp: stream_dead_def)
  with Cons show ?case by (auto split: option.splits)
qed simp

lemma dead_run_sel: "stream_run req es (stream_dead ms True) = Some s \<Longrightarrow> pf_sent s = ms \<and> \<not> pf_conn s"
  using dead_run [of req es ms s] by (simp add: stream_dead_def)

section \<open>Properties\<close>


definition demo_open :: stream_open where
  "demo_open = \<lparr>so_id = ''s'', so_host = ''::1'', so_port = 80\<rparr>"


text \<open>A read that finished before the connection was closed may be sent after the close message.\<close>

lemma data_after_close:
  "map_option pf_sent (snd (HandleStreamOpen demo_open [] (\<lambda>_. None) True [EvRead [7] False, EvCancel, EvMain, EvSend True])) =
    Some [emit_ack demo_open True [], MClose \<lparr>sc_id = ''s'', sc_err = []\<rparr>, MData \<lparr>dt_id = ''s'', dt_data = [7]\<rparr>]"
  by code_simp

end
