(* ===== verification/Daemon_Link.thy ===== *)
theory Daemon_Link
  imports E2E State Config Handshake Frame
begin

text \<open>
  \<open>cmd/agbridge/daemon.go\<close>, the connection of a daemon: where its configuration comes from, the handshake
  with the gateway, the responder of the Noise handshake, and the wrapping and unwrapping of Route frames.
\<close>

section \<open>Configuration\<close>

definition daemonConfigFromState :: "daemon_state \<Rightarrow> daemon_config" where
  "daemonConfigFromState s =
     \<lparr>dc_gateway_url = gr_url (dst_gateway s), dc_daemon_name = dst_name s, dc_token = dst_api_key s,
      dc_cert_pin = gr_cert_pin (dst_gateway s), dc_tls_mode = gr_tls_mode (dst_gateway s),
      dc_exec_enabled = dst_exec_enabled s, dc_env_allowlist = dst_env_allowlist s,
      dc_forbidden_ports = dst_forbidden_ports s, dc_default_working_dir = dst_working_dir s,
      dc_e2e_mode = dst_e2e_mode s, dc_static_key_path = dst_key_path s,
      dc_allowed_pubkeys = dst_allowed_bridges s\<rparr>"

datatype daemon_config_error =
    DcNoSource | DcLoad string string | DcInvalid string | DcYAML config_error

text \<open>\<open>dec\<close> parses the JSON state, \<open>parse\<close> the YAML configuration.\<close>

definition loadDaemonConfig ::
  "(os_error \<Rightarrow> string) \<Rightarrow> (bytes \<Rightarrow> string + daemon_state) \<Rightarrow> (bytes \<Rightarrow> string + daemon_config) \<Rightarrow>
   string \<Rightarrow> string \<Rightarrow> (daemon_config_error, daemon_config) io" where
  "loadDaemonConfig et dec parse cfgPath stateDir =
     (if stateDir \<noteq> [] then
        (let statePath = path_join [stateDir, ''state.json''] in
         io_bind (on_err (DcLoad statePath) (LoadDaemonState et dec statePath)) (\<lambda>st.
           case ValidateDaemon st of
             Inl e \<Rightarrow> io_fail (DcInvalid e)
           | Inr _ \<Rightarrow> io_ret (daemonConfigFromState st)))
      else if cfgPath = [] then io_fail DcNoSource
      else on_err DcYAML (LoadDaemon parse cfgPath))"

text \<open>\<open>home\<close> is the answer of \<open>os.UserHomeDir\<close>.\<close>

definition effectiveDefaultWorkingDir :: "string option \<Rightarrow> daemon_config \<Rightarrow> string" where
  "effectiveDefaultWorkingDir home cfg =
     (if dc_default_working_dir cfg \<noteq> [] then dc_default_working_dir cfg
      else case home of Some h \<Rightarrow> if h \<noteq> [] then h else ''/'' | None \<Rightarrow> ''/'')"

text \<open>\<open>sandbox.RefuseRoot\<close>: the error, if any, from the effective user and the test variable.\<close>

definition RefuseRoot :: "int \<Rightarrow> string \<Rightarrow> string option" where
  "RefuseRoot euid allow =
     (if euid = 0 then (if allow = ''1'' then None else Some ''sandbox: refusing to run as root'') else None)"

section \<open>The handshake with the gateway\<close>

text \<open>The network's answers: dialing, sending the Hello, receiving the reply.  The last result says whether
  the connection was closed.\<close>

record net_answers =
  na_dial :: "string option"
  na_send :: "string option"
  na_recv :: "string + frame"

definition daemon_hello :: "daemon_config \<Rightarrow> frame" where
  "daemon_hello cfg = \<lparr>f_type = FrameTypeHello, f_reqid = [], f_payload =
     (case encode_hello \<lparr>h_role = ''daemon'', h_name = dc_daemon_name cfg, h_secret = dc_token cfg, h_target = []\<rparr> of
        Inl _ \<Rightarrow> [] | Inr b \<Rightarrow> b)\<rparr>"

definition daemonDialAndHandshake :: "net_answers \<Rightarrow> daemon_config \<Rightarrow> (string + unit) \<times> frame list \<times> bool" where
  "daemonDialAndHandshake na cfg = (case na_dial na of
       Some e \<Rightarrow> (Err e, [], False)
     | None \<Rightarrow> (case na_send na of
         Some e \<Rightarrow> (Err e, [], True)
       | None \<Rightarrow> (case na_recv na of
           Inl e \<Rightarrow> (Err e, [daemon_hello cfg], True)
         | Inr ack \<Rightarrow>
             if f_type ack \<noteq> FrameTypeHelloAck then
               (Err (''handshake nack: '' @ itoa (uint (f_type ack))), [daemon_hello cfg], True)
             else (Ok (), [daemon_hello cfg], False))))"

section \<open>The dependencies of the end-to-end encryption\<close>

record daemon_deps =
  dd_key :: static_key
  dd_pubs :: "bytes list"
  dd_prologue :: bytes
  dd_mode :: string

datatype deps_error = DepsKey string key_error | DepsPub nat key_error

fun parse_pubs :: "nat \<Rightarrow> string list \<Rightarrow> deps_error + bytes list" where
  "parse_pubs i [] = Ok []"
| "parse_pubs i (b64 # rest) = (case PubFromBase64 b64 of
       Inl e \<Rightarrow> Err (DepsPub i e)
     | Inr pub \<Rightarrow> bind_res (parse_pubs (Suc i) rest) (\<lambda>ps. Ok (pub # ps)))"

definition prologue_of :: "string \<Rightarrow> string \<Rightarrow> bytes" where
  "prologue_of url name = bytes_of (''agbridge/v1|'' @ url @ ''|'' @ name)"

definition loadDaemonE2EDeps ::
  "(bytes \<Rightarrow> string + bytes) \<Rightarrow> daemon_config \<Rightarrow> (deps_error, daemon_deps option) io" where
  "loadDaemonE2EDeps x25519 cfg =
     (if dc_e2e_mode cfg = ''disabled'' then io_ret None
      else io_bind (on_err (DepsKey (dc_static_key_path cfg)) (LoadStatic x25519 (dc_static_key_path cfg))) (\<lambda>sk.
        case parse_pubs 0 (dc_allowed_pubkeys cfg) of
          Inl e \<Rightarrow> io_fail e
        | Inr pubs \<Rightarrow> io_ret (Some \<lparr>dd_key = sk, dd_pubs = pubs,
            dd_prologue = prologue_of (dc_gateway_url cfg) (dc_daemon_name cfg), dd_mode = dc_e2e_mode cfg\<rparr>)))"

section \<open>Sending and receiving\<close>

text \<open>The part of \<open>daemonState\<close> that belongs to the connection: the frames written to it so far, whether
  writing still works, the session and its identifier.\<close>

record 'c daemon_link =
  lk_deps :: "daemon_deps option"
  lk_session :: "'c e2e_session option"
  lk_sid :: bytes
  lk_up :: bool
  lk_sent :: "frame list"

definition fresh_link :: "daemon_deps option \<Rightarrow> 'c daemon_link" where
  "fresh_link deps = \<lparr>lk_deps = deps, lk_session = None, lk_sid = replicate 8 0, lk_up = True, lk_sent = []\<rparr>"

text \<open>\<open>wss.Conn.Send\<close>: a cancelled context refuses before anything is written.\<close>

definition conn_send :: "bool \<Rightarrow> frame \<Rightarrow> 'c daemon_link \<Rightarrow> 'c daemon_link" where
  "conn_send cancelled_ctx f lk =
     (if cancelled_ctx then lk
      else case encode_frame f of
        Inl _ \<Rightarrow> lk
      | Inr _ \<Rightarrow> if lk_up lk then lk\<lparr>lk_sent := lk_sent lk @ [f]\<rparr> else lk)"

definition route_frame :: "bytes \<Rightarrow> frame" where
  "route_frame p = \<lparr>f_type = FrameTypeRoute, f_reqid = [], f_payload = p\<rparr>"

text \<open>\<open>sendInner\<close> runs under \<open>sendMu\<close>, so it is one step.\<close>

definition sendInner :: "('h, 'c) noise_lib \<Rightarrow> bool \<Rightarrow> frame \<Rightarrow> 'c daemon_link \<Rightarrow> 'c daemon_link" where
  "sendInner nz cancelled_ctx inner lk = (case encode_frame inner of
       Inl _ \<Rightarrow> lk
     | Inr encoded \<Rightarrow> (case lk_session lk of
         None \<Rightarrow> conn_send cancelled_ctx (route_frame encoded) lk
       | Some sess \<Rightarrow>
           (let (r, sess') = Encrypt nz (lk_sid lk) encoded sess; lk = lk\<lparr>lk_session := Some sess'\<rparr> in
            case r of
              Inl _ \<Rightarrow> lk
            | Inr ct \<Rightarrow> conn_send cancelled_ctx (route_frame (lk_sid lk @ ct)) lk)))"

definition unwrapRoute :: "('h, 'c) noise_lib \<Rightarrow> bytes \<Rightarrow> 'c daemon_link \<Rightarrow> (string + bytes) \<times> 'c daemon_link" where
  "unwrapRoute nz payload lk = (case lk_session lk of
       None \<Rightarrow>
         (if (case lk_deps lk of None \<Rightarrow> False | Some d \<Rightarrow> dd_mode d = ''required'')
          then (Err ''plaintext Route refused under e2e_mode=required'', lk)
          else (Ok payload, lk))
     | Some sess \<Rightarrow>
         if length payload < 8 then (Err ''route payload too short for sid'', lk)
         else if take 8 payload \<noteq> lk_sid lk then (Err ''route sid mismatch'', lk)
         else
           (let (r, sess') = Decrypt nz (lk_sid lk) (drop 8 payload) sess; lk = lk\<lparr>lk_session := Some sess'\<rparr> in
            case r of Inl e \<Rightarrow> (Err (''aead decrypt: '' @ e), lk) | Inr plain \<Rightarrow> (Ok plain, lk)))"

definition peerAllowed :: "bytes \<Rightarrow> daemon_deps option \<Rightarrow> bool" where
  "peerAllowed peer deps = (case deps of
       None \<Rightarrow> False
     | Some d \<Rightarrow> if dd_pubs d = [] then dd_mode d = ''optional'' else peer \<in> set (dd_pubs d))"

definition handshake_failed :: "frame \<Rightarrow> string \<Rightarrow> frame" where
  "handshake_failed f code = \<lparr>f_type = FrameTypeError, f_reqid = f_reqid f, f_payload = bytes_of code\<rparr>"

text \<open>The responder's part up to the session: the message to answer and the session, or nothing.\<close>

definition respond ::
  "('h, 'c) noise_lib \<Rightarrow> daemon_deps \<Rightarrow> frame \<Rightarrow> (bytes \<times> bytes \<times> bytes \<times> 'c e2e_session) option" where
  "respond nz d f = (case hex_decode (f_reqid f) of
       None \<Rightarrow> None
     | Some sid \<Rightarrow>
         if length sid \<noteq> 8 then None
         else (case NewResponder nz (Some (dd_key d)) (dd_prologue d) of
           Inl _ \<Rightarrow> None
         | Inr rp \<Rightarrow> (case ReadMessage1 nz (f_payload f) rp of
             (Inl _, _) \<Rightarrow> None
           | (Inr peer, rp) \<Rightarrow>
               if \<not> peerAllowed peer (Some d) then None
               else (case fst (WriteMessage2 nz rp) of
                 Inl _ \<Rightarrow> None
               | Inr (msg2, sess) \<Rightarrow> Some (sid, peer, msg2, sess)))))"

definition handleNoiseInit :: "('h, 'c) noise_lib \<Rightarrow> frame \<Rightarrow> 'c daemon_link \<Rightarrow> 'c daemon_link" where
  "handleNoiseInit nz f lk = (case lk_deps lk of
       None \<Rightarrow> conn_send False (handshake_failed f ''e2e_disabled'') lk
     | Some d \<Rightarrow> (case respond nz d f of
         None \<Rightarrow> conn_send False (handshake_failed f ''handshake_failed'') lk
       | Some (sid, peer, msg2, sess) \<Rightarrow>
           conn_send False \<lparr>f_type = FrameTypeNoiseResp, f_reqid = f_reqid f, f_payload = msg2\<rparr>
             (lk\<lparr>lk_session := Some sess, lk_sid := sid\<rparr>)))"

text \<open>One frame of the loop of \<open>runDaemonSession\<close>: the inner frame that is dispatched, if any.\<close>

definition receive :: "('h, 'c) noise_lib \<Rightarrow> frame \<Rightarrow> 'c daemon_link \<Rightarrow> frame option \<times> 'c daemon_link" where
  "receive nz f lk =
     (if f_type f = FrameTypeNoiseInit then (None, handleNoiseInit nz f lk)
      else if f_type f = FrameTypeRoute then
        (let (r, lk) = unwrapRoute nz (f_payload f) lk in
         case r of Inl _ \<Rightarrow> (None, lk)
         | Inr innerBytes \<Rightarrow> (case decode_frame innerBytes of Inl _ \<Rightarrow> (None, lk) | Inr inner \<Rightarrow> (Some inner, lk)))
      else (None, lk))"

text \<open>The receiver and the goroutines that answer: frames received and inner frames sent, in the order in
  which they happen.\<close>

datatype link_event = Recv frame | Send bool frame

fun link_run :: "('h, 'c) noise_lib \<Rightarrow> link_event list \<Rightarrow> 'c daemon_link \<Rightarrow> frame list \<times> 'c daemon_link" where
  "link_run nz [] lk = ([], lk)"
| "link_run nz (Recv f # es) lk =
     (let (i, lk) = receive nz f lk; (rest, lk) = link_run nz es lk in
      ((case i of None \<Rightarrow> rest | Some x \<Rightarrow> x # rest), lk))"
| "link_run nz (Send c f # es) lk = link_run nz es (sendInner nz c f lk)"

end
