(* ===== verification/Router.thy ===== *)
theory Router
  imports Daemon_Link Auth Errcode
begin

text \<open>
  \<open>internal/cliclient/client.go\<close> and \<open>router.go\<close>: the bridge's end of the connection.  A \<open>Client\<close> dials, says
  Hello, runs the initiator of the Noise handshake, and then one router sends signed Route frames and
  delivers the answers to the calls that wait for them.
\<close>

section \<open>State\<close>

text \<open>\<open>rt_pending\<close> holds the buffered frames of each call's channel; \<open>rt_conn\<close> is whether a connection is
  attached and \<open>rt_sent\<close> what was written to it.\<close>

record 'c router =
  rt_key :: bytes
  rt_mode :: string
  rt_bridge_key :: "static_key option"
  rt_daemon_pub :: bytes
  rt_prologue :: bytes
  rt_conn :: bool
  rt_session :: "'c e2e_session option"
  rt_sid :: bytes
  rt_pending :: "string \<rightharpoonup> frame list"
  rt_evicted :: bool
  rt_sent :: "frame list"

datatype router_error = RtKey string key_error | RtPub key_error | RtNoConn | RtSend string | RtEncrypt string
  | RtEncode proto_error | RtShort | RtSid | RtDecrypt string | RtInit string

definition NewRouter ::
  "(bytes \<Rightarrow> string + bytes) \<Rightarrow> bool \<Rightarrow> bytes \<Rightarrow> bridge_config \<Rightarrow> (router_error, 'c router) io" where
  "NewRouter x25519 has_conn apiKey cfg =
     (let r = \<lparr>rt_key = apiKey, rt_mode = bc_e2e_mode cfg, rt_bridge_key = None, rt_daemon_pub = [], rt_prologue = [],
          rt_conn = has_conn, rt_session = None, rt_sid = replicate 8 0, rt_pending = Map.empty,
          rt_evicted = False, rt_sent = []\<rparr> in
      if bc_e2e_mode cfg = ''disabled'' then io_ret r
      else io_bind (on_err (RtKey (bc_static_key_path cfg)) (LoadStatic x25519 (bc_static_key_path cfg))) (\<lambda>sk.
        case PubFromBase64 (bc_daemon_pubkey cfg) of
          Inl e \<Rightarrow> io_fail (RtPub e)
        | Inr pub \<Rightarrow> io_ret (r\<lparr>rt_bridge_key := Some sk, rt_daemon_pub := pub,
            rt_prologue := prologue_of (bc_gateway_url cfg) (bc_target_daemon cfg)\<rparr>)))"

definition markIfEvicted :: "frame \<Rightarrow> 'c router \<Rightarrow> bool \<times> 'c router" where
  "markIfEvicted f r =
     (if f_type f = FrameTypeError \<and> string_of (f_payload f) = ''session_replaced''
      then (True, r\<lparr>rt_evicted := True\<rparr>) else (False, r))"

text \<open>\<open>replaceConn\<close> also returns the calls whose channels it closes.\<close>

definition replaceConn :: "bool \<Rightarrow> 'c router \<Rightarrow> string set \<times> 'c router" where
  "replaceConn newConn r = (dom (rt_pending r),
     r\<lparr>rt_pending := Map.empty, rt_conn := newConn, rt_session := None, rt_sid := replicate 8 0\<rparr>)"

definition installSession :: "'c e2e_session \<Rightarrow> bytes \<Rightarrow> 'c router \<Rightarrow> 'c router" where
  "installSession s sid r = r\<lparr>rt_session := Some s, rt_sid := sid\<rparr>"

section \<open>Frames out\<close>

text \<open>\<open>net\<close> is the error of writing to the connection, if any.\<close>

definition router_send :: "bool \<Rightarrow> string option \<Rightarrow> frame \<Rightarrow> 'c router \<Rightarrow> (router_error + unit) \<times> 'c router" where
  "router_send cancelled_ctx net f r =
     (if \<not> rt_conn r then (Err RtNoConn, r)
      else if cancelled_ctx then (Err (RtSend ''context canceled''), r)
      else case encode_frame f of
        Inl e \<Rightarrow> (Err (RtEncode e), r)
      | Inr _ \<Rightarrow> (case net of Some e \<Rightarrow> (Err (RtSend e), r) | None \<Rightarrow> (Ok (), r\<lparr>rt_sent := rt_sent r @ [f]\<rparr>)))"

definition router_sendInner ::
  "('h, 'c) noise_lib \<Rightarrow> bool \<Rightarrow> string option \<Rightarrow> frame \<Rightarrow> 'c router \<Rightarrow> (router_error + unit) \<times> 'c router" where
  "router_sendInner nz cancelled_ctx net inner r = (case encode_frame inner of
       Inl e \<Rightarrow> (Err (RtEncode e), r)
     | Inr innerBytes \<Rightarrow> (case rt_session r of
         None \<Rightarrow> router_send cancelled_ctx net (route_frame (SignFrame (rt_key r) innerBytes)) r
       | Some sess \<Rightarrow>
           (let (e, sess') = Encrypt nz (rt_sid r) innerBytes sess; r = r\<lparr>rt_session := Some sess'\<rparr> in
            case e of
              Inl m \<Rightarrow> (Err (RtEncrypt m), r)
            | Inr ct \<Rightarrow> router_send cancelled_ctx net (route_frame (SignFrame (rt_key r) (rt_sid r @ ct))) r)))"

section \<open>Frames in\<close>

definition decodeInbound :: "('h, 'c) noise_lib \<Rightarrow> bytes \<Rightarrow> 'c router \<Rightarrow> (router_error + frame) \<times> 'c router" where
  "decodeInbound nz payload r = (case rt_session r of
       None \<Rightarrow> (map_sum RtEncode id (decode_frame payload), r)
     | Some sess \<Rightarrow>
         if length payload < 8 then (Err RtShort, r)
         else if take 8 payload \<noteq> rt_sid r then (Err RtSid, r)
         else
           (let (d, sess') = Decrypt nz (rt_sid r) (drop 8 payload) sess; r = r\<lparr>rt_session := Some sess'\<rparr> in
            case d of Inl m \<Rightarrow> (Err (RtDecrypt m), r) | Inr plain \<Rightarrow> (map_sum RtEncode id (decode_frame plain), r)))"

definition call_buffer :: nat where "call_buffer = 64"

text \<open>One frame of \<open>runReader\<close>; \<open>None\<close> when the reader waits for room in the call's channel.\<close>

definition read_frame :: "('h, 'c) noise_lib \<Rightarrow> frame \<Rightarrow> 'c router \<Rightarrow> 'c router option" where
  "read_frame nz f r =
     (let (ev, r) = markIfEvicted f r in
      if ev then Some r
      else if f_type f \<noteq> FrameTypeRoute then Some r
      else let (d, r) = decodeInbound nz (f_payload f) r in
        case d of
          Inl _ \<Rightarrow> Some r
        | Inr inner \<Rightarrow> (case rt_pending r (f_reqid inner) of
            None \<Rightarrow> Some r
          | Some q \<Rightarrow> if length q < call_buffer then Some (r\<lparr>rt_pending := (rt_pending r)(f_reqid inner \<mapsto> q @ [inner])\<rparr>)
                      else None))"

definition registerCall :: "string \<Rightarrow> 'c router \<Rightarrow> 'c router" where
  "registerCall i r = r\<lparr>rt_pending := (rt_pending r)(i \<mapsto> [])\<rparr>"

definition unregisterCall :: "string \<Rightarrow> 'c router \<Rightarrow> 'c router" where
  "unregisterCall i r = r\<lparr>rt_pending := (rt_pending r)(i := None)\<rparr>"

definition newReqID :: "bytes \<Rightarrow> string" where "newReqID rnd = hex_encode rnd"

fun read_frames :: "('h, 'c) noise_lib \<Rightarrow> frame list \<Rightarrow> 'c router \<Rightarrow> 'c router option" where
  "read_frames nz [] r = Some r"
| "read_frames nz (f # fs) r = (case read_frame nz f r of None \<Rightarrow> None | Some r' \<Rightarrow> read_frames nz fs r')"

section \<open>Dialing\<close>

record client_options =
  co_gateway_url :: string
  co_agent_name :: string
  co_api_key :: string
  co_cert_pin :: string
  co_tls_mode :: string
  co_e2e_mode :: string
  co_key_path :: string
  co_daemon_pubkey :: string
  co_target :: string

definition OptionsFromBridgeConfig :: "bridge_config \<Rightarrow> client_options" where
  "OptionsFromBridgeConfig cfg = \<lparr>co_gateway_url = bc_gateway_url cfg, co_agent_name = bc_agent_name cfg,
     co_api_key = bc_api_key cfg, co_cert_pin = bc_cert_pin cfg, co_tls_mode = bc_tls_mode cfg,
     co_e2e_mode = bc_e2e_mode cfg, co_key_path = bc_static_key_path cfg,
     co_daemon_pubkey = bc_daemon_pubkey cfg, co_target = bc_target_daemon cfg\<rparr>"

definition dial_config :: "client_options \<Rightarrow> bridge_config" where
  "dial_config opt = \<lparr>bc_gateway_url = co_gateway_url opt, bc_agent_name = co_agent_name opt, bc_api_key = co_api_key opt,
     bc_cert_pin = co_cert_pin opt, bc_tls_mode = co_tls_mode opt, bc_target_daemon = co_target opt,
     bc_e2e_mode = co_e2e_mode opt, bc_static_key_path = co_key_path opt, bc_daemon_pubkey = co_daemon_pubkey opt\<rparr>"

datatype dial_error = DTls auth_error | DDial string | DHello hello_error | DSend string | DRecv string
  | DAckType frame_type | DKey string key_error | DPub key_error | DInitiator string | DRejected bytes
  | DRespType frame_type | DRouter router_error

text \<open>The answers of the network to the Noise exchange, and the random session identifier.\<close>

definition handshakeE2E ::
  "('h, 'c) noise_lib \<Rightarrow> (bytes \<Rightarrow> string + bytes) \<Rightarrow> bytes \<Rightarrow> string option \<Rightarrow> string + frame \<Rightarrow> client_options \<Rightarrow>
   (dial_error, ('c e2e_session \<times> bytes) \<times> frame) io" where
  "handshakeE2E nz x25519 sid send_err resp opt =
     io_bind (on_err (DKey (co_key_path opt)) (LoadStatic x25519 (co_key_path opt))) (\<lambda>bridgeKey.
     case PubFromBase64 (co_daemon_pubkey opt) of
       Inl e \<Rightarrow> io_fail (DPub e)
     | Inr daemonPub \<Rightarrow>
     (case NewInitiator nz (Some bridgeKey) daemonPub (prologue_of (co_gateway_url opt) (co_target opt)) of
       Inl e \<Rightarrow> io_fail (DInitiator e)
     | Inr h \<Rightarrow>
     (case WriteMessage1 nz h of
       (Inl e, _) \<Rightarrow> io_fail (DInitiator e)
     | (Inr msg1, h) \<Rightarrow>
     (let f = \<lparr>f_type = FrameTypeNoiseInit, f_reqid = hex_encode sid, f_payload = msg1\<rparr> in
      case send_err of Some e \<Rightarrow> io_fail (DSend e)
     | None \<Rightarrow>
     (case resp of Inl e \<Rightarrow> io_fail (DRecv e)
     | Inr rf \<Rightarrow>
        if f_type rf = FrameTypeError then io_fail (DRejected (f_payload rf))
        else if f_type rf \<noteq> FrameTypeNoiseResp then io_fail (DRespType (f_type rf))
        else (case fst (ReadMessage2 nz (f_payload rf) h) of
           Inl e \<Rightarrow> io_fail (DInitiator e)
         | Inr sess \<Rightarrow> io_ret ((sess, sid), f)))))))"

definition bridge_hello :: "client_options \<Rightarrow> hello" where
  "bridge_hello opt = \<lparr>h_role = ''bridge'', h_name = co_agent_name opt, h_secret = co_api_key opt, h_target = co_target opt\<rparr>"

definition dial_client ::
  "('h, 'c) noise_lib \<Rightarrow> (bytes \<Rightarrow> string + bytes) \<Rightarrow> net_answers \<Rightarrow> bytes \<Rightarrow> string option \<Rightarrow> string + frame \<Rightarrow> client_options \<Rightarrow>
   (dial_error, 'c router) io" where
  "dial_client nz x25519 na sid send_err resp opt =
     (case RuntimeTLSConfig (co_tls_mode opt) (co_cert_pin opt) of
       Inl e \<Rightarrow> io_fail (DTls e)
     | Inr _ \<Rightarrow>
     (case na_dial na of Some e \<Rightarrow> io_fail (DDial e)
     | None \<Rightarrow>
     (case encode_hello (bridge_hello opt) of
       Inl e \<Rightarrow> io_fail (DHello e)
     | Inr _ \<Rightarrow>
     (case na_send na of Some e \<Rightarrow> io_fail (DSend e)
     | None \<Rightarrow>
     (case na_recv na of Inl e \<Rightarrow> io_fail (DRecv e)
     | Inr ack \<Rightarrow>
       if f_type ack \<noteq> FrameTypeHelloAck then io_fail (DAckType (f_type ack))
       else
         io_bind (if co_e2e_mode opt \<noteq> ''disabled''
                  then io_bind (handshakeE2E nz x25519 sid send_err resp opt) (\<lambda>(ss, _). io_ret (Some ss))
                  else io_ret None) (\<lambda>ss.
         io_bind (on_err DRouter (NewRouter x25519 True (bytes_of (co_api_key opt)) (dial_config opt))) (\<lambda>rt.
         io_ret (case ss of None \<Rightarrow> rt | Some (s, i) \<Rightarrow> installSession s i rt))))))))"

end
