(* ===== verification/Link_Props.thy ===== *)
theory Link_Props
  imports Router
begin

text \<open>
  What the bridge's router and the daemon's link guarantee together: delivery through the gateway, the
  refusal of unauthenticated frames, and what a cancelled send does to an encrypted connection.
\<close>

section \<open>Only handshaken bridges are served\<close>

text \<open>A session after some encryptions and decryptions with the identifier \<open>sid\<close>, the only way it changes.\<close>

inductive used_session :: "('h, 'c) noise_lib \<Rightarrow> bytes \<Rightarrow> 'c e2e_session \<Rightarrow> 'c e2e_session \<Rightarrow> bool" for nz sid s where
  us_new: "used_session nz sid s s"
| us_encrypt: "used_session nz sid s s1 \<Longrightarrow> used_session nz sid s (snd (Encrypt nz sid pt s1))"
| us_decrypt: "used_session nz sid s s1 \<Longrightarrow> used_session nz sid s (snd (Decrypt nz sid ct s1))"

text \<open>The session of the link comes from a handshake frame that was received before.\<close>

definition from_handshake ::
  "('h, 'c) noise_lib \<Rightarrow> daemon_deps \<Rightarrow> link_event list \<Rightarrow> bytes \<Rightarrow> 'c e2e_session \<Rightarrow> bool" where
  "from_handshake nz d es sid sess \<longleftrightarrow> (\<exists>f peer msg2 s. Recv f \<in> set es \<and> f_type f = FrameTypeNoiseInit
     \<and> respond nz d f = Some (sid, peer, msg2, s) \<and> used_session nz sid s sess)"

definition link_inv :: "('h, 'c) noise_lib \<Rightarrow> daemon_deps \<Rightarrow> link_event list \<Rightarrow> 'c daemon_link \<Rightarrow> bool" where
  "link_inv nz d es lk \<longleftrightarrow> lk_deps lk = Some d
     \<and> (\<forall>sess. lk_session lk = Some sess \<longrightarrow> from_handshake nz d es (lk_sid lk) sess)"

lemma from_handshake_mono: "from_handshake nz d es sid sess \<Longrightarrow> from_handshake nz d (es @ fs) sid sess"
  unfolding from_handshake_def by auto

lemma from_handshake_used:
  assumes "from_handshake nz d es sid sess"
  shows "from_handshake nz d es sid (snd (Encrypt nz sid pt sess))" "from_handshake nz d es sid (snd (Decrypt nz sid ct sess))"
  using assms unfolding from_handshake_def by (blast intro: us_encrypt us_decrypt)+

lemma conn_send_simps [simp]:
  "lk_deps (conn_send c f lk) = lk_deps lk" "lk_session (conn_send c f lk) = lk_session lk"
  "lk_sid (conn_send c f lk) = lk_sid lk" "lk_up (conn_send c f lk) = lk_up lk"
  by (simp_all add: conn_send_def split: sum.split)

lemma sendInner_simps [simp]:
  "lk_deps (sendInner nz c f lk) = lk_deps lk" "lk_sid (sendInner nz c f lk) = lk_sid lk"
  "lk_up (sendInner nz c f lk) = lk_up lk" "lk_session (sendInner nz c f lk) = None \<longleftrightarrow> lk_session lk = None"
  by (auto simp: sendInner_def Let_def split: sum.split option.split prod.split)

lemma unwrap_simps:
  "unwrapRoute nz p lk = (r, lk') \<Longrightarrow> lk_deps lk' = lk_deps lk \<and> lk_sid lk' = lk_sid lk
     \<and> (lk_session lk' = None \<longleftrightarrow> lk_session lk = None) \<and> lk_up lk' = lk_up lk \<and> lk_sent lk' = lk_sent lk"
  by (auto simp: unwrapRoute_def Let_def split: option.splits if_splits prod.splits sum.splits)

lemma sendInner_session:
  "lk_session (sendInner nz c f lk) = lk_session lk
   \<or> (\<exists>sess pt. lk_session lk = Some sess \<and> lk_session (sendInner nz c f lk) = Some (snd (Encrypt nz (lk_sid lk) pt sess)))"
  by (cases "lk_session lk")
    (auto simp: sendInner_def Let_def split: sum.split prod.split intro: exI [of _ "case encode_frame f of Inl _ \<Rightarrow> [] | Inr b \<Rightarrow> b"])

lemma unwrap_session:
  "unwrapRoute nz p lk = (r, lk') \<Longrightarrow> lk_session lk' = lk_session lk
   \<or> (\<exists>sess ct. lk_session lk = Some sess \<and> lk_session lk' = Some (snd (Decrypt nz (lk_sid lk) ct sess)))"
  by (cases "lk_session lk")
    (auto simp: unwrapRoute_def Let_def split: if_splits prod.splits sum.splits intro!: exI [of _ "drop 8 p"])

lemma link_inv_session:
  assumes "link_inv nz d es lk" "lk_deps lk' = lk_deps lk" "lk_sid lk' = lk_sid lk"
    and "lk_session lk' = lk_session lk
      \<or> (\<exists>sess pt. lk_session lk = Some sess \<and> lk_session lk' = Some (snd (Encrypt nz (lk_sid lk) pt sess)))
      \<or> (\<exists>sess ct. lk_session lk = Some sess \<and> lk_session lk' = Some (snd (Decrypt nz (lk_sid lk) ct sess)))"
  shows "link_inv nz d (es @ fs) lk'"
  using assms from_handshake_used [of nz d es] from_handshake_mono [of nz d es] unfolding link_inv_def by fastforce

lemma receive_inv:
  assumes "link_inv nz d es lk" "receive nz f lk = (i, lk')"
  shows "link_inv nz d (es @ [Recv f]) lk'"
proof -
  have noise: "link_inv nz d (es @ [Recv f]) (handleNoiseInit nz f lk)" if "f_type f = FrameTypeNoiseInit"
  proof (cases "respond nz d f")
    case None
    with assms(1) show ?thesis by (auto simp: link_inv_def handleNoiseInit_def intro: from_handshake_mono)
  next
    case (Some r)
    obtain sid peer m2 s where r: "r = (sid, peer, m2, s)" by (cases r)
    have "from_handshake nz d (es @ [Recv f]) sid s" using Some r that us_new by (fastforce simp: from_handshake_def)
    with assms(1) Some r show ?thesis by (simp add: link_inv_def handleNoiseInit_def)
  qed
  show ?thesis
  proof (cases "f_type f = FrameTypeNoiseInit")
    case True
    with assms(2) noise show ?thesis by (auto simp: receive_def)
  next
    case False
    obtain r lk1 where u: "unwrapRoute nz (f_payload f) lk = (r, lk1)" by (cases "unwrapRoute nz (f_payload f) lk")
    have "link_inv nz d (es @ [Recv f]) lk1" "link_inv nz d (es @ [Recv f]) lk"
      using link_inv_session [OF assms(1)] unwrap_simps [OF u] unwrap_session [OF u] by blast+
    with False assms(2) u show ?thesis by (auto simp: receive_def Let_def split: if_splits sum.splits)
  qed
qed

lemma link_run_inv: "link_inv nz d es0 lk \<Longrightarrow> link_inv nz d (es0 @ es) (snd (link_run nz es lk))"
proof (induction nz es lk arbitrary: es0 rule: link_run.induct)
  case (2 nz f es lk)
  obtain i lk1 where r: "receive nz f lk = (i, lk1)" by (cases "receive nz f lk")
  from "2.IH" [OF r [symmetric] refl receive_inv [OF "2.prems" r]] r show ?case by (auto split: prod.splits)
next
  case (3 nz c f es lk)
  have "link_inv nz d (es0 @ [Send c f]) (sendInner nz c f lk)"
    by (rule link_inv_session [OF "3.prems"]) (use sendInner_session [of nz c f lk] in \<open>auto\<close>)
  from "3.IH" [OF this] show ?case by simp
qed simp

lemma link_run_append:
  "link_run nz (es @ fs) lk = (let (is1, lk1) = link_run nz es lk; (is2, lk2) = link_run nz fs lk1 in (is1 @ is2, lk2))"
  by (induction nz es lk rule: link_run.induct) (auto simp: Let_def split: prod.splits option.splits)

text \<open>An inner frame that a daemon in the mode \<open>required\<close> dispatches arrived in a Route frame that carries
  the identifier of a session and decrypts under the library's cipher with that identifier; the
  identifier was announced by a handshake frame of the same connection, the session whose cipher decrypts is the one
  of that handshake, and the key that the handshake revealed is on the operator's list.\<close>

definition authenticated :: "('h, 'c) noise_lib \<Rightarrow> daemon_deps \<Rightarrow> link_event list \<Rightarrow> frame \<Rightarrow> frame \<Rightarrow> bool" where
  "authenticated nz d es f inner \<longleftrightarrow> (\<exists>f0 sid peer msg2 s sess plain. Recv f0 \<in> set es \<and> f_type f0 = FrameTypeNoiseInit
     \<and> hex_decode (f_reqid f0) = Some sid \<and> respond nz d f0 = Some (sid, peer, msg2, s) \<and> peer \<in> set (dd_pubs d)
     \<and> f_type f = FrameTypeRoute \<and> take 8 (f_payload f) = sid
     \<and> used_session nz sid s sess \<and> fst (Decrypt nz sid (drop 8 (f_payload f)) sess) = Ok plain
     \<and> decode_frame plain = Ok inner)"

lemma receive_authentic:
  assumes inv: "link_inv nz d es lk" and "dd_mode d = ''required''" and "receive nz f lk = (Some inner, lk')"
  shows "authenticated nz d es f inner"
proof -
  from assms(3) have t: "f_type f = FrameTypeRoute"
    by (auto simp: receive_def split: if_splits)
  from assms(3) t obtain plain lk1 where u: "unwrapRoute nz (f_payload f) lk = (Ok plain, lk1)" "decode_frame plain = Ok inner"
    by (auto simp: receive_def split: prod.splits sum.splits)
  have "lk_session lk \<noteq> None"
    using u(1) inv assms(2) by (cases "lk_session lk") (auto simp: unwrapRoute_def link_inv_def)
  then obtain sess where s: "lk_session lk = Some sess" by blast
  with inv obtain f0 peer msg2 s0 where f0: "Recv f0 \<in> set es" "f_type f0 = FrameTypeNoiseInit"
    "respond nz d f0 = Some (lk_sid lk, peer, msg2, s0)" "used_session nz (lk_sid lk) s0 sess"
    by (auto simp: link_inv_def from_handshake_def)
  then have p: "peerAllowed peer (Some d)" "hex_decode (f_reqid f0) = Some (lk_sid lk)"
    by (auto simp: respond_def split: option.splits if_splits sum.splits prod.splits)
  have "peer \<in> set (dd_pubs d)" using p(1) assms(2) by (auto simp: peerAllowed_def split: if_splits)
  moreover have "take 8 (f_payload f) = lk_sid lk" "fst (Decrypt nz (lk_sid lk) (drop 8 (f_payload f)) sess) = Ok plain"
    using u(1) s by (auto simp: unwrapRoute_def Let_def split: if_splits prod.splits sum.splits)
  ultimately show ?thesis using f0 p(2) t u(2) unfolding authenticated_def by blast
qed

lemma fresh_link_inv: "link_inv nz d [] (fresh_link (Some d))"
  by (simp add: link_inv_def fresh_link_def)

lemma link_run_dispatched:
  "inner \<in> set (fst (link_run nz es lk)) \<Longrightarrow>
     \<exists>ps f qs lk'. es = ps @ Recv f # qs \<and> receive nz f (snd (link_run nz ps lk)) = (Some inner, lk')"
proof (induction nz es lk rule: link_run.induct)
  case (2 nz f es lk)
  obtain i lk1 where r: "receive nz f lk = (i, lk1)" by (cases "receive nz f lk")
  show ?case
  proof (cases "i = Some inner")
    case True
    with r show ?thesis by (intro exI [of _ "[]"] exI [of _ f] exI [of _ es] exI [of _ lk1]) simp
  next
    case False
    then have "inner \<in> set (fst (link_run nz es lk1))" using "2.prems" r by (auto split: prod.splits option.splits)
    from "2.IH" [OF r [symmetric] refl this] obtain ps g qs lk' where
      g: "es = ps @ Recv g # qs" "receive nz g (snd (link_run nz ps lk1)) = (Some inner, lk')" by blast
    then show ?thesis using r
      by (intro exI [of _ "Recv f # ps"] exI [of _ g] exI [of _ qs] exI [of _ lk']) (auto split: prod.splits)
  qed
next
  case (3 nz c f es lk)
  then obtain ps g qs lk' where
    g: "es = ps @ Recv g # qs" "receive nz g (snd (link_run nz ps (sendInner nz c f lk))) = (Some inner, lk')" by auto
  then show ?case by (intro exI [of _ "Send c f # ps"] exI [of _ g] exI [of _ qs] exI [of _ lk']) simp
qed simp

section \<open>Delivery\<close>

text \<open>Bridge and daemon agree: no session on either side and plaintext is accepted, or two sessions of one
  handshake under one identifier.\<close>

definition synced :: "'c router \<Rightarrow> 'c daemon_link \<Rightarrow> bool" where
  "synced r lk \<longleftrightarrow> (case (rt_session r, lk_session lk) of
       (None, None) \<Rightarrow> (case lk_deps lk of None \<Rightarrow> True | Some d \<Rightarrow> dd_mode d \<noteq> ''required'')
     | (Some s, Some t) \<Rightarrow> se_recv t = se_send s \<and> rt_sid r = lk_sid lk \<and> length (lk_sid lk) = 8
     | _ \<Rightarrow> False)"

definition synced_back :: "'c router \<Rightarrow> 'c daemon_link \<Rightarrow> bool" where
  "synced_back r lk \<longleftrightarrow> (case (rt_session r, lk_session lk) of
       (None, None) \<Rightarrow> True
     | (Some s, Some t) \<Rightarrow> se_recv s = se_send t \<and> rt_sid r = lk_sid lk \<and> length (lk_sid lk) = 8
     | _ \<Rightarrow> False)"

fun send_all :: "('h, 'c) noise_lib \<Rightarrow> frame list \<Rightarrow> 'c router \<Rightarrow> (router_error + unit) \<times> 'c router" where
  "send_all nz [] r = (Ok (), r)"
| "send_all nz (f # fs) r = (case router_sendInner nz False None f r of
       (Inl e, r') \<Rightarrow> (Err e, r') | (Inr _, r') \<Rightarrow> send_all nz fs r')"

lemma decode_encode:
  "encode_frame f = Ok b \<Longrightarrow> length (f_reqid f) < maxReqIDLen \<Longrightarrow> decode_frame b = Ok f"
  using decode_wire_tail [of f "[]"] by (auto simp: encode_frame_wire frame_ok_def split: if_splits)

lemma router_send_Ok:
  "router_send c net f r = (Ok (), r') \<Longrightarrow> r' = r\<lparr>rt_sent := rt_sent r @ [f]\<rparr>"
  by (auto simp: router_send_def split: if_splits sum.splits option.splits)

lemma deliver_one:
  assumes law: "cipher_law nz" and sync: "synced r lk" and id: "length (f_reqid f) < maxReqIDLen"
    and send: "router_sendInner nz False None f r = (Ok (), r')"
  shows "\<exists>p lk'. rt_sent r' = rt_sent r @ [route_frame (SignFrame (rt_key r) p)] \<and> rt_key r' = rt_key r
     \<and> receive nz (route_frame p) lk = (Some f, lk') \<and> synced r' lk'"
proof -
  obtain b where b: "encode_frame f = Ok b" using send by (auto simp: router_sendInner_def split: sum.splits)
  note d = decode_encode [OF b id]
  show ?thesis
  proof (cases "rt_session r")
    case None
    with sync have l: "lk_session lk = None" "case lk_deps lk of None \<Rightarrow> True | Some d \<Rightarrow> dd_mode d \<noteq> ''required''"
      by (auto simp: synced_def split: option.splits)
    have r': "r' = r\<lparr>rt_sent := rt_sent r @ [route_frame (SignFrame (rt_key r) b)]\<rparr>"
      using send None b router_send_Ok by (fastforce simp: router_sendInner_def)
    have "receive nz (route_frame b) lk = (Some f, lk)"
      using l d by (simp add: receive_def route_frame_def unwrapRoute_def split: option.splits)
    with r' None l show ?thesis by (intro exI [of _ b] exI [of _ lk]) (simp add: synced_def)
  next
    case (Some s)
    with sync obtain t where t: "lk_session lk = Some t" "se_recv t = se_send s" "rt_sid r = lk_sid lk" "length (lk_sid lk) = 8"
      by (auto simp: synced_def split: option.splits)
    obtain e c where e: "nz_encrypt nz (se_send s) (rt_sid r) b = (e, c)" by (cases "nz_encrypt nz (se_send s) (rt_sid r) b")
    from send Some b e obtain ct where ct: "e = Ok ct"
      and r': "r' = r\<lparr>rt_session := Some (s\<lparr>se_send := c\<rparr>), rt_sent := rt_sent r @ [route_frame (SignFrame (rt_key r) (rt_sid r @ ct))]\<rparr>"
      by (auto simp: router_sendInner_def Encrypt_def Let_def split: sum.splits dest!: router_send_Ok)
    have dec: "nz_decrypt nz (se_recv t) (lk_sid lk) ct = (Ok b, c)"
      using law e ct t unfolding cipher_law_def by metis
    let ?lk = "lk\<lparr>lk_session := Some (t\<lparr>se_recv := c\<rparr>)\<rparr>"
    have "receive nz (route_frame (rt_sid r @ ct)) lk = (Some f, ?lk)"
      using t dec d by (simp add: receive_def route_frame_def unwrapRoute_def Decrypt_def)
    with r' t show ?thesis by (intro exI [of _ "rt_sid r @ ct"] exI [of _ ?lk]) (simp add: synced_def)
  qed
qed

lemma deliver_back:
  assumes law: "cipher_law nz" and sync: "synced_back r lk" and id: "length (f_reqid f) < maxReqIDLen"
    and sent: "lk_sent (sendInner nz False f lk) = lk_sent lk @ [g]"
  shows "\<exists>r'. decodeInbound nz (f_payload g) r = (Ok f, r') \<and> synced_back r' (sendInner nz False f lk)"
proof -
  have "encode_frame f = Ok (wire f)"
    using sent by (auto simp: sendInner_def encode_frame_wire split: if_splits)
  note b = this decode_encode [OF this id]
  show ?thesis
  proof (cases "lk_session lk")
    case None
    with sync have r: "rt_session r = None" by (auto simp: synced_back_def split: option.splits)
    have "g = route_frame (wire f)" using sent None b by (auto simp: sendInner_def conn_send_def split: sum.splits if_splits)
    with r b None show ?thesis
      by (auto simp: decodeInbound_def route_frame_def sendInner_def synced_back_def)
  next
    case (Some t)
    with sync obtain s where s: "rt_session r = Some s" "se_recv s = se_send t" "rt_sid r = lk_sid lk" "length (lk_sid lk) = 8"
      by (auto simp: synced_back_def split: option.splits)
    obtain e c where e: "nz_encrypt nz (se_send t) (lk_sid lk) (wire f) = (e, c)" by (cases "nz_encrypt nz (se_send t) (lk_sid lk) (wire f)")
    obtain ct where ct: "e = Ok ct" "g = route_frame (lk_sid lk @ ct)"
      using sent Some b e by (cases e) (auto simp: sendInner_def Encrypt_def conn_send_def Let_def split: sum.splits if_splits)
    have dec: "nz_decrypt nz (se_recv s) (lk_sid lk) ct = (Ok (wire f), c)"
      using law e ct s unfolding cipher_law_def by metis
    have "lk_session (sendInner nz False f lk) = Some (t\<lparr>se_send := c\<rparr>)"
      using Some b e ct by (simp add: sendInner_def Encrypt_def)
    with s dec b ct show ?thesis
      by (simp add: decodeInbound_def route_frame_def Decrypt_def synced_back_def)
  qed
qed

text \<open>C3: Whatever inner frames a router sends, the gateway verifies each of their Route frames under the bridge's
  key, and the daemon that receives the payloads the gateway forwards dispatches exactly those inner frames in
  order, with or without end-to-end encryption; a frame that the daemon sends back decodes at the bridge to
  the inner frame.  The two sides stay in step.\<close>

theorem route_end_to_end:
  assumes "cipher_law nz" and "synced r lk" and "send_all nz inners r = (Ok (), r')"
    and "\<forall>f \<in> set inners. length (f_reqid f) < maxReqIDLen"
  shows "(\<exists>payloads lk'. map (\<lambda>g. VerifyFrame (rt_key r) (f_payload g)) (drop (length (rt_sent r)) (rt_sent r')) = map Ok payloads
      \<and> link_run nz (map (\<lambda>p. Recv (route_frame p)) payloads) lk = (inners, lk') \<and> synced r' lk')
    \<and> (synced_back r lk \<longrightarrow> (\<forall>f g. length (f_reqid f) < maxReqIDLen \<longrightarrow> lk_sent (sendInner nz False f lk) = lk_sent lk @ [g] \<longrightarrow>
        (\<exists>r1. decodeInbound nz (f_payload g) r = (Ok f, r1) \<and> synced_back r1 (sendInner nz False f lk))))"
proof -
  have "\<exists>payloads lk'. rt_sent r' = rt_sent r @ map (\<lambda>p. route_frame (SignFrame (rt_key r) p)) payloads
     \<and> link_run nz (map (\<lambda>p. Recv (route_frame p)) payloads) lk = (inners, lk') \<and> synced r' lk'"
    using assms(2-4)
  proof (induction inners arbitrary: r lk)
    case (Cons f fs)
    from Cons.prems(2) obtain r1 where r1: "router_sendInner nz False None f r = (Ok (), r1)" "send_all nz fs r1 = (Ok (), r')"
      by (auto split: prod.splits sum.splits)
    from deliver_one [OF assms(1) Cons.prems(1) _ r1(1)] Cons.prems(3) obtain p lk1 where
      p: "rt_sent r1 = rt_sent r @ [route_frame (SignFrame (rt_key r) p)]" "rt_key r1 = rt_key r"
      "receive nz (route_frame p) lk = (Some f, lk1)" "synced r1 lk1" by auto
    from Cons.IH [OF p(4) r1(2)] Cons.prems(3) obtain ps lk' where
      "rt_sent r' = rt_sent r1 @ map (\<lambda>p. route_frame (SignFrame (rt_key r1) p)) ps"
      "link_run nz (map (\<lambda>p. Recv (route_frame p)) ps) lk1 = (fs, lk')" "synced r' lk'" by auto
    with p show ?case by (intro exI [of _ "p # ps"] exI [of _ lk']) simp
  qed (auto intro: exI [of _ "[]"])
  then obtain ps lk' where "rt_sent r' = rt_sent r @ map (\<lambda>p. route_frame (SignFrame (rt_key r) p)) ps"
    "link_run nz (map (\<lambda>p. Recv (route_frame p)) ps) lk = (inners, lk')" "synced r' lk'" by blast
  then have "\<exists>payloads lk'. map (\<lambda>g. VerifyFrame (rt_key r) (f_payload g)) (drop (length (rt_sent r)) (rt_sent r')) = map Ok payloads
      \<and> link_run nz (map (\<lambda>p. Recv (route_frame p)) payloads) lk = (inners, lk') \<and> synced r' lk'"
    by (intro exI [of _ ps] exI [of _ lk']) (simp add: route_frame_def comp_def)
  with deliver_back [OF assms(1)] show ?thesis by blast
qed

section \<open>A cancelled send breaks the encrypted direction\<close>

text \<open>What the library documents of its cipher states: a nonce counts the encryptions, and a ciphertext of
  another nonce is refused without changing the state.\<close>

definition counter_law :: "('h, 'c) noise_lib \<Rightarrow> ('c \<Rightarrow> nat) \<Rightarrow> bool" where
  "counter_law nz nonce \<longleftrightarrow>
     (\<forall>c ad pt ct c'. nz_encrypt nz c ad pt = (Ok ct, c') \<longrightarrow> nonce c' = Suc (nonce c))
     \<and> (\<forall>c ad pt e c'. nz_encrypt nz c ad pt = (Err e, c') \<longrightarrow> nonce c' = nonce c)
     \<and> (\<forall>c d ad pt ct d'. nz_encrypt nz d ad pt = (Ok ct, d') \<longrightarrow> nonce d \<noteq> nonce c \<longrightarrow> (\<exists>e. nz_decrypt nz c ad ct = (Err e, c)))"

definition ahead :: "('c \<Rightarrow> nat) \<Rightarrow> 'c router \<Rightarrow> 'c daemon_link \<Rightarrow> bool" where
  "ahead nonce r lk \<longleftrightarrow> (\<exists>s t. rt_session r = Some s \<and> lk_session lk = Some t \<and> nonce (se_recv s) < nonce (se_send t)
     \<and> rt_sid r = lk_sid lk \<and> length (lk_sid lk) = 8)"

lemma ahead_send:
  assumes law: "counter_law nz nonce" and a: "ahead nonce r lk"
  shows "ahead nonce r (sendInner nz c f lk) \<and> (\<exists>gs. lk_sent (sendInner nz c f lk) = lk_sent lk @ gs
     \<and> (\<forall>g \<in> set gs. \<exists>e. decodeInbound nz (f_payload g) r = (Err e, r)))"
proof -
  from a obtain s t where st: "rt_session r = Some s" "lk_session lk = Some t" "nonce (se_recv s) < nonce (se_send t)"
    "rt_sid r = lk_sid lk" "length (lk_sid lk) = 8" by (auto simp: ahead_def)
  show ?thesis
  proof (cases "encode_frame f")
    case (Inl e)
    with a show ?thesis by (simp add: sendInner_def)
  next
    case (Inr b)
    obtain e c' where e: "nz_encrypt nz (se_send t) (lk_sid lk) b = (e, c')" by (cases "nz_encrypt nz (se_send t) (lk_sid lk) b")
    have n: "nonce (se_send t) \<le> nonce c'"
      using law e by (cases e) (auto simp: counter_law_def intro!: eq_imp_le)
    show ?thesis
    proof (cases e)
      case e': (Inl m)
      with Inr e st n show ?thesis by (simp add: sendInner_def Encrypt_def ahead_def)
    next
      case ct: (Inr ct)
      obtain m where "nz_decrypt nz (se_recv s) (lk_sid lk) ct = (Err m, se_recv s)"
        using law e ct st(3) unfolding counter_law_def by (metis less_irrefl_nat)
      then have "decodeInbound nz (lk_sid lk @ ct) r = (Err (RtDecrypt m), r)"
        using st by (simp add: decodeInbound_def Decrypt_def)
      with Inr e ct st n show ?thesis
        by (auto simp: sendInner_def Encrypt_def ahead_def conn_send_def route_frame_def Let_def split: sum.split)
    qed
  qed
qed

text \<open>\<open>sendInner\<close> encrypts before the connection looks at the context.  When the context is cancelled, as it is when a
  bridge closes a port-forwarding stream and the handler sends its last message, the nonce is used up and
  nothing is written; from then on the bridge refuses every frame the daemon sends on this connection.\<close>

theorem cancelled_send_desyncs:
  assumes "counter_law nz nonce" and "synced_back r lk" and "lk_session lk = Some t"
    and "encode_frame f = Ok b" and "nz_encrypt nz (se_send t) (lk_sid lk) b = (Ok ct, c')"
  defines "lk1 \<equiv> sendInner nz True f lk"
  shows "lk_sent lk1 = lk_sent lk \<and> (\<forall>inners. \<forall>g \<in> set (drop (length (lk_sent lk)) (lk_sent (fold (sendInner nz False) inners lk1))).
    \<exists>e. decodeInbound nz (f_payload g) r = (Err e, r))"
proof -
  obtain s where s: "rt_session r = Some s" "se_recv s = se_send t" "rt_sid r = lk_sid lk" "length (lk_sid lk) = 8"
    using assms(2,3) by (auto simp: synced_back_def split: option.splits)
  have lk1: "lk1 = lk\<lparr>lk_session := Some (t\<lparr>se_send := c'\<rparr>)\<rparr>"
    using assms(3-5) by (simp add: lk1_def sendInner_def Encrypt_def conn_send_def)
  have "nonce c' = Suc (nonce (se_send t))" using assms(1,5) unfolding counter_law_def by blast
  then have "ahead nonce r lk1" using s by (simp add: lk1 ahead_def)
  then have "\<exists>gs. lk_sent (fold (sendInner nz False) inners lk1) = lk_sent lk1 @ gs
      \<and> (\<forall>g \<in> set gs. \<exists>e. decodeInbound nz (f_payload g) r = (Err e, r))" for inners
  proof (induction inners arbitrary: lk1)
    case (Cons f fs)
    from ahead_send [OF assms(1) Cons.prems, of False f] obtain gs where
      gs: "ahead nonce r (sendInner nz False f lk1)" "lk_sent (sendInner nz False f lk1) = lk_sent lk1 @ gs"
      "\<forall>g \<in> set gs. \<exists>e. decodeInbound nz (f_payload g) r = (Err e, r)" by blast
    from Cons.IH [OF gs(1)] gs(2,3) show ?case by fastforce
  qed simp
  moreover have "lk_sent lk1 = lk_sent lk" by (simp add: lk1)
  ultimately show ?thesis by (metis append_eq_conv_conj)
qed

section \<open>Instances\<close>

text \<open>A library whose ciphertexts show their nonce in unary.\<close>

definition counting_noise :: "bytes \<Rightarrow> (nat, nat) noise_lib" where
  "counting_noise peer = toy_noise\<lparr>nz_peer := (\<lambda>_. peer),
     nz_encrypt := (\<lambda>c ad pt. (Ok (replicate c 1 @ 0 # pt), c + 1)),
     nz_decrypt := (\<lambda>c ad ct. if length (takeWhile (\<lambda>x. x = 1) ct) = c then (Ok (drop (Suc c) ct), c + 1) else (Err ''mac'', c))\<rparr>"

lemma unary_length: "length (takeWhile (\<lambda>x. x = 1) (replicate c (1 :: byte) @ 0 # pt)) = c"
  by (induction c) simp_all

lemma counting_noise_laws: "cipher_law (counting_noise p)" "counter_law (counting_noise p) id"
  by (auto simp: cipher_law_def counter_law_def counting_noise_def unary_length)

definition demo_deps :: daemon_deps where
  "demo_deps = \<lparr>dd_key = \<lparr>sk_private = [], sk_public = []\<rparr>, dd_pubs = [[7]], dd_prologue = [], dd_mode = ''required''\<rparr>"

definition demo_router :: "nat router" where
  "demo_router = \<lparr>rt_key = [1], rt_mode = ''required'', rt_bridge_key = None, rt_daemon_pub = [], rt_prologue = [],
     rt_conn = True, rt_session = Some \<lparr>se_send = 10, se_recv = 20\<rparr>, rt_sid = replicate 8 0, rt_pending = Map.empty,
     rt_evicted = False, rt_sent = []\<rparr>"

definition demo_link :: "nat daemon_link" where
  "demo_link = (fresh_link (Some demo_deps))\<lparr>lk_session := Some \<lparr>se_send = 20, se_recv = 10\<rparr>\<rparr>"

definition demo_frame :: frame where
  "demo_frame = \<lparr>f_type = FrameTypePing, f_reqid = ''r'', f_payload = []\<rparr>"

definition demo_init :: frame where
  "demo_init = \<lparr>f_type = FrameTypeNoiseInit, f_reqid = ''0000000000000000'', f_payload = [9]\<rparr>"

definition demo_route :: frame where
  "demo_route = route_frame (replicate 8 0 @ replicate 10 1 @ 0 # wire demo_frame)"

definition demo_shaken :: "nat daemon_link" where
  "demo_shaken = demo_link\<lparr>lk_sent := [\<lparr>f_type = FrameTypeNoiseResp, f_reqid = ''0000000000000000'', f_payload = []\<rparr>]\<rparr>"

lemma demo_respond:
  "respond (counting_noise [7]) demo_deps demo_init = Some (replicate 8 0, [7], [], \<lparr>se_send = 20, se_recv = 10\<rparr>)"
proof -
  have "hex_decode ''0000000000000000'' = Some (replicate 8 0)" by code_simp
  then show ?thesis
    by (simp add: respond_def demo_init_def NewResponder_def ReadMessage1_def WriteMessage2_def counting_noise_def
        toy_noise_def peerAllowed_def demo_deps_def)
qed

lemma demo_shake:
  "link_run (counting_noise [7]) [Recv demo_route, Recv demo_init] (fresh_link (Some demo_deps)) = ([], demo_shaken)"
proof -
  have "receive (counting_noise [7]) demo_route (fresh_link (Some demo_deps)) = (None, fresh_link (Some demo_deps))"
    by (simp add: receive_def demo_route_def route_frame_def unwrapRoute_def fresh_link_def demo_deps_def)
  moreover have "receive (counting_noise [7]) demo_init (fresh_link (Some demo_deps)) = (None, demo_shaken)"
    using demo_respond
    by (simp add: receive_def handleNoiseInit_def fresh_link_def demo_shaken_def demo_link_def conn_send_def encode_frame_wire
        maxReqIDLen_def maxPayloadLen_def demo_init_def)
  ultimately show ?thesis by simp
qed

lemma demo_frame_wire: "encode_frame demo_frame = Ok (wire demo_frame)" "decode_frame (wire demo_frame) = Ok demo_frame"
  "length (wire demo_frame) = 9"
proof -
  have "frame_ok demo_frame" by (simp add: demo_frame_def frame_ok_def maxReqIDLen_def maxPayloadLen_def)
  then show "encode_frame demo_frame = Ok (wire demo_frame)" "decode_frame (wire demo_frame) = Ok demo_frame"
    using encode_frame_ok [of demo_frame] decode_wire_tail [of demo_frame "[]"] by simp_all
  show "length (wire demo_frame) = 9" by (simp add: wire_def demo_frame_def put_uint16_def put_uint32_def)
qed

lemma route_frame_encodes: "length p \<le> 67108864 \<Longrightarrow> encode_frame (route_frame p) = Ok (wire (route_frame p))"
  by (simp add: encode_frame_wire route_frame_def maxReqIDLen_def maxPayloadLen_def)

lemma demo_receive: "fst (receive (counting_noise [7]) demo_route demo_shaken) = Some demo_frame"
  by (simp add: receive_def demo_route_def route_frame_def unwrapRoute_def demo_shaken_def demo_link_def fresh_link_def
      Decrypt_def counting_noise_def unary_length demo_frame_wire)

lemma demo_synced: "synced demo_router demo_link" "synced_back demo_router demo_link"
  by (simp_all add: synced_def synced_back_def demo_router_def demo_link_def fresh_link_def)

theorem route_end_to_end_witness:
  "\<exists>ps. length ps = 2 \<and> fst (link_run (counting_noise []) (map (\<lambda>p. Recv (route_frame p)) ps) demo_link) = [demo_frame, demo_frame]"
proof -
  let ?nz = "counting_noise []"
  let ?r = "snd (send_all ?nz [demo_frame, demo_frame] demo_router)"
  have one: "\<exists>r'. router_sendInner ?nz False None demo_frame r = (Ok (), r') \<and> length (rt_sent r') = Suc (length (rt_sent r))
      \<and> rt_conn r' \<and> rt_session r' = Some (s\<lparr>se_send := Suc (se_send s)\<rparr>) \<and> rt_sid r' = rt_sid r"
    if "rt_conn r" "rt_session r = Some s" "se_send s < 100" "length (rt_sid r) = 8" for r s
    using that by (simp add: router_sendInner_def demo_frame_wire router_send_def Encrypt_def counting_noise_def
        route_frame_encodes Let_def)
  have snt: "send_all ?nz [demo_frame, demo_frame] demo_router = (Ok (), ?r) \<and> length (rt_sent ?r) = 2"
  proof -
    from one [of demo_router "\<lparr>se_send = 10, se_recv = 20\<rparr>"] obtain r1 where
      r1: "router_sendInner ?nz False None demo_frame demo_router = (Ok (), r1)" "length (rt_sent r1) = 1"
        "rt_conn r1" "rt_session r1 = Some \<lparr>se_send = 11, se_recv = 20\<rparr>" "rt_sid r1 = replicate 8 0"
      by (auto simp: demo_router_def)
    from one [OF r1(3,4)] r1(2,5) obtain r2 where "router_sendInner ?nz False None demo_frame r1 = (Ok (), r2)" "length (rt_sent r2) = 2"
      by auto
    with r1(1) show ?thesis by simp
  qed
  have id: "\<forall>f \<in> set [demo_frame, demo_frame]. length (f_reqid f) < maxReqIDLen"
    by (simp add: demo_frame_def maxReqIDLen_def)
  from route_end_to_end [OF counting_noise_laws(1) demo_synced(1) conjunct1 [OF snt] id] obtain ps lk' where
    "map (\<lambda>g. VerifyFrame (rt_key demo_router) (f_payload g)) (drop (length (rt_sent demo_router)) (rt_sent ?r)) = map Ok ps"
    "link_run ?nz (map (\<lambda>p. Recv (route_frame p)) ps) demo_link = ([demo_frame, demo_frame], lk')" by blast
  note ps = this
  have "rt_sent demo_router = []" by (simp add: demo_router_def)
  with arg_cong [OF ps(1), of length] snt have "length ps = 2" by simp
  with ps(2) show ?thesis by (intro exI [of _ ps]) simp
qed

theorem cancelled_send_desyncs_witness:
  "\<exists>e. decodeInbound (counting_noise []) (f_payload (route_frame (replicate 8 0 @ replicate 21 1 @ 0 # wire demo_frame))) demo_router
     = (Err e, demo_router)"
proof -
  let ?nz = "counting_noise []"
  let ?lk1 = "sendInner ?nz True demo_frame demo_link"
  note enc = demo_frame_wire(1)
  have ses: "lk_session demo_link = Some \<lparr>se_send = 20, se_recv = 10\<rparr>" by (simp add: demo_link_def)
  have ct: "nz_encrypt ?nz (se_send \<lparr>se_send = 20, se_recv = 10\<rparr>) (lk_sid demo_link) (wire demo_frame)
      = (Ok (replicate 20 1 @ 0 # wire demo_frame), 21)" by (simp add: counting_noise_def)
  note d = cancelled_send_desyncs [OF counting_noise_laws(2) demo_synced(2) ses enc ct]
  have "lk_sent (sendInner ?nz False demo_frame ?lk1) = [route_frame (replicate 8 0 @ replicate 21 1 @ 0 # wire demo_frame)]"
    by (simp add: sendInner_def enc Encrypt_def counting_noise_def conn_send_def demo_link_def fresh_link_def
        route_frame_encodes demo_frame_wire Let_def)
  then have "route_frame (replicate 8 0 @ replicate 21 1 @ 0 # wire demo_frame) \<in>
      set (drop (length (lk_sent demo_link)) (lk_sent (fold (sendInner ?nz False) [demo_frame] ?lk1)))"
    by (simp add: demo_link_def fresh_link_def)
  with d show ?thesis by blast
qed

end
