(* ===== verification/Capabilities.thy ===== *)
theory Capabilities
  imports Prelude
begin

text \<open>
  \<open>internal/capabilities/capabilities.go\<close>: what a daemon tells about its configuration.
\<close>

record capabilities =
  cp_daemon_name :: string
  cp_hostname :: string
  cp_exec_enabled :: bool
  cp_env_allowlist :: "string list"
  cp_forbidden_ports :: "int list"
  cp_max_file_bytes :: int
  cp_version :: string
  cp_working_dir :: string

end
