(* ===== verification/Daemon_Handlers.thy ===== *)
theory Daemon_Handlers
  imports Daemon_Link Capabilities Exec Bgexec Search Fs_Tools Write_File Edit_File Read_File Upload
begin

text \<open>
  \<open>cmd/agbridge/daemon.go\<close>, the request handlers: each decodes its request, runs the tool, and answers with
  inner frames that carry the request's identifier.  The JSON codecs, the machine, the network and the clock
  are in the record \<open>daemon_env\<close>.
\<close>

section \<open>What the handlers use\<close>

record daemon_env =
  \<comment> \<open>decoders of the requests, \<open>None\<close> when the JSON is bad\<close>
  jd_exec :: "bytes \<Rightarrow> exec_request option"
  jd_read :: "bytes \<Rightarrow> file_read_request option"
  jd_write :: "bytes \<Rightarrow> file_write_request option"
  jd_edit :: "bytes \<Rightarrow> file_edit_request option"
  jd_upload :: "bytes \<Rightarrow> upload_request option"
  jd_download :: "bytes \<Rightarrow> download_request option"
  jd_list :: "bytes \<Rightarrow> string option"
  jd_stat :: "bytes \<Rightarrow> string option"
  jd_search :: "bytes \<Rightarrow> search_request option"
  jd_bg :: "bytes \<Rightarrow> bg_request option"
  \<comment> \<open>encoders of the answers\<close>
  je_exec_chunk :: "exec_chunk \<Rightarrow> bytes"
  je_exec_done :: "exec_complete \<Rightarrow> bytes"
  je_chunk :: "file_chunk \<Rightarrow> bytes"
  je_complete :: "file_complete \<Rightarrow> bytes"
  je_list :: "list_dir_response \<Rightarrow> bytes"
  je_stat :: "stat_response \<Rightarrow> bytes"
  je_search :: "search_response \<Rightarrow> bytes"
  je_bg :: "bg_response \<Rightarrow> bytes"
  je_caps :: "capabilities \<Rightarrow> bytes"
  je_error :: "string \<Rightarrow> string \<Rightarrow> bytes"
  \<comment> \<open>the machine\<close>
  de_cfg :: daemon_config
  de_environ :: "string list"
  de_mach :: "command \<Rightarrow> int \<Rightarrow> exec_run"
  de_mix :: "exec_chunk list \<Rightarrow> exec_chunk list \<Rightarrow> exec_chunk list"
  de_spawn :: "command \<Rightarrow> string + int"
  de_kill :: "int \<Rightarrow> signal \<Rightarrow> string option"
  de_rnd :: bytes
  de_now :: int
  de_compile :: "string \<Rightarrow> string + (string \<Rightarrow> nat option)"
  de_tree :: "string \<Rightarrow> walk_node"
  de_ms :: int
  de_http :: "upload_request \<Rightarrow> http_result"
  de_et :: "os_error \<Rightarrow> string"
  de_hostname :: string
  de_home :: "string option"
  de_version :: string

definition maxFileBytes :: int where "maxFileBytes = 10485760"

definition reply :: "frame \<Rightarrow> frame_type \<Rightarrow> bytes \<Rightarrow> frame" where
  "reply inner t p = \<lparr>f_type = t, f_reqid = f_reqid inner, f_payload = p\<rparr>"

definition emitFileComplete :: "daemon_env \<Rightarrow> frame \<Rightarrow> file_complete \<Rightarrow> frame" where
  "emitFileComplete de inner c = reply inner FrameTypeFileComplete (je_complete de c)"

text \<open>The handlers drop the error of a tool, which is set only when the context is cancelled; the completion
  is the zero value then.\<close>

definition complete_of :: "ctx_error + file_complete \<Rightarrow> file_complete" where
  "complete_of r = (case r of Inl _ \<Rightarrow> fc_zero | Inr c \<Rightarrow> c)"

section \<open>Handlers\<close>

definition handleExec :: "daemon_env \<Rightarrow> frame \<Rightarrow> frame list" where
  "handleExec de inner = (case jd_exec de (f_payload inner) of
       None \<Rightarrow> [reply inner FrameTypeError (bytes_of ''bad_payload'')]
     | Some req \<Rightarrow>
         (case Exec (de_mach de) (de_environ de) req (dc_exec_enabled (de_cfg de)) (dc_env_allowlist (de_cfg de)) of
            Inl ExecDisabled \<Rightarrow> [reply inner FrameTypeError (je_error de ''tool_forbidden'' ''exec disabled on this daemon'')]
          | Inl (SpawnFailed _) \<Rightarrow> [reply inner FrameTypeError (je_error de ''exec_failed'' [])]
          | Inr (c, outs, errs) \<Rightarrow>
              map (\<lambda>x. reply inner FrameTypeExecChunk (je_exec_chunk de x)) (de_mix de outs errs)
              @ [reply inner FrameTypeExecComplete (je_exec_done de c)]))"

definition handleCapabilities :: "daemon_env \<Rightarrow> frame \<Rightarrow> frame list" where
  "handleCapabilities de inner = (let cfg = de_cfg de in
     [reply inner FrameTypeCapabilitiesResponse (je_caps de
        \<lparr>cp_daemon_name = dc_daemon_name cfg, cp_hostname = de_hostname de, cp_exec_enabled = dc_exec_enabled cfg,
         cp_env_allowlist = dc_env_allowlist cfg, cp_forbidden_ports = dc_forbidden_ports cfg,
         cp_max_file_bytes = maxFileBytes, cp_version = de_version de,
         cp_working_dir = effectiveDefaultWorkingDir (de_home de) cfg\<rparr>)])"

definition handleListDir :: "daemon_env \<Rightarrow> frame \<Rightarrow> world \<Rightarrow> frame list \<times> world" where
  "handleListDir de inner w = (case jd_list de (f_payload inner) of
       None \<Rightarrow> ([reply inner FrameTypeListDirResponse (je_list de (ld_fail ''bad_payload'' []))], w)
     | Some path \<Rightarrow>
         (let (r, w') = ListDirectory path w in
          ([reply inner FrameTypeListDirResponse (je_list de (case r of Inl _ \<Rightarrow> ld_fail ''read_failed'' [] | Inr x \<Rightarrow> x))], w')))"

definition handleStat :: "daemon_env \<Rightarrow> frame \<Rightarrow> world \<Rightarrow> frame list \<times> world" where
  "handleStat de inner w = (case jd_stat de (f_payload inner) of
       None \<Rightarrow> ([reply inner FrameTypeStatResponse (je_stat de \<lparr>sr_entry = None, sr_err = ''bad_payload'', sr_detail = []\<rparr>)], w)
     | Some path \<Rightarrow>
         (let (r, w') = Stat path w in
          ([reply inner FrameTypeStatResponse (je_stat de (case r of
              Inl _ \<Rightarrow> \<lparr>sr_entry = None, sr_err = ''read_failed'', sr_detail = []\<rparr> | Inr x \<Rightarrow> x))], w')))"

definition handleSearch :: "daemon_env \<Rightarrow> frame \<Rightarrow> frame list" where
  "handleSearch de inner = (case jd_search de (f_payload inner) of
       None \<Rightarrow> [reply inner FrameTypeSearchResponse (je_search de (sx_fail ''bad_payload'' []))]
     | Some req \<Rightarrow> [reply inner FrameTypeSearchResponse (je_search de
         (Search (de_compile de) (de_tree de (sq_path req)) (de_ms de) req))])"

definition handleBgExec :: "daemon_env \<Rightarrow> frame \<Rightarrow> bg_registry \<Rightarrow> frame list \<times> bg_registry" where
  "handleBgExec de inner r =
     (let answer = (\<lambda>resp. [reply inner FrameTypeBgExecResponse (je_bg de resp)]) in
      case jd_bg de (f_payload inner) of
        None \<Rightarrow> (answer (bg_fail ''unknown'' ''bad_payload'' []), r)
      | Some req \<Rightarrow>
          if bq_action req = ''start'' then
            (let (resp, r') = StartBg (de_spawn de) (de_environ de) req (dc_exec_enabled (de_cfg de))
                   (dc_env_allowlist (de_cfg de)) (de_rnd de) (de_now de) r in (answer resp, r'))
          else if bq_action req = ''status'' then (answer (Status (de_now de) req r), r)
          else if bq_action req = ''logs'' then (answer (Logs req r), r)
          else if bq_action req = ''kill'' then
            (let (resp, r') = Kill (de_kill de) (de_now de) req r in (answer resp, r'))
          else if bq_action req = ''list'' then (answer (ListBg r), r)
          else (answer (bg_fail (bq_action req) ''bad_payload'' ''action must be start|status|logs|kill|list''), r))"

definition handleEdit :: "daemon_env \<Rightarrow> frame \<Rightarrow> world \<Rightarrow> frame list \<times> world" where
  "handleEdit de inner w = (case jd_edit de (f_payload inner) of
       None \<Rightarrow> ([emitFileComplete de inner (fc_error ''bad_payload'')], w)
     | Some req \<Rightarrow> (let (r, w') = EditFile req maxFileBytes w in ([emitFileComplete de inner (complete_of r)], w')))"

definition read_frames_of :: "daemon_env \<Rightarrow> frame \<Rightarrow> ((ctx_error + file_complete) \<times> file_chunk list) \<Rightarrow> frame list" where
  "read_frames_of de inner rc = map (\<lambda>c. reply inner FrameTypeFileChunk (je_chunk de c)) (snd rc)
     @ [emitFileComplete de inner (complete_of (fst rc))]"

definition handleRead :: "daemon_env \<Rightarrow> frame \<Rightarrow> world \<Rightarrow> frame list \<times> world" where
  "handleRead de inner w = (case jd_read de (f_payload inner) of
       None \<Rightarrow> ([emitFileComplete de inner (fc_error ''bad_payload'')], w)
     | Some req \<Rightarrow> (let (rc, w') = ReadFile req maxFileBytes w in (read_frames_of de inner rc, w')))"

definition handleDownload :: "daemon_env \<Rightarrow> frame \<Rightarrow> world \<Rightarrow> frame list \<times> world" where
  "handleDownload de inner w = (case jd_download de (f_payload inner) of
       None \<Rightarrow> ([emitFileComplete de inner (fc_error ''bad_payload'')], w)
     | Some req \<Rightarrow>
         (let (rc, w') = ReadFile \<lparr>rr_path = dl_src req, rr_max_size = 0, rr_offset = dl_offset req, rr_limit = dl_limit req\<rparr>
                UploadMaxBytes w in (read_frames_of de inner rc, w')))"

text \<open>\<open>src\<close>: what the handler's \<open>next\<close> returns, the chunks of its slot and the context's error.\<close>

definition handleWrite :: "daemon_env \<Rightarrow> (string + file_chunk) list \<Rightarrow> frame \<Rightarrow> world \<Rightarrow> frame list \<times> world" where
  "handleWrite de src inner w = (case jd_write de (f_payload inner) of
       None \<Rightarrow> ([emitFileComplete de inner (fc_error ''bad_payload'')], w)
     | Some req \<Rightarrow> (let (r, w') = WriteFile req maxFileBytes src w in ([emitFileComplete de inner (complete_of r)], w')))"

definition handleUpload :: "daemon_env \<Rightarrow> (string + file_chunk) list \<Rightarrow> frame \<Rightarrow> world \<Rightarrow> frame list \<times> world" where
  "handleUpload de src inner w = (case jd_upload de (f_payload inner) of
       None \<Rightarrow> ([emitFileComplete de inner (fc_error ''bad_payload'')], w)
     | Some req \<Rightarrow>
         if up_source req = ''chunks'' then
           (let (r, w') = UploadChunks (de_et de) req src w in ([emitFileComplete de inner (complete_of r)], w'))
         else if up_source req = ''url'' then
           (let (r, w') = UploadURL (de_et de) req (de_http de req) w in ([emitFileComplete de inner (complete_of r)], w'))
         else ([emitFileComplete de inner ((fc_error ''bad_payload'')\<lparr>fc_detail :=
             ''source must be '' @ [CHR 0x27] @ ''chunks'' @ [CHR 0x27] @ '' or '' @ [CHR 0x27] @ ''url'' @ [CHR 0x27] @ '', got '' @ up_source req\<rparr>)], w))"

section \<open>Every request is answered once\<close>

text \<open>The frames of one handler: all carry the request's identifier, the last one is of one of the types \<open>final\<close>
  and the others are chunks.\<close>

definition answers :: "frame \<Rightarrow> frame_type set \<Rightarrow> frame list \<Rightarrow> bool" where
  "answers inner final fs \<longleftrightarrow> fs \<noteq> [] \<and> f_type (last fs) \<in> final \<and> list_all (\<lambda>f. f_reqid f = f_reqid inner) fs
     \<and> list_all (\<lambda>f. f_type f \<in> {FrameTypeExecChunk, FrameTypeFileChunk}) (butlast fs)"

lemma answers_one: "t \<in> final \<Longrightarrow> answers inner final [reply inner t p]"
  by (simp add: answers_def reply_def)

lemma answers_complete: "answers inner {FrameTypeFileComplete} [emitFileComplete de inner c]"
  by (simp add: emitFileComplete_def answers_one)

lemma answers_chunks:
  assumes "t \<in> {FrameTypeExecChunk, FrameTypeFileChunk}" "u \<in> final"
  shows "answers inner final (map (\<lambda>x. reply inner t (enc x)) xs @ [reply inner u p])"
  using assms by (auto simp: answers_def reply_def list_all_iff)

lemma answers_read: "answers inner {FrameTypeFileComplete} (read_frames_of de inner rc)"
  by (auto simp: read_frames_of_def emitFileComplete_def intro!: answers_chunks)

text \<open>C33: Whatever the request's payload is and however the tool ends, each handler answers the request with frames
  of the request's identifier, of which exactly the last is final: a completion, a response or, for exec only,
  an error; all before it are chunks.\<close>

theorem handlers_answer_once:
  "answers inner {FrameTypeExecComplete, FrameTypeError} (handleExec de inner)
   \<and> answers inner {FrameTypeCapabilitiesResponse} (handleCapabilities de inner)
   \<and> answers inner {FrameTypeListDirResponse} (fst (handleListDir de inner w))
   \<and> answers inner {FrameTypeStatResponse} (fst (handleStat de inner w))
   \<and> answers inner {FrameTypeSearchResponse} (handleSearch de inner)
   \<and> answers inner {FrameTypeBgExecResponse} (fst (handleBgExec de inner r))
   \<and> answers inner {FrameTypeFileComplete} (fst (handleEdit de inner w))
   \<and> answers inner {FrameTypeFileComplete} (fst (handleRead de inner w))
   \<and> answers inner {FrameTypeFileComplete} (fst (handleDownload de inner w))
   \<and> answers inner {FrameTypeFileComplete} (fst (handleWrite de src inner w))
   \<and> answers inner {FrameTypeFileComplete} (fst (handleUpload de src inner w))"
proof (intro conjI)
  show "answers inner {FrameTypeExecComplete, FrameTypeError} (handleExec de inner)"
    by (auto simp: handleExec_def split: option.split sum.split exec_error.split intro: answers_one answers_chunks)
  show "answers inner {FrameTypeCapabilitiesResponse} (handleCapabilities de inner)"
    by (simp add: handleCapabilities_def Let_def answers_one)
  show "answers inner {FrameTypeListDirResponse} (fst (handleListDir de inner w))"
    by (auto simp: handleListDir_def intro: answers_one split: option.split prod.split)
  show "answers inner {FrameTypeStatResponse} (fst (handleStat de inner w))"
    by (auto simp: handleStat_def intro: answers_one split: option.split prod.split)
  show "answers inner {FrameTypeSearchResponse} (handleSearch de inner)"
    by (auto simp: handleSearch_def intro: answers_one split: option.split)
  show "answers inner {FrameTypeBgExecResponse} (fst (handleBgExec de inner r))"
    by (auto simp: handleBgExec_def Let_def intro: answers_one split: option.split prod.split)
  show "answers inner {FrameTypeFileComplete} (fst (handleEdit de inner w))"
    by (auto simp: handleEdit_def intro: answers_complete split: option.split prod.split)
  show "answers inner {FrameTypeFileComplete} (fst (handleRead de inner w))"
    by (auto simp: handleRead_def intro: answers_complete answers_read split: option.split prod.split)
  show "answers inner {FrameTypeFileComplete} (fst (handleDownload de inner w))"
    by (auto simp: handleDownload_def intro: answers_complete answers_read split: option.split prod.split)
  show "answers inner {FrameTypeFileComplete} (fst (handleWrite de src inner w))"
    by (auto simp: handleWrite_def intro: answers_complete split: option.split prod.split)
  show "answers inner {FrameTypeFileComplete} (fst (handleUpload de src inner w))"
    by (auto simp: handleUpload_def intro: answers_complete split: option.split prod.split)
qed

end
