(* ===== verification/Daemon_Loop.thy ===== *)
theory Daemon_Loop
  imports Daemon_Handlers Portforward
begin

text \<open>
  \<open>cmd/agbridge/daemon.go\<close>, the dispatcher and the slots: \<open>dispatch\<close> starts a goroutine for each request and hands the
  chunks of writes and the data of streams to the goroutine that waits for them, through channels of
  8 and 64 messages.  The dispatcher and the goroutines are interleaved steps.
\<close>

section \<open>State\<close>

text \<open>The dispatcher is ready to receive or waits for room in a channel.\<close>

datatype dispatcher = RcvReady | RcvChunk nat file_chunk | RcvData nat stream_data

text \<open>A write or upload in progress: its request, its channel, and whether the tool may still take chunks.\<close>

record write_task =
  wt_id :: string
  wt_chan :: nat
  wt_reading :: bool

text \<open>A stream: whether its context is cancelled.\<close>

record stream_task =
  tt_id :: string
  tt_chan :: nat
  tt_reading :: bool
  tt_cancelled :: bool

record loop_state =
  lp_writes :: "string \<rightharpoonup> nat"
  lp_streams :: "string \<rightharpoonup> nat"
  lp_chunks :: "nat \<Rightarrow> file_chunk list"
  lp_datas :: "nat \<Rightarrow> stream_data list"
  lp_next :: nat
  lp_wtasks :: "write_task list"
  lp_stasks :: "stream_task list"
  lp_spawned :: "frame list"
  lp_rcv :: dispatcher
  lp_done :: bool
  lp_sends :: "(nat \<times> bool \<times> stream_msg) list"

definition fresh_loop :: loop_state where
  "fresh_loop = \<lparr>lp_writes = Map.empty, lp_streams = Map.empty, lp_chunks = (\<lambda>_. []), lp_datas = (\<lambda>_. []), lp_next = 0,
     lp_wtasks = [], lp_stasks = [], lp_spawned = [], lp_rcv = RcvReady, lp_done = False, lp_sends = []\<rparr>"

text \<open>The JSON decoders the dispatcher uses itself.\<close>

record loop_codec =
  lc_chunk :: "bytes \<Rightarrow> file_chunk option"
  lc_open :: "bytes \<Rightarrow> stream_open option"
  lc_data :: "bytes \<Rightarrow> stream_data option"

definition chunk_cap :: nat where "chunk_cap = 8"
definition stream_cap :: nat where "stream_cap = 64"

section \<open>Slots\<close>

definition beginWrite :: "string \<Rightarrow> loop_state \<Rightarrow> loop_state" where
  "beginWrite reqID s =
     (let c = lp_next s in
      s\<lparr>lp_writes := (lp_writes s)(reqID \<mapsto> c), lp_next := Suc c,
        lp_wtasks := \<lparr>wt_id = reqID, wt_chan = c, wt_reading = True\<rparr> # lp_wtasks s\<rparr>)"

definition beginStream :: "string \<Rightarrow> loop_state \<Rightarrow> loop_state" where
  "beginStream streamID s =
     (let c = lp_next s in
      s\<lparr>lp_streams := (lp_streams s)(streamID \<mapsto> c), lp_next := Suc c,
        lp_stasks := \<lparr>tt_id = streamID, tt_chan = c, tt_reading = True, tt_cancelled = False\<rparr> # lp_stasks s\<rparr>)"

text \<open>The dispatcher's send into a channel: at once if there is room, else it waits.\<close>

definition push_chunk :: "nat \<Rightarrow> file_chunk \<Rightarrow> loop_state \<Rightarrow> loop_state" where
  "push_chunk c ck s =
     (if length (lp_chunks s c) < chunk_cap then s\<lparr>lp_chunks := (lp_chunks s)(c := lp_chunks s c @ [ck]), lp_rcv := RcvReady\<rparr>
      else s\<lparr>lp_rcv := RcvChunk c ck\<rparr>)"

definition push_data :: "nat \<Rightarrow> stream_data \<Rightarrow> loop_state \<Rightarrow> loop_state" where
  "push_data c d s =
     (if length (lp_datas s c) < stream_cap then s\<lparr>lp_datas := (lp_datas s)(c := lp_datas s c @ [d]), lp_rcv := RcvReady\<rparr>
      else s\<lparr>lp_rcv := RcvData c d\<rparr>)"

definition deliverFileChunk :: "loop_codec \<Rightarrow> frame \<Rightarrow> loop_state \<Rightarrow> loop_state" where
  "deliverFileChunk lc inner s = (case lp_writes s (f_reqid inner) of
       None \<Rightarrow> s
     | Some c \<Rightarrow> (case lc_chunk lc (f_payload inner) of None \<Rightarrow> s | Some ck \<Rightarrow> push_chunk c ck s))"

definition deliverStreamData :: "loop_codec \<Rightarrow> frame \<Rightarrow> loop_state \<Rightarrow> loop_state" where
  "deliverStreamData lc inner s = (case lp_streams s (f_reqid inner) of
       None \<Rightarrow> s
     | Some c \<Rightarrow> (case lc_data lc (f_payload inner) of None \<Rightarrow> s | Some d \<Rightarrow> push_data c d s))"

definition cancel_stream :: "nat \<Rightarrow> loop_state \<Rightarrow> loop_state" where
  "cancel_stream c s = s\<lparr>lp_stasks := map (\<lambda>t. if tt_chan t = c then t\<lparr>tt_cancelled := True\<rparr> else t) (lp_stasks s)\<rparr>"

definition closeStream :: "string \<Rightarrow> loop_state \<Rightarrow> loop_state" where
  "closeStream streamID s = (case lp_streams s streamID of None \<Rightarrow> s | Some c \<Rightarrow> cancel_stream c s)"

section \<open>Dispatch\<close>

definition spawned_types :: "frame_type set" where
  "spawned_types = {FrameTypePing, FrameTypeExecRequest, FrameTypeFileReadRequest, FrameTypeFileEditRequest,
     FrameTypeListDirRequest, FrameTypeStatRequest, FrameTypeDownloadRequest, FrameTypeBgExecRequest,
     FrameTypeSearchRequest, FrameTypeCapabilitiesRequest}"

text \<open>Requests that need no slot are recorded in \<open>lp_spawned\<close>; a Ping is answered at once.\<close>

definition dispatch :: "loop_codec \<Rightarrow> frame \<Rightarrow> loop_state \<Rightarrow> loop_state" where
  "dispatch lc inner s =
     (let t = f_type inner in
      if t \<in> spawned_types then s\<lparr>lp_spawned := inner # lp_spawned s\<rparr>
      else if t = FrameTypeFileWriteRequest \<or> t = FrameTypeUploadRequest then beginWrite (f_reqid inner) s
      else if t = FrameTypeFileChunk then deliverFileChunk lc inner s
      else if t = FrameTypeStreamOpen then
        (case lc_open lc (f_payload inner) of None \<Rightarrow> s | Some req \<Rightarrow> beginStream (so_id req) s)
      else if t = FrameTypeStreamData then deliverStreamData lc inner s
      else if t = FrameTypeStreamClose then closeStream (f_reqid inner) s
      else s)"

section \<open>Steps\<close>

text \<open>\<open>LRecv\<close>: an inner frame is dispatched.  \<open>LPush\<close>: a waiting dispatcher finds room; \<open>LGiveUp\<close>: it sees the
  session's end.  \<open>LTake\<close>, \<open>LStop\<close>, \<open>LDelete\<close>: a write takes a chunk; its tool returns; its deferred
  function removes the slot.  \<open>STake\<close>, \<open>SSend\<close>, \<open>SStop\<close>, \<open>SDelete\<close>: the same for a stream, which also sends messages.
  \<open>LCancel\<close>: the session ends.\<close>

datatype loop_event =
    LRecv frame | LPush | LGiveUp | LTake nat | LStop nat | LDelete nat
  | STake nat | SSend nat stream_msg | SStop nat | SDelete nat | LCancel

definition wtask :: "nat \<Rightarrow> loop_state \<Rightarrow> write_task option" where
  "wtask c s = find (\<lambda>t. wt_chan t = c) (lp_wtasks s)"

definition stask :: "nat \<Rightarrow> loop_state \<Rightarrow> stream_task option" where
  "stask c s = find (\<lambda>t. tt_chan t = c) (lp_stasks s)"

fun loop_step :: "loop_codec \<Rightarrow> loop_event \<Rightarrow> loop_state \<Rightarrow> loop_state option" where
  "loop_step lc (LRecv f) s = (if lp_rcv s = RcvReady \<and> \<not> lp_done s then Some (dispatch lc f s) else None)"
| "loop_step lc LPush s = (case lp_rcv s of
       RcvReady \<Rightarrow> None
     | RcvChunk c ck \<Rightarrow> if length (lp_chunks s c) < chunk_cap then Some (push_chunk c ck s) else None
     | RcvData c d \<Rightarrow> if length (lp_datas s c) < stream_cap then Some (push_data c d s) else None)"
| "loop_step lc LGiveUp s = (if lp_done s then Some (s\<lparr>lp_rcv := RcvReady\<rparr>) else None)"
| "loop_step lc (LTake c) s = (case wtask c s of
       None \<Rightarrow> None
     | Some t \<Rightarrow> if wt_reading t \<and> lp_chunks s c \<noteq> [] then Some (s\<lparr>lp_chunks := (lp_chunks s)(c := tl (lp_chunks s c))\<rparr>) else None)"
| "loop_step lc (LStop c) s = (case wtask c s of
       None \<Rightarrow> None
     | Some _ \<Rightarrow> Some (s\<lparr>lp_wtasks := map (\<lambda>t. if wt_chan t = c then t\<lparr>wt_reading := False\<rparr> else t) (lp_wtasks s)\<rparr>))"
| "loop_step lc (LDelete c) s = (case wtask c s of
       None \<Rightarrow> None
     | Some t \<Rightarrow> if wt_reading t then None
         else Some (s\<lparr>lp_writes := (lp_writes s)(wt_id t := None), lp_wtasks := filter (\<lambda>t. wt_chan t \<noteq> c) (lp_wtasks s)\<rparr>))"
| "loop_step lc (STake c) s = (case stask c s of
       None \<Rightarrow> None
     | Some t \<Rightarrow> if tt_reading t \<and> lp_datas s c \<noteq> [] then Some (s\<lparr>lp_datas := (lp_datas s)(c := tl (lp_datas s c))\<rparr>) else None)"
| "loop_step lc (SSend c m) s = (case stask c s of
       None \<Rightarrow> None
     | Some t \<Rightarrow> Some (s\<lparr>lp_sends := lp_sends s @ [(c, tt_cancelled t \<or> lp_done s, m)]\<rparr>))"
| "loop_step lc (SStop c) s = (case stask c s of
       None \<Rightarrow> None
     | Some _ \<Rightarrow> Some (s\<lparr>lp_stasks := map (\<lambda>t. if tt_chan t = c then t\<lparr>tt_reading := False\<rparr> else t) (lp_stasks s)\<rparr>))"
| "loop_step lc (SDelete c) s = (case stask c s of
       None \<Rightarrow> None
     | Some t \<Rightarrow> if tt_reading t then None
         else Some (s\<lparr>lp_streams := (lp_streams s)(tt_id t := None), lp_stasks := filter (\<lambda>t. tt_chan t \<noteq> c) (lp_stasks s)\<rparr>))"
| "loop_step lc LCancel s = Some (s\<lparr>lp_done := True\<rparr>)"

fun loop_run :: "loop_codec \<Rightarrow> loop_event list \<Rightarrow> loop_state \<Rightarrow> loop_state option" where
  "loop_run lc [] s = Some s"
| "loop_run lc (e # es) s = (case loop_step lc e s of None \<Rightarrow> None | Some s' \<Rightarrow> loop_run lc es s')"

section \<open>A blocked dispatcher\<close>

text \<open>The dispatcher waits for room in a channel whose reader is gone.\<close>

definition stuck :: "loop_state \<Rightarrow> bool" where
  "stuck s \<longleftrightarrow> \<not> lp_done s \<and> (\<exists>c ck. lp_rcv s = RcvChunk c ck \<and> chunk_cap \<le> length (lp_chunks s c)
     \<and> (\<forall>t. wtask c s = Some t \<longrightarrow> \<not> wt_reading t))"

lemma find_map_stop:
  "find (\<lambda>t. wt_chan t = c) (map (\<lambda>t. if wt_chan t = c' then t\<lparr>wt_reading := False\<rparr> else t) ts) =
     map_option (\<lambda>t. if wt_chan t = c' then t\<lparr>wt_reading := False\<rparr> else t) (find (\<lambda>t. wt_chan t = c) ts)"
  by (induction ts) auto

lemma find_filter_other: "c \<noteq> c' \<Longrightarrow> find (\<lambda>t. wt_chan t = c) (filter (\<lambda>t. wt_chan t \<noteq> c') ts) = find (\<lambda>t. wt_chan t = c) ts"
  by (induction ts) auto

lemma find_filter_same: "find (\<lambda>t. wt_chan t = c) (filter (\<lambda>t. wt_chan t \<noteq> c) ts) = None"
  by (induction ts) auto

lemma stuck_step:
  assumes st: "stuck s" and step: "loop_step lc e s = Some s'" and e: "e \<noteq> LCancel"
  shows "stuck s'"
proof -
  from st obtain c ck where c: "\<not> lp_done s" "lp_rcv s = RcvChunk c ck" "chunk_cap \<le> length (lp_chunks s c)"
    "\<forall>t. wtask c s = Some t \<longrightarrow> \<not> wt_reading t" by (auto simp: stuck_def)
  have "\<not> lp_done s' \<and> lp_rcv s' = RcvChunk c ck \<and> chunk_cap \<le> length (lp_chunks s' c)
    \<and> (\<forall>t. wtask c s' = Some t \<longrightarrow> \<not> wt_reading t)"
  proof (cases e)
    case (LTake d)
    with step c show ?thesis by (cases "d = c") (auto simp: wtask_def split: option.splits if_splits)
  next
    case (LStop d)
    with step c show ?thesis by (auto simp: wtask_def find_map_stop split: option.splits if_splits)
  next
    case (LDelete d)
    with step c show ?thesis
      by (cases "d = c") (auto simp: wtask_def find_filter_other find_filter_same split: option.splits if_splits)
  qed (use step c e in \<open>auto simp: wtask_def split: option.splits if_splits\<close>)
  then show ?thesis unfolding stuck_def by blast
qed

lemma stuck_run: "stuck s \<Longrightarrow> LCancel \<notin> set es \<Longrightarrow> loop_run lc es s = Some s' \<Longrightarrow> stuck s'"
proof (induction es arbitrary: s)
  case (Cons e es)
  then obtain s1 where "loop_step lc e s = Some s1" "loop_run lc es s1 = Some s'" by (auto split: option.splits)
  with Cons stuck_step [of s lc e s1] show ?case by auto
qed simp

lemma stuck_no_recv: "stuck s \<Longrightarrow> loop_step lc (LRecv f) s = None"
  by (auto simp: stuck_def)

lemma dispatch_write: "dispatch lc \<lparr>f_type = FrameTypeFileWriteRequest, f_reqid = i, f_payload = p\<rparr> s = beginWrite i s"
  by (simp add: dispatch_def spawned_types_def)

lemma dispatch_chunk: "dispatch lc \<lparr>f_type = FrameTypeFileChunk, f_reqid = i, f_payload = p\<rparr> s =
    deliverFileChunk lc \<lparr>f_type = FrameTypeFileChunk, f_reqid = i, f_payload = p\<rparr> s"
  by (simp add: dispatch_def spawned_types_def)

text \<open>Chunks that arrive before the handler takes any fill the channel.\<close>

definition filled :: "file_chunk \<Rightarrow> nat \<Rightarrow> loop_state" where
  "filled ck n = (beginWrite ''w'' fresh_loop)\<lparr>lp_chunks := (\<lambda>_. [])(0 := replicate n ck)\<rparr>"

lemma filled_step:
  assumes "lc_chunk lc p = Some ck" "n < chunk_cap"
  shows "loop_step lc (LRecv \<lparr>f_type = FrameTypeFileChunk, f_reqid = ''w'', f_payload = p\<rparr>) (filled ck n) = Some (filled ck (Suc n))"
  using assms by (simp add: dispatch_chunk deliverFileChunk_def push_chunk_def filled_def beginWrite_def fresh_loop_def
      Let_def replicate_append_same)

lemma filled_run:
  assumes "lc_chunk lc p = Some ck"
  shows "n \<le> chunk_cap \<Longrightarrow> loop_run lc (replicate n (LRecv \<lparr>f_type = FrameTypeFileChunk, f_reqid = ''w'', f_payload = p\<rparr>) @ es)
    (filled ck (chunk_cap - n)) = loop_run lc es (filled ck chunk_cap)"
proof (induction n)
  case (Suc n)
  then have "chunk_cap - Suc n < chunk_cap" "Suc (chunk_cap - Suc n) = chunk_cap - n" by simp_all
  with Suc filled_step [OF assms, of "chunk_cap - Suc n"] show ?case by simp
qed simp

text \<open>C39: The dispatcher can hang for good.  When a write's tool returns early (no space, size cap, no directory) while
  the dispatcher waits to hand over the ninth unread chunk, nobody will ever read that channel: as long as
  the session's context is not cancelled, no step of any goroutine makes the dispatcher receive another
  frame.  Such a state is reached by one write request and nine of its chunks.\<close>

theorem dispatcher_hangs:
  assumes "lc_chunk lc p = Some ck"
  shows "\<exists>s. loop_run lc (LRecv \<lparr>f_type = FrameTypeFileWriteRequest, f_reqid = ''w'', f_payload = p\<rparr>
        # replicate 9 (LRecv \<lparr>f_type = FrameTypeFileChunk, f_reqid = ''w'', f_payload = p\<rparr>) @ [LStop 0]) fresh_loop = Some s
    \<and> (\<forall>es s'. LCancel \<notin> set es \<longrightarrow> loop_run lc es s = Some s' \<longrightarrow> (\<forall>f. loop_step lc (LRecv f) s' = None))"
proof -
  let ?c = "LRecv \<lparr>f_type = FrameTypeFileChunk, f_reqid = ''w'', f_payload = p\<rparr>"
  have w: "loop_step lc (LRecv \<lparr>f_type = FrameTypeFileWriteRequest, f_reqid = ''w'', f_payload = p\<rparr>) fresh_loop = Some (filled ck 0)"
    by (simp add: dispatch_write filled_def) (simp add: fresh_loop_def beginWrite_def fun_eq_iff)
  have nine: "replicate 9 ?c @ [LStop 0] = replicate chunk_cap ?c @ [?c, LStop 0]"
    by (simp add: chunk_cap_def numeral_eq_Suc)
  let ?s = "(filled ck chunk_cap)\<lparr>lp_rcv := RcvChunk 0 ck,
     lp_wtasks := [\<lparr>wt_id = ''w'', wt_chan = 0, wt_reading = False\<rparr>]\<rparr>"
  have "loop_run lc [?c, LStop 0] (filled ck chunk_cap) = Some ?s"
    using assms by (simp add: dispatch_chunk deliverFileChunk_def push_chunk_def filled_def beginWrite_def fresh_loop_def wtask_def)
  with filled_run [OF assms, of chunk_cap "[?c, LStop 0]"] w have
    "loop_run lc (LRecv \<lparr>f_type = FrameTypeFileWriteRequest, f_reqid = ''w'', f_payload = p\<rparr> # replicate 9 ?c @ [LStop 0]) fresh_loop = Some ?s"
    unfolding nine by simp
  moreover have "stuck ?s" by (simp add: stuck_def filled_def beginWrite_def fresh_loop_def wtask_def)
  then have "\<forall>es s'. LCancel \<notin> set es \<longrightarrow> loop_run lc es ?s = Some s' \<longrightarrow> (\<forall>f. loop_step lc (LRecv f) s' = None)"
    using stuck_run stuck_no_recv by blast
  ultimately show ?thesis by blast
qed

definition demo_lc :: loop_codec where
  "demo_lc = \<lparr>lc_chunk = (\<lambda>p. Some \<lparr>ck_data = p, ck_eof = False\<rparr>), lc_open = (\<lambda>p. Some \<lparr>so_id = string_of p, so_host = [], so_port = 1\<rparr>),
     lc_data = (\<lambda>p. Some \<lparr>dt_id = ''s'', dt_data = p\<rparr>)\<rparr>"

theorem dispatcher_hangs_witness:
  "\<exists>s. (\<exists>es. loop_run demo_lc es fresh_loop = Some s)
     \<and> (\<forall>s' f. loop_run demo_lc [LStop 0, LDelete 0] s = Some s' \<longrightarrow> loop_step demo_lc (LRecv f) s' = None)"
proof -
  have "lc_chunk demo_lc [7] = Some \<lparr>ck_data = [7], ck_eof = False\<rparr>" by (simp add: demo_lc_def)
  from dispatcher_hangs [OF this] obtain s where "\<exists>es. loop_run demo_lc es fresh_loop = Some s"
    and "\<forall>es s'. LCancel \<notin> set es \<longrightarrow> loop_run demo_lc es s = Some s' \<longrightarrow> (\<forall>f. loop_step demo_lc (LRecv f) s' = None)" by blast
  moreover have "LCancel \<notin> set [LStop 0, LDelete 0]" by simp
  ultimately show ?thesis by blast
qed

section \<open>Streams\<close>

lemma cancelled_found:
  "find (\<lambda>t. tt_chan t = c) (map (\<lambda>t. if tt_chan t = c then t\<lparr>tt_cancelled := True\<rparr> else t) ts) = Some t \<Longrightarrow> tt_cancelled t"
  by (auto simp: find_Some_iff split: if_split_asm)

text \<open>After the bridge's close message for an open stream, everything the stream's handler still sends is sent
  with a cancelled context: the situation of \<open>cancelled_send_desyncs\<close>.\<close>

lemma close_then_sends_cancelled:
  assumes "lp_streams s sid = Some c" "f_type f = FrameTypeStreamClose" "f_reqid f = sid"
    and "loop_run lc [LRecv f, SSend c m] s = Some s'"
  shows "lp_sends s' = lp_sends s @ [(c, True, m)]"
  using assms
  by (auto simp: dispatch_def spawned_types_def closeStream_def cancel_stream_def stask_def dest!: cancelled_found
      split: if_splits option.splits)

text \<open>A second stream under the identifier of a first one: when the first ends, its deferred function removes the
  second one's slot, and the second one's data is dropped from then on.\<close>

lemma reused_stream_id_loses_slot:
  "let op = LRecv \<lparr>f_type = FrameTypeStreamOpen, f_reqid = [], f_payload = [115]\<rparr>;
       data = LRecv \<lparr>f_type = FrameTypeStreamData, f_reqid = ''s'', f_payload = [9]\<rparr> in
   map_option (\<lambda>s. (lp_datas s 1, map tt_chan (lp_stasks s))) (loop_run demo_lc [op, op, SStop 0, SDelete 0, data] fresh_loop) = Some ([], [1])
   \<and> map_option (\<lambda>s. lp_datas s 1) (loop_run demo_lc [op, op, data] fresh_loop) = Some [\<lparr>dt_id = ''s'', dt_data = [9]\<rparr>]"
  by code_simp

end
