(* ===== verification/Gateway_Admin.thy ===== *)
theory Gateway_Admin
  imports Enroll
begin

text \<open>
  \<open>cmd/agbridge/gateway.go\<close> and \<open>gateway_devices.go\<close>: how the gateway process puts its credentials together at start and on
  SIGHUP, and the commands that list and revoke devices.  The state file stands for the value it
  encodes (\<open>State\<close> shows that a saved state is loaded back).
\<close>

section \<open>Hydrating and merging\<close>

definition hydrateGatewayState :: "gateway_config \<Rightarrow> string \<Rightarrow> gateway_state" where
  "hydrateGatewayState cfg tokensPath =
     \<lparr>gst_version = CurrentVersion, gst_listen = gc_listen cfg, gst_audit_path = gc_audit_path cfg,
      gst_audit_max_bytes = gc_audit_max_bytes cfg, gst_audit_max_backups = gc_audit_max_backups cfg,
      gst_tokens_path = tokensPath,
      gst_agents = map (\<lambda>a. \<lparr>sa_name = a_name a, sa_device_id = [], sa_key_hash = a_key_hash a, sa_allowed = a_allowed a\<rparr>) (gc_agents cfg),
      gst_daemons = map (\<lambda>d. \<lparr>sd_name = d_name d, sd_device_id = [], sd_token_hash = d_token_hash d, sd_noise_pub = []\<rparr>) (gc_daemons cfg)\<rparr>"

definition agent_of :: "state_agent \<Rightarrow> agent_entry" where
  "agent_of a = \<lparr>a_name = sa_name a, a_key_hash = sa_key_hash a, a_allowed = sa_allowed a\<rparr>"

definition daemon_of :: "state_daemon \<Rightarrow> daemon_entry" where
  "daemon_of d = \<lparr>d_name = sd_name d, d_token_hash = sd_token_hash d\<rparr>"

text \<open>Entries of the saved state whose name is not there yet go into the state and into the configuration.\<close>

definition mergeGatewayState :: "gateway_state \<Rightarrow> gateway_state \<Rightarrow> gateway_config \<Rightarrow> gateway_state \<times> gateway_config" where
  "mergeGatewayState st prior cfg =
     (let as = filter (\<lambda>a. sa_name a \<notin> sa_name ` set (gst_agents st)) (gst_agents prior);
          ds = filter (\<lambda>d. sd_name d \<notin> sd_name ` set (gst_daemons st)) (gst_daemons prior)
      in (st\<lparr>gst_agents := gst_agents st @ as, gst_daemons := gst_daemons st @ ds\<rparr>,
          cfg\<lparr>gc_agents := gc_agents cfg @ map agent_of as, gc_daemons := gc_daemons cfg @ map daemon_of ds\<rparr>))"

section \<open>The process\<close>

text \<open>\<open>gp_state\<close> is the enrolment server's state in memory, \<open>gp_file\<close> what \<open>gateway-state.json\<close> holds.\<close>

record gateway_proc =
  gp_state :: gateway_state
  gp_file :: "gateway_state option"
  gp_creds :: creds

definition load_devices :: "gateway_config \<Rightarrow> string \<Rightarrow> gateway_state option \<Rightarrow> gateway_state \<times> gateway_config" where
  "load_devices cfg tokensPath file =
     (let st = hydrateGatewayState cfg tokensPath in
      case file of None \<Rightarrow> (st, cfg) | Some prior \<Rightarrow> mergeGatewayState st prior cfg)"

definition gateway_start :: "gateway_config \<Rightarrow> string \<Rightarrow> gateway_state option \<Rightarrow> gateway_proc" where
  "gateway_start cfg tokensPath file =
     (let (st, cfg') = load_devices cfg tokensPath file in
      \<lparr>gp_state = st, gp_file = file, gp_creds = NewCredRegistry cfg'\<rparr>)"

text \<open>SIGHUP: a configuration that does not load changes nothing.\<close>

definition gateway_sighup :: "config_error + gateway_config \<Rightarrow> string \<Rightarrow> gateway_proc \<Rightarrow> gateway_proc" where
  "gateway_sighup loaded tokensPath g = (case loaded of
       Inl _ \<Rightarrow> g
     | Inr newCfg \<Rightarrow>
         (let (freshState, cfg') = load_devices newCfg tokensPath (gp_file g) in
          g\<lparr>gp_creds := Replace cfg' (gp_creds g)\<rparr>))"

text \<open>An enrolment whose save succeeds, after the token was consumed.\<close>

definition gateway_enroll :: "token \<Rightarrow> string \<Rightarrow> enroll_response \<Rightarrow> gateway_proc \<Rightarrow> (enroll_answer + enroll_response) \<times> gateway_proc" where
  "gateway_enroll tok pubkey resp g = (case grant (gp_state g) tok pubkey resp of
       (Inl a, st) \<Rightarrow> (Inl a, g\<lparr>gp_state := st\<rparr>)
     | (Inr r, st) \<Rightarrow> (Inr r, \<lparr>gp_state = st, gp_file = Some st, gp_creds = push_live tok (es_api_key_hash resp) (gp_creds g)\<rparr>))"

section \<open>Commands\<close>

definition filterAgents :: "state_agent list \<Rightarrow> string \<Rightarrow> state_agent list" where
  "filterAgents as drop_name = filter (\<lambda>a. sa_name a \<noteq> drop_name) as"

definition filterDaemons :: "state_daemon list \<Rightarrow> string \<Rightarrow> state_daemon list" where
  "filterDaemons ds drop_name = filter (\<lambda>d. sd_name d \<noteq> drop_name) ds"

text \<open>\<open>gateway-revoke\<close> runs in its own process and works on the file.\<close>

definition gateway_revoke :: "string \<Rightarrow> string \<Rightarrow> gateway_proc \<Rightarrow> (string + unit) \<times> gateway_proc" where
  "gateway_revoke path name g =
     (if name = [] then (Err ''--name required'', g)
      else case gp_file g of
        None \<Rightarrow> (Err (''load '' @ path), g)
      | Some prior \<Rightarrow>
          (let p = prior\<lparr>gst_agents := filterAgents (gst_agents prior) name, gst_daemons := filterDaemons (gst_daemons prior) name\<rparr> in
           if length (gst_agents p) + length (gst_daemons p) = length (gst_agents prior) + length (gst_daemons prior)
           then (Err (''no enrolled device named '' @ go_q name @ '' in '' @ path), g)
           else (Ok (), g\<lparr>gp_file := Some p\<rparr>)))"

definition listed_devices :: "gateway_config \<Rightarrow> gateway_state option \<Rightarrow> agent_entry list \<times> daemon_entry list" where
  "listed_devices cfg prior = (case prior of
       None \<Rightarrow> (gc_agents cfg, gc_daemons cfg)
     | Some p \<Rightarrow>
         (gc_agents cfg @ map agent_of (filter (\<lambda>a. sa_name a \<notin> a_name ` set (gc_agents cfg)) (gst_agents p)),
          gc_daemons cfg @ map daemon_of (filter (\<lambda>d. sd_name d \<notin> d_name ` set (gc_daemons cfg)) (gst_daemons p))))"

definition token_status :: "int \<Rightarrow> token \<Rightarrow> string" where
  "token_status now t = (if tk_used t then ''used'' else if now > tk_expires t then ''expired'' else ''active'')"

definition public_url :: "gateway_config \<Rightarrow> string" where
  "public_url cfg = (if gc_public_url cfg = [] then ''wss://'' @ gc_listen cfg @ ''/'' else gc_public_url cfg)"

definition gatewayTokensPath :: "string \<Rightarrow> string" where
  "gatewayTokensPath cfgPath = path_join [path_dir cfgPath, ''tokens.json'']"

definition gatewayStatePath :: "string \<Rightarrow> string" where
  "gatewayStatePath cfgPath = path_join [path_dir cfgPath, ''gateway-state.json'']"

text \<open>\<open>parse_pem\<close>: the DER bytes of the first certificate of a PEM bundle.\<close>

definition computeCertPin :: "(bytes \<Rightarrow> string + bytes) \<Rightarrow> bytes \<Rightarrow> string + string" where
  "computeCertPin parse_pem pem = map_sum id (\<lambda>der. ''sha256:'' @ hex_encode (sha256 der)) (parse_pem pem)"

section \<open>Which credentials are live after a reload\<close>

lemma find_append: "find P (xs @ ys) = (case find P xs of None \<Rightarrow> find P ys | Some x \<Rightarrow> Some x)"
  by (induction xs) auto

lemma find_map: "find P (map f xs) = map_option f (find (P \<circ> f) xs)"
  by (induction xs) auto

lemma find_filter: "find P (filter Q xs) = find (\<lambda>x. Q x \<and> P x) xs"
  by (induction xs) auto

lemma find_cong_names: "find (\<lambda>x. f x \<notin> N \<and> f x = n) xs = (if n \<in> N then None else find (\<lambda>x. f x = n) xs)"
  by (induction xs) auto

lemma hydrate_names:
  "sa_name ` set (gst_agents (hydrateGatewayState cfg tp)) = a_name ` set (gc_agents cfg)"
  "sd_name ` set (gst_daemons (hydrateGatewayState cfg tp)) = d_name ` set (gc_daemons cfg)"
  by (simp_all add: hydrateGatewayState_def image_image)

text \<open>The configuration's row wins; else the row of the state file.\<close>

lemma sighup_agents:
  "LookupAgent (gp_creds (gateway_sighup (Ok cfg) tp g)) n =
     (if n \<in> a_name ` set (gc_agents cfg) then find (\<lambda>a. a_name a = n) (rev (gc_agents cfg))
      else case gp_file g of None \<Rightarrow> None | Some p \<Rightarrow> map_option agent_of (find (\<lambda>a. sa_name a = n) (rev (gst_agents p))))"
proof -
  have new: "find (\<lambda>a. a_name a = n) (rev (map agent_of (filter (\<lambda>a. sa_name a \<notin> a_name ` set (gc_agents cfg)) (gst_agents p)))) =
      (if n \<in> a_name ` set (gc_agents cfg) then None else map_option agent_of (find (\<lambda>a. sa_name a = n) (rev (gst_agents p))))" for p
    by (simp add: rev_map rev_filter find_map find_filter comp_def agent_of_def find_cong_names [of sa_name])
  have none: "n \<notin> a_name ` set (gc_agents cfg) \<Longrightarrow> find (\<lambda>a. a_name a = n) (rev (gc_agents cfg)) = None"
    by (auto simp: find_None_iff)
  show ?thesis
  proof (cases "gp_file g")
    case None
    then show ?thesis using none by (auto simp: gateway_sighup_def load_devices_def LookupAgent_Replace)
  next
    case (Some p)
    have "LookupAgent (gp_creds (gateway_sighup (Ok cfg) tp g)) n =
      find (\<lambda>a. a_name a = n) (rev (map agent_of (filter (\<lambda>a. sa_name a \<notin> a_name ` set (gc_agents cfg)) (gst_agents p)))
        @ rev (gc_agents cfg))"
      using Some by (simp add: gateway_sighup_def load_devices_def mergeGatewayState_def hydrate_names LookupAgent_Replace Let_def)
    then show ?thesis unfolding find_append new using Some none by (auto split: option.split)
  qed
qed

lemma sighup_keeps: "gp_state (gateway_sighup l tp g) = gp_state g" "gp_file (gateway_sighup l tp g) = gp_file g"
  by (simp_all add: gateway_sighup_def Let_def split: sum.split prod.split)

section \<open>Properties\<close>

lemma filterAgents_find: "find (\<lambda>a. sa_name a = n) (rev (filterAgents as n)) = None"
  by (auto simp: filterAgents_def find_None_iff)

lemma upsert_distinct: "distinct (map key xs) \<Longrightarrow> distinct (map key (upsert key e xs))"
proof (induction xs)
  case (Cons x xs)
  have "key ` set (upsert key e xs) = insert (key e) (key ` set xs)" for xs
    by (induction xs) auto
  with Cons show ?case by auto
qed simp

lemma find_rev_distinct: "distinct (map key xs) \<Longrightarrow> find (\<lambda>x. key x = n) (rev xs) = find (\<lambda>x. key x = n) xs"
proof (induction xs)
  case (Cons x xs)
  have "key x = n \<Longrightarrow> find (\<lambda>x. key x = n) xs = None" using Cons.prems by (simp add: find_None_iff) (metis image_eqI)
  with Cons show ?case by (auto simp: find_append split: option.split)
qed simp

text \<open>C40: Revocation of an enrolled agent does not last.  \<open>gateway-revoke\<close> and a SIGHUP remove the agent from the live
  credentials, but the running gateway's enrolment state keeps its entry; the next daemon that enrols makes the
  gateway save that state over the file, and the SIGHUP or restart after it gives the revoked agent its
  old key back.\<close>

theorem revocation_undone:
  assumes saved: "gp_file g = Some (gp_state g)" and distinct: "distinct (map sa_name (gst_agents (gp_state g)))"
    and agent: "find (\<lambda>a. sa_name a = n) (gst_agents (gp_state g)) = Some a" and cfg: "n \<notin> a_name ` set (gc_agents cfg)"
    and revoke: "gateway_revoke path n g = (Ok (), g1)"
    and enrol: "tk_role tok = ''daemon''" "gateway_enroll tok pubkey resp (gateway_sighup (Ok cfg) tp g1) = (r, g2)"
  shows "LookupAgent (gp_creds (gateway_sighup (Ok cfg) tp g1)) n = None
    \<and> LookupAgent (gp_creds (gateway_sighup (Ok cfg) tp g2)) n = Some (agent_of a)
    \<and> LookupAgent (gp_creds (gateway_start cfg tp (gp_file g2))) n = Some (agent_of a)"
proof -
  have g1: "g1 = g\<lparr>gp_file := Some ((gp_state g)\<lparr>gst_agents := filterAgents (gst_agents (gp_state g)) n,
      gst_daemons := filterDaemons (gst_daemons (gp_state g)) n\<rparr>)\<rparr>"
    using revoke saved by (auto simp: gateway_revoke_def Let_def split: if_splits)
  have g2: "\<exists>st. gp_file g2 = Some st \<and> gst_agents st = gst_agents (gp_state g)"
    using enrol by (auto simp: gateway_enroll_def grant_def sighup_keeps g1)
  then obtain st where st: "gp_file g2 = Some st" "gst_agents st = gst_agents (gp_state g)" by blast
  have found: "find (\<lambda>a. sa_name a = n) (rev (gst_agents st)) = Some a"
    using find_rev_distinct [OF distinct, of n] agent st(2) by simp
  have start: "gp_creds (gateway_start cfg tp (gp_file g2)) =
      gp_creds (gateway_sighup (Ok cfg) tp \<lparr>gp_state = st, gp_file = gp_file g2, gp_creds = \<lparr>cr_agents = Map.empty, cr_daemons = Map.empty\<rparr>\<rparr>)"
    by (simp add: gateway_start_def gateway_sighup_def NewCredRegistry_def Let_def split: prod.split)
  have "LookupAgent (gp_creds (gateway_sighup (Ok cfg) tp g1)) n = None"
    unfolding sighup_agents using cfg by (simp add: g1 filterAgents_find)
  moreover have "LookupAgent (gp_creds (gateway_sighup (Ok cfg) tp g2)) n = Some (agent_of a)"
    unfolding sighup_agents using cfg found by (simp add: st(1))
  moreover have "LookupAgent (gp_creds (gateway_start cfg tp (gp_file g2))) n = Some (agent_of a)"
    unfolding start sighup_agents using cfg found by (simp add: st(1))
  ultimately show ?thesis by blast
qed

definition demo_cfg :: gateway_config where
  "demo_cfg = \<lparr>gc_listen = ''l'', gc_public_url = [], gc_audit_path = ''a'', gc_audit_max_bytes = 0,
     gc_audit_max_backups = 0, gc_agents = [], gc_daemons = []\<rparr>"

definition demo_proc :: gateway_proc where
  "demo_proc =
     (let st = demo_state\<lparr>gst_agents := [\<lparr>sa_name = ''eve'', sa_device_id = ''d'', sa_key_hash = ''h'', sa_allowed = [''db'']\<rparr>]\<rparr>
      in \<lparr>gp_state = st, gp_file = Some st, gp_creds = \<lparr>cr_agents = Map.empty, cr_daemons = Map.empty\<rparr>\<rparr>)"

theorem revocation_undone_witness:
  "\<exists>g1 g2. snd (gateway_revoke ''f'' ''eve'' demo_proc) = g1
     \<and> snd (gateway_enroll (demo_token ''a'' True) ''K'' (base_response demo_server (demo_token ''a'' True) ''k'' ''d'')
         (gateway_sighup (Ok demo_cfg) ''t'' g1)) = g2
     \<and> LookupAgent (gp_creds (gateway_sighup (Ok demo_cfg) ''t'' g2)) ''eve''
       = Some \<lparr>a_name = ''eve'', a_key_hash = ''h'', a_allowed = [''db'']\<rparr>"
proof -
  let ?g1 = "snd (gateway_revoke ''f'' ''eve'' demo_proc)"
  let ?resp = "base_response demo_server (demo_token ''a'' True) ''k'' ''d''"
  let ?e = "gateway_enroll (demo_token ''a'' True) ''K'' ?resp (gateway_sighup (Ok demo_cfg) ''t'' ?g1)"
  have h: "gp_file demo_proc = Some (gp_state demo_proc)" "distinct (map sa_name (gst_agents (gp_state demo_proc)))"
    "find (\<lambda>a. sa_name a = ''eve'') (gst_agents (gp_state demo_proc)) =
       Some \<lparr>sa_name = ''eve'', sa_device_id = ''d'', sa_key_hash = ''h'', sa_allowed = [''db'']\<rparr>"
    "''eve'' \<notin> a_name ` set (gc_agents demo_cfg)"
    by (simp_all add: demo_proc_def demo_cfg_def Let_def)
  have r: "gateway_revoke ''f'' ''eve'' demo_proc = (Ok (), ?g1)"
    by (simp add: gateway_revoke_def demo_proc_def filterAgents_def filterDaemons_def demo_state_def Let_def)
  have t: "tk_role (demo_token ''a'' True) = ''daemon''" by (simp add: demo_token_def)
  from revocation_undone [OF h r t surjective_pairing]
  show ?thesis by (simp add: agent_of_def)
qed

text \<open>A name that the YAML file lists keeps the YAML credential: an enrolment under that name works until the
  next SIGHUP.\<close>

lemma yaml_name_wins:
  assumes "n \<in> a_name ` set (gc_agents cfg)"
  shows "LookupAgent (gp_creds (gateway_sighup (Ok cfg) tp g)) n = find (\<lambda>a. a_name a = n) (rev (gc_agents cfg))"
  using assms by (simp add: sighup_agents)

end
