(* ===== verification/Enroll_Client.thy ===== *)
theory Enroll_Client
  imports Enroll Router
begin

text \<open>
  The device's side of enrolment (\<open>cmd/agbridge/enroll.go\<close>, from the response to the state file) and what the command
  line makes of the state: the target and the options of a call (\<open>cli_root.go\<close>), the default target
  (\<open>cli_config_use.go\<close>) and the working directory (\<open>cli_workingdir.go\<close>).
\<close>

section \<open>From the response to the state file\<close>

definition certPinForState :: "string \<Rightarrow> string \<Rightarrow> string" where
  "certPinForState tlsMode pin = (if tlsMode = GatewayTLSModeWebPKI then [] else pin)"

definition tlsModeForState :: "string \<Rightarrow> string" where
  "tlsModeForState tlsMode = (if tlsMode = GatewayTLSModePin then [] else tlsMode)"

definition hostnameOnly :: "string \<Rightarrow> string" where
  "hostnameOnly addr =
     (if CHR '':'' \<in> set addr then butlast (rev (dropWhile (\<lambda>c. c \<noteq> CHR '':'') (rev addr))) else addr)"

definition enroll_role :: "enroll_response \<Rightarrow> string" where
  "enroll_role resp = (if es_target_daemon resp = [] then ''daemon'' else ''bridge'')"

text \<open>The pin the gateway states must be that of the certificate seen, unless the web's roots vouch for it.\<close>

definition pin_mismatch :: "string \<Rightarrow> string \<Rightarrow> enroll_response \<Rightarrow> bool" where
  "pin_mismatch tlsMode pin resp \<longleftrightarrow> tlsMode = GatewayTLSModePin \<and> es_cert_pin resp \<noteq> pin"

definition pinned :: "string \<Rightarrow> int \<Rightarrow> daemon_ref" where
  "pinned pub now = \<lparr>dr_device_id = [], dr_pubkey = pub, dr_pin_source = ''control-plane'', dr_first_seen = now, dr_alias = []\<rparr>"

definition buildKnownDaemons :: "int \<Rightarrow> enroll_response \<Rightarrow> (string \<times> daemon_ref) list \<times> string" where
  "buildKnownDaemons now resp =
     (if es_targets resp \<noteq> [] then
        (fold (\<lambda>t m. AList.update (et_name t) (pinned (et_pubkey t) now) m) (es_targets resp) [], et_name (hd (es_targets resp)))
      else ([(es_target_daemon resp, pinned (es_daemon_pubkey resp) now)], es_target_daemon resp))"

definition enrolled_bridge :: "int \<Rightarrow> string \<Rightarrow> string \<Rightarrow> string \<Rightarrow> enroll_response \<Rightarrow> bridge_state" where
  "enrolled_bridge now gwURL tlsMode keyPath resp =
     (let (known, target) = buildKnownDaemons now resp in
      \<lparr>bst_version = CurrentVersion, bst_device_id = es_device_id resp, bst_agent_name = es_name resp,
       bst_api_key = es_api_key resp,
       bst_gateway = \<lparr>gr_url = gwURL, gr_cert_pin = certPinForState tlsMode (es_cert_pin resp), gr_tls_mode = tlsModeForState tlsMode\<rparr>,
       bst_key_path = keyPath, bst_e2e_mode = es_e2e_mode resp, bst_default_target = target,
       bst_known_daemons = known, bst_working_dir = [], bst_enrolled_at = now\<rparr>)"

definition enrolled_daemon :: "int \<Rightarrow> string \<Rightarrow> string \<Rightarrow> string \<Rightarrow> enroll_response \<Rightarrow> daemon_state" where
  "enrolled_daemon now gwURL tlsMode keyPath resp =
     \<lparr>dst_version = CurrentVersion, dst_device_id = es_device_id resp, dst_name = es_name resp, dst_api_key = es_api_key resp,
      dst_gateway = \<lparr>gr_url = gwURL, gr_cert_pin = certPinForState tlsMode (es_cert_pin resp), gr_tls_mode = tlsModeForState tlsMode\<rparr>,
      dst_key_path = keyPath, dst_e2e_mode = es_e2e_mode resp, dst_exec_enabled = es_exec_enabled resp,
      dst_env_allowlist = es_env_allowlist resp, dst_forbidden_ports = es_forbidden_ports resp,
      dst_allowed_bridges = es_allowed_bridges resp, dst_working_dir = es_working_dir resp, dst_enrolled_at = now\<rparr>"

section \<open>The command line\<close>

text \<open>\<open>loadOpts\<close>: the state, once loaded, and the override of the target.\<close>

definition loadOpts :: "string \<Rightarrow> bridge_state \<Rightarrow> string + client_options" where
  "loadOpts override st =
     (let target = (if override \<noteq> [] then override else bst_default_target st) in
      case map_of (bst_known_daemons st) target of
        None \<Rightarrow> Err (''unknown_target: '' @ target)
      | Some rec \<Rightarrow> Ok \<lparr>co_gateway_url = gr_url (bst_gateway st), co_agent_name = bst_agent_name st,
          co_api_key = bst_api_key st, co_cert_pin = gr_cert_pin (bst_gateway st), co_tls_mode = gr_tls_mode (bst_gateway st),
          co_e2e_mode = bst_e2e_mode st, co_key_path = bst_key_path st, co_daemon_pubkey = dr_pubkey rec, co_target = target\<rparr>)"

definition config_use :: "string \<Rightarrow> bridge_state \<Rightarrow> string + bridge_state" where
  "config_use name st = (case map_of (bst_known_daemons st) name of
       None \<Rightarrow> Err (''unknown_target: '' @ name) | Some _ \<Rightarrow> Ok (st\<lparr>bst_default_target := name\<rparr>))"

definition resolveRemotePath :: "string \<Rightarrow> string \<Rightarrow> string" where
  "resolveRemotePath cwd arg =
     (if arg = [] then cwd else if is_abs arg then path_clean arg else path_clean (path_join [cwd, arg]))"

section \<open>An enrolled bridge can call its targets\<close>

lemma fold_update_map:
  "distinct (map et_name ts) \<Longrightarrow> t \<in> set ts \<Longrightarrow>
     map_of (fold (\<lambda>t m. AList.update (et_name t) (pinned (et_pubkey t) now) m) ts m) (et_name t) = Some (pinned (et_pubkey t) now)"
proof (induction ts arbitrary: m)
  case (Cons u ts)
  have other: "x \<notin> et_name ` set ts \<Longrightarrow> map_of (fold (\<lambda>t m. AList.update (et_name t) (pinned (et_pubkey t) now) m) ts m) x = map_of m x" for x m
    by (induction ts arbitrary: m) (simp_all add: update_conv')
  show ?case
  proof (cases "t \<in> set ts")
    case True
    with Cons show ?thesis by simp
  next
    case False
    with Cons.prems have "t = u" "et_name t \<notin> et_name ` set ts" by auto
    then show ?thesis by (simp add: other update_conv')
  qed
qed simp

text \<open>For every target of the response the options pin the key that the gateway stored for it; without an
  override they are for the first one, and a daemon outside the list is refused.\<close>

theorem enrolled_bridge_targets:
  assumes "es_targets resp \<noteq> []" and "distinct (map et_name (es_targets resp))" and "\<forall>t \<in> set (es_targets resp). et_name t \<noteq> []"
  shows "t \<in> set (es_targets resp) \<Longrightarrow> \<exists>opt. loadOpts (et_name t) (enrolled_bridge now url mode key resp) = Ok opt
      \<and> co_target opt = et_name t \<and> co_daemon_pubkey opt = et_pubkey t \<and> co_api_key opt = es_api_key resp"
    and "loadOpts [] (enrolled_bridge now url mode key resp) = loadOpts (et_name (hd (es_targets resp))) (enrolled_bridge now url mode key resp)"
    and "n \<noteq> [] \<Longrightarrow> n \<notin> et_name ` set (es_targets resp) \<Longrightarrow>
      loadOpts n (enrolled_bridge now url mode key resp) = Err (''unknown_target: '' @ n)"
proof -
  have other: "n \<notin> et_name ` set ts \<Longrightarrow>
      map_of (fold (\<lambda>t m. AList.update (et_name t) (pinned (et_pubkey t) now) m) ts m) n = map_of m n" for ts m
    by (induction ts arbitrary: m) (simp_all add: update_conv')
  show "t \<in> set (es_targets resp) \<Longrightarrow> \<exists>opt. loadOpts (et_name t) (enrolled_bridge now url mode key resp) = Ok opt
      \<and> co_target opt = et_name t \<and> co_daemon_pubkey opt = et_pubkey t \<and> co_api_key opt = es_api_key resp"
    using assms fold_update_map [OF assms(2), of t now "[]"]
    by (simp add: loadOpts_def enrolled_bridge_def buildKnownDaemons_def pinned_def)
  show "loadOpts [] (enrolled_bridge now url mode key resp) = loadOpts (et_name (hd (es_targets resp))) (enrolled_bridge now url mode key resp)"
    using assms by (simp add: loadOpts_def enrolled_bridge_def buildKnownDaemons_def)
  show "n \<noteq> [] \<Longrightarrow> n \<notin> et_name ` set (es_targets resp) \<Longrightarrow>
      loadOpts n (enrolled_bridge now url mode key resp) = Err (''unknown_target: '' @ n)"
    using assms(1) other [of "es_targets resp" "[]"] by (simp add: loadOpts_def enrolled_bridge_def buildKnownDaemons_def)
qed

text \<open>A response in mode \<open>required\<close> without allowed bridges, which a strict policy with an empty list gives,
  makes a state that the daemon refuses to start with.\<close>

lemma strict_enrolment_invalid:
  assumes "es_name resp \<noteq> []" "es_api_key resp \<noteq> []" "url \<noteq> []" "key \<noteq> []" "mode \<in> {GatewayTLSModePin, GatewayTLSModeWebPKI}"
    "es_e2e_mode resp = ''required''" "es_allowed_bridges resp = []"
  shows "ValidateDaemon (enrolled_daemon now url mode key resp) =
    Err ''state: allowed_bridge_pubkeys must be non-empty when e2e_mode=required''"
proof -
  have "validateGatewayTLSMode (tlsModeForState mode) = Ok ()"
  proof -
    have "validateGatewayTLSMode [] = Ok ()" "validateGatewayTLSMode ''webpki'' = Ok ()" by code_simp+
    then show ?thesis using assms(5) by (auto simp: tlsModeForState_def GatewayTLSModePin_def GatewayTLSModeWebPKI_def)
  qed
  with assms show ?thesis
    by (simp add: ValidateDaemon_def enrolled_daemon_def validateE2EMode_def)
qed

end
