(* ===== verification/Client_Calls.thy ===== *)
theory Client_Calls
  imports Router Exec Fs_Tools Search File_Proto Base64 Capabilities
begin

text \<open>
  The bridge's tool handlers (\<open>internal/cliclient\<close>): what they share, and the calls that are answered by
  one frame (\<open>handlers_search.go\<close>, \<open>handlers_meta.go\<close>, edit and stat of \<open>handlers_file.go\<close>).  A handler registers its
  call with the router, sends its frames and then takes frames from the call's channel until it can answer.
\<close>

section \<open>Results\<close>

text \<open>The tool result: a map with the optional flag \<open>isError\<close>, one text and the entries of \<open>_meta\<close>.\<close>

datatype meta = MInt int | MBool bool | MStr string | MEntry dir_entry | MEntries "dir_entry list"
  | MMatches "search_match list" | MCaps capabilities

record mcp_result =
  mr_error :: bool
  mr_text :: string
  mr_meta :: "string \<rightharpoonup> meta"

definition metaToMap :: "errcode_meta \<Rightarrow> string \<rightharpoonup> meta" where
  "metaToMap m = [''error_code'' \<mapsto> MStr (m_error_code m), ''category'' \<mapsto> MStr (m_category m),
     ''retryable'' \<mapsto> MBool (m_retryable m), ''retry_after_ms'' \<mapsto> MInt (m_retry_after_ms m),
     ''message'' \<mapsto> MStr (m_message m)]"

definition mcpErrorResult :: "errcode_error \<Rightarrow> mcp_result" where
  "mcpErrorResult e = \<lparr>mr_error = True, mr_text = e_message e, mr_meta = metaToMap (ToMCPMeta e)\<rparr>"

definition mcp_fail :: "string \<Rightarrow> string \<Rightarrow> mcp_result" where
  "mcp_fail code msg = mcpErrorResult (new_error code msg)"

definition mcp_ok :: "string \<Rightarrow> (string \<rightharpoonup> meta) \<Rightarrow> mcp_result" where
  "mcp_ok text m = \<lparr>mr_error = False, mr_text = text, mr_meta = m\<rparr>"

lemma mcp_simps [simp]: "mr_error (mcp_fail c m)" "mr_text (mcp_fail c m) = m" "\<not> mr_error (mcp_ok t x)"
  "mr_text (mcp_ok t x) = t" "mr_meta (mcp_ok t x) = x"
  by (simp_all add: mcp_fail_def mcp_ok_def mcpErrorResult_def new_error_def ToMCPMeta_def Let_def split: prod.split)

text \<open>What a handler has come to: it still waits, it has answered, or it has panicked.\<close>

datatype outcome = Waiting | Answer mcp_result | Panic

section \<open>Formatting\<close>

definition utf8_cont :: "byte \<Rightarrow> bool" where "utf8_cont b \<longleftrightarrow> 0x80 \<le> b \<and> b \<le> 0xBF"

text \<open>\<open>utf8.Valid\<close>: no surrogates, no overlong forms, nothing beyond U+10FFFF.\<close>

fun utf8_valid :: "bytes \<Rightarrow> bool" where
  "utf8_valid [] = True"
| "utf8_valid (a # s) =
     (if a < 0x80 then utf8_valid s
      else if a < 0xC2 then False
      else if a < 0xE0 then (case s of b # r \<Rightarrow> utf8_cont b \<and> utf8_valid r | _ \<Rightarrow> False)
      else if a < 0xF0 then
        (case s of b # c # r \<Rightarrow> (if a = 0xE0 then 0xA0 \<le> b \<and> b \<le> 0xBF else if a = 0xED then 0x80 \<le> b \<and> b \<le> 0x9F else utf8_cont b)
            \<and> utf8_cont c \<and> utf8_valid r | _ \<Rightarrow> False)
      else if a < 0xF5 then
        (case s of b # c # d # r \<Rightarrow> (if a = 0xF0 then 0x90 \<le> b \<and> b \<le> 0xBF else if a = 0xF4 then 0x80 \<le> b \<and> b \<le> 0x8F else utf8_cont b)
            \<and> utf8_cont c \<and> utf8_cont d \<and> utf8_valid r | _ \<Rightarrow> False)
      else False)"

fun oct_digits :: "nat \<Rightarrow> string" where
  "oct_digits n = (if n < 8 then [char_of (n + 48)] else oct_digits (n div 8) @ [char_of (n mod 8 + 48)])"

declare oct_digits.simps [simp del]

definition pad_left :: "nat \<Rightarrow> string \<Rightarrow> string" where "pad_left k s = replicate (k - length s) CHR '' '' @ s"
definition pad_right :: "nat \<Rightarrow> string \<Rightarrow> string" where "pad_right k s = s @ replicate (k - length s) CHR '' ''"

definition fmt_bool :: "bool \<Rightarrow> string" where "fmt_bool b = (if b then ''true'' else ''false'')"
definition fmt_list :: "string list \<Rightarrow> string" where "fmt_list xs = ''['' @ join_with '' '' xs @ '']''"

definition newline :: string where "newline = [CHR 0x0A]"

text \<open>\<open>tool: code (detail)\<close>.\<close>

definition with_detail :: "string \<Rightarrow> string \<Rightarrow> string \<Rightarrow> string" where
  "with_detail tool code detail = tool @ '': '' @ code @ (if detail \<noteq> [] then '' ('' @ detail @ '')'' else [])"

section \<open>Calls\<close>

text \<open>What a \<open>select\<close> of a handler gives: a frame from the channel, its closing, or the end of the context.\<close>

datatype inbox = Got frame | Closed | CtxDone

text \<open>The codecs of the messages and the texts of the errors that are made elsewhere.\<close>

record client_env =
  ke_exec :: "exec_request \<Rightarrow> string + bytes"
  ke_read :: "file_read_request \<Rightarrow> bytes"
  ke_write :: "file_write_request \<Rightarrow> bytes"
  ke_edit :: "file_edit_request \<Rightarrow> bytes"
  ke_upload :: "upload_request \<Rightarrow> bytes"
  ke_download :: "download_request \<Rightarrow> bytes"
  ke_chunk :: "file_chunk \<Rightarrow> bytes"
  ke_search :: "search_request \<Rightarrow> bytes"
  ke_list :: "string \<Rightarrow> bytes"
  ke_stat :: "string \<Rightarrow> bytes"
  kd_exec_chunk :: "bytes \<Rightarrow> string + exec_chunk"
  kd_exec_done :: "bytes \<Rightarrow> string + exec_complete"
  kd_chunk :: "bytes \<Rightarrow> string + file_chunk"
  kd_complete :: "bytes \<Rightarrow> string + file_complete"
  kd_search :: "bytes \<Rightarrow> string + search_response"
  kd_list :: "bytes \<Rightarrow> string + list_dir_response"
  kd_stat :: "bytes \<Rightarrow> string + stat_response"
  kd_caps :: "bytes \<Rightarrow> string + capabilities"
  kd_error :: "bytes \<Rightarrow> frame_payload option"
  k_router_text :: "router_error \<Rightarrow> string"
  k_os_text :: "os_error \<Rightarrow> string"
  k_b64_text :: "string \<Rightarrow> string"

text \<open>A call: the router, and for each send to come whether the context is cancelled by then and what the network
  does with it: it takes the frame, it fails, or it takes nothing for ever.  The context is looked at before the write;
  \<open>WriteMessage\<close> itself has neither context nor deadline, so a peer that stops reading holds the caller there.\<close>

datatype net_fate = Goes | Breaks string | Blocks

record 'c call =
  cl_router :: "'c router"
  cl_nets :: "(bool \<times> net_fate) list"

text \<open>What becomes of a send: the frame is on its way, an error, or the caller is stuck in the write.\<close>

datatype sending = Sent | NotSent string | Stuck

definition call_send :: "('h, 'c) noise_lib \<Rightarrow> client_env \<Rightarrow> frame \<Rightarrow> 'c call \<Rightarrow> sending \<times> 'c call" where
  "call_send nz ce f c =
     (let (cc, net) = (case cl_nets c of [] \<Rightarrow> (False, Goes) | x # _ \<Rightarrow> x);
          (e, r) = router_sendInner nz cc (case net of Breaks m \<Rightarrow> Some m | _ \<Rightarrow> None) f (cl_router c);
          c' = c\<lparr>cl_router := r, cl_nets := tl (cl_nets c)\<rparr>
      in (case e of
            Inl x \<Rightarrow> (NotSent (k_router_text ce x), c')
          | Inr _ \<Rightarrow> if net = Blocks then (Stuck, c'\<lparr>cl_router := r\<lparr>rt_sent := rt_sent (cl_router c)\<rparr>\<rparr>) else (Sent, c')))"

fun send_frames :: "('h, 'c) noise_lib \<Rightarrow> client_env \<Rightarrow> frame list \<Rightarrow> 'c call \<Rightarrow> sending \<times> 'c call" where
  "send_frames nz ce [] c = (Sent, c)"
| "send_frames nz ce (f # fs) c =
     (case call_send nz ce f c of (Sent, c) \<Rightarrow> send_frames nz ce fs c | (x, c) \<Rightarrow> (x, c))"

definition call_frame :: "frame_type \<Rightarrow> string \<Rightarrow> bytes \<Rightarrow> frame" where
  "call_frame t i p = \<lparr>f_type = t, f_reqid = i, f_payload = p\<rparr>"

definition network_lost :: "string \<Rightarrow> outcome" where "network_lost m = Answer (mcp_fail ''network_lost'' m)"

text \<open>\<open>ch := registerCall(reqID); defer unregisterCall(reqID)\<close> around the frames of a call and the wait for its
  answer: a call that has not come to its end is still registered.\<close>

definition finish_call :: "string \<Rightarrow> outcome \<Rightarrow> 'c call \<Rightarrow> outcome \<times> 'c call" where
  "finish_call reqID x c = (x, if x = Waiting then c else c\<lparr>cl_router := unregisterCall reqID (cl_router c)\<rparr>)"

lemma finish_call_simps [simp]:
  "fst (finish_call i x c) = x"
  "finish_call i (Answer r) c = (Answer r, c\<lparr>cl_router := unregisterCall i (cl_router c)\<rparr>)"
  by (simp_all add: finish_call_def)

definition send_outcome :: "sending \<Rightarrow> outcome \<Rightarrow> outcome" where
  "send_outcome e after = (case e of Sent \<Rightarrow> after | NotSent m \<Rightarrow> network_lost m | Stuck \<Rightarrow> Waiting)"

definition with_call ::
  "('h, 'c) noise_lib \<Rightarrow> client_env \<Rightarrow> string \<Rightarrow> frame list \<Rightarrow> outcome \<Rightarrow> 'c call \<Rightarrow> outcome \<times> 'c call" where
  "with_call nz ce reqID frames after c =
     (let (e, c) = send_frames nz ce frames (c\<lparr>cl_router := registerCall reqID (cl_router c)\<rparr>)
      in finish_call reqID (send_outcome e after) c)"

definition frame_error :: "client_env \<Rightarrow> string \<Rightarrow> bytes \<Rightarrow> outcome" where
  "frame_error ce tool p =
     (let (code, detail) = DecodeFramePayload (kd_error ce) p in Answer (mcp_fail code (with_detail tool code detail)))"

text \<open>One \<open>select\<close>: the answer must be the first frame.\<close>

definition await_one :: "client_env \<Rightarrow> string \<Rightarrow> string \<Rightarrow> frame_type \<Rightarrow> (bytes \<Rightarrow> outcome) \<Rightarrow> inbox list \<Rightarrow> outcome" where
  "await_one ce tool unexpected t k ib = (case ib of
       [] \<Rightarrow> Waiting
     | CtxDone # _ \<Rightarrow> network_lost ''context cancelled''
     | Closed # _ \<Rightarrow> network_lost ''connection reset''
     | Got f # _ \<Rightarrow>
         if f_type f = t then k (f_payload f)
         else if f_type f = FrameTypeError then frame_error ce tool (f_payload f)
         else Answer (mcp_fail ''protocol_error'' (unexpected @ itoa (uint (f_type f)))))"

definition bad_payload :: "string \<Rightarrow> outcome" where "bad_payload m = Answer (mcp_fail ''bad_payload'' m)"

section \<open>Capabilities\<close>

definition renderCapabilities :: "capabilities \<Rightarrow> string" where
  "renderCapabilities c =
     ''daemon='' @ cp_daemon_name c @ '' hostname='' @ cp_hostname c @ '' version='' @ cp_version c @ newline
     @ ''exec_enabled='' @ fmt_bool (cp_exec_enabled c) @ newline
     @ ''default_working_dir='' @ cp_working_dir c @ newline
     @ ''env_allowlist='' @ fmt_list (cp_env_allowlist c) @ newline
     @ ''forbidden_ports='' @ fmt_list (map itoa (cp_forbidden_ports c)) @ newline
     @ ''max_file_bytes='' @ itoa (cp_max_file_bytes c)"

definition CapabilitiesHandler ::
  "('h, 'c) noise_lib \<Rightarrow> client_env \<Rightarrow> bytes \<Rightarrow> inbox list \<Rightarrow> 'c call \<Rightarrow> outcome \<times> 'c call" where
  "CapabilitiesHandler nz ce rnd ib c =
     (let i = newReqID rnd in
      with_call nz ce i [call_frame FrameTypeCapabilitiesRequest i []]
        (await_one ce ''capabilities'' ''unexpected frame type '' FrameTypeCapabilitiesResponse (\<lambda>p. case kd_caps ce p of
             Inl e \<Rightarrow> bad_payload e
           | Inr caps \<Rightarrow> Answer (mcp_ok (renderCapabilities caps) [''capabilities'' \<mapsto> MCaps caps])) ib) c)"

section \<open>Stat, list, search, edit\<close>

definition entry_line :: "dir_entry \<Rightarrow> string" where
  "entry_line e = pad_right 4 (de_type e) @ '' '' @ pad_left 10 (itoa (de_size e)) @ '' '' @ oct_digits (de_mode e) @ '' ''
     @ de_name e @ newline"

definition renderListDir :: "list_dir_response \<Rightarrow> string" where
  "renderListDir resp =
     (let b = concat (map entry_line (ld_entries resp)) in if b = [] then ''(empty directory)'' else b)"

definition ListDirectoryHandler ::
  "('h, 'c) noise_lib \<Rightarrow> client_env \<Rightarrow> bytes \<Rightarrow> inbox list \<Rightarrow> string + string \<Rightarrow> 'c call \<Rightarrow> outcome \<times> 'c call" where
  "ListDirectoryHandler nz ce rnd ib args c = (case args of
       Inl e \<Rightarrow> (bad_payload e, c)
     | Inr path \<Rightarrow>
         if path = [] then (bad_payload ''path is required'', c)
         else (let i = newReqID rnd in
           with_call nz ce i [call_frame FrameTypeListDirRequest i (ke_list ce path)]
             (await_one ce ''list_directory'' ''unexpected frame '' FrameTypeListDirResponse (\<lambda>p. case kd_list ce p of
                 Inl e \<Rightarrow> bad_payload (''list_directory: '' @ e)
               | Inr resp \<Rightarrow>
                   if ld_err resp \<noteq> [] then
                     Answer (mcp_fail (ld_err resp) (with_detail ''list_directory'' (ld_err resp) (ld_detail resp)))
                   else Answer (mcp_ok (renderListDir resp) [''entries'' \<mapsto> MEntries (ld_entries resp),
                          ''count'' \<mapsto> MInt (int (length (ld_entries resp)))])) ib) c))"

definition stat_text :: "dir_entry \<Rightarrow> string" where
  "stat_text e = ''name='' @ de_name e @ '' type='' @ de_type e @ '' size='' @ itoa (de_size e) @ '' mode='' @ oct_digits (de_mode e)
     @ '' mod_time='' @ itoa (de_mtime e)"

text \<open>A response without error and without entry is dereferenced all the same.\<close>

definition StatHandler ::
  "('h, 'c) noise_lib \<Rightarrow> client_env \<Rightarrow> bytes \<Rightarrow> inbox list \<Rightarrow> string + string \<Rightarrow> 'c call \<Rightarrow> outcome \<times> 'c call" where
  "StatHandler nz ce rnd ib args c = (case args of
       Inl e \<Rightarrow> (bad_payload e, c)
     | Inr path \<Rightarrow>
         if path = [] then (bad_payload ''path is required'', c)
         else (let i = newReqID rnd in
           with_call nz ce i [call_frame FrameTypeStatRequest i (ke_stat ce path)]
             (await_one ce ''stat'' ''unexpected frame '' FrameTypeStatResponse (\<lambda>p. case kd_stat ce p of
                 Inl e \<Rightarrow> bad_payload (''stat: '' @ e)
               | Inr resp \<Rightarrow>
                   if sr_err resp \<noteq> [] then
                     Answer (mcp_fail (sr_err resp) (with_detail ''stat'' (sr_err resp) (sr_detail resp)))
                   else (case sr_entry resp of
                       None \<Rightarrow> Panic
                     | Some e \<Rightarrow> Answer (mcp_ok (stat_text e) [''entry'' \<mapsto> MEntry e]))) ib) c))"

record search_args =
  hs_pattern :: string
  hs_path :: string
  hs_regex :: "bool option"
  hs_glob :: string
  hs_nocase :: bool
  hs_max_results :: int
  hs_max_files :: int

definition search_request_of :: "search_args \<Rightarrow> search_request" where
  "search_request_of a = \<lparr>sq_pattern = hs_pattern a, sq_path = hs_path a,
     sq_regex = (case hs_regex a of None \<Rightarrow> True | Some b \<Rightarrow> b), sq_glob = hs_glob a, sq_nocase = hs_nocase a,
     sq_max_results = hs_max_results a, sq_max_files = hs_max_files a\<rparr>"

definition match_line :: "search_match \<Rightarrow> string" where
  "match_line m = sm_file m @ '':'' @ itoa (sm_line m) @ '':'' @ itoa (sm_column m) @ '': '' @ sm_snippet m @ newline"

definition search_text :: "search_response \<Rightarrow> string" where
  "search_text resp =
     (let b = concat (map match_line (sx_results resp)) in
      if b = [] then ''(no matches in '' @ itoa (sx_files resp) @ '' files)''
      else if sx_truncated resp then
        b @ ''--- showing '' @ itoa (int (length (sx_results resp))) @ '' of '' @ itoa (sx_total resp)
          @ '' matches (truncated) ---'' @ newline
      else b)"

definition SearchHandler ::
  "('h, 'c) noise_lib \<Rightarrow> client_env \<Rightarrow> bytes \<Rightarrow> inbox list \<Rightarrow> string + search_args \<Rightarrow> 'c call \<Rightarrow> outcome \<times> 'c call" where
  "SearchHandler nz ce rnd ib args c = (case args of
       Inl e \<Rightarrow> (bad_payload e, c)
     | Inr a \<Rightarrow>
         if hs_pattern a = [] then (bad_payload ''pattern required'', c)
         else if hs_path a = [] then (bad_payload ''path required'', c)
         else (let i = newReqID rnd in
           with_call nz ce i [call_frame FrameTypeSearchRequest i (ke_search ce (search_request_of a))]
             (await_one ce ''search'' ''unexpected frame '' FrameTypeSearchResponse (\<lambda>p. case kd_search ce p of
                 Inl e \<Rightarrow> bad_payload (''search: '' @ e)
               | Inr resp \<Rightarrow>
                   if sx_err resp \<noteq> [] then
                     Answer (mcp_fail (sx_err resp) (with_detail ''search'' (sx_err resp) (sx_detail resp)))
                   else Answer (mcp_ok (search_text resp) [''results'' \<mapsto> MMatches (sx_results resp),
                          ''total_matched'' \<mapsto> MInt (sx_total resp), ''total_files_searched'' \<mapsto> MInt (sx_files resp),
                          ''truncated'' \<mapsto> MBool (sx_truncated resp), ''duration_ms'' \<mapsto> MInt (sx_duration_ms resp)])) ib) c))"

definition edit_result :: "file_complete \<Rightarrow> mcp_result" where
  "edit_result fc =
     (if fc_err fc \<noteq> [] then mcp_fail (fc_err fc) (with_detail ''edit_file'' (fc_err fc) (fc_detail fc))
      else mcp_ok (''edited '' @ itoa (fc_size fc) @ '' bytes (sha256='' @ fc_sha fc @ '')''
            @ (if fc_backup fc \<noteq> [] then newline @ ''backup: '' @ fc_backup fc else []))
          ([''size'' \<mapsto> MInt (fc_size fc), ''sha256'' \<mapsto> MStr (fc_sha fc)]
            ++ (if fc_backup fc \<noteq> [] then [''backup_path'' \<mapsto> MStr (fc_backup fc)] else Map.empty)))"

definition EditFileHandler ::
  "('h, 'c) noise_lib \<Rightarrow> client_env \<Rightarrow> bytes \<Rightarrow> inbox list \<Rightarrow> string + file_edit_request \<Rightarrow> 'c call \<Rightarrow> outcome \<times> 'c call" where
  "EditFileHandler nz ce rnd ib args c = (case args of
       Inl e \<Rightarrow> (bad_payload e, c)
     | Inr a \<Rightarrow>
         if er_path a = [] then (bad_payload ''path is required'', c)
         else if er_old a = [] then (bad_payload ''old_string is required and must not be empty'', c)
         else (let i = newReqID rnd in
           with_call nz ce i [call_frame FrameTypeFileEditRequest i (ke_edit ce a)]
             (await_one ce ''edit_file'' ''unexpected frame '' FrameTypeFileComplete (\<lambda>p. case kd_complete ce p of
                 Inl e \<Rightarrow> bad_payload (''edit_file: '' @ e)
               | Inr fc \<Rightarrow> Answer (edit_result fc)) ib) c))"

end
