(* ===== verification/Client_Exec.thy ===== *)
theory Client_Exec
  imports Client_Calls
begin

text \<open>
  \<open>internal/cliclient/handlers_exec.go\<close>: a command's output is collected chunk by chunk, up to 10 MiB per
  stream, until the completion arrives.  The progress events that the handler emits are part of its result.
\<close>

section \<open>Collecting the output\<close>

definition maxBufferedOutput :: nat where "maxBufferedOutput = 10485760"

record progress =
  pg_bytes :: nat
  pg_message :: string

definition buf_write :: "bytes \<Rightarrow> bytes \<Rightarrow> bytes" where
  "buf_write dst d =
     (if length dst + length d > maxBufferedOutput then
        (let n = int maxBufferedOutput - int (length dst) in if n > 0 then dst @ take (nat n) d else dst)
      else dst @ d)"

lemma buf_write_take: "length dst \<le> maxBufferedOutput \<Longrightarrow> buf_write dst d = take maxBufferedOutput (dst @ d)"
  by (auto simp: buf_write_def Let_def nat_diff_distrib')

text \<open>The text body prefers stdout; a failed command starts with its exit code.\<close>

definition em_dash :: string where "em_dash = [CHR 0xE2, CHR 0x80, CHR 0x94]"

definition binary_note :: "string \<Rightarrow> bytes \<Rightarrow> string" where
  "binary_note name b = ''('' @ name @ '': '' @ itoa (int (length b)) @ '' binary bytes '' @ em_dash @ '' see _meta.'' @ name @ ''_b64)''"

definition stream_meta :: "string \<Rightarrow> bytes \<Rightarrow> string \<rightharpoonup> meta" where
  "stream_meta name b =
     (if utf8_valid b then [name \<mapsto> MStr (string_of b)] else [name @ ''_b64'' \<mapsto> MStr (base64_encode b)])"

definition exec_body :: "bytes \<Rightarrow> bytes \<Rightarrow> string" where
  "exec_body out err =
     (let body = (if utf8_valid out then string_of out else binary_note ''stdout'' out) in
      if body = [] \<and> err \<noteq> [] then (if utf8_valid err then string_of err else binary_note ''stderr'' err) else body)"

definition buildExecResult :: "bytes \<Rightarrow> bytes \<Rightarrow> exec_complete \<Rightarrow> mcp_result" where
  "buildExecResult out err c =
     (let m = [''exitcode'' \<mapsto> MInt (xd_exit c), ''duration_ms'' \<mapsto> MInt (xd_duration_ms c),
            ''timed_out'' \<mapsto> MBool (xd_timed_out c), ''truncated'' \<mapsto> MBool (xd_truncated c)]
            ++ stream_meta ''stdout'' out ++ stream_meta ''stderr'' err;
          body = exec_body out err;
          text = (if xd_exit c \<noteq> 0 then
                    ''exitcode='' @ itoa (xd_exit c) @ '' duration_ms='' @ itoa (xd_duration_ms c) @ newline @ body
                    @ (if err \<noteq> [] \<and> utf8_valid err \<and> out \<noteq> [] then newline @ ''--- stderr ---'' @ newline @ string_of err else [])
                  else body) in
      if xd_timed_out c then
        \<lparr>mr_error = True, mr_text = text,
         mr_meta = m ++ metaToMap (ToMCPMeta (new_error ''exec_timeout'' ''subprocess exceeded timeout_ms''))\<rparr>
      else \<lparr>mr_error = False, mr_text = text, mr_meta = m\<rparr>)"

section \<open>The handler\<close>

text \<open>The loop over the call's channel; the accumulators are the two streams and the progress so far.\<close>

fun exec_loop :: "client_env \<Rightarrow> inbox list \<Rightarrow> bytes \<Rightarrow> bytes \<Rightarrow> progress list \<Rightarrow> outcome \<times> progress list" where
  "exec_loop ce [] out err em = (Waiting, em)"
| "exec_loop ce (CtxDone # ib) out err em = (network_lost ''context cancelled'', em)"
| "exec_loop ce (Closed # ib) out err em = (network_lost ''connection reset'', em)"
| "exec_loop ce (Got f # ib) out err em =
     (if f_type f = FrameTypeExecChunk then
        (case kd_exec_chunk ce (f_payload f) of
           Inl e \<Rightarrow> (bad_payload e, em)
         | Inr c \<Rightarrow>
             (let (out, err) = (if xc_stream c = ''stderr'' then (out, buf_write err (xc_data c)) else (buf_write out (xc_data c), err))
              in exec_loop ce ib out err (em @ [\<lparr>pg_bytes = length out + length err, pg_message = string_of (xc_data c)\<rparr>])))
      else if f_type f = FrameTypeExecComplete then
        (case kd_exec_done ce (f_payload f) of
           Inl e \<Rightarrow> (bad_payload e, em)
         | Inr c \<Rightarrow> (Answer (buildExecResult out err c), em))
      else if f_type f = FrameTypeError then (frame_error ce ''exec'' (f_payload f), em)
      else exec_loop ce ib out err em)"

definition ExecHandler ::
  "('h, 'c) noise_lib \<Rightarrow> client_env \<Rightarrow> bytes \<Rightarrow> inbox list \<Rightarrow> string + exec_request \<Rightarrow> 'c call \<Rightarrow> outcome \<times> 'c call" where
  "ExecHandler nz ce rnd ib args c = (case args of
       Inl e \<Rightarrow> (bad_payload e, c)
     | Inr req \<Rightarrow> (case ke_exec ce req of
         Inl e \<Rightarrow> (bad_payload e, c)
       | Inr b \<Rightarrow>
           (let i = newReqID rnd in
            with_call nz ce i [call_frame FrameTypeExecRequest i b] (fst (exec_loop ce ib [] [] [])) c)))"

section \<open>What is collected\<close>

text \<open>The bytes of one stream in a list of chunks; whatever is not called stderr counts as stdout.\<close>

definition stream_of :: "bool \<Rightarrow> exec_chunk list \<Rightarrow> bytes" where
  "stream_of is_err cs = concat (map xc_data (filter (\<lambda>c. (xc_stream c = ''stderr'') = is_err) cs))"

lemma stream_of_simps [simp]:
  "stream_of e [] = []"
  "stream_of e (c # cs) = (if (xc_stream c = ''stderr'') = e then xc_data c else []) @ stream_of e cs"
  by (simp_all add: stream_of_def)

lemma take_take_append: "take n (take n xs @ ys) = take n (xs @ ys)"
  by (cases "n \<le> length xs") simp_all

lemma take_buf: "length a \<le> maxBufferedOutput \<Longrightarrow> take maxBufferedOutput (buf_write a d @ x) = take maxBufferedOutput (a @ d @ x)"
  using take_take_append [of maxBufferedOutput "a @ d" x] by (simp only: buf_write_take append_assoc)

lemma length_buf_write: "length a \<le> maxBufferedOutput \<Longrightarrow> length (buf_write a d) \<le> maxBufferedOutput"
  by (simp add: buf_write_take)

text \<open>Chunks that are decoded and then a completion: the answer is built from the first 10 MiB of each stream.\<close>

lemma exec_loop_chunks:
  assumes "\<And>c. c \<in> set cs \<Longrightarrow> kd_exec_chunk ce (enc c) = Ok c"
    and "length out \<le> maxBufferedOutput" "length err \<le> maxBufferedOutput"
  shows "\<exists>em'. exec_loop ce (map (\<lambda>c. Got (call_frame FrameTypeExecChunk i (enc c))) cs @ ib) out err em =
    exec_loop ce ib (take maxBufferedOutput (out @ stream_of False cs)) (take maxBufferedOutput (err @ stream_of True cs)) em'"
  using assms
proof (induction cs arbitrary: out err em)
  case (Cons c cs)
  let ?out = "if xc_stream c = ''stderr'' then out else buf_write out (xc_data c)"
  let ?err = "if xc_stream c = ''stderr'' then buf_write err (xc_data c) else err"
  have le: "length ?out \<le> maxBufferedOutput" "length ?err \<le> maxBufferedOutput"
    using Cons.prems length_buf_write by auto
  have step: "exec_loop ce (Got (call_frame FrameTypeExecChunk i (enc c)) # xs) out err em =
      exec_loop ce xs ?out ?err (em @ [\<lparr>pg_bytes = length ?out + length ?err, pg_message = string_of (xc_data c)\<rparr>])" for xs
    using Cons.prems(1) [of c] by (simp add: call_frame_def)
  from Cons.IH [OF Cons.prems(1) le] obtain em' where
    "exec_loop ce (map (\<lambda>c. Got (call_frame FrameTypeExecChunk i (enc c))) cs @ ib) ?out ?err
       (em @ [\<lparr>pg_bytes = length ?out + length ?err, pg_message = string_of (xc_data c)\<rparr>]) =
     exec_loop ce ib (take maxBufferedOutput (?out @ stream_of False cs)) (take maxBufferedOutput (?err @ stream_of True cs)) em'"
    by fastforce
  moreover have "take maxBufferedOutput (?out @ stream_of False cs) = take maxBufferedOutput (out @ stream_of False (c # cs))"
    "take maxBufferedOutput (?err @ stream_of True cs) = take maxBufferedOutput (err @ stream_of True (c # cs))"
    using Cons.prems(2,3) by (auto simp: take_buf simp del: take_append)
  ultimately show ?case unfolding list.map append_Cons step by metis
qed auto

text \<open>Each event's count is at most the sum of the two caps, and the counts never decrease.\<close>

lemma exec_loop_progress:
  assumes "\<forall>p \<in> set em. pg_bytes p \<le> length out + length err" "sorted (map pg_bytes em)"
    and "length out \<le> maxBufferedOutput" "length err \<le> maxBufferedOutput"
  shows "sorted (map pg_bytes (snd (exec_loop ce ib out err em)))
    \<and> (\<forall>p \<in> set (snd (exec_loop ce ib out err em)). pg_bytes p \<le> 2 * maxBufferedOutput)"
  using assms
proof (induction ce ib out err em rule: exec_loop.induct)
  case (4 ce f ib out err em)
  show ?case
  proof (cases "f_type f = FrameTypeExecChunk \<and> (\<exists>c. kd_exec_chunk ce (f_payload f) = Ok c)")
    case True
    then obtain c where c: "f_type f = FrameTypeExecChunk" "kd_exec_chunk ce (f_payload f) = Ok c" by blast
    let ?out = "if xc_stream c = ''stderr'' then out else buf_write out (xc_data c)"
    let ?err = "if xc_stream c = ''stderr'' then buf_write err (xc_data c) else err"
    let ?em = "em @ [\<lparr>pg_bytes = length ?out + length ?err, pg_message = string_of (xc_data c)\<rparr>]"
    have step: "exec_loop ce (Got f # ib) out err em = exec_loop ce ib ?out ?err ?em" using c by simp
    have grow: "length out + length err \<le> length ?out + length ?err"
      by (simp add: buf_write_def Let_def)
    have old: "\<forall>p \<in> set em. pg_bytes p \<le> length ?out + length ?err" using "4.prems"(1) grow order.trans by blast
    have le: "length ?out \<le> maxBufferedOutput" "length ?err \<le> maxBufferedOutput"
      using "4.prems"(3,4) length_buf_write by auto
    have new: "\<forall>p \<in> set ?em. pg_bytes p \<le> length ?out + length ?err" "sorted (map pg_bytes ?em)"
      using "4.prems"(2) old by (auto simp: sorted_append)
    have pair: "(?out, ?err) = (if xc_stream c = ''stderr'' then (out, buf_write err (xc_data c)) else (buf_write out (xc_data c), err))"
      by simp
    show ?thesis
      unfolding step using "4.IH"(1) [OF c(1) c(2) pair refl new le] .
  next
    case False
    have old: "\<forall>p \<in> set em. pg_bytes p \<le> 2 * maxBufferedOutput"
      using "4.prems"(1,3,4) by fastforce
    consider "\<exists>o1. exec_loop ce (Got f # ib) out err em = (o1, em)"
      | "f_type f \<noteq> FrameTypeExecChunk" "f_type f \<noteq> FrameTypeExecComplete" "f_type f \<noteq> FrameTypeError"
      using False by (cases "f_type f = FrameTypeExecChunk"; cases "f_type f = FrameTypeExecComplete";
          cases "f_type f = FrameTypeError") (auto split: sum.splits)
    then show ?thesis
    proof cases
      case 1
      then show ?thesis using old "4.prems"(2) by auto
    next
      case 2
      from "4.IH"(2) [OF 2 "4.prems"] 2 show ?thesis by simp
    qed
  qed
qed fastforce+

end
