(* ===== verification/Client_Files.thy ===== *)
theory Client_Files
  imports Client_Exec Read_File
begin

text \<open>
  The handlers that move files: read and write (\<open>handlers_file.go\<close>), upload and download (\<open>handlers_transfer.go\<close>).
  Upload and download also use the bridge's own disk, a second \<open>world\<close>.
\<close>

section \<open>Reading\<close>

definition binary_text :: "file_complete \<Rightarrow> string" where
  "binary_text fc = ''(binary '' @ itoa (fc_size fc) @ '' bytes, sha256='' @ fc_sha fc @ '')''"

definition buildReadFileResult :: "bytes \<Rightarrow> file_complete \<Rightarrow> mcp_result" where
  "buildReadFileResult content fc =
     (if fc_err fc \<noteq> [] then mcp_fail (fc_err fc) (with_detail ''read_file'' (fc_err fc) (fc_detail fc))
      else let m = [''size'' \<mapsto> MInt (fc_size fc), ''sha256'' \<mapsto> MStr (fc_sha fc)] in
        if utf8_valid content then mcp_ok (string_of content) m
        else mcp_ok (binary_text fc) (m(''content_b64'' \<mapsto> MStr (base64_encode content))))"

definition note_progress :: "bytes \<Rightarrow> progress list \<Rightarrow> progress list" where
  "note_progress d em = (if d = [] then em else
     em @ [\<lparr>pg_bytes = (if em = [] then 0 else pg_bytes (last em)) + length d, pg_message = []\<rparr>])"

fun read_file_loop :: "client_env \<Rightarrow> inbox list \<Rightarrow> bytes \<Rightarrow> progress list \<Rightarrow> outcome \<times> progress list" where
  "read_file_loop ce [] content em = (Waiting, em)"
| "read_file_loop ce (CtxDone # ib) content em = (network_lost ''context cancelled'', em)"
| "read_file_loop ce (Closed # ib) content em = (network_lost ''connection reset'', em)"
| "read_file_loop ce (Got f # ib) content em =
     (if f_type f = FrameTypeFileChunk then
        (case kd_chunk ce (f_payload f) of
           Inl e \<Rightarrow> (bad_payload e, em)
         | Inr c \<Rightarrow>
             if length content + length (ck_data c) > maxBufferedOutput then
               (Answer (mcp_fail ''exceeds_max_size'' ''file exceeds 10 MB cap''), em)
             else read_file_loop ce ib (content @ ck_data c) (note_progress (ck_data c) em))
      else if f_type f = FrameTypeFileComplete then
        (case kd_complete ce (f_payload f) of
           Inl e \<Rightarrow> (bad_payload (''read_file: '' @ e), em)
         | Inr fc \<Rightarrow> (Answer (buildReadFileResult content fc), em))
      else if f_type f = FrameTypeError then (Answer (mcp_fail (string_of (f_payload f)) ''daemon error''), em)
      else read_file_loop ce ib content em)"

definition ReadFileHandler ::
  "('h, 'c) noise_lib \<Rightarrow> client_env \<Rightarrow> bytes \<Rightarrow> inbox list \<Rightarrow> string + file_read_request \<Rightarrow> 'c call \<Rightarrow> outcome \<times> 'c call" where
  "ReadFileHandler nz ce rnd ib args c = (case args of
       Inl e \<Rightarrow> (bad_payload e, c)
     | Inr a \<Rightarrow>
         if rr_path a = [] then (bad_payload ''path is required'', c)
         else (let i = newReqID rnd in
           with_call nz ce i [call_frame FrameTypeFileReadRequest i (ke_read ce a)] (fst (read_file_loop ce ib [] [])) c))"

section \<open>Writing\<close>

definition writeChunkSize :: nat where "writeChunkSize = 65536"

text \<open>Pieces of 64 KiB, the last with the end mark; an empty file is one empty piece.\<close>

function pieces :: "bytes \<Rightarrow> file_chunk list" where
  "pieces b = (if length b \<le> writeChunkSize then [\<lparr>ck_data = b, ck_eof = True\<rparr>]
     else \<lparr>ck_data = take writeChunkSize b, ck_eof = False\<rparr> # pieces (drop writeChunkSize b))"
  by pat_completeness auto

termination
  by (relation "measure length") (auto simp: writeChunkSize_def)

declare pieces.simps [simp del]

definition sendFileChunk :: "client_env \<Rightarrow> string \<Rightarrow> file_chunk \<Rightarrow> frame" where
  "sendFileChunk ce i c = call_frame FrameTypeFileChunk i (ke_chunk ce c)"

record write_args =
  wa_path :: string
  wa_content :: "string option"
  wa_b64 :: "string option"
  wa_mode :: nat

text \<open>The bytes to write, or the message of the refusal.\<close>

definition write_source :: "client_env \<Rightarrow> write_args \<Rightarrow> string + bytes" where
  "write_source ce a = (case (wa_content a, wa_b64 a) of
       (Some _, Some _) \<Rightarrow> Err ''only one of content / content_b64 may be set''
     | (None, None) \<Rightarrow> Err ''content or content_b64 required''
     | (Some s, None) \<Rightarrow> Ok (bytes_of s)
     | (None, Some s) \<Rightarrow> (case base64_decode s of
          None \<Rightarrow> Err (''content_b64: '' @ k_b64_text ce s) | Some b \<Rightarrow> Ok b))"

definition write_result :: "file_complete \<Rightarrow> mcp_result" where
  "write_result fc =
     (if fc_err fc \<noteq> [] then mcp_fail (fc_err fc) (with_detail ''write_file'' (fc_err fc) (fc_detail fc))
      else mcp_ok (''wrote '' @ itoa (fc_size fc) @ '' bytes (sha256='' @ fc_sha fc @ '')'')
        [''size'' \<mapsto> MInt (fc_size fc), ''bytes_written'' \<mapsto> MInt (fc_size fc), ''sha256'' \<mapsto> MStr (fc_sha fc)])"

fun write_wait :: "client_env \<Rightarrow> inbox list \<Rightarrow> outcome" where
  "write_wait ce [] = Waiting"
| "write_wait ce (CtxDone # ib) = network_lost ''context cancelled''"
| "write_wait ce (Closed # ib) = network_lost ''connection reset''"
| "write_wait ce (Got f # ib) =
     (if f_type f = FrameTypeFileComplete then
        (case kd_complete ce (f_payload f) of
           Inl e \<Rightarrow> bad_payload (''write_file: '' @ e) | Inr fc \<Rightarrow> Answer (write_result fc))
      else if f_type f = FrameTypeError then Answer (mcp_fail (string_of (f_payload f)) ''daemon error'')
      else write_wait ce ib)"

definition write_frames :: "client_env \<Rightarrow> string \<Rightarrow> write_args \<Rightarrow> bytes \<Rightarrow> frame list" where
  "write_frames ce i a b = call_frame FrameTypeFileWriteRequest i (ke_write ce \<lparr>wr_path = wa_path a, wr_mode = wa_mode a\<rparr>)
     # map (sendFileChunk ce i) (pieces b)"

definition WriteFileHandler ::
  "('h, 'c) noise_lib \<Rightarrow> client_env \<Rightarrow> bytes \<Rightarrow> inbox list \<Rightarrow> string + write_args \<Rightarrow> 'c call \<Rightarrow> outcome \<times> 'c call" where
  "WriteFileHandler nz ce rnd ib args c = (case args of
       Inl e \<Rightarrow> (bad_payload e, c)
     | Inr a \<Rightarrow>
         if wa_path a = [] then (bad_payload ''path is required'', c)
         else (case write_source ce a of
           Inl e \<Rightarrow> (bad_payload e, c)
         | Inr b \<Rightarrow>
             if length b > maxBufferedOutput then (Answer (mcp_fail ''exceeds_max_size'' ''content exceeds 10 MB cap''), c)
             else (let i = newReqID rnd in with_call nz ce i (write_frames ce i a b) (write_wait ce ib) c)))"

section \<open>Uploading\<close>

record upload_args =
  ua_dest :: string
  ua_source :: string
  ua_chunks :: "string list"
  ua_url :: string
  ua_local :: string
  ua_mode :: nat
  ua_size :: int
  ua_sha :: string

definition upload_check :: "client_env \<Rightarrow> upload_args \<Rightarrow> (string, unit) io" where
  "upload_check ce a =
     (if ua_dest a = [] then io_fail ''dest_path required''
      else if ua_source a = ''chunks'' then
        (if ua_chunks a = [] then io_fail ''chunks_b64 must be non-empty for source=chunks'' else io_ret ())
      else if ua_source a = ''url'' then (if ua_url a = [] then io_fail ''url required for source=url'' else io_ret ())
      else if ua_source a = ''local_path'' then
        (if ua_local a = [] then io_fail ''local_path required for source=local_path''
         else io_case (os_stat (ua_local a)) (\<lambda>e. io_fail (''local_path: '' @ k_os_text ce e)) (\<lambda>_. io_ret ()))
      else io_fail (''source must be '' @ [CHR 0x27] @ ''chunks'' @ [CHR 0x27] @ '', '' @ [CHR 0x27] @ ''url'' @ [CHR 0x27]
        @ '', or '' @ [CHR 0x27] @ ''local_path'' @ [CHR 0x27]))"

definition upload_request_of :: "upload_args \<Rightarrow> upload_request" where
  "upload_request_of a = \<lparr>up_dest = ua_dest a, up_mode = ua_mode a,
     up_source = (if ua_source a = ''local_path'' then ''chunks'' else ua_source a), up_url = ua_url a,
     up_expected_size = ua_size a, up_expected_sha = ua_sha a\<rparr>"

text \<open>The base64 chunks are decoded and sent one after the other; the last carries the end mark.\<close>

fun send_b64 :: "('h, 'c) noise_lib \<Rightarrow> client_env \<Rightarrow> string \<Rightarrow> nat \<Rightarrow> string list \<Rightarrow> 'c call \<Rightarrow> outcome option \<times> 'c call" where
  "send_b64 nz ce i k [] c = (None, c)"
| "send_b64 nz ce i k (s # ss) c = (case base64_decode s of
       None \<Rightarrow> (Some (bad_payload (''chunks_b64['' @ itoa (int k) @ '']: '' @ k_b64_text ce s)), c)
     | Some d \<Rightarrow> (case call_send nz ce (sendFileChunk ce i \<lparr>ck_data = d, ck_eof = ss = []\<rparr>) c of
         (Sent, c) \<Rightarrow> send_b64 nz ce i (Suc k) ss c
       | (e, c) \<Rightarrow> (Some (send_outcome e Waiting), c)))"

definition localChunkSize :: nat where "localChunkSize = 1048576"

text \<open>The local file in chunks of at most 1 MiB.  \<open>Read\<close> on a file gives the end only without bytes, so the end mark is
  a chunk of its own.\<close>

function send_local ::
  "('h, 'c) noise_lib \<Rightarrow> client_env \<Rightarrow> string \<Rightarrow> node \<Rightarrow> nat \<Rightarrow> 'c call \<Rightarrow> world \<Rightarrow> (outcome option \<times> 'c call) \<times> world" where
  "send_local nz ce i f off c w = (case os_read f off localChunkSize w of
       (Inl e, w) \<Rightarrow> ((Some (bad_payload (''local_path read: '' @ k_os_text ce e)), c), w)
     | (Inr None, w) \<Rightarrow> (case call_send nz ce (sendFileChunk ce i \<lparr>ck_data = [], ck_eof = True\<rparr>) c of
           (Sent, c) \<Rightarrow> ((None, c), w) | (e, c) \<Rightarrow> ((Some (send_outcome e Waiting), c), w))
     | (Inr (Some d), w) \<Rightarrow> (case call_send nz ce (sendFileChunk ce i \<lparr>ck_data = d, ck_eof = False\<rparr>) c of
           (Sent, c) \<Rightarrow> send_local nz ce i f (off + length d) c w
         | (e, c) \<Rightarrow> ((Some (send_outcome e Waiting), c), w)))"
  by pat_completeness auto

termination
proof (relation "measure (\<lambda>(nz, ce, i, f, off, c, w). length (n_data f) - off)", goal_cases)
  case (2 nz ce i f off c w x w' r d)
  then have "os_read f off localChunkSize w = (Inr (Some d), w')" by simp
  from os_read_progress [OF this] have "0 < length d \<and> off + length d \<le> length (n_data f)"
    by (simp add: localChunkSize_def)
  then have "length (n_data f) - (off + length d) < length (n_data f) - off" by linarith
  then show ?case by simp
qed simp

declare send_local.simps [simp del]

definition upload_result :: "upload_args \<Rightarrow> file_complete \<Rightarrow> mcp_result" where
  "upload_result a fc =
     (if fc_err fc \<noteq> [] then mcp_fail (fc_err fc) (with_detail ''upload'' (fc_err fc) (fc_detail fc))
      else mcp_ok (''uploaded '' @ itoa (fc_size fc) @ '' bytes to '' @ ua_dest a @ '' (sha256='' @ fc_sha fc @ '')'')
        [''size'' \<mapsto> MInt (fc_size fc), ''sha256'' \<mapsto> MStr (fc_sha fc), ''dest_path'' \<mapsto> MStr (ua_dest a)])"

definition upload_body ::
  "('h, 'c) noise_lib \<Rightarrow> client_env \<Rightarrow> string \<Rightarrow> upload_args \<Rightarrow> 'c call \<Rightarrow> world \<Rightarrow> (outcome option \<times> 'c call) \<times> world" where
  "upload_body nz ce i a c w =
     (if ua_source a = ''chunks'' then (send_b64 nz ce i 0 (ua_chunks a) c, w)
      else if ua_source a = ''local_path'' then
        (case os_open (ua_local a) w of
           (Inl e, w) \<Rightarrow> ((Some (bad_payload (''open local_path: '' @ k_os_text ce e)), c), w)
         | (Inr f, w) \<Rightarrow> (let (r, w) = send_local nz ce i f 0 c w in (r, if fst r = Some Waiting then w else snd (os_close w))))
      else ((None, c), w))"

definition UploadHandler ::
  "('h, 'c) noise_lib \<Rightarrow> client_env \<Rightarrow> bytes \<Rightarrow> inbox list \<Rightarrow> string + upload_args \<Rightarrow> 'c call \<Rightarrow> world \<Rightarrow> (outcome \<times> 'c call) \<times> world" where
  "UploadHandler nz ce rnd ib args c w = (case args of
       Inl e \<Rightarrow> ((bad_payload e, c), w)
     | Inr a \<Rightarrow> (case upload_check ce a w of
         (Inl e, w) \<Rightarrow> ((bad_payload e, c), w)
       | (Inr _, w) \<Rightarrow>
           (let i = newReqID rnd; c = c\<lparr>cl_router := registerCall i (cl_router c)\<rparr> in
            case call_send nz ce (call_frame FrameTypeUploadRequest i (ke_upload ce (upload_request_of a))) c of
              (Sent, c) \<Rightarrow>
                (let ((e, c), w) = upload_body nz ce i a c w in
                 (finish_call i (case e of Some o1 \<Rightarrow> o1
                   | None \<Rightarrow> await_one ce ''upload'' ''unexpected frame '' FrameTypeFileComplete (\<lambda>p. case kd_complete ce p of
                         Inl e \<Rightarrow> bad_payload (''upload: '' @ e) | Inr fc \<Rightarrow> Answer (upload_result a fc)) ib) c, w))
            | (e, c) \<Rightarrow> (finish_call i (send_outcome e Waiting) c, w))))"

section \<open>Downloading\<close>

record download_args =
  da_src :: string
  da_dest :: string
  da_offset :: int
  da_limit :: int

definition download_result :: "download_args \<Rightarrow> bytes \<Rightarrow> file_complete \<Rightarrow> mcp_result" where
  "download_result a content fc =
     (if fc_err fc \<noteq> [] then mcp_fail (fc_err fc) (with_detail ''download'' (fc_err fc) (fc_detail fc))
      else let m = [''size'' \<mapsto> MInt (fc_size fc), ''sha256'' \<mapsto> MStr (fc_sha fc), ''src_path'' \<mapsto> MStr (da_src a)] in
        if da_dest a \<noteq> [] then
          mcp_ok (''downloaded '' @ itoa (fc_size fc) @ '' bytes to '' @ da_dest a @ '' (sha256='' @ fc_sha fc @ '')'')
            (m(''dest_path'' \<mapsto> MStr (da_dest a)))
        else if utf8_valid content then mcp_ok (string_of content) m
        else mcp_ok (binary_text fc) (m(''content_b64'' \<mapsto> MStr (base64_encode content))))"

fun download_loop :: "client_env \<Rightarrow> download_args \<Rightarrow> inbox list \<Rightarrow> bytes \<Rightarrow> progress list \<Rightarrow> world \<Rightarrow> (outcome \<times> progress list) \<times> world" where
  "download_loop ce a [] content em w = ((Waiting, em), w)"
| "download_loop ce a (CtxDone # ib) content em w = ((network_lost ''context cancelled'', em), w)"
| "download_loop ce a (Closed # ib) content em w = ((network_lost ''connection reset'', em), w)"
| "download_loop ce a (Got f # ib) content em w =
     (if f_type f = FrameTypeFileChunk then
        (case kd_chunk ce (f_payload f) of
           Inl e \<Rightarrow> ((bad_payload e, em), w)
         | Inr c \<Rightarrow>
             if da_dest a \<noteq> [] then
               (case os_write (da_dest a) (ck_data c) w of
                  (Inl (e, _), w') \<Rightarrow> ((Answer (mcp_fail ''write_failed'' (k_os_text ce e)), em), w')
                | (Inr _, w') \<Rightarrow> download_loop ce a ib content (note_progress (ck_data c) em) w')
             else if length content + length (ck_data c) > maxBufferedOutput then
               ((Answer (mcp_fail ''exceeds_max_size''
                   ''download without dest_path exceeds 10 MB cap; pass dest_path to stream to disk''), em), w)
             else download_loop ce a ib (content @ ck_data c) (note_progress (ck_data c) em) w)
      else if f_type f = FrameTypeFileComplete then
        (case kd_complete ce (f_payload f) of
           Inl e \<Rightarrow> ((bad_payload (''download: '' @ e), em), w)
         | Inr fc \<Rightarrow> ((Answer (download_result a content fc), em), w))
      else if f_type f = FrameTypeError then ((frame_error ce ''download'' (f_payload f), em), w)
      else download_loop ce a ib content em w)"

text \<open>\<open>os.Create\<close> empties the target before anything has arrived (mode 0666, before the umask).\<close>

definition download_body :: "client_env \<Rightarrow> download_args \<Rightarrow> inbox list \<Rightarrow> world \<Rightarrow> outcome \<times> world" where
  "download_body ce a ib w =
     (if da_dest a \<noteq> [] then
        (case os_open_trunc (da_dest a) 438 w of
           (Inl e, w) \<Rightarrow> (Answer (mcp_fail ''write_failed'' (k_os_text ce e)), w)
         | (Inr _, w) \<Rightarrow> (let ((o1, em), w) = download_loop ce a ib [] [] w in (o1, if o1 = Waiting then w else snd (os_close w))))
      else (let ((o1, em), w) = download_loop ce a ib [] [] w in (o1, w)))"

definition DownloadHandler ::
  "('h, 'c) noise_lib \<Rightarrow> client_env \<Rightarrow> bytes \<Rightarrow> inbox list \<Rightarrow> string + download_args \<Rightarrow> 'c call \<Rightarrow> world \<Rightarrow> (outcome \<times> 'c call) \<times> world" where
  "DownloadHandler nz ce rnd ib args c w = (case args of
       Inl e \<Rightarrow> ((bad_payload e, c), w)
     | Inr a \<Rightarrow>
         if da_src a = [] then ((bad_payload ''src_path required'', c), w)
         else (let i = newReqID rnd; c = c\<lparr>cl_router := registerCall i (cl_router c)\<rparr> in
            case call_send nz ce (call_frame FrameTypeDownloadRequest i
                (ke_download ce \<lparr>dl_src = da_src a, dl_offset = da_offset a, dl_limit = da_limit a\<rparr>)) c of
              (Sent, c) \<Rightarrow> (let (o1, w) = download_body ce a ib w in (finish_call i o1 c, w))
            | (e, c) \<Rightarrow> (finish_call i (send_outcome e Waiting) c, w)))"

section \<open>No call waits for ever\<close>

lemma await_one_settles: "ib \<noteq> [] \<Longrightarrow> (\<And>p. k p \<noteq> Waiting) \<Longrightarrow> await_one ce tool u t k ib \<noteq> Waiting"
  by (auto simp: await_one_def network_lost_def frame_error_def Let_def split: list.split inbox.split prod.split)

lemma exec_loop_settles: "Closed \<in> set ib \<or> CtxDone \<in> set ib \<Longrightarrow> \<exists>r. fst (exec_loop ce ib out err em) = Answer r"
  by (induction ce ib out err em rule: exec_loop.induct)
    (auto simp: network_lost_def bad_payload_def frame_error_def Let_def split: sum.split prod.split if_splits)

lemma read_file_loop_settles: "Closed \<in> set ib \<or> CtxDone \<in> set ib \<Longrightarrow> \<exists>r. fst (read_file_loop ce ib content em) = Answer r"
  by (induction ce ib content em rule: read_file_loop.induct) (auto simp: network_lost_def bad_payload_def split: sum.split)

lemma write_wait_settles: "Closed \<in> set ib \<or> CtxDone \<in> set ib \<Longrightarrow> \<exists>r. write_wait ce ib = Answer r"
  by (induction ce ib rule: write_wait.induct) (auto simp: network_lost_def bad_payload_def split: sum.split)

lemma download_loop_settles:
  "Closed \<in> set ib \<or> CtxDone \<in> set ib \<Longrightarrow> \<exists>r. fst (fst (download_loop ce a ib content em w)) = Answer r"
  by (induction ce a ib content em w rule: download_loop.induct)
    (auto simp: network_lost_def bad_payload_def frame_error_def Let_def split: sum.split prod.split)

text \<open>A send is stuck only where the network takes nothing for ever.\<close>

definition flows :: "'c call \<Rightarrow> bool" where
  "flows c \<longleftrightarrow> (\<forall>x \<in> set (cl_nets c). snd x \<noteq> Blocks)"

lemma flows_router [simp]: "flows (c\<lparr>cl_router := r\<rparr>) = flows c"
  by (simp add: flows_def)

lemma call_send_flows: "call_send nz ce f c = (e, c') \<Longrightarrow> flows c \<Longrightarrow> e \<noteq> Stuck \<and> flows c'"
  by (cases "cl_nets c") (auto simp: call_send_def flows_def Let_def split: prod.splits sum.splits if_splits)

lemma send_frames_flows: "send_frames nz ce fs c = (e, c') \<Longrightarrow> flows c \<Longrightarrow> e \<noteq> Stuck"
proof (induction nz ce fs c rule: send_frames.induct)
  case (2 nz ce f fs c)
  then show ?case using call_send_flows [of nz ce f c] by (auto split: prod.splits sending.splits)
qed simp

lemma send_outcome_answers: "e \<noteq> Stuck \<Longrightarrow> e \<noteq> Sent \<or> (\<exists>r. after = Answer r) \<Longrightarrow> \<exists>r. send_outcome e after = Answer r"
  by (cases e) (auto simp: send_outcome_def network_lost_def)

lemma send_b64_answers: "send_b64 nz ce i k ss c = (Some x, c') \<Longrightarrow> flows c \<Longrightarrow> \<exists>r. x = Answer r"
proof (induction nz ce i k ss c rule: send_b64.induct)
  case (2 nz ce i k s ss c)
  show ?case
  proof (cases "base64_decode s")
    case None
    with 2 show ?thesis by (auto simp: bad_payload_def)
  next
    case (Some d)
    obtain e c1 where e: "call_send nz ce (sendFileChunk ce i \<lparr>ck_data = d, ck_eof = ss = []\<rparr>) c = (e, c1)"
      by (cases "call_send nz ce (sendFileChunk ce i \<lparr>ck_data = d, ck_eof = ss = []\<rparr>) c")
    note fl = call_send_flows [OF e 2(3)]
    show ?thesis
    proof (cases "e = Sent")
      case True
      with 2(1) [OF Some e [symmetric]] 2(2) Some e fl show ?thesis by simp
    next
      case False
      with 2(2) Some e have "x = send_outcome e Waiting" by (cases e) auto
      with send_outcome_answers [of e] fl False show ?thesis by blast
    qed
  qed
qed simp

lemma send_local_answers: "send_local nz ce i f off c w = ((Some x, c'), w') \<Longrightarrow> flows c \<Longrightarrow> \<exists>r. x = Answer r"
proof (induction nz ce i f off c w rule: send_local.induct)
  case (1 nz ce i f off c w)
  obtain t w1 where t: "os_read f off localChunkSize w = (t, w1)" by (cases "os_read f off localChunkSize w")
  show ?case
  proof (cases t)
    case (Inl e)
    with 1(2) t show ?thesis by (subst (asm) send_local.simps) (auto simp: bad_payload_def)
  next
    case (Inr o1)
    let ?fr = "sendFileChunk ce i (case o1 of None \<Rightarrow> \<lparr>ck_data = [], ck_eof = True\<rparr> | Some d \<Rightarrow> \<lparr>ck_data = d, ck_eof = False\<rparr>)"
    obtain e c1 where e: "call_send nz ce ?fr c = (e, c1)" by (cases "call_send nz ce ?fr c")
    note fl = call_send_flows [OF e 1(3)]
    show ?thesis
    proof (cases "e = Sent")
      case True
      with 1(2) t Inr e obtain d where d: "o1 = Some d"
        by (subst (asm) send_local.simps) (auto split: option.splits)
      have run: "send_local nz ce i f (off + length d) c1 w1 = ((Some x, c'), w')"
        using 1(2) t Inr e d True by (subst (asm) send_local.simps) simp
      from 1(1) [OF t [unfolded Inr d, symmetric] refl refl _ _ run] e d True fl show ?thesis by simp
    next
      case False
      with 1(2) t Inr e have "x = send_outcome e Waiting"
        by (subst (asm) send_local.simps) (cases e; auto split: option.splits)
      with send_outcome_answers [of e] fl False show ?thesis by blast
    qed
  qed
qed

end
