(* ===== verification/End_To_End.thy ===== *)
theory End_To_End
  imports Client_Files Daemon_Loop Link_Props
begin

text \<open>
  A tool call from end to end: the bridge's handler in \<open>internal/cliclient\<close> against the daemon's handler in
  \<open>cmd/agbridge/daemon.go\<close> and the tool it runs.  The frames of one side are the frames that the other side
  receives, in order (\<open>Link_Props\<close> shows that of the link); that JSON decodes what it encoded is assumed of
  the messages of the call.
\<close>

section \<open>Writing\<close>

text \<open>What a write's slot yields for the chunk frames that \<open>deliverFileChunk\<close> puts there.\<close>

definition slot_chunks :: "loop_codec \<Rightarrow> frame list \<Rightarrow> (string + file_chunk) list" where
  "slot_chunks lc fs = map Ok (List.map_filter (\<lambda>f. lc_chunk lc (f_payload f)) fs)"

lemma received_pieces: "received (map Ok (pieces b)) = b"
proof (induction b rule: pieces.induct)
  case (1 b)
  then show ?case by (subst pieces.simps) auto
qed

lemma ended_pieces: "ended (map Ok (pieces b))"
proof (induction b rule: pieces.induct)
  case (1 b)
  then show ?case by (subst pieces.simps) auto
qed

lemma slot_chunks_sent:
  assumes "\<And>c. c \<in> set cs \<Longrightarrow> lc_chunk lc (ke_chunk ce c) = Some c"
  shows "slot_chunks lc (map (sendFileChunk ce i) cs) = map Ok cs"
  using assms by (induction cs) (simp_all add: slot_chunks_def List.map_filter_simps sendFileChunk_def call_frame_def)

lemma write_wait_complete:
  assumes "kd_complete ce (je_complete de fc) = Ok fc"
  shows "write_wait ce [Got (emitFileComplete de inner fc)] = Answer (write_result fc)"
  using assms by (simp add: emitFileComplete_def reply_def)

text \<open>A write from end to end.  The bridge sends the request and the content in pieces of at most 64 KiB; the
  daemon, whose slot delivers them, answers once; and the bridge's result tells the truth: unless it is an
  error, the target, new or not, holds exactly the content under what \<open>chmod\<close> makes of the requested mode, and
  the result states its size and SHA-256; if it is an error, the target is as it was (missing, if it was missing).  When no system call fails, the temporary name is free and
  the content is within 10 MiB, it is not an error.\<close>

theorem write_end_to_end:
  assumes source: "write_source ce a = Ok b" and frames: "write_frames ce i a b = rq # cs"
    and nc: "no_clash ''.agbridge-write-'' [] (wa_path a) w"
    and request: "jd_write de (f_payload rq) = Some \<lparr>wr_path = wa_path a, wr_mode = wa_mode a\<rparr>"
    and chunks: "\<And>c. c \<in> set (pieces b) \<Longrightarrow> lc_chunk lc (ke_chunk ce c) = Some c"
    and session: "fst (WriteFile \<lparr>wr_path = wa_path a, wr_mode = wa_mode a\<rparr> maxFileBytes (map Ok (pieces b)) w) = Ok fc"
    and answer: "kd_complete ce (je_complete de fc) = Ok fc"
  shows "\<exists>fs w' res. handleWrite de (slot_chunks lc cs) rq w = (fs, w')
    \<and> write_wait ce (map Got fs) = Answer res
    \<and> (\<forall>c \<in> set (pieces b). length (ck_data c) \<le> writeChunkSize)
    \<and> (if mr_error res then fs_get w' (wa_path a) = fs_get w (wa_path a)
       else (\<exists>n. fs_get w' (wa_path a) = Some n \<and> n_data n = b \<and> n_mode n = syscall_mode (if wa_mode a = 0 then 420 else wa_mode a))
         \<and> mr_meta res ''size'' = Some (MInt (int (length b))) \<and> mr_meta res ''sha256'' = Some (MStr (sha_hex b)))
    \<and> (quiet w \<and> temp_free (wa_path a) ''.agbridge-write-'' w \<and> length b \<le> maxBufferedOutput \<and> (\<forall>m. fs_get w (wa_path a) = Some m \<longrightarrow> n_kind m \<noteq> KDir) \<longrightarrow> \<not> mr_error res)"
proof -
  let ?req = "\<lparr>wr_path = wa_path a, wr_mode = wa_mode a\<rparr>"
  obtain w' where run: "WriteFile ?req maxFileBytes (map Ok (pieces b)) w = (Ok fc, w')"
    using session by (metis prod.collapse)
  have cs: "slot_chunks lc cs = map Ok (pieces b)"
    using frames slot_chunks_sent [OF chunks, where i = i] by (auto simp: write_frames_def)
  have h: "handleWrite de (slot_chunks lc cs) rq w = ([emitFileComplete de rq fc], w')"
    using run request by (simp add: handleWrite_def cs complete_of_def)
  have small: "\<forall>c \<in> set (pieces b). length (ck_data c) \<le> writeChunkSize"
    by (induction b rule: pieces.induct) (subst pieces.simps, simp)
  have err: "mr_error (write_result fc) \<longleftrightarrow> fc_err fc \<noteq> []" by (simp add: write_result_def)
  from WriteFile_facts [OF run] nc have facts:
    "if fc_err fc \<noteq> [] then fs_get w' (wa_path a) = fs_get w (wa_path a)
     else fc = fc_done b \<and> (\<exists>n. fs_get w' (wa_path a) = Some n \<and> n_data n = b \<and> n_mode n = syscall_mode (if wa_mode a = 0 then 420 else wa_mode a))"
    by (simp add: received_pieces split: if_splits)
  have "if mr_error (write_result fc) then fs_get w' (wa_path a) = fs_get w (wa_path a)
       else (\<exists>n. fs_get w' (wa_path a) = Some n \<and> n_data n = b \<and> n_mode n = syscall_mode (if wa_mode a = 0 then 420 else wa_mode a))
         \<and> mr_meta (write_result fc) ''size'' = Some (MInt (int (length b)))
         \<and> mr_meta (write_result fc) ''sha256'' = Some (MStr (sha_hex b))"
    using facts unfolding err by (auto simp: write_result_def)
  moreover have "fc_err fc = []" if "quiet w" "temp_free (wa_path a) ''.agbridge-write-'' w" "length b \<le> maxBufferedOutput"
      "\<forall>m. fs_get w (wa_path a) = Some m \<longrightarrow> n_kind m \<noteq> KDir"
    using WriteFile_quiet [of w ?req "map Ok (pieces b)" maxFileBytes] that nc session ended_pieces
    by (auto simp: received_pieces maxFileBytes_def maxBufferedOutput_def)
  ultimately show ?thesis using h err small write_wait_complete [OF answer, of rq]
    by (intro exI [of _ "[emitFileComplete de rq fc]"] exI [of _ w'] exI [of _ "write_result fc"]) simp
qed

section \<open>Reading\<close>

text \<open>The bytes that a result of a read carries, as text or in base64.\<close>

definition content_of :: "mcp_result \<Rightarrow> bytes option" where
  "content_of res = (case mr_meta res ''content_b64'' of
       Some (MStr s) \<Rightarrow> base64_decode s | _ \<Rightarrow> Some (bytes_of (mr_text res)))"

lemma content_of_read: "fc_err fc = [] \<Longrightarrow> content_of (buildReadFileResult b fc) = Some b"
  by (simp add: content_of_def buildReadFileResult_def Let_def base64_decode_encode)

lemma read_file_loop_chunks:
  assumes "\<And>c. c \<in> set cs \<Longrightarrow> kd_chunk ce (enc c) = Ok c" and "length content + length (emitted cs) \<le> maxBufferedOutput"
  shows "\<exists>em'. read_file_loop ce (map Got (map (\<lambda>c. reply inner FrameTypeFileChunk (enc c)) cs) @ ib) content em
    = read_file_loop ce ib (content @ emitted cs) em'"
  using assms
proof (induction cs arbitrary: content em)
  case (Cons c cs)
  have "read_file_loop ce (map Got (map (\<lambda>c. reply inner FrameTypeFileChunk (enc c)) (c # cs)) @ ib) content em
    = read_file_loop ce (map Got (map (\<lambda>c. reply inner FrameTypeFileChunk (enc c)) cs) @ ib) (content @ ck_data c)
        (note_progress (ck_data c) em)"
    using Cons.prems by (simp add: reply_def emitted_def)
  moreover have "length (content @ ck_data c) + length (emitted cs) \<le> maxBufferedOutput"
    using Cons.prems(2) by (simp add: emitted_def)
  ultimately show ?case using Cons.IH [of "content @ ck_data c" "note_progress (ck_data c) em"] Cons.prems(1)
    by (simp add: emitted_def)
qed (auto simp: emitted_def)

lemma hard_cap_le: "hard_cap req m \<le> m"
  by (simp add: hard_cap_def)

text \<open>What the bridge makes of the frames of a read.\<close>

lemma read_call:
  assumes request: "jd_read de (ke_read ce req) = Some req"
    and run: "ReadFile req maxFileBytes w = ((Ok fc, out), w')"
    and chunks: "\<And>c. c \<in> set out \<Longrightarrow> kd_chunk ce (je_chunk de c) = Ok c"
    and answer: "kd_complete ce (je_complete de fc) = Ok fc"
    and daemon: "handleRead de (call_frame FrameTypeFileReadRequest i (ke_read ce req)) w = (fs, w1)"
  shows "fst (read_file_loop ce (map Got fs) [] []) = Answer (buildReadFileResult (emitted out) fc)"
proof -
  let ?inner = "call_frame FrameTypeFileReadRequest i (ke_read ce req)"
  have fs: "fs = read_frames_of de ?inner (Ok fc, out)"
    using daemon run request by (simp add: handleRead_def call_frame_def)
  have "int (length (emitted out)) \<le> max (hard_cap req maxFileBytes) 0"
    using ReadFile_facts [OF run] by (auto simp: emitted_def Let_def)
  with hard_cap_le [of req maxFileBytes] have len: "length (emitted out) \<le> maxBufferedOutput"
    by (simp add: maxFileBytes_def maxBufferedOutput_def)
  show ?thesis
    using read_file_loop_chunks [of out ce "je_chunk de" "[]" ?inner "[Got (emitFileComplete de ?inner fc)]" "[]"] chunks len answer
    by (auto simp: fs read_frames_of_def complete_of_def emitFileComplete_def reply_def)
qed

lemma read_result [simp]:
  "mr_error (buildReadFileResult b fc) \<longleftrightarrow> fc_err fc \<noteq> []"
  "fc_err fc = [] \<Longrightarrow> mr_meta (buildReadFileResult b fc) ''size'' = Some (MInt (fc_size fc))"
  "fc_err fc = [] \<Longrightarrow> mr_meta (buildReadFileResult b fc) ''sha256'' = Some (MStr (fc_sha fc))"
  by (simp_all add: buildReadFileResult_def Let_def)

text \<open>A read from end to end.  The bridge always comes to an answer; unless it is an error, the bytes in it, as
  text or in base64, are exactly the part of the file that was asked for, and the stated size and SHA-256 are
  theirs.  When no system call of the daemon fails and that part fits the caps, the answer is not an error: the
  bridge's own 10 MiB cap never refuses what the daemon sent.\<close>

theorem read_end_to_end:
  assumes request: "jd_read de (ke_read ce req) = Some req"
    and run: "ReadFile req maxFileBytes w = ((Ok fc, out), w')"
    and chunks: "\<And>c. c \<in> set out \<Longrightarrow> kd_chunk ce (je_chunk de c) = Ok c"
    and answer: "kd_complete ce (je_complete de fc) = Ok fc"
    and daemon: "handleRead de (call_frame FrameTypeFileReadRequest i (ke_read ce req)) w = (fs, w1)"
  shows "\<exists>res. fst (read_file_loop ce (map Got fs) [] []) = Answer res
    \<and> (\<not> mr_error res \<longrightarrow> (\<exists>f W. fs_get w (rr_path req) = Some f \<and> W = wanted f (nat (rr_offset req)) (soft_cap req)
         \<and> content_of res = Some W \<and> mr_meta res ''size'' = Some (MInt (int (length W)))
         \<and> mr_meta res ''sha256'' = Some (MStr (sha_hex W))))
    \<and> (\<forall>f. quiet w \<and> fs_get w (rr_path req) = Some f \<and> n_kind f \<noteq> KDir \<and> 0 \<le> rr_offset req \<and> 0 \<le> rr_limit req
         \<and> int (length (wanted f (nat (rr_offset req)) (soft_cap req))) \<le> hard_cap req maxFileBytes \<longrightarrow> \<not> mr_error res)"
  using ReadFile_facts [OF run] content_of_read read_call [OF request run chunks answer daemon] by auto

section \<open>Executing\<close>

lemma shuffle_filter:
  assumes "zs \<in> shuffles xs ys" and "\<forall>x \<in> set xs. P x" and "\<forall>y \<in> set ys. \<not> P y"
  shows "filter P zs = xs \<and> filter (\<lambda>z. \<not> P z) zs = ys"
proof -
  have "filter P zs \<in> shuffles (filter P xs) (filter P ys)"
    using assms(1) filter_shuffles [of P xs ys] by blast
  moreover have "filter (\<lambda>z. \<not> P z) zs \<in> shuffles (filter (\<lambda>z. \<not> P z) xs) (filter (\<lambda>z. \<not> P z) ys)"
    using assms(1) filter_shuffles [of "\<lambda>z. \<not> P z" xs ys] by blast
  moreover have "filter P xs = xs" "filter P ys = []" "filter (\<lambda>z. \<not> P z) xs = []" "filter (\<lambda>z. \<not> P z) ys = ys"
    using assms(2,3) by (simp_all add: filter_empty_conv)
  ultimately show ?thesis by simp
qed

text \<open>A command from end to end.  Whatever the interleaving of the two pumps, the bridge answers with the first MiB of
  each stream that the process wrote, its exit code, its duration and whether it ran out of time; when the
  daemon forbids commands or cannot start this one, the answer is the corresponding error.\<close>

theorem exec_end_to_end:
  assumes request: "jd_exec de b = Some req"
    and chunk: "\<And>c. xc_stream c \<in> {''stdout'', ''stderr''} \<Longrightarrow> kd_exec_chunk ce (je_exec_chunk de c) = Ok c"
    and mix: "\<And>xs ys. de_mix de xs ys \<in> shuffles xs ys"
    and error: "DecodeFramePayload (kd_error ce) (je_error de ''tool_forbidden'' ''exec disabled on this daemon'')
        = (''tool_forbidden'', ''exec disabled on this daemon'')"
      "DecodeFramePayload (kd_error ce) (je_error de ''exec_failed'' []) = (''exec_failed'', [])"
    and run: "run = de_mach de (exec_command (de_environ de) (dc_env_allowlist (de_cfg de)) req) (exec_timeout (xr_timeout_ms req))"
    and finished: "c = \<lparr>xd_exit = exit_code (ru_wait run), xd_duration_ms = go_quot (ru_duration run) millisecond,
         xd_timed_out = ru_deadline run, xd_truncated = False\<rparr>"
    and complete: "kd_exec_done ce (je_exec_done de c) = Ok c"
  shows "fst (exec_loop ce (map Got (handleExec de (call_frame FrameTypeExecRequest i b))) [] [] []) = Answer
     (if \<not> dc_exec_enabled (de_cfg de) then mcp_fail ''tool_forbidden'' ''exec: tool_forbidden (exec disabled on this daemon)''
      else if ru_start run \<noteq> None then mcp_fail ''exec_failed'' ''exec: exec_failed''
      else buildExecResult (take MaxBytesPerStream (concat (ru_stdout run))) (take MaxBytesPerStream (concat (ru_stderr run))) c)"
proof (cases "dc_exec_enabled (de_cfg de) \<and> ru_start run = None")
  case False
  let ?f = "call_frame FrameTypeExecRequest i b"
  have "FrameTypeError \<noteq> FrameTypeExecChunk" "FrameTypeError \<noteq> FrameTypeExecComplete" by simp_all
  with False show ?thesis
    by (auto simp: handleExec_def Exec_def Let_def request run [symmetric] finished call_frame_def reply_def frame_error_def error with_detail_def)
next
  case True
  let ?outs = "streamChunks ''stdout'' (ru_stdout run)" and ?errs = "streamChunks ''stderr'' (ru_stderr run)"
  let ?cs = "de_mix de ?outs ?errs"
  have out: "stream_bytes ?outs = take MaxBytesPerStream (concat (ru_stdout run))" "\<forall>x \<in> set ?outs. xc_stream x = ''stdout''"
    using stream_from_bytes [of 0 "''stdout''" "ru_stdout run"] by (auto simp: streamChunks_def)
  have err: "stream_bytes ?errs = take MaxBytesPerStream (concat (ru_stderr run))" "\<forall>x \<in> set ?errs. xc_stream x = ''stderr''"
    using stream_from_bytes [of 0 "''stderr''" "ru_stderr run"] by (auto simp: streamChunks_def)
  have "filter (\<lambda>c. xc_stream c \<noteq> ''stderr'') ?cs = ?outs" "filter (\<lambda>c. xc_stream c = ''stderr'') ?cs = ?errs"
    using shuffle_filter [OF mix, of ?outs "\<lambda>c. xc_stream c \<noteq> ''stderr''" ?errs] out(2) err(2) by auto
  then have st: "stream_of False ?cs = take MaxBytesPerStream (concat (ru_stdout run))"
    "stream_of True ?cs = take MaxBytesPerStream (concat (ru_stderr run))"
    using out(1) err(1) by (simp_all add: stream_of_def stream_bytes_def)
  have h: "handleExec de (call_frame FrameTypeExecRequest i b) =
      map (\<lambda>c. call_frame FrameTypeExecChunk i (je_exec_chunk de c)) ?cs @ [call_frame FrameTypeExecComplete i (je_exec_done de c)]"
    using True by (simp add: handleExec_def Exec_def Let_def request run [symmetric] finished call_frame_def reply_def)
  have dec: "kd_exec_chunk ce (je_exec_chunk de x) = Ok x" if "x \<in> set ?cs" for x
  proof -
    have "x \<in> set ?outs \<union> set ?errs" using that mix [of ?outs ?errs] by (auto dest: set_shuffles)
    then show ?thesis using chunk [of x] out(2) err(2) by auto
  qed
  obtain em where "exec_loop ce (map Got (handleExec de (call_frame FrameTypeExecRequest i b))) [] [] [] =
      exec_loop ce [Got (call_frame FrameTypeExecComplete i (je_exec_done de c))]
        (take maxBufferedOutput (stream_of False ?cs)) (take maxBufferedOutput (stream_of True ?cs)) em"
    using exec_loop_chunks [of ?cs ce "je_exec_chunk de" "[]" "[]" i "[Got (call_frame FrameTypeExecComplete i (je_exec_done de c))]" "[]"] dec
    by (fastforce simp: h comp_def)
  with True show ?thesis by (simp add: st complete call_frame_def MaxBytesPerStream_def maxBufferedOutput_def)
qed

section \<open>Downloading\<close>

text \<open>A download that fails destroys the local target: whatever error the daemon reports, an existing file
  at \<open>dest_path\<close> has been emptied by then, because it is created before the first answer arrives.\<close>

theorem failed_download_empties:
  assumes "quiet w" and "fs_get w (da_dest a) = Some n" and "n_kind n \<noteq> KDir" and "da_dest a \<noteq> []"
    and "kd_complete ce (f_payload f) = Ok fc" and "fc_err fc \<noteq> []" and "f_type f = FrameTypeFileComplete"
  shows "\<exists>res w'. download_body ce a [Got f] w = (Answer res, w') \<and> mr_error res
    \<and> fs_get w' (da_dest a) = Some (n\<lparr>n_data := []\<rparr>)"
  using assms by (simp add: download_body_def os_open_trunc_def download_result_def os_close_def)

section \<open>Instances\<close>

text \<open>A machine and codecs for the examples: a chunk is its flag and its bytes, the other messages are constant.\<close>

definition demo_daemon :: daemon_env where
  "demo_daemon = \<lparr>jd_exec = (\<lambda>_. None), jd_read = (\<lambda>_. None), jd_write = (\<lambda>_. None), jd_edit = (\<lambda>_. None),
     jd_upload = (\<lambda>_. None), jd_download = (\<lambda>_. None), jd_list = (\<lambda>_. None), jd_stat = (\<lambda>_. None),
     jd_search = (\<lambda>_. None), jd_bg = (\<lambda>_. None),
     je_exec_chunk = (\<lambda>c. (if xc_stream c = ''stderr'' then 1 else 0) # xc_data c), je_exec_done = (\<lambda>_. []),
     je_chunk = (\<lambda>c. (if ck_eof c then 1 else 0) # ck_data c), je_complete = (\<lambda>_. []), je_list = (\<lambda>_. []),
     je_stat = (\<lambda>_. []), je_search = (\<lambda>_. []), je_bg = (\<lambda>_. []), je_caps = (\<lambda>_. []),
     je_error = (\<lambda>code _. 123 # bytes_of code),
     de_cfg = \<lparr>dc_gateway_url = [], dc_daemon_name = [], dc_token = [], dc_cert_pin = [], dc_tls_mode = [],
       dc_exec_enabled = True, dc_env_allowlist = [], dc_forbidden_ports = [], dc_default_working_dir = [],
       dc_e2e_mode = [], dc_static_key_path = [], dc_allowed_pubkeys = []\<rparr>,
     de_environ = [], de_mach = (\<lambda>_ _. demo_exec_run), de_mix = (\<lambda>xs ys. xs @ ys), de_spawn = (\<lambda>_. Err []),
     de_kill = (\<lambda>_ _. None), de_rnd = [], de_now = 0, de_compile = (\<lambda>_. Err []), de_tree = (\<lambda>_. WErr), de_ms = 0,
     de_http = (\<lambda>_. FetchFailed []), de_et = (\<lambda>_. []), de_hostname = [], de_home = None, de_version = []\<rparr>"

definition demo_client :: client_env where
  "demo_client = \<lparr>ke_exec = (\<lambda>_. Ok []), ke_read = (\<lambda>_. []), ke_write = (\<lambda>_. []), ke_edit = (\<lambda>_. []), ke_upload = (\<lambda>_. []),
     ke_download = (\<lambda>_. []), ke_chunk = (\<lambda>c. (if ck_eof c then 1 else 0) # ck_data c), ke_search = (\<lambda>_. []),
     ke_list = (\<lambda>_. []), ke_stat = (\<lambda>_. []),
     kd_exec_chunk = (\<lambda>b. Ok \<lparr>xc_stream = (if hd b = 1 then ''stderr'' else ''stdout''), xc_data = tl b\<rparr>),
     kd_exec_done = (\<lambda>_. Err []), kd_chunk = (\<lambda>b. Ok \<lparr>ck_data = tl b, ck_eof = hd b = 1\<rparr>), kd_complete = (\<lambda>_. Err []),
     kd_search = (\<lambda>_. Err []), kd_list = (\<lambda>_. Err []), kd_stat = (\<lambda>_. Err []), kd_caps = (\<lambda>_. Err []),
     kd_error = (\<lambda>b. Some \<lparr>fp_code = string_of (tl b), fp_detail = (if length b > 12 then ''exec disabled on this daemon'' else [])\<rparr>),
     k_router_text = (\<lambda>_. []), k_os_text = (\<lambda>_. []), k_b64_text = (\<lambda>_. [])\<rparr>"

definition demo_loop_codec :: loop_codec where
  "demo_loop_codec = \<lparr>lc_chunk = (\<lambda>b. Some \<lparr>ck_data = tl b, ck_eof = hd b = 1\<rparr>), lc_open = (\<lambda>_. None), lc_data = (\<lambda>_. None)\<rparr>"

theorem failed_download_empties_witness:
  "\<exists>w'. fs_get w' ''/f'' = Some (plain_file []) \<and> (\<exists>res. mr_error res
     \<and> download_body (demo_client\<lparr>kd_complete := (\<lambda>_. Ok (fc_error ''not_found''))\<rparr>)
         \<lparr>da_src = ''/x'', da_dest = ''/f'', da_offset = 0, da_limit = 0\<rparr>
         [Got (call_frame FrameTypeFileComplete ''i'' [])] (plain_world [(''/f'', plain_file [1, 2])] (\<lambda>_. None)) = (Answer res, w'))"
proof -
  let ?a = "\<lparr>da_src = ''/x'', da_dest = ''/f'', da_offset = 0, da_limit = 0\<rparr>"
  let ?ce = "demo_client\<lparr>kd_complete := (\<lambda>_. Ok (fc_error ''not_found''))\<rparr>"
  let ?w = "plain_world [(''/f'', plain_file [1, 2])] (\<lambda>_. None)"
  have w: "quiet ?w" "fs_get ?w (da_dest ?a) = Some (plain_file [1, 2])" "n_kind (plain_file [1, 2]) \<noteq> KDir" "da_dest ?a \<noteq> []"
    by (simp_all add: quiet_def plain_world_def fs_get_def plain_file_def)
  from failed_download_empties [OF w, of ?ce "call_frame FrameTypeFileComplete ''i'' []" "fc_error ''not_found''"]
  show ?thesis by (force simp: call_frame_def plain_file_def)
qed

theorem exec_end_to_end_witness:
  "\<exists>ce b i. \<exists>res. fst (exec_loop ce (map Got (handleExec (demo_daemon\<lparr>jd_exec := (\<lambda>_. Some \<lparr>xr_cmd = ''ls'', xr_args = [], xr_cwd = [],
       xr_env = [], xr_timeout_ms = 0\<rparr>)\<rparr>) (call_frame FrameTypeExecRequest i b))) [] [] []) = Answer res
     \<and> mr_text res = ''exitcode=2 duration_ms=3'' @ newline @ ''hi'' \<and> \<not> mr_error res"
proof -
  let ?req = "\<lparr>xr_cmd = ''ls'', xr_args = [], xr_cwd = [], xr_env = [], xr_timeout_ms = 0\<rparr>"
  let ?de = "demo_daemon\<lparr>jd_exec := (\<lambda>_. Some ?req)\<rparr>"
  let ?c = "\<lparr>xd_exit = exit_code (ru_wait demo_exec_run), xd_duration_ms = go_quot (ru_duration demo_exec_run) millisecond,
         xd_timed_out = ru_deadline demo_exec_run, xd_truncated = False\<rparr>"
  let ?ce = "demo_client\<lparr>kd_exec_done := (\<lambda>_. Ok ?c)\<rparr>"
  have "fst (exec_loop ?ce (map Got (handleExec ?de (call_frame FrameTypeExecRequest ''i'' []))) [] [] []) = Answer
     (if \<not> dc_exec_enabled (de_cfg ?de) then mcp_fail ''tool_forbidden'' ''exec: tool_forbidden (exec disabled on this daemon)''
      else if ru_start demo_exec_run \<noteq> None then mcp_fail ''exec_failed'' ''exec: exec_failed''
      else buildExecResult (take MaxBytesPerStream (concat (ru_stdout demo_exec_run)))
        (take MaxBytesPerStream (concat (ru_stderr demo_exec_run))) ?c)"
  proof (rule exec_end_to_end)
    show "de_mix ?de xs ys \<in> shuffles xs ys" for xs ys
      by (induction xs) (simp_all add: demo_daemon_def Cons_in_shuffles_leftI)
    show "DecodeFramePayload (kd_error ?ce) (je_error ?de ''tool_forbidden'' ''exec disabled on this daemon'')
        = (''tool_forbidden'', ''exec disabled on this daemon'')"
      "DecodeFramePayload (kd_error ?ce) (je_error ?de ''exec_failed'' []) = (''exec_failed'', [])"
      by (simp_all add: DecodeFramePayload_def demo_daemon_def demo_client_def)
  qed (simp_all add: demo_daemon_def demo_client_def, auto)
  moreover have "take MaxBytesPerStream (concat (ru_stdout demo_exec_run)) = [104, 105]"
    "take MaxBytesPerStream (concat (ru_stderr demo_exec_run)) = []"
    by (simp_all add: demo_exec_run_def MaxBytesPerStream_def)
  moreover have "mr_text (buildExecResult [104, 105] [] ?c) = ''exitcode=2 duration_ms=3'' @ newline @ ''hi''"
    "\<not> mr_error (buildExecResult [104, 105] [] ?c)"
    by code_simp+
  ultimately show ?thesis
    by (intro exI [of _ ?ce] exI [of _ "[]"] exI [of _ "''i''"]) (simp add: demo_daemon_def demo_exec_run_def)
qed

definition demo_disk :: world where
  "demo_disk = plain_world [(''/d'', \<lparr>n_kind = KDir, n_data = [], n_mode = 493, n_mtime = 0\<rparr>), (''/d/f'', plain_file [9, 8, 7])] (\<lambda>_. None)"

lemma demo_disk_quiet: "quiet demo_disk"
  by (simp add: demo_disk_def quiet_def plain_world_def)

lemma demo_disk_old: "fs_get demo_disk ''/d/f'' = Some (plain_file [9, 8, 7])"
  by (simp add: demo_disk_def plain_world_def fs_get_def)

lemma demo_disk_free: "temp_free ''/d/f'' ''.agbridge-write-'' demo_disk"
proof -
  have "path_dir ''/d/f'' = ''/d''" "path_dir ''/d/.agbridge-write-x'' = ''/d''" by code_simp+
  then show ?thesis by (simp add: temp_free_def demo_disk_def plain_world_def fs_get_def parent_ok_def dir_join_def Let_def)
qed

theorem write_end_to_end_witness:
  "\<exists>de ce a rq cs fs w'. write_frames ce ''i'' a [1, 2] = rq # cs \<and> handleWrite de (slot_chunks demo_loop_codec cs) rq demo_disk = (fs, w')
     \<and> (\<exists>res. write_wait ce (map Got fs) = Answer res \<and> \<not> mr_error res
         \<and> (\<exists>n. fs_get w' ''/d/f'' = Some n \<and> n_data n = [1, 2]))"
proof -
  let ?a = "\<lparr>wa_path = ''/d/f'', wa_content = None, wa_b64 = Some (base64_encode [1, 2]), wa_mode = 0\<rparr>"
  let ?req = "\<lparr>wr_path = ''/d/f'', wr_mode = 0\<rparr>"
  let ?de = "demo_daemon\<lparr>jd_write := (\<lambda>_. Some ?req)\<rparr>"
  let ?ce = "demo_client\<lparr>kd_complete := (\<lambda>_. Ok (fc_done [1, 2]))\<rparr>"
  have src: "write_source ?ce ?a = Ok [1, 2]" by (simp add: write_source_def base64_decode_encode del: base64_encode.simps)
  have fr: "write_frames ?ce ''i'' ?a [1, 2] = hd (write_frames ?ce ''i'' ?a [1, 2]) # tl (write_frames ?ce ''i'' ?a [1, 2])"
    by (simp add: write_frames_def)
  have nc: "no_clash ''.agbridge-write-'' [] (wa_path ?a) demo_disk" using demo_disk_old by (simp add: no_clash_def)
  have ses: "fst (WriteFile \<lparr>wr_path = wa_path ?a, wr_mode = wa_mode ?a\<rparr> maxFileBytes (map Ok (pieces [1, 2])) demo_disk) = Ok (fc_done [1, 2])"
    using WriteFile_quiet [of demo_disk ?req "map Ok (pieces [1, 2])" maxFileBytes] demo_disk_quiet
      demo_disk_free nc demo_disk_old ended_pieces by (simp add: received_pieces maxFileBytes_def plain_file_def)
  have jr: "jd_write ?de (f_payload (hd (write_frames ?ce ''i'' ?a [1, 2]))) = Some \<lparr>wr_path = wa_path ?a, wr_mode = wa_mode ?a\<rparr>"
    by (simp add: demo_daemon_def)
  have jc: "lc_chunk demo_loop_codec (ke_chunk ?ce c) = Some c" for c
    by (simp add: demo_loop_codec_def demo_client_def)
  have ja: "kd_complete ?ce (je_complete ?de (fc_done [1, 2])) = Ok (fc_done [1, 2])" by simp
  from write_end_to_end [OF src fr nc jr jc ses ja] demo_disk_quiet demo_disk_free demo_disk_old obtain fs w' res where
    r: "handleWrite ?de (slot_chunks demo_loop_codec (tl (write_frames ?ce ''i'' ?a [1, 2])))
       (hd (write_frames ?ce ''i'' ?a [1, 2])) demo_disk = (fs, w')"
      "write_wait ?ce (map Got fs) = Answer res" "\<not> mr_error res"
      "\<exists>n. fs_get w' ''/d/f'' = Some n \<and> n_data n = [1, 2]"
    by (auto simp: maxBufferedOutput_def plain_file_def)
  with fr show ?thesis by blast
qed

theorem read_end_to_end_witness:
  "\<exists>de ce req fs w1 res. handleRead de (call_frame FrameTypeFileReadRequest ''i'' (ke_read ce req)) demo_disk = (fs, w1)
     \<and> fst (read_file_loop ce (map Got fs) [] []) = Answer res \<and> content_of res = Some [8, 7]"
proof -
  let ?req = "\<lparr>rr_path = ''/d/f'', rr_max_size = 0, rr_offset = 1, rr_limit = 0\<rparr>"
  let ?f = "plain_file [9, 8, 7]"
  obtain r out w' where run: "ReadFile ?req maxFileBytes demo_disk = ((r, out), w')" by (metis surj_pair)
  have W: "wanted ?f (nat (rr_offset ?req)) (soft_cap ?req) = [8, 7]" "hard_cap ?req maxFileBytes = maxFileBytes"
    by (simp_all add: wanted_def soft_cap_def plain_file_def hard_cap_def)
  have w: "quiet demo_disk" "fs_get demo_disk (rr_path ?req) = Some ?f" "n_kind ?f \<noteq> KDir" "0 \<le> rr_offset ?req" "0 \<le> rr_limit ?req"
    "int (length (wanted ?f (nat (rr_offset ?req)) (soft_cap ?req))) \<le> hard_cap ?req maxFileBytes"
    unfolding W using demo_disk_quiet demo_disk_old by (simp_all add: plain_file_def maxFileBytes_def)
  from ReadFile_facts [OF run] w obtain fc where fc: "r = Ok fc" by blast
  let ?de = "demo_daemon\<lparr>jd_read := (\<lambda>_. Some ?req)\<rparr>"
  let ?ce = "demo_client\<lparr>kd_complete := (\<lambda>_. Ok fc)\<rparr>"
  obtain fs w1 where h: "handleRead ?de (call_frame FrameTypeFileReadRequest ''i'' (ke_read ?ce ?req)) demo_disk = (fs, w1)"
    by (metis surj_pair)
  have "jd_read ?de (ke_read ?ce ?req) = Some ?req" "kd_complete ?ce (je_complete ?de fc) = Ok fc" by simp_all
  moreover have "kd_chunk ?ce (je_chunk ?de c) = Ok c" for c by (simp add: demo_client_def demo_daemon_def)
  ultimately obtain res where res: "fst (read_file_loop ?ce (map Got fs) [] []) = Answer res"
    "\<not> mr_error res \<longrightarrow> (\<exists>f W. fs_get demo_disk (rr_path ?req) = Some f \<and> W = wanted f (nat (rr_offset ?req)) (soft_cap ?req)
         \<and> content_of res = Some W)" "\<not> mr_error res"
    using read_end_to_end [OF _ run [unfolded fc] _ _ h] w by blast
  then have "content_of res = Some [8, 7]" using w(2) W(1) by auto
  with h res(1) show ?thesis by blast
qed

section \<open>Ending\<close>

text \<open>A send that is stuck holds its call: neither the end of the context nor a reset of the connection is looked at.\<close>

lemma stuck_send_waits:
  assumes "fst (call_send nz ce f (c\<lparr>cl_router := registerCall i (cl_router c)\<rparr>)) = Stuck"
  shows "fst (with_call nz ce i (f # fs) after c) = Waiting"
proof -
  obtain c1 where "call_send nz ce f (c\<lparr>cl_router := registerCall i (cl_router c)\<rparr>) = (Stuck, c1)"
    using assms by (metis prod.collapse)
  then show ?thesis by (simp add: with_call_def send_outcome_def)
qed

corollary stuck_exec_waits:
  assumes "ke_exec ce req = Ok b"
    and "fst (call_send nz ce (call_frame FrameTypeExecRequest (newReqID rnd) b) (c\<lparr>cl_router := registerCall (newReqID rnd) (cl_router c)\<rparr>)) = Stuck"
  shows "fst (ExecHandler nz ce rnd (CtxDone # ib) (Ok req) c) = Waiting"
  using stuck_send_waits [OF assms(2)] assms(1) by (simp add: ExecHandler_def Let_def)

definition settled :: "'c call \<Rightarrow> string \<Rightarrow> outcome \<times> 'c call \<Rightarrow> bool" where
  "settled c i p \<longleftrightarrow> (\<exists>r. fst p = Answer r)
     \<and> (rt_pending (cl_router c) i = None \<longrightarrow> rt_pending (cl_router (snd p)) i = None)"

lemma settled_same [simp]: "settled c i (Answer r, c)" "settled c i (bad_payload m, c)"
  by (simp_all add: settled_def bad_payload_def)

lemma settled_finish: "settled c i (finish_call i x c') \<longleftrightarrow> (\<exists>r. x = Answer r)"
  by (auto simp: settled_def unregisterCall_def)

lemma settled_with_call:
  assumes "flows c"
  shows "settled c i (with_call nz ce i fs (Answer r) c)"
    "x \<noteq> Waiting \<Longrightarrow> settled c i (with_call nz ce i fs x c) \<or> fst (with_call nz ce i fs x c) = Panic"
proof -
  have x: "settled c i (with_call nz ce i fs x c) \<or> x = Panic \<and> fst (with_call nz ce i fs x c) = Panic"
    if "x \<noteq> Waiting" for x
  proof -
    obtain e c1 where e: "send_frames nz ce fs (c\<lparr>cl_router := registerCall i (cl_router c)\<rparr>) = (e, c1)"
      by (cases "send_frames nz ce fs (c\<lparr>cl_router := registerCall i (cl_router c)\<rparr>)")
    have "e \<noteq> Stuck" using send_frames_flows [OF e] assms by simp
    then have "(\<exists>r. send_outcome e x = Answer r) \<or> x = Panic \<and> send_outcome e x = Panic"
      using that by (cases e; cases x) (auto simp: send_outcome_def network_lost_def)
    then show ?thesis by (auto simp: with_call_def e settled_finish)
  qed
  show "settled c i (with_call nz ce i fs (Answer r) c)" using x [of "Answer r"] by simp
  show "x \<noteq> Waiting \<Longrightarrow> settled c i (with_call nz ce i fs x c) \<or> fst (with_call nz ce i fs x c) = Panic" using x by blast
qed

lemma await_one_answers:
  assumes "ib \<noteq> []" "\<And>p. \<exists>r. k p = Answer r"
  shows "\<exists>r. await_one ce tool u t k ib = Answer r"
proof -
  obtain x ib' where ib: "ib = x # ib'" using assms(1) by (cases ib) auto
  then show ?thesis using assms(2)
    by (cases x) (auto simp: await_one_def network_lost_def frame_error_def Let_def split: prod.split)
qed

lemma upload_body_answers: "upload_body nz ce i a c w = ((Some x, c'), w') \<Longrightarrow> flows c \<Longrightarrow> \<exists>r. x = Answer r"
  by (auto simp: upload_body_def bad_payload_def Let_def split: if_splits prod.splits sum.splits
      dest: send_b64_answers send_local_answers)

lemma upload_settles:
  assumes "ib \<noteq> []" "flows c"
  shows "settled c (newReqID rnd) (fst (UploadHandler nz ce rnd ib (Ok a) c w))"
proof -
  let ?i = "newReqID rnd"
  let ?c = "c\<lparr>cl_router := registerCall ?i (cl_router c)\<rparr>"
  let ?rq = "call_frame FrameTypeUploadRequest ?i (ke_upload ce (upload_request_of a))"
  let ?after = "await_one ce ''upload'' ''unexpected frame '' FrameTypeFileComplete (\<lambda>p. case kd_complete ce p of
      Inl e \<Rightarrow> bad_payload (''upload: '' @ e) | Inr fc \<Rightarrow> Answer (upload_result a fc)) ib"
  obtain t w1 where t: "upload_check ce a w = (t, w1)" by (cases "upload_check ce a w")
  obtain e c1 where e: "call_send nz ce ?rq ?c = (e, c1)" by (cases "call_send nz ce ?rq ?c")
  have fl: "e \<noteq> Stuck" "flows c1" using call_send_flows [OF e] assms(2) by simp_all
  obtain x c2 w2 where b: "upload_body nz ce ?i a c1 w1 = ((x, c2), w2)" by (metis prod_cases3 surj_pair)
  have "\<exists>r. ?after = Answer r" by (rule await_one_answers [OF assms(1)]) (simp add: bad_payload_def split: sum.split)
  then have "\<exists>r. (case x of Some o1 \<Rightarrow> o1 | None \<Rightarrow> ?after) = Answer r"
    using upload_body_answers b fl(2) by (cases x) auto
  then have sent: "settled c ?i (finish_call ?i (case x of Some o1 \<Rightarrow> o1 | None \<Rightarrow> ?after) c2)" by (simp only: settled_finish)
  have other: "settled c ?i (finish_call ?i (send_outcome e Waiting) c1)" if "e \<noteq> Sent"
    using send_outcome_answers [OF fl(1)] that by (simp add: settled_finish)
  show ?thesis
  proof (cases t)
    case (Inl m)
    then show ?thesis by (simp add: UploadHandler_def t)
  next
    case (Inr u)
    then show ?thesis using sent other by (cases e) (simp_all add: UploadHandler_def t e b Let_def)
  qed
qed

lemma download_settles:
  assumes ib: "Closed \<in> set ib \<or> CtxDone \<in> set ib" and "flows c"
  shows "settled c (newReqID rnd) (fst (DownloadHandler nz ce rnd ib args c w))"
proof (cases args)
  case (Inr a)
  let ?i = "newReqID rnd"
  let ?rq = "call_frame FrameTypeDownloadRequest ?i (ke_download ce \<lparr>dl_src = da_src a, dl_offset = da_offset a, dl_limit = da_limit a\<rparr>)"
  let ?c = "c\<lparr>cl_router := registerCall ?i (cl_router c)\<rparr>"
  obtain e c1 where e: "call_send nz ce ?rq ?c = (e, c1)" by (cases "call_send nz ce ?rq ?c")
  have fl: "e \<noteq> Stuck" using call_send_flows [OF e] assms(2) by simp
  obtain o1 w1 where b: "download_body ce a ib w = (o1, w1)" by (cases "download_body ce a ib w")
  have "\<exists>r. fst (download_body ce a ib w) = Answer r"
    using download_loop_settles [OF ib, of ce a "[]" "[]"]
    by (auto simp: download_body_def split: prod.split sum.split) (metis fst_conv)+
  then have "settled c ?i (finish_call ?i o1 c1)" by (simp add: settled_finish b)
  moreover have "settled c ?i (finish_call ?i (send_outcome e Waiting) c1)" if "e \<noteq> Sent"
    using send_outcome_answers [OF fl] that by (simp add: settled_finish)
  ultimately show ?thesis using Inr by (cases e) (simp_all add: DownloadHandler_def e b Let_def)
qed (simp add: DownloadHandler_def)

lemma stat_settles:
  assumes "ib \<noteq> []" "flows c"
  shows "settled c (newReqID rnd) (StatHandler nz ce rnd ib args c) \<or> fst (StatHandler nz ce rnd ib args c) = Panic"
proof (cases args)
  case (Inr q)
  have "settled c i (with_call nz ce i fs (await_one ce tool u t k ib) c) \<or> fst (with_call nz ce i fs (await_one ce tool u t k ib) c) = Panic"
    if "\<And>p. k p \<noteq> Waiting" for i fs tool u t k
    by (rule settled_with_call(2) [OF assms(2) await_one_settles [OF assms(1) that]])
  then show ?thesis
    by (simp add: StatHandler_def Inr Let_def bad_payload_def [abs_def] split: sum.split option.split)
qed (simp add: StatHandler_def)


definition demo_call :: "nat call" where
  "demo_call = \<lparr>cl_router = demo_router, cl_nets = [(False, Breaks ''reset'')]\<rparr>"


end
