(* ===== verification/Service.thy ===== *)
theory Service
  imports Glob
begin

text \<open>
  Installing the daemon as a systemd service (\<open>cmd/agbridge/service_systemd.go\<close>): the account it runs as, the plan
  made before the state is written, the unit files with their quoting, the guard against symbolic links
  under the account's home, the change of ownership of the state, and the calls of \<open>systemctl\<close>, whose
  answers are part of the environment.

  The loop of \<open>chownStateTree\<close> over the parent directories does not end for every account, so it is a
  partial function: \<^term>\<open>None\<close> is a run that does not return.
\<close>

section \<open>Accounts\<close>

definition daemonSystemdServiceName :: string where "daemonSystemdServiceName = ''agbridge-daemon.service''"

definition defaultServiceUserCandidates :: "string list" where
  "defaultServiceUserCandidates =
     [''ubuntu'', ''ec2-user'', ''centos'', ''debian'', ''rocky'',
      ''almalinux'', ''fedora'', ''admin'', ''cloud-user'', ''opc'', ''azureuser'']"

record service_user =
  su_name :: string
  su_home :: string
  su_group :: string
  su_uid :: int
  su_gid :: int

record user_lookup =
  byName :: "string \<Rightarrow> string + service_user"
  byUID :: "int \<Rightarrow> string + service_user"

text \<open>The loop over the candidates: the first that exists and is not root.\<close>

fun first_candidate :: "user_lookup \<Rightarrow> string list \<Rightarrow> service_user option" where
  "first_candidate lk [] = None"
| "first_candidate lk (n # ns) =
     (case byName lk n of
        Inr u \<Rightarrow> if su_uid u \<noteq> 0 then Some u else first_candidate lk ns
      | Inl _ \<Rightarrow> first_candidate lk ns)"

definition resolveServiceUser :: "string \<Rightarrow> user_lookup \<Rightarrow> string + service_user" where
  "resolveServiceUser explicit lk =
     (if explicit \<noteq> [] then
        (case byName lk explicit of
           Inl e \<Rightarrow> Err (''--service-user '' @ go_q explicit @ '': '' @ e)
         | Inr u \<Rightarrow> if su_uid u = 0 then Err ''--service-user must not be root (the daemon refuses to run as root)''
                    else Ok u)
      else case first_candidate lk defaultServiceUserCandidates of
        Some u \<Rightarrow> Ok u
      | None \<Rightarrow>
          (case byUID lk 1000 of
             Inr u \<Rightarrow> if su_uid u \<noteq> 0 then Ok u
                      else Err ''could not detect a non-root service user; pass --service-user <name>''
           | Inl _ \<Rightarrow> Err ''could not detect a non-root service user; pass --service-user <name>''))"

record service_plan =
  sp_system :: bool
  sp_user :: "service_user option"
  sp_state_dir :: string

text \<open>The plan comes with the error: a failed plan still says that it was one for the system.\<close>

definition planDaemonService ::
  "int \<Rightarrow> string \<Rightarrow> string \<Rightarrow> bool \<Rightarrow> user_lookup \<Rightarrow> service_plan \<times> string option" where
  "planDaemonService euid flag stateDir explicit lk =
     (if euid = 0 then
        (case resolveServiceUser flag lk of
           Inl e \<Rightarrow> (\<lparr>sp_system = True, sp_user = None, sp_state_dir = []\<rparr>, Some e)
         | Inr u \<Rightarrow>
             (\<lparr>sp_system = True, sp_user = Some u,
               sp_state_dir = (if explicit then stateDir else path_join [su_home u, ''.config'', ''agbridge''])\<rparr>, None))
      else (\<lparr>sp_system = False, sp_user = None, sp_state_dir = stateDir\<rparr>, None))"

text \<open>The account database behind \<open>os/user\<close>: entries with their numbers as text.\<close>

record os_user =
  ou_uid :: string
  ou_gid :: string
  ou_username :: string
  ou_home :: string

record passwd =
  pw_name :: "string \<Rightarrow> string + os_user"
  pw_id :: "string \<Rightarrow> string + os_user"
  pw_group :: "string \<Rightarrow> string + string"

definition atoi_text :: "string \<Rightarrow> num_error \<Rightarrow> string" where
  "atoi_text s e = ''strconv.Atoi: parsing '' @ go_q s @ '': '' @ num_error_text e"

definition toServiceUser :: "passwd \<Rightarrow> os_user \<Rightarrow> string + service_user" where
  "toServiceUser pw u =
     (case go_atoi (ou_uid u) of
        Inl e \<Rightarrow> Err (''parse uid '' @ go_q (ou_uid u) @ '': '' @ atoi_text (ou_uid u) e)
      | Inr uid \<Rightarrow>
          (case go_atoi (ou_gid u) of
             Inl e \<Rightarrow> Err (''parse gid '' @ go_q (ou_gid u) @ '': '' @ atoi_text (ou_gid u) e)
           | Inr gid \<Rightarrow>
               Ok \<lparr>su_name = ou_username u, su_home = ou_home u,
                   su_group = (case pw_group pw (ou_gid u) of Inr g \<Rightarrow> g | Inl _ \<Rightarrow> ou_gid u),
                   su_uid = uid, su_gid = gid\<rparr>))"

definition osUserLookup :: "passwd \<Rightarrow> user_lookup" where
  "osUserLookup pw =
     \<lparr>byName = (\<lambda>n. bind_res (pw_name pw n) (toServiceUser pw)),
      byUID = (\<lambda>i. bind_res (pw_id pw (itoa i)) (toServiceUser pw))\<rparr>"

section \<open>Unit files\<close>

definition systemdQuoteArg :: "string \<Rightarrow> string" where
  "systemdQuoteArg s =
     (let s = str_replace s [CHR 0x5C] [CHR 0x5C, CHR 0x5C] None;
          s = str_replace s [CHR 0x22] [CHR 0x5C, CHR 0x22] None;
          s = str_replace s ''%'' ''%%'' None in
      [CHR 0x22] @ s @ [CHR 0x22])"

definition shellQuoteArg :: "string \<Rightarrow> string" where
  "shellQuoteArg s = [CHR 0x27] @ str_replace s [CHR 0x27] [CHR 0x27, CHR 0x5C, CHR 0x27, CHR 0x27] None @ [CHR 0x27]"

definition has_newline :: "string \<Rightarrow> bool" where
  "has_newline s \<longleftrightarrow> CHR 0x0D \<in> set s \<or> CHR 0x0A \<in> set s"

definition text_lines :: "string list \<Rightarrow> string" where
  "text_lines ls = concat (map (\<lambda>l. l @ [CHR 0x0A]) ls)"

definition unit_head :: "string list" where
  "unit_head =
     [''[Unit]'', ''Description=agbridge daemon'', ''Documentation=https://github.com/pw0rld/agbridge'',
      ''After=network-online.target'', ''Wants=network-online.target'', [], ''[Service]'', ''Type=simple'']"

definition unit_tail :: "string \<Rightarrow> string \<Rightarrow> string \<Rightarrow> string list" where
  "unit_tail exe dir target =
     [''ExecStart='' @ systemdQuoteArg exe @ '' daemon --state-dir '' @ systemdQuoteArg dir,
      ''Restart=always'', ''RestartSec=5'', [], ''[Install]'', ''WantedBy='' @ target]"

definition renderSystemUnit :: "string \<Rightarrow> string \<Rightarrow> service_user \<Rightarrow> string + string" where
  "renderSystemUnit exePath stateDir u =
     (if has_newline exePath \<or> has_newline stateDir then Err ''paths cannot contain newlines''
      else Ok (text_lines (unit_head @ [''User='' @ su_name u, ''Group='' @ su_group u]
                           @ unit_tail exePath stateDir ''multi-user.target'')))"

definition renderUserUnit :: "string \<Rightarrow> string \<Rightarrow> string + string" where
  "renderUserUnit exePath stateDir =
     (if has_newline exePath \<or> has_newline stateDir then Err ''paths cannot contain newlines''
      else Ok (text_lines (unit_head @ unit_tail exePath stateDir ''default.target'')))"

section \<open>The host\<close>

text \<open>The world of files, who owns what was given away (in order), and the commands that were run.\<close>

record host =
  h_world :: world
  h_owner :: "(string \<times> int \<times> int) list"
  h_cmds :: "string list list"

record service_env =
  sn_goos :: string
  sn_has_systemctl :: bool
  sn_exe :: "string + string"
  sn_cwd :: "string + string"
  sn_home :: "string + string"
  sn_run :: "nat \<Rightarrow> string \<times> string option"
  sn_oserr :: "os_error \<Rightarrow> string"

type_synonym ('e, 'a) hio = "host \<Rightarrow> ('e + 'a) \<times> host"

definition on_host :: "('e, 'a) io \<Rightarrow> ('e, 'a) hio" where
  "on_host m h = (let (r, w) = m (h_world h) in (r, h\<lparr>h_world := w\<rparr>))"

definition os_lchown :: "int \<Rightarrow> int \<Rightarrow> string \<Rightarrow> (os_error, unit) hio" where
  "os_lchown uid gid p h =
     (case on_host (os_stat p) h of
        (Inl e, h') \<Rightarrow> (Err e, h')
      | (Inr _, h') \<Rightarrow> (Ok (), h'\<lparr>h_owner := h_owner h' @ [(p, uid, gid)]\<rparr>))"

definition run_command :: "service_env \<Rightarrow> string list \<Rightarrow> host \<Rightarrow> (string \<times> string option) \<times> host" where
  "run_command env cmd h = (sn_run env (length (h_cmds h)), h\<lparr>h_cmds := h_cmds h @ [cmd]\<rparr>)"

definition runSystemctl :: "service_env \<Rightarrow> string list \<Rightarrow> host \<Rightarrow> (string \<times> string option) \<times> host" where
  "runSystemctl env args = run_command env (''systemctl'' # args)"

definition runUserSystemctl :: "service_env \<Rightarrow> string list \<Rightarrow> host \<Rightarrow> (string \<times> string option) \<times> host" where
  "runUserSystemctl env args = run_command env (''systemctl'' # ''--user'' # args)"

definition commandOutputSuffix :: "string \<Rightarrow> string" where
  "commandOutputSuffix out = (let msg = trim_space out in if msg = [] then [] else '': '' @ msg)"

text \<open>\<open>filepath.Abs\<close>.\<close>

definition path_abs :: "string + string \<Rightarrow> string \<Rightarrow> string + string" where
  "path_abs cwd p = (if is_abs p then Ok (path_clean p) else bind_res cwd (\<lambda>d. Ok (path_join [d, p])))"

section \<open>Symbolic links and ownership\<close>

fun check_parts :: "(os_error \<Rightarrow> string) \<Rightarrow> string \<Rightarrow> string list \<Rightarrow> (string, unit) io" where
  "check_parts oserr cur [] = io_ret ()"
| "check_parts oserr cur (part # parts) =
     (let cur = path_join [cur, part] in
      io_case (os_stat cur)
        (\<lambda>e. if e = ENOENT then io_ret () else io_fail (oserr e))
        (\<lambda>fi. if n_kind fi = KSymlink then
                io_fail (''refusing to use state dir: '' @ go_q cur @ '' is a symlink'')
              else check_parts oserr cur parts))"

definition ensureNoSymlinkBelowHome :: "(os_error \<Rightarrow> string) \<Rightarrow> string \<Rightarrow> string \<Rightarrow> (string, unit) io" where
  "ensureNoSymlinkBelowHome oserr stateDir home =
     (if home = [] then io_ret ()
      else let home = trim_right slash (path_clean home); dir = path_clean stateDir in
        if dir = home \<or> \<not> has_prefix dir (home @ [slash]) then io_ret ()
        else check_parts oserr home (split_on slash (drop (length home + 1) dir)))"

text \<open>\<open>filepath.Walk\<close> over an absolute path: a directory before its entries, in the order of their names.  The walk
  changes no file, so its order is that of the tree it starts with.\<close>

function walk_order :: "world \<Rightarrow> string \<Rightarrow> string list" where
  "walk_order w d =
     d # (case fs_get w d of
            Some n \<Rightarrow> if n_kind n = KDir
                      then concat (map (walk_order w) (filter (\<lambda>k. length d < length k) (dir_paths w d)))
                      else []
          | None \<Rightarrow> [])"
  by pat_completeness auto
termination
proof (relation "measure (\<lambda>(w, d). Max (insert 0 (length ` fst ` set (w_fs w))) - length d)", goal_cases)
  case (2 w d n k)
  then have "k \<in> fst ` set (w_fs w)" "length d < length k" by (auto simp: dir_paths_def)
  then have "length k \<le> Max (insert 0 (length ` fst ` set (w_fs w)))" by (intro Max_ge) auto
  with \<open>length d < length k\<close> show ?case by auto
qed simp

declare walk_order.simps [simp del]

text \<open>One step of the walk: the entry is looked at, a directory is read, and its owner is set.\<close>

definition chown_visit :: "int \<Rightarrow> int \<Rightarrow> string \<Rightarrow> (os_error, unit) hio" where
  "chown_visit uid gid p h =
     (case on_host (os_stat p) h of
        (Inl e, h) \<Rightarrow> (Err e, h)
      | (Inr fi, h) \<Rightarrow>
          (case (if n_kind fi = KDir then on_host (os_read_dir p) h else (Ok [], h)) of
             (Inl e, h) \<Rightarrow> (Err e, h)
           | (Inr _, h) \<Rightarrow> os_lchown uid gid p h))"

fun chown_all :: "int \<Rightarrow> int \<Rightarrow> string list \<Rightarrow> (os_error, unit) hio" where
  "chown_all uid gid [] h = (Ok (), h)"
| "chown_all uid gid (p # ps) h =
     (case chown_visit uid gid p h of (Inl e, h) \<Rightarrow> (Err e, h) | (Inr _, h) \<Rightarrow> chown_all uid gid ps h)"

definition chownRecursive :: "string \<Rightarrow> int \<Rightarrow> int \<Rightarrow> (os_error, unit) hio" where
  "chownRecursive root uid gid h = chown_all uid gid (walk_order (h_world h) root) h"

partial_function (option) chown_parents ::
  "int \<Rightarrow> int \<Rightarrow> string \<Rightarrow> string \<Rightarrow> host \<Rightarrow> ((os_error + unit) \<times> host) option" where
  "chown_parents uid gid pre p h =
     (if has_prefix p pre then
        (case os_lchown uid gid p h of
           (Inl e, h') \<Rightarrow> Some (Err e, h')
         | (Inr _, h') \<Rightarrow> chown_parents uid gid pre (path_dir p) h')
      else Some (Ok (), h))"

definition chownStateTree :: "string \<Rightarrow> service_user \<Rightarrow> host \<Rightarrow> ((os_error + unit) \<times> host) option" where
  "chownStateTree stateDir u h =
     (case chownRecursive stateDir (su_uid u) (su_gid u) h of
        (Inl e, h') \<Rightarrow> Some (Err e, h')
      | (Inr _, h') \<Rightarrow>
          if su_home u = [] then Some (Ok (), h')
          else chown_parents (su_uid u) (su_gid u) (trim_right slash (su_home u) @ [slash]) (path_dir stateDir) h')"

section \<open>Installing\<close>

record service_result =
  sv_name :: string
  sv_unit_path :: string
  sv_mode :: string
  sv_user :: string
  sv_ok :: bool
  sv_err :: "string option"

text \<open>Reload, then enable and start: the two last steps of both kinds of service.  \<open>what\<close> names the command in
  the error.\<close>

definition start_unit ::
  "(string list \<Rightarrow> host \<Rightarrow> (string \<times> string option) \<times> host) \<Rightarrow> string \<Rightarrow> service_result \<Rightarrow> host
     \<Rightarrow> service_result \<times> host" where
  "start_unit ctl what res h =
     (let ((out, err), h) = ctl [''daemon-reload''] h in
      case err of
        Some e \<Rightarrow> (res\<lparr>sv_err := Some (what @ '' daemon-reload: '' @ e @ commandOutputSuffix out)\<rparr>, h)
      | None \<Rightarrow>
          (let ((out, err), h) = ctl [''enable'', ''--now'', daemonSystemdServiceName] h in
           case err of
             Some e \<Rightarrow> (res\<lparr>sv_err := Some (what @ '' enable --now: '' @ e @ commandOutputSuffix out)\<rparr>, h)
           | None \<Rightarrow> (res\<lparr>sv_ok := True\<rparr>, h)))"

definition write_unit ::
  "service_env \<Rightarrow> string \<Rightarrow> string \<Rightarrow> (string list \<Rightarrow> host \<Rightarrow> (string \<times> string option) \<times> host) \<Rightarrow> string
     \<Rightarrow> service_result \<Rightarrow> host \<Rightarrow> service_result \<times> host" where
  "write_unit env path unit_text ctl what res h =
     (let res = res\<lparr>sv_unit_path := path\<rparr> in
      case on_host (os_write_file path (bytes_of unit_text) 420) h of
        (Inl e, h) \<Rightarrow> (res\<lparr>sv_err := Some (''write '' @ path @ '': '' @ sn_oserr env e)\<rparr>, h)
      | (Inr _, h) \<Rightarrow> start_unit ctl what res h)"

definition setupSystemService ::
  "service_env \<Rightarrow> service_result \<Rightarrow> string \<Rightarrow> string \<Rightarrow> service_user option \<Rightarrow> host
     \<Rightarrow> (service_result \<times> host) option" where
  "setupSystemService env res exe stateDir user h =
     (let res = res\<lparr>sv_mode := ''system''\<rparr> in
      case user of
        None \<Rightarrow> Some (res\<lparr>sv_err := Some ''no service user resolved''\<rparr>, h)
      | Some u \<Rightarrow>
          (let res = res\<lparr>sv_user := su_name u\<rparr> in
           case renderSystemUnit exe stateDir u of
             Inl e \<Rightarrow> Some (res\<lparr>sv_err := Some e\<rparr>, h)
           | Inr unit_text \<Rightarrow>
               (case chownStateTree stateDir u h of
                  None \<Rightarrow> None
                | Some (Inl e, h) \<Rightarrow>
                    Some (res\<lparr>sv_err := Some (''chown '' @ stateDir @ '' to '' @ su_name u @ '': '' @ sn_oserr env e)\<rparr>, h)
                | Some (Inr _, h) \<Rightarrow>
                    Some (write_unit env (path_join [''/etc/systemd/system'', daemonSystemdServiceName]) unit_text
                            (runSystemctl env) ''systemctl'' res h))))"

definition setupUserService ::
  "service_env \<Rightarrow> service_result \<Rightarrow> string \<Rightarrow> string \<Rightarrow> host \<Rightarrow> service_result \<times> host" where
  "setupUserService env res exe stateDir h =
     (let res = res\<lparr>sv_mode := ''user''\<rparr> in
      case renderUserUnit exe stateDir of
        Inl e \<Rightarrow> (res\<lparr>sv_err := Some e\<rparr>, h)
      | Inr unit_text \<Rightarrow>
          (case sn_home env of
             Inl e \<Rightarrow> (res\<lparr>sv_err := Some (''resolve home directory: '' @ e)\<rparr>, h)
           | Inr home \<Rightarrow>
               if home = [] then (res\<lparr>sv_err := Some ''resolve home directory: %!w(<nil>)''\<rparr>, h)
               else let unitDir = path_join [home, ''.config'', ''systemd'', ''user''] in
                 (case on_host (os_mkdir_all unitDir 493) h of
                    (Inl e, h) \<Rightarrow> (res\<lparr>sv_err := Some (''create '' @ unitDir @ '': '' @ sn_oserr env e)\<rparr>, h)
                  | (Inr _, h) \<Rightarrow>
                      write_unit env (path_join [unitDir, daemonSystemdServiceName]) unit_text
                        (runUserSystemctl env) ''systemctl --user'' res h)))"

definition installDaemonService ::
  "service_env \<Rightarrow> string \<Rightarrow> service_plan \<times> string option \<Rightarrow> host \<Rightarrow> (service_result \<times> host) option" where
  "installDaemonService env stateDir planned h =
     (let (plan, planErr) = planned;
          res = \<lparr>sv_name = daemonSystemdServiceName, sv_unit_path = [],
                 sv_mode = (if sp_system plan then ''system'' else ''user''), sv_user = [], sv_ok = False, sv_err = None\<rparr>;
          failed = (\<lambda>e. Some (res\<lparr>sv_err := Some e\<rparr>, h)) in
      case planErr of
        Some e \<Rightarrow> failed e
      | None \<Rightarrow>
          if sn_goos env \<noteq> ''linux'' then failed ''systemd service install is only supported on Linux''
          else if \<not> sn_has_systemctl env then failed ''systemctl not found''
          else (case bind_res (sn_exe env) (path_abs (sn_cwd env)) of
             Inl e \<Rightarrow> failed (''resolve executable: '' @ e)
           | Inr exe \<Rightarrow>
               (case path_abs (sn_cwd env) stateDir of
                  Inl e \<Rightarrow> failed (''resolve state dir: '' @ e)
                | Inr dir \<Rightarrow>
                    if sp_system plan then setupSystemService env res exe dir (sp_user plan) h
                    else Some (setupUserService env res exe dir h))))"

section \<open>The report\<close>

definition check_mark :: string where "check_mark = [CHR 0xE2, CHR 0x9C, CHR 0x93]"
definition warning_sign :: string where "warning_sign = [CHR 0xE2, CHR 0x9A, CHR 0xA0]"

definition printDaemonServiceResult :: "string \<Rightarrow> service_result \<Rightarrow> bool \<Rightarrow> string" where
  "printDaemonServiceResult stateDir res attempted =
     (if attempted \<and> sv_ok res \<and> sv_mode res = ''system'' then
        text_lines
          [check_mark @ '' Installed system service '' @ sv_name res @ '' (runs as user '' @ go_q (sv_user res) @ '')'',
           check_mark @ '' Unit: '' @ sv_unit_path res, [], ''Useful commands:'',
           ''  systemctl status '' @ sv_name res, ''  journalctl -u '' @ sv_name res @ '' -f'', [],
           ''Runs on boot and survives logout. Change the user with --service-user.'']
      else if attempted \<and> sv_ok res \<and> sv_mode res = ''user'' then
        text_lines
          [check_mark @ '' Installed user service '' @ sv_name res, check_mark @ '' Unit: '' @ sv_unit_path res, [],
           ''Keep it running after logout/reboot:'', ''  sudo loginctl enable-linger $USER'', [],
           ''Useful commands:'', ''  systemctl --user status '' @ sv_name res,
           ''  journalctl --user -u '' @ sv_name res @ '' -f'']
      else text_lines
        ((case sv_err res of
            Some e \<Rightarrow> (if attempted then [warning_sign @ '' Could not install the systemd service: '' @ e, []] else [])
          | None \<Rightarrow> [])
         @ [''Start the daemon manually:'', ''  agbridge daemon --state-dir '' @ shellQuoteArg stateDir]))"

section \<open>Accounts are never root\<close>

lemma first_candidate_not_root: "first_candidate lk ns = Some u \<Longrightarrow> su_uid u \<noteq> 0 \<and> (\<exists>n \<in> set ns. byName lk n = Inr u)"
  by (induction ns) (auto split: sum.splits if_splits)

lemma resolveServiceUser_not_root: "resolveServiceUser explicit lk = Inr u \<Longrightarrow> su_uid u \<noteq> 0"
  by (auto simp: resolveServiceUser_def dest: first_candidate_not_root split: if_splits sum.splits option.splits)

lemma planDaemonService_system:
  "planDaemonService euid flag dir explicit lk = (plan, err) \<Longrightarrow>
     (sp_system plan \<longleftrightarrow> euid = 0)
     \<and> (err = None \<longrightarrow> (sp_user plan \<noteq> None \<longleftrightarrow> euid = 0) \<and> (explicit \<or> euid \<noteq> 0 \<longrightarrow> sp_state_dir plan = dir)
          \<and> (\<forall>u. sp_user plan = Some u \<longrightarrow> su_uid u \<noteq> 0
               \<and> (\<not> explicit \<longrightarrow> sp_state_dir plan = path_join [su_home u, ''.config'', ''agbridge''])))"
  by (auto simp: planDaemonService_def dest: resolveServiceUser_not_root split: if_splits sum.splits)

section \<open>Quoting\<close>

text \<open>What systemd documents for a double-quoted argument of \<open>ExecStart\<close>: a backslash takes the next character
  as it is, a doubled percent sign is one, and the closing quote ends it.\<close>

fun unit_arg :: "string \<Rightarrow> (string \<times> string) option" where
  "unit_arg [] = None"
| "unit_arg (c # s) =
     (if c = CHR 0x22 then Some ([], s)
      else if c = CHR 0x5C \<or> c = CHR ''%'' then
        (case s of [] \<Rightarrow> None
         | d # t \<Rightarrow> if c = CHR ''%'' \<and> d \<noteq> CHR ''%'' then None else map_option (\<lambda>(a, r). (d # a, r)) (unit_arg t))
      else map_option (\<lambda>(a, r). (c # a, r)) (unit_arg s))"

definition unit_escape :: "char \<Rightarrow> string" where
  "unit_escape c =
     (if c = CHR 0x5C \<or> c = CHR 0x22 then [CHR 0x5C, c] else if c = CHR ''%'' then ''%%'' else [c])"

lemma systemdQuoteArg_escape: "systemdQuoteArg s = [CHR 0x22] @ concat (map unit_escape s) @ [CHR 0x22]"
  by (simp add: systemdQuoteArg_def str_replace_char map_concat comp_def) (induction s; simp add: unit_escape_def)

lemma unit_arg_escape: "unit_arg (concat (map unit_escape s) @ CHR 0x22 # rest) = Some (s, rest)"
  by (induction s) (auto simp: unit_escape_def)

text \<open>POSIX single quotes: nothing is special up to the next one; outside of them a backslash takes the next
  character as it is.\<close>

fun shell_word :: "bool \<Rightarrow> string \<Rightarrow> string option" where
  "shell_word q [] = (if q then None else Some [])"
| "shell_word q (c # s) =
     (if c = CHR 0x27 then shell_word (\<not> q) s
      else if q then map_option ((#) c) (shell_word True s)
      else if c = CHR 0x5C then (case s of [] \<Rightarrow> None | d # t \<Rightarrow> map_option ((#) d) (shell_word False t))
      else None)"

lemma shell_word_quoted:
  "shell_word True (concat (map (\<lambda>x. if x = CHR 0x27 then [CHR 0x27, CHR 0x5C, CHR 0x27, CHR 0x27] else [x]) s) @ [CHR 0x27]) = Some s"
  by (induction s) auto

lemma shellQuoteArg_word: "shell_word False (shellQuoteArg s) = Some s"
  using shell_word_quoted [of s] by (simp add: shellQuoteArg_def str_replace_char)

lemma unit_escape_newline: "CHR 0x0A \<in> set (systemdQuoteArg s) \<longleftrightarrow> CHR 0x0A \<in> set s"
  by (auto simp: systemdQuoteArg_escape unit_escape_def)

lemma text_lines_split: "\<forall>l \<in> set ls. CHR 0x0A \<notin> set l \<Longrightarrow> split_on (CHR 0x0A) (text_lines ls) = ls @ [[]]"
proof (induction ls)
  case (Cons l ls)
  then show ?case using split_on_append [of "CHR 0x0A" l "text_lines ls"] by (simp add: text_lines_def)
qed (simp add: text_lines_def)

text \<open>A unit that is rendered has exactly the lines of the template, whatever the paths are, and its
  command reads back as the executable and the state directory.\<close>

lemma renderSystemUnit_lines:
  assumes "renderSystemUnit exe dir u = Ok t" and "CHR 0x0A \<notin> set (su_name u)" "CHR 0x0A \<notin> set (su_group u)"
  shows "split_on (CHR 0x0A) t = unit_head @ [''User='' @ su_name u, ''Group='' @ su_group u]
      @ unit_tail exe dir ''multi-user.target'' @ [[]]"
proof -
  have nn: "CHR 0x0A \<notin> set (systemdQuoteArg exe)" "CHR 0x0A \<notin> set (systemdQuoteArg dir)"
    using assms(1) by (auto simp: renderSystemUnit_def has_newline_def unit_escape_newline split: if_splits)
  have "\<forall>l \<in> set (unit_head @ [''User='' @ su_name u, ''Group='' @ su_group u] @ unit_tail exe dir ''multi-user.target'').
      CHR 0x0A \<notin> set l"
    using nn assms(2,3) by (simp add: unit_head_def unit_tail_def)
  from text_lines_split [OF this] show ?thesis
    using assms(1) by (auto simp: renderSystemUnit_def split: if_splits)
qed

section \<open>The change of ownership\<close>

text \<open>\<open>gave h h' uid gid ps\<close>: between the two states exactly the paths \<open>ps\<close> were given to the account, in that
  order, and no file and no command changed.\<close>

definition gave :: "host \<Rightarrow> host \<Rightarrow> int \<Rightarrow> int \<Rightarrow> string list \<Rightarrow> bool" where
  "gave h h' uid gid ps \<longleftrightarrow> h_owner h' = h_owner h @ map (\<lambda>p. (p, uid, gid)) ps
     \<and> h_cmds h' = h_cmds h \<and> fs_get (h_world h') = fs_get (h_world h) \<and> w_fail (h_world h') = w_fail (h_world h)"

lemma gave_refl [simp]: "gave h h uid gid []"
  by (simp add: gave_def)

lemma gave_trans: "gave h h1 uid gid ps \<Longrightarrow> gave h1 h2 uid gid qs \<Longrightarrow> gave h h2 uid gid (ps @ qs)"
  by (simp add: gave_def)

lemma os_stat_fs_fail: "os_stat p w = (r, w') \<Longrightarrow> fs_get w' = fs_get w \<and> w_fail w' = w_fail w"
  by (auto simp: os_stat_def sys_def tick_def fs_get_def split: option.splits)

lemma os_lchown_gave:
  "os_lchown uid gid p h = (r, h') \<Longrightarrow> (r = Inr () \<and> gave h h' uid gid [p]) \<or> ((\<exists>e. r = Inl e) \<and> gave h h' uid gid [])"
  by (auto simp: os_lchown_def on_host_def gave_def dest: os_stat_fs_fail split: prod.splits sum.splits)

lemma chown_visit_gave:
  "chown_visit uid gid p h = (r, h') \<Longrightarrow> (r = Inr () \<and> gave h h' uid gid [p]) \<or> ((\<exists>e. r = Inl e) \<and> gave h h' uid gid [])"
proof -
  assume run: "chown_visit uid gid p h = (r, h')"
  obtain s h1 where s: "on_host (os_stat p) h = (s, h1)" by (cases "on_host (os_stat p) h")
  have g1: "gave h h1 uid gid []" using s by (auto simp: on_host_def gave_def dest: os_stat_fs_fail split: prod.splits)
  show ?thesis
  proof (cases s)
    case (Inl e)
    with run s g1 show ?thesis by (auto simp: chown_visit_def)
  next
    case (Inr fi)
    obtain d h2 where d: "(if n_kind fi = KDir then on_host (os_read_dir p) h1 else (Ok [], h1)) = (d, h2)" by fastforce
    have g2: "gave h1 h2 uid gid []"
      using d by (auto simp: on_host_def gave_def os_read_dir_def sys_def tick_def fs_get_def split: if_splits prod.splits option.splits)
    have "gave h h2 uid gid []" using gave_trans [OF g1 g2] by simp
    then have step: "gave h2 h' uid gid ps \<Longrightarrow> gave h h' uid gid ps" for ps
      using gave_trans [of h h2 uid gid "[]" h' ps] by simp
    show ?thesis
    proof (cases d)
      case Inl
      with run s Inr d \<open>gave h h2 uid gid []\<close> show ?thesis by (auto simp: chown_visit_def)
    next
      case (Inr ks)
      then have "os_lchown uid gid p h2 = (r, h')" using run s \<open>s = Inr fi\<close> d by (simp add: chown_visit_def)
      then show ?thesis using os_lchown_gave step by blast
    qed
  qed
qed

lemma chown_all_gave:
  "chown_all uid gid ps h = (r, h') \<Longrightarrow> \<exists>k \<le> length ps. gave h h' uid gid (take k ps) \<and> (r = Inr () \<longrightarrow> k = length ps)"
proof (induction ps arbitrary: h)
  case (Cons p ps)
  obtain s h1 where s: "chown_visit uid gid p h = (s, h1)" by (cases "chown_visit uid gid p h")
  from chown_visit_gave [OF s] consider (ok) "s = Inr ()" "gave h h1 uid gid [p]" | (err) e where "s = Inl e" "gave h h1 uid gid []" by auto
  then show ?case
  proof cases
    case ok
    with Cons.prems s have "chown_all uid gid ps h1 = (r, h')" by simp
    from Cons.IH [OF this] obtain k where k: "k \<le> length ps" "gave h1 h' uid gid (take k ps)" "r = Inr () \<longrightarrow> k = length ps" by blast
    with gave_trans [OF ok(2) k(2)] show ?thesis by (intro exI [of _ "Suc k"]) simp
  next
    case err
    then show ?thesis using Cons.prems s by (intro exI [of _ 0]) auto
  qed
qed simp

text \<open>The loop over the parents ends when the prefix is longer than the root, at a clean rooted path: the
  components run out.\<close>

lemma chown_parents_step:
  "chown_parents uid gid pre p h = (if has_prefix p pre then
      (case os_lchown uid gid p h of (Inl e, h') \<Rightarrow> Some (Err e, h') | (Inr _, h') \<Rightarrow> chown_parents uid gid pre (path_dir p) h')
    else Some (Ok (), h))"
  by (rule chown_parents.simps)

lemma chown_parents_ends:
  assumes "clean_nf True st" and "2 \<le> length pre"
  shows "\<exists>r h' qs. chown_parents uid gid pre (clean_render True st) h = Some (r, h') \<and> gave h h' uid gid qs
    \<and> (\<exists>k. qs = take k (takeWhile (\<lambda>q. has_prefix q pre) (clean_render True st # ancestors st))
          \<and> (r = Inr () \<longrightarrow> qs = takeWhile (\<lambda>q. has_prefix q pre) (clean_render True st # ancestors st)))"
  using assms(1)
proof (induction st arbitrary: h)
  case Nil
  have "\<not> has_prefix [slash] pre" using assms(2) by (cases pre) (auto simp: has_prefix_def)
  then show ?case by (subst chown_parents_step) (auto intro!: exI [of _ 0])
next
  case (Cons c st)
  let ?p = "clean_render True (c # st)"
  let ?t = "\<lambda>st. takeWhile (\<lambda>q. has_prefix q pre) (clean_render True st # ancestors st)"
  show ?case
  proof (cases "has_prefix ?p pre")
    case False
    then show ?thesis by (subst chown_parents_step) (auto intro!: exI [of _ 0])
  next
    case True
    obtain s h1 where s: "os_lchown uid gid ?p h = (s, h1)" by (cases "os_lchown uid gid ?p h")
    have t: "?t (c # st) = ?p # ?t st" using True by simp
    from os_lchown_gave [OF s] consider (ok) "s = Inr ()" "gave h h1 uid gid [?p]"
      | (err) e where "s = Inl e" "gave h h1 uid gid []" by auto
    then show ?thesis
    proof cases
      case ok
      have nf: "clean_nf True st" using Cons.prems by simp
      from Cons.IH [OF nf, of h1] obtain r h' qs k where ih:
        "chown_parents uid gid pre (clean_render True st) h1 = Some (r, h')" "gave h1 h' uid gid qs"
        "qs = take k (?t st)" "r = Inr () \<longrightarrow> qs = ?t st" by blast
      have "chown_parents uid gid pre ?p h = Some (r, h')"
        using True s ok(1) ih(1) path_dir_render [OF Cons.prems] by (subst chown_parents_step) simp
      moreover have "gave h h' uid gid (?p # qs)" using gave_trans [OF ok(2) ih(2)] by simp
      moreover have "?p # qs = take (Suc k) (?t (c # st))" using ih(3) t by simp
      moreover have "r = Inr () \<longrightarrow> ?p # qs = ?t (c # st)" using ih(4) t by simp
      ultimately show ?thesis by blast
    next
      case err
      have "chown_parents uid gid pre ?p h = Some (Inl e, h1)" using True s err(1) by (subst chown_parents_step) simp
      with err(2) show ?thesis by (intro exI [of _ "Inl e"] exI [of _ h1] exI [of _ "[]"]) (auto intro!: exI [of _ 0])
    qed
  qed
qed

text \<open>With the root as the account's home the prefix is the root itself, which is its own parent: where no call
  fails, the loop does not end.\<close>

definition parents_exist :: "world \<Rightarrow> bool" where
  "parents_exist w \<longleftrightarrow> (\<forall>p. fs_get w p \<noteq> None \<longrightarrow> fs_get w (path_dir p) \<noteq> None)"

lemma os_lchown_quiet:
  assumes "quiet (h_world h)" and "fs_get (h_world h) p \<noteq> None"
  obtains h' where "os_lchown uid gid p h = (Inr (), h')" "quiet (h_world h')" "fs_get (h_world h') = fs_get (h_world h)"
  using assms by (auto simp: os_lchown_def on_host_def os_stat_def split: option.splits)

lemma dir_split: "p = rev (dropWhile (\<lambda>c. c \<noteq> slash) (rev p)) @ rev (takeWhile (\<lambda>c. c \<noteq> slash) (rev p))"
  by (metis rev_append rev_rev_ident takeWhile_dropWhile_id)

lemma path_dir_abs: "is_abs p \<Longrightarrow> is_abs (path_dir p)"
proof -
  assume p: "is_abs p"
  let ?q = "rev (dropWhile (\<lambda>c. c \<noteq> slash) (rev p))"
  note split = dir_split [of p]
  obtain t where t: "p = slash # t" using p by (cases p) (auto simp: is_abs_def has_prefix_def)
  then have "slash \<in> set (rev p)" by simp
  then have "?q \<noteq> []" by (simp add: dropWhile_eq_Nil_conv)
  then have "hd ?q = slash" using split t by (metis hd_append2 list.sel(1))
  with \<open>?q \<noteq> []\<close> have "is_abs ?q" by (cases ?q) (auto simp: is_abs_def has_prefix_def)
  with \<open>?q \<noteq> []\<close> obtain st where "path_clean ?q = clean_render True st" using path_clean_nf [of ?q] by metis
  then show ?thesis by (simp add: path_dir_def)
qed

lemma chown_parents_root_raw:
  "chown_parents uid gid pre p h = Some r \<Longrightarrow>
     \<not> (pre = [slash] \<and> is_abs p \<and> quiet (h_world h) \<and> parents_exist (h_world h) \<and> fs_get (h_world h) p \<noteq> None)"
proof (erule chown_parents.raw_induct [where P = "\<lambda>uid gid pre p h r. \<not> (pre = [slash] \<and> is_abs p \<and> quiet (h_world h)
    \<and> parents_exist (h_world h) \<and> fs_get (h_world h) p \<noteq> None)", rotated], goal_cases)
  case (1 f uid gid pre p h r)
  show ?case
  proof (rule notI, elim conjE)
    assume a: "pre = [slash]" "is_abs p" "quiet (h_world h)" "parents_exist (h_world h)" "fs_get (h_world h) p \<noteq> None"
    obtain h' where h': "os_lchown uid gid p h = (Inr (), h')" "quiet (h_world h')" "fs_get (h_world h') = fs_get (h_world h)"
      using os_lchown_quiet a(3,5) by blast
    have "has_prefix p pre" using a(1,2) by (simp add: is_abs_def)
    with 1(2) h'(1) have call: "f uid gid pre (path_dir p) h' = Some r" by simp
    moreover have "fs_get (h_world h) (path_dir p) \<noteq> None" using a(4,5) unfolding parents_exist_def by blast
    moreover have "parents_exist (h_world h')" using a(4) h'(3) unfolding parents_exist_def by (simp only: )
    ultimately show False using 1(1) [OF call] a(1) h' path_dir_abs [OF a(2)] by simp
  qed
qed

lemma chown_parents_root:
  "is_abs p \<Longrightarrow> quiet (h_world h) \<Longrightarrow> parents_exist (h_world h) \<Longrightarrow> fs_get (h_world h) p \<noteq> None \<Longrightarrow>
     chown_parents uid gid [slash] p h = None"
  using chown_parents_root_raw by (cases "chown_parents uid gid [slash] p h") blast+

section \<open>The guard against symbolic links\<close>

fun part_paths :: "string \<Rightarrow> string list \<Rightarrow> string list" where
  "part_paths cur [] = []"
| "part_paths cur (p # ps) = path_join [cur, p] # part_paths (path_join [cur, p]) ps"

text \<open>The components that exist: up to the first that does not.\<close>

definition existing :: "world \<Rightarrow> string list \<Rightarrow> string list" where
  "existing w = takeWhile (\<lambda>p. fs_get w p \<noteq> None)"

lemma check_parts_quiet:
  assumes "quiet w"
  shows "(\<exists>w'. check_parts oserr cur parts w = (Ok (), w'))
    \<longleftrightarrow> (\<forall>p \<in> set (existing w (part_paths cur parts)). \<forall>n. fs_get w p = Some n \<longrightarrow> n_kind n \<noteq> KSymlink)"
  using assms
proof (induction parts arbitrary: cur w)
  case (Cons part parts)
  let ?p = "path_join [cur, part]"
  show ?case
  proof (cases "fs_get w ?p")
    case None
    then show ?thesis using Cons.prems by (simp add: Let_def io_case_def os_stat_def existing_def)
  next
    case (Some n)
    have ex: "existing (tick w) = existing w" by (simp add: existing_def)
    show ?thesis
      using Some Cons.prems Cons.IH [of "tick w" ?p]
      by (simp add: Let_def io_case_def os_stat_def ex) (simp add: existing_def)
  qed
qed (simp add: existing_def)

lemma leaves_check_parts: "check_parts oserr cur parts w = (r, w') \<Longrightarrow> fs_get w' = fs_get w"
proof (induction parts arbitrary: cur w)
  case (Cons part parts)
  then show ?case
    by (auto simp: Let_def io_case_def dest: os_stat_fs_fail split: prod.splits sum.splits if_splits)
qed simp

text \<open>A relative state directory, and any directory of an account whose home is the root, are let through
  without a look at the directory itself.\<close>

lemma relative_not_checked: "\<not> is_abs stateDir \<Longrightarrow> is_abs home \<Longrightarrow> ensureNoSymlinkBelowHome oserr stateDir home w = (Ok (), w)"
proof -
  assume rel: "\<not> is_abs stateDir" and home: "is_abs home"
  then have "home \<noteq> []" by (auto simp: is_abs_def has_prefix_def)
  have "\<not> is_abs (path_clean stateDir)"
  proof (cases "stateDir = []")
    case True
    then show ?thesis by (simp add: path_clean_def is_abs_def has_prefix_def)
  next
    case False
    then obtain st where st: "clean_nf False st" "path_clean stateDir = clean_render False st" using path_clean_nf rel by metis
    show ?thesis
    proof (cases "st = []")
      case True
      with st show ?thesis by (simp add: clean_render_def is_abs_def has_prefix_def)
    next
      case ne: False
      have "hd (rev st) \<in> set st" using ne hd_in_set [of "rev st"] by simp
      with clean_nf_parts [OF st(1)] have "hd (rev st) \<noteq> []" "slash \<notin> set (hd (rev st))" by blast+
      with join_not_rooted [of "rev st"] ne st show ?thesis by (simp add: clean_render_def)
    qed
  qed
  moreover have "is_abs (trim_right slash (path_clean home) @ [slash])"
  proof -
    obtain st where "path_clean home = clean_render True st" using path_clean_nf \<open>home \<noteq> []\<close> home by metis
    then obtain t where t: "path_clean home = slash # t" by (simp add: clean_render_def)
    have "\<exists>u. trim_right slash (slash # t) @ [slash] = slash # u"
    proof (cases "\<forall>x \<in> set t. x = slash")
      case True
      then show ?thesis by (simp add: trim_right_def dropWhile_append)
    next
      case False
      then show ?thesis by (auto simp: trim_right_def dropWhile_append)
    qed
    then obtain u where "trim_right slash (path_clean home) @ [slash] = slash # u" using t by metis
    then show ?thesis by (simp only: is_abs_def) (simp add: has_prefix_def)
  qed
  ultimately have "\<not> has_prefix (path_clean stateDir) (trim_right slash (path_clean home) @ [slash])"
    unfolding is_abs_def has_prefix_iff by (metis append_assoc)
  with \<open>home \<noteq> []\<close> show ?thesis by (simp add: ensureNoSymlinkBelowHome_def Let_def)
qed

section \<open>What an installation does\<close>

lemma start_unit_spec:
  assumes "start_unit (\<lambda>args. run_command env (pre @ args)) what res h = (res', h')" "\<not> sv_ok res" "sv_err res = None"
  shows "h_world h' = h_world h \<and> h_owner h' = h_owner h \<and> (sv_ok res' \<longleftrightarrow> sv_err res' = None)
    \<and> (\<exists>k. h_cmds h' = h_cmds h @ take k [pre @ [''daemon-reload''], pre @ [''enable'', ''--now'', daemonSystemdServiceName]]
          \<and> (sv_ok res' \<longrightarrow> 2 \<le> k))"
proof -
  obtain out err where r: "sn_run env (length (h_cmds h)) = (out, err)" by fastforce
  obtain out' err' where r': "sn_run env (Suc (length (h_cmds h))) = (out', err')" by fastforce
  show ?thesis
  proof (cases err)
    case Some
    then show ?thesis using assms r by (auto simp: start_unit_def run_command_def intro!: exI [of _ 1])
  next
    case None
    then show ?thesis using assms r r'
      by (cases err') (auto simp: start_unit_def run_command_def intro!: exI [of _ 2])
  qed
qed

lemma runSystemctl_pre: "runSystemctl env = (\<lambda>args. run_command env ([''systemctl''] @ args))"
  "runUserSystemctl env = (\<lambda>args. run_command env ([''systemctl'', ''--user''] @ args))"
  by (simp_all add: runSystemctl_def runUserSystemctl_def fun_eq_iff)

lemma write_unit_spec:
  assumes "write_unit env path t (\<lambda>args. run_command env (pre @ args)) what res h = (res', h')"
    and "\<not> sv_ok res" "sv_err res = None"
  shows "h_owner h' = h_owner h \<and> (sv_ok res' \<longleftrightarrow> sv_err res' = None) \<and> sv_unit_path res' = path
    \<and> (\<forall>q. q \<noteq> path \<longrightarrow> fs_get (h_world h') q = fs_get (h_world h) q)
    \<and> (sv_ok res' \<longrightarrow> h_cmds h' = h_cmds h @ [pre @ [''daemon-reload''], pre @ [''enable'', ''--now'', daemonSystemdServiceName]]
         \<and> (\<exists>n. fs_get (h_world h') path = Some n \<and> n_data n = bytes_of t))"
proof -
  obtain r w1 where w: "os_write_file path (bytes_of t) 420 (h_world h) = (r, w1)" by fastforce
  have other: "fs_get w1 q = fs_get (h_world h) q" if "q \<noteq> path" for q
    using leavesD [OF leaves_write_file [of "\<lambda>q. q \<noteq> path" path "bytes_of t" 420], of q "h_world h"] that w by simp
  show ?thesis
  proof (cases r)
    case Inl
    with assms w other show ?thesis by (auto simp: write_unit_def on_host_def)
  next
    case (Inr x)
    let ?res = "res\<lparr>sv_unit_path := path\<rparr>" and ?h = "h\<lparr>h_world := w1\<rparr>"
    have run: "start_unit (\<lambda>args. run_command env (pre @ args)) what ?res ?h = (res', h')"
      using assms(1) w Inr by (simp add: write_unit_def on_host_def)
    have path: "sv_unit_path res' = path"
      using run by (auto simp: start_unit_def run_command_def split: prod.splits option.splits)
    obtain n where "fs_get w1 path = Some n" "n_data n = bytes_of t" using os_write_file_data w Inr by (cases x) blast
    with start_unit_spec [OF run] assms(2,3) other path show ?thesis by auto
  qed
qed

text \<open>Every path of a walk is the directory or one under it, when the paths of the world are written clean.\<close>

definition clean_paths :: "world \<Rightarrow> bool" where
  "clean_paths w \<longleftrightarrow> (\<forall>k \<in> set (map fst (w_fs w)). path_clean k = k)"

definition within :: "string \<Rightarrow> string \<Rightarrow> bool" where
  "within d p \<longleftrightarrow> p = d \<or> has_prefix p (trim_right slash d @ [slash])"

lemma abs_append: "q \<noteq> [] \<Longrightarrow> is_abs (q @ r) = is_abs q"
  by (cases q) (auto simp: is_abs_def has_prefix_def)

lemma path_clean_abs: "is_abs (path_clean p) = is_abs p"
proof (cases "p = []")
  case True
  then show ?thesis by (simp add: path_clean_def is_abs_def has_prefix_def)
next
  case False
  then obtain st where st: "clean_nf (is_abs p) st" "path_clean p = clean_render (is_abs p) st" by (rule path_clean_nf)
  show ?thesis
  proof (cases "is_abs p")
    case rel: False
    show ?thesis
    proof (cases "st = []")
      case True
      with st rel show ?thesis by (simp add: clean_render_def is_abs_def has_prefix_def)
    next
      case ne: False
      have "hd (rev st) \<in> set st" using ne hd_in_set [of "rev st"] by simp
      with clean_nf_parts [OF st(1)] have "hd (rev st) \<noteq> []" "slash \<notin> set (hd (rev st))" by blast+
      with join_not_rooted [of "rev st"] ne st rel show ?thesis by (simp add: clean_render_def)
    qed
  qed (use st in simp)
qed

lemma path_dir_abs_iff: "is_abs (path_dir p) = is_abs p"
proof (cases "is_abs p")
  case True
  then show ?thesis by (simp add: path_dir_abs)
next
  case False
  let ?q = "rev (dropWhile (\<lambda>c. c \<noteq> slash) (rev p))"
  have "\<not> is_abs ?q"
  proof (cases "?q = []")
    case True
    moreover have "\<not> is_abs []" by (simp add: is_abs_def has_prefix_def)
    ultimately show ?thesis by metis
  next
    case ne: False
    have "is_abs p = is_abs ?q" using abs_append [OF ne] dir_split [of p] by metis
    with False show ?thesis by simp
  qed
  with False show ?thesis by (simp add: path_dir_def path_clean_abs)
qed

lemma trim_right_render: "clean_nf True st \<Longrightarrow> trim_right slash (clean_render True st) @ [slash] = (if st = [] then [slash] else clean_render True st @ [slash])"
proof (cases st)
  case Nil
  then show ?thesis by (simp add: trim_right_def)
next
  case (Cons c st')
  assume "clean_nf True st"
  with Cons have "c \<noteq> []" "slash \<notin> set c" by simp_all
  then have "c \<noteq> []" "last c \<noteq> slash" using last_in_set [of c] by metis+
  then have "rev c \<noteq> []" "hd (rev c) \<noteq> slash" by (simp_all add: hd_rev)
  then have "dropWhile (\<lambda>x. x = slash) (rev c @ r) = rev c @ r" for r by (cases "rev c") simp_all
  then show ?thesis using Cons by (simp add: trim_right_def clean_render_Cons)
qed

lemma child_within:
  assumes "clean_paths w" "is_abs d" "path_clean d = d" "k \<in> set (dir_paths w d)"
  shows "has_prefix k (trim_right slash d @ [slash])" "is_abs k" "path_clean k = k"
proof -
  have k: "path_dir k = d" "k \<noteq> [slash]" "path_clean k = k"
    using assms by (auto simp: dir_paths_def clean_paths_def)
  then have "is_abs k" using assms(2) path_dir_abs_iff by metis
  then show "is_abs k" "path_clean k = k" using k by simp_all
  from clean_rootedE [OF \<open>is_abs k\<close> k(3)] obtain st where st: "clean_nf True st" "k = clean_render True st" .
  then obtain c st' where c: "st = c # st'" using k(2) by (cases st) auto
  then have "d = clean_render True st'" using path_dir_render st k(1) by metis
  then show "has_prefix k (trim_right slash d @ [slash])"
    using trim_right_render [of st'] st c by (auto simp: has_prefix_iff clean_render_Cons)
qed

lemma within_trans_child:
  assumes "has_prefix k (trim_right slash d @ [slash])" "within k p"
  shows "within d p"
proof -
  obtain t where t: "k = trim_right slash d @ slash # t" using assms(1) by (auto simp: has_prefix_iff)
  have "\<exists>u. trim_right slash k @ [slash] = trim_right slash d @ slash # u"
  proof (cases "\<forall>x \<in> set t. x = slash")
    case True
    then have "trim_right slash k = trim_right slash d"
      by (simp add: t trim_right_def dropWhile_append)
    then show ?thesis by simp
  next
    case False
    then show ?thesis by (auto simp: t trim_right_def dropWhile_append)
  qed
  then obtain u where u: "trim_right slash k @ [slash] = (trim_right slash d @ [slash]) @ u" by auto
  have "has_prefix k (trim_right slash d @ [slash])" by (rule assms(1))
  moreover have "has_prefix p (trim_right slash d @ [slash])" if "has_prefix p (trim_right slash k @ [slash])"
    using that unfolding u has_prefix_iff by (metis append_assoc)
  ultimately show ?thesis using assms(2) by (auto simp: within_def)
qed

lemma walk_order_within:
  "clean_paths w \<Longrightarrow> is_abs d \<Longrightarrow> path_clean d = d \<Longrightarrow> p \<in> set (walk_order w d) \<Longrightarrow> within d p"
proof (induction w d rule: walk_order.induct)
  case (1 w d)
  from 1(5) consider "p = d" | k n where "fs_get w d = Some n" "n_kind n = KDir" "k \<in> set (dir_paths w d)" "length d < length k" "p \<in> set (walk_order w k)"
    by (auto simp: walk_order.simps [of w d] split: option.splits if_splits) metis
  then show ?case
  proof cases
    case 1
    then show ?thesis by (simp add: within_def)
  next
    case 2
    note k = child_within [OF 1(2-4) 2(3)]
    have "within k p" using 1(1) [of _ k] 2 1(2) k by auto
    with within_trans_child k(1) show ?thesis by blast
  qed
qed

abbreviation home_prefix :: "service_user \<Rightarrow> string" where
  "home_prefix u \<equiv> trim_right slash (su_home u) @ [slash]"

lemma chownStateTree_spec:
  assumes st: "clean_nf True st" "d = clean_render True st"
    and home: "su_home u = [] \<or> trim_right slash (su_home u) \<noteq> []"
  shows "\<exists>r h' ps. chownStateTree d u h = Some (r, h') \<and> gave h h' (su_uid u) (su_gid u) ps
    \<and> (\<forall>p \<in> set ps. p \<in> set (walk_order (h_world h) d) \<or> has_prefix p (home_prefix u))
    \<and> (r = Ok () \<longrightarrow> ps = walk_order (h_world h) d
         @ (if su_home u = [] then [] else takeWhile (\<lambda>q. has_prefix q (home_prefix u)) (ancestors st)))"
proof -
  let ?i = "su_uid u" and ?g = "su_gid u" and ?walk = "walk_order (h_world h) d" and ?pre = "home_prefix u"
  obtain s h1 where s: "chownRecursive d ?i ?g h = (s, h1)" by fastforce
  from chown_all_gave [of ?i ?g ?walk h s h1] s obtain k where k: "gave h h1 ?i ?g (take k ?walk)" "s = Ok () \<longrightarrow> k = length ?walk"
    by (auto simp: chownRecursive_def)
  consider (err) e where "s = Inl e" | (nohome) "s = Ok ()" "su_home u = []" | (ok) "s = Ok ()" "su_home u \<noteq> []"
    by (cases s) auto
  then show ?thesis
  proof cases
    case err
    then have "chownStateTree d u h = Some (Inl e, h1)" using s by (simp add: chownStateTree_def)
    moreover have "\<forall>p \<in> set (take k ?walk). p \<in> set ?walk" by (auto dest: in_set_takeD)
    ultimately show ?thesis using k(1) by (intro exI [of _ "Inl e"] exI [of _ h1] exI [of _ "take k ?walk"]) auto
  next
    case nohome
    then have "chownStateTree d u h = Some (Ok (), h1)" using s by (simp add: chownStateTree_def)
    then show ?thesis using k nohome by (intro exI [of _ "Ok ()"] exI [of _ h1] exI [of _ ?walk]) auto
  next
    case ok
    have len: "2 \<le> length ?pre" using home ok(2) by (cases "trim_right slash (su_home u)") auto
    obtain st' where st': "clean_nf True st'" "path_dir d = clean_render True st'"
      "takeWhile (\<lambda>q. has_prefix q ?pre) (clean_render True st' # ancestors st') = takeWhile (\<lambda>q. has_prefix q ?pre) (ancestors st)"
    proof (cases st)
      case Nil
      have "\<not> has_prefix [slash] ?pre" using len by (cases ?pre) (auto simp: has_prefix_def)
      then show ?thesis using that [of "[]"] st Nil by simp
    next
      case (Cons c st')
      then show ?thesis using that [of st'] st path_dir_render [of c st'] by simp
    qed
    from chown_parents_ends [OF st'(1) len, of ?i ?g h1] obtain r h' qs k' where p:
      "chown_parents ?i ?g ?pre (path_dir d) h1 = Some (r, h')" "gave h1 h' ?i ?g qs"
      "qs = take k' (takeWhile (\<lambda>q. has_prefix q ?pre) (ancestors st))"
      "r = Ok () \<longrightarrow> qs = takeWhile (\<lambda>q. has_prefix q ?pre) (ancestors st)"
      unfolding st' by blast
    have "chownStateTree d u h = Some (r, h')" using s ok p(1) by (simp add: chownStateTree_def)
    moreover have "gave h h' ?i ?g (?walk @ qs)" using gave_trans [OF k(1) p(2)] k(2) ok(1) by simp
    moreover have "\<forall>q \<in> set qs. has_prefix q ?pre" using p(3) by (auto dest: in_set_takeD set_takeWhileD)
    ultimately show ?thesis using p(4) ok(2) by (intro exI [of _ r] exI [of _ h'] exI [of _ "?walk @ qs"]) auto
  qed
qed

abbreviation system_unit_path :: string where
  "system_unit_path \<equiv> path_join [''/etc/systemd/system'', daemonSystemdServiceName]"

lemma installDaemonService_cases:
  assumes "sp_system plan" "sp_user plan = Some u" "path_abs (sn_cwd env) dir = Ok d"
    and "res0 = \<lparr>sv_name = daemonSystemdServiceName, sv_unit_path = [], sv_mode = ''system'', sv_user = [], sv_ok = False, sv_err = None\<rparr>"
  obtains (failed) res where "installDaemonService env dir (plan, None) h = Some (res, h)" "\<not> sv_ok res" "sv_err res \<noteq> None"
  | (tried) exe t where "bind_res (sn_exe env) (path_abs (sn_cwd env)) = Ok exe" "renderSystemUnit exe d u = Ok t"
      "installDaemonService env dir (plan, None) h = setupSystemService env res0 exe d (Some u) h"
proof (cases "sn_goos env = ''linux'' \<and> sn_has_systemctl env")
  case False
  then have "\<exists>e. installDaemonService env dir (plan, None) h = Some (res0\<lparr>sv_err := Some e\<rparr>, h)"
    using assms by (simp add: installDaemonService_def Let_def)
  then show ?thesis using assms(4) by (auto intro: failed)
next
  case linux: True
  show ?thesis
  proof (cases "bind_res (sn_exe env) (path_abs (sn_cwd env))")
    case (Inl e)
    then have "\<exists>e. installDaemonService env dir (plan, None) h = Some (res0\<lparr>sv_err := Some e\<rparr>, h)"
      using assms linux by (simp add: installDaemonService_def Let_def)
    then show ?thesis using assms(4) by (auto intro: failed)
  next
    case exe: (Inr exe)
    have step: "installDaemonService env dir (plan, None) h = setupSystemService env res0 exe d (Some u) h"
      using linux exe assms by (simp add: installDaemonService_def)
    show ?thesis
    proof (cases "renderSystemUnit exe d u")
      case (Inl e)
      then have "installDaemonService env dir (plan, None) h = Some (res0\<lparr>sv_user := su_name u, sv_err := Some e\<rparr>, h)"
        using step assms(4) by (simp add: setupSystemService_def Let_def)
      then show ?thesis using assms(4) by (auto intro: failed)
    next
      case (Inr t)
      show ?thesis by (rule tried [OF exe Inr step])
    qed
  qed
qed


definition demo_account :: service_user where
  "demo_account = \<lparr>su_name = ''ubuntu'', su_home = ''/home/ubuntu'', su_group = ''ubuntu'', su_uid = 1000, su_gid = 1000\<rparr>"

definition demo_lookup :: user_lookup where
  "demo_lookup = \<lparr>byName = (\<lambda>n. if n = ''ubuntu'' then Ok demo_account else Err ''unknown user''), byUID = (\<lambda>_. Err ''unknown userid'')\<rparr>"

definition demo_service_env :: service_env where
  "demo_service_env = \<lparr>sn_goos = ''linux'', sn_has_systemctl = True, sn_exe = Ok ''/usr/local/bin/agbridge'', sn_cwd = Ok ''/root'',
     sn_home = Ok ''/root'', sn_run = (\<lambda>_. ([], None)), sn_oserr = (\<lambda>_. ''error'')\<rparr>"

definition demo_dir :: node where "demo_dir = (plain_file [])\<lparr>n_kind := KDir\<rparr>"

definition demo_host :: host where
  "demo_host = \<lparr>h_world = plain_world
      [(''/'', demo_dir), (''/home'', demo_dir), (''/home/ubuntu'', demo_dir), (''/home/ubuntu/.config'', demo_dir),
       (''/home/ubuntu/.config/agbridge'', demo_dir), (''/home/ubuntu/.config/agbridge/state.json'', plain_file []),
       (''/etc/systemd/system'', demo_dir)] (\<lambda>_. None), h_owner = [], h_cmds = []\<rparr>"


text \<open>An account whose home is the root makes the installation run for ever: where no call fails, the loop over the
  parents gives the root directory to the account again and again.\<close>

theorem root_home_never_returns:
  assumes "su_home u = [slash]" "is_abs d" "chownRecursive d (su_uid u) (su_gid u) h = (Ok (), h1)"
    and "quiet (h_world h1)" "parents_exist (h_world h1)" "fs_get (h_world h1) (path_dir d) \<noteq> None"
  shows "chownStateTree d u h = None"
proof -
  have "trim_right slash [slash] @ [slash] = [slash]" by (simp add: trim_right_def)
  then show ?thesis
    using assms chown_parents_root [OF path_dir_abs [OF assms(2)] assms(4-6)] by (simp add: chownStateTree_def)
qed

section \<open>What an installation leaves alone\<close>

lemma chown_parents_fs: "chown_parents uid gid pre p h = Some r \<Longrightarrow> fs_get (h_world (snd r)) = fs_get (h_world h)"
proof (erule chown_parents.raw_induct [where P = "\<lambda>uid gid pre p h r. fs_get (h_world (snd r)) = fs_get (h_world h)", rotated], goal_cases)
  case (1 f uid gid pre p h r)
  obtain s h1 where s: "os_lchown uid gid p h = (s, h1)" by fastforce
  then have "fs_get (h_world h1) = fs_get (h_world h)" using os_lchown_gave [OF s] by (auto simp: gave_def)
  moreover have "fs_get (h_world (snd r)) = fs_get (h_world h1) \<or> r = (Ok (), h) \<or> r = (s, h1)"
    using 1 s by (cases s) (auto split: if_splits)
  ultimately show ?case by auto
qed

lemma chownStateTree_fs: "chownStateTree d u h = Some (r, h') \<Longrightarrow> fs_get (h_world h') = fs_get (h_world h)"
proof -
  assume run: "chownStateTree d u h = Some (r, h')"
  obtain s h1 where s: "chownRecursive d (su_uid u) (su_gid u) h = (s, h1)" by fastforce
  then have "fs_get (h_world h1) = fs_get (h_world h)"
    using chown_all_gave [of "su_uid u" "su_gid u" "walk_order (h_world h) d" h s h1] by (auto simp: chownRecursive_def gave_def)
  with run s show ?thesis
    by (cases s) (auto simp: chownStateTree_def dest: chown_parents_fs split: if_splits)
qed

lemma start_unit_world:
  assumes "\<And>args h. h_world (snd (ctl args h)) = h_world h"
  shows "h_world (snd (start_unit ctl what res h)) = h_world h"
proof -
  obtain a h1 where a: "ctl [''daemon-reload''] h = (a, h1)" by fastforce
  obtain b h2 where b: "ctl [''enable'', ''--now'', daemonSystemdServiceName] h1 = (b, h2)" by fastforce
  have "h_world h1 = h_world h" "h_world h2 = h_world h1" using assms a b by (metis snd_conv)+
  then show ?thesis using a b by (cases a; cases b) (auto simp: start_unit_def split: option.splits)
qed

lemma write_unit_fs:
  assumes "\<And>args h. h_world (snd (ctl args h)) = h_world h" "q \<noteq> path"
  shows "fs_get (h_world (snd (write_unit env path t ctl what res h))) q = fs_get (h_world h) q"
proof -
  obtain r w1 where w: "os_write_file path (bytes_of t) 420 (h_world h) = (r, w1)" by fastforce
  have "fs_get w1 q = fs_get (h_world h) q"
    using leavesD [OF leaves_write_file [of "\<lambda>q. q \<noteq> path" path "bytes_of t" 420], of q "h_world h"] assms(2) w by simp
  then show ?thesis using w start_unit_world [OF assms(1)]
    by (cases r) (auto simp: write_unit_def on_host_def)
qed

lemma systemctl_world [simp]: "h_world (snd (runSystemctl env args h)) = h_world h" "h_world (snd (runUserSystemctl env args h)) = h_world h"
  by (simp_all add: runSystemctl_def runUserSystemctl_def run_command_def)

lemma unit_path_last: "last (path_join [d, daemonSystemdServiceName]) = CHR ''e''"
proof -
  have "plain_name daemonSystemdServiceName" "last daemonSystemdServiceName = CHR ''e''"
    by (simp_all add: plain_name_def daemonSystemdServiceName_def)
  then show ?thesis using path_join_last by metis
qed

lemma setupSystemService_keeps:
  assumes "setupSystemService env res exe d user h = Some (r, h')" "last q \<noteq> CHR ''e''"
  shows "fs_get (h_world h') q = fs_get (h_world h) q"
proof -
  have q: "q \<noteq> system_unit_path" using assms(2) unit_path_last by metis
  show ?thesis
  proof (cases user)
    case None
    with assms show ?thesis by (auto simp: setupSystemService_def)
  next
    case (Some u)
    show ?thesis
    proof (cases "renderSystemUnit exe d u")
      case (Inl e)
      with assms Some show ?thesis by (auto simp: setupSystemService_def)
    next
      case t: (Inr t)
      with assms Some obtain c h1 where c: "chownStateTree d u h = Some (c, h1)"
        by (auto simp: setupSystemService_def Let_def split: option.splits)
      note fs = chownStateTree_fs [OF c]
      show ?thesis
      proof (cases c)
        case (Inl e)
        with assms Some t c fs show ?thesis by (auto simp: setupSystemService_def)
      next
        case (Inr x)
        let ?res = "(res\<lparr>sv_mode := ''system''\<rparr>)\<lparr>sv_user := su_name u\<rparr>"
        have "write_unit env system_unit_path t (runSystemctl env) ''systemctl'' ?res h1 = (r, h')"
          using assms Some t c Inr by (simp add: setupSystemService_def Let_def)
        then have "fs_get (h_world h') q = fs_get (h_world h1) q"
          using write_unit_fs [where ctl = "runSystemctl env" and q = q and path = system_unit_path and env = env and t = t
            and what = "''systemctl''" and res = ?res and h = h1] q by simp
        with fs show ?thesis by simp
      qed
    qed
  qed
qed

lemma setupUserService_keeps:
  assumes "setupUserService env res exe d h = (r, h')" "last q \<noteq> CHR ''e''" "fs_get (h_world h) q = Some n"
  shows "fs_get (h_world h') q = Some n"
proof (cases "renderUserUnit exe d")
  case (Inl e)
  with assms show ?thesis by (auto simp: setupUserService_def)
next
  case t: (Inr t)
  show ?thesis
  proof (cases "\<exists>home. sn_home env = Ok home \<and> home \<noteq> []")
    case False
    with assms t show ?thesis by (auto simp: setupUserService_def Let_def split: sum.splits if_splits)
  next
    case True
    then obtain home where home: "sn_home env = Ok home" "home \<noteq> []" by blast
    let ?d = "path_join [home, ''.config'', ''systemd'', ''user'']"
    obtain m h1 where m: "on_host (os_mkdir_all ?d 493) h = (m, h1)" by fastforce
    have keep: "fs_get (h_world h1) q = Some n"
      using m mkdirs_keep [OF assms(3), of 493 "path_prefixes ?d"] by (auto simp: on_host_def os_mkdir_all_def split: prod.splits)
    show ?thesis
    proof (cases m)
      case (Inl e)
      with assms t home m keep show ?thesis by (auto simp: setupUserService_def Let_def)
    next
      case (Inr x)
      let ?p = "path_join [?d, daemonSystemdServiceName]"
      have "write_unit env ?p t (runUserSystemctl env) ''systemctl --user'' (res\<lparr>sv_mode := ''user''\<rparr>) h1 = (r, h')"
        using assms t home m Inr by (simp add: setupUserService_def Let_def)
      moreover have "q \<noteq> ?p" using assms(2) unit_path_last by metis
      ultimately show ?thesis
        using write_unit_fs [where ctl = "runUserSystemctl env" and q = q and path = ?p and env = env and t = t
          and what = "''systemctl --user''" and res = "res\<lparr>sv_mode := ''user''\<rparr>" and h = h1] keep by simp
    qed
  qed
qed

text \<open>No file that exists is changed but a unit: no path that ends differently.\<close>

lemma installDaemonService_keeps:
  assumes "installDaemonService env dir planned h = Some (r, h')" "last q \<noteq> CHR ''e''" "fs_get (h_world h) q = Some n"
  shows "fs_get (h_world h') q = Some n"
  using assms setupSystemService_keeps setupUserService_keeps
  by (cases planned) (auto simp: installDaemonService_def Let_def split: option.splits if_splits sum.splits)

end
