(* ===== verification/Enroll_Run.thy ===== *)
theory Enroll_Run
  imports Enroll_Client Service
begin

text \<open>
  The command \<open>agbridge enroll\<close> from its flags to its report (\<open>cmd/agbridge/enroll.go\<close>), with the probes it makes of
  the gateway, the exchange of the token, the choice of the state directory, the files it writes and the service
  it installs; \<open>doctor.go\<close>, which makes the same probes of an enrolled device; \<open>logout.go\<close>; \<open>keygen.go\<close>; and
  \<open>issue_token.go\<close>, which mints the token.

  What the network answers (name resolution, TCP, TLS, HTTP), the parsing of URLs and JSON, and the new key
  are part of the environment.  The times of the report are not modelled.
\<close>

section \<open>The report\<close>

record enroll_step =
  stp_stage :: string
  stp_ok :: bool
  stp_message :: string

record enroll_outcome =
  oc_ok :: bool
  oc_stage :: string
  oc_error :: string
  oc_device_id :: string
  oc_role :: string
  oc_state_path :: string
  oc_service :: string
  oc_service_mode :: string
  oc_service_user :: string
  oc_service_ok :: bool
  oc_service_error :: string
  oc_steps :: "enroll_step list"

definition new_outcome :: enroll_outcome where
  "new_outcome = \<lparr>oc_ok = False, oc_stage = [], oc_error = [], oc_device_id = [], oc_role = [], oc_state_path = [],
     oc_service = [], oc_service_mode = [], oc_service_user = [], oc_service_ok = False, oc_service_error = [], oc_steps = []\<rparr>"

text \<open>A run of stages: the steps reported, and the stage that failed with its error, or a value.\<close>

type_synonym 'a staged = "enroll_step list \<times> ((string \<times> string) + 'a)"

definition staged_bind :: "'a staged \<Rightarrow> ('a \<Rightarrow> 'b staged) \<Rightarrow> 'b staged" where
  "staged_bind m f =
     (case m of (s, Inl e) \<Rightarrow> (s, Inl e) | (s, Inr v) \<Rightarrow> (let (s', r) = f v in (s @ s', r)))"

definition fail_stage :: "string \<Rightarrow> string \<Rightarrow> 'a staged" where
  "fail_stage name e = ([], Err (name, e))"

text \<open>\<open>report\<close> and then \<open>fail\<close>, or only \<open>report\<close>: an error comes with the message of its step.\<close>

definition stage :: "string \<Rightarrow> (string \<times> string) + 'a \<Rightarrow> ('a \<Rightarrow> string) \<Rightarrow> 'a staged" where
  "stage name r msg =
     (case r of
        Inl (m, e) \<Rightarrow> ([\<lparr>stp_stage = name, stp_ok = False, stp_message = m\<rparr>], Err (name, e))
      | Inr v \<Rightarrow> ([\<lparr>stp_stage = name, stp_ok = True, stp_message = msg v\<rparr>], Ok v))"

definition same_text :: "string + 'a \<Rightarrow> (string \<times> string) + 'a" where
  "same_text r = (case r of Inl e \<Rightarrow> Err (e, e) | Inr v \<Rightarrow> Ok v)"

section \<open>The network\<close>

record enroll_net =
  en_parse :: "string \<Rightarrow> string + string"
  en_dns :: "string \<Rightarrow> string + nat"
  en_tcp :: "string \<Rightarrow> string + unit"
  en_tls :: "tls_config \<Rightarrow> string \<Rightarrow> string + bytes list"
  en_probe :: "string \<Rightarrow> string + int"
  en_post :: "string \<Rightarrow> enroll_request \<Rightarrow> string + (int \<times> string)"
  en_json :: "string \<Rightarrow> string + enroll_response"
  en_genkey :: "string + static_key"
  en_now :: int
  en_euid :: int
  en_passwd :: passwd
  en_svc :: service_env
  en_enc_bridge :: "bridge_state \<Rightarrow> bytes"
  en_enc_daemon :: "daemon_state \<Rightarrow> bytes"

definition tls_mode_text :: "auth_error \<Rightarrow> string" where
  "tls_mode_text e = (case e of ErrTLSMode m \<Rightarrow> ''gateway tls mode '' @ go_q m @ '' invalid (want pin|webpki)'' | _ \<Rightarrow> [])"

definition with_port :: "string \<Rightarrow> string" where
  "with_port h = (if CHR '':'' \<in> set h then h else h @ '':443'')"

definition enroll_url :: "string \<Rightarrow> string" where
  "enroll_url host = ''https://'' @ host @ ''/v1/enroll''"

definition tls_probe :: "enroll_net \<Rightarrow> string \<Rightarrow> string \<Rightarrow> string + bytes list" where
  "tls_probe net mode host =
     (case EnrollTLSConfig mode of Inl e \<Rightarrow> Err (tls_mode_text e) | Inr cfg \<Rightarrow> en_tls net cfg host)"

definition first_cert :: "bytes list \<Rightarrow> string + bytes" where
  "first_cert certs = (case certs of [] \<Rightarrow> Err ''no peer cert'' | c # _ \<Rightarrow> Ok c)"

text \<open>Stages 1 to 5; the mode, the address of the endpoint and the pin of the certificate seen.\<close>

definition enroll_probe :: "enroll_net \<Rightarrow> string \<Rightarrow> string \<Rightarrow> (string \<times> string \<times> string) staged" where
  "enroll_probe net gwURL tlsMode =
     (case NormalizeGatewayTLSMode tlsMode of
        Inl e \<Rightarrow> fail_stage ''tls_mode'' (tls_mode_text e)
      | Inr mode \<Rightarrow>
     (case en_parse net gwURL of
        Inl e \<Rightarrow> fail_stage ''url_parse'' (''invalid --gateway: '' @ e)
      | Inr h \<Rightarrow>
        if h = [] then fail_stage ''url_parse'' ''invalid --gateway: <nil>''
        else let host = with_port h in
     staged_bind (stage ''dns_resolve'' (same_text (en_dns net (hostnameOnly host))) (\<lambda>n. itoa (int n) @ '' address(es)'')) (\<lambda>_.
     staged_bind (stage ''tcp_connect'' (same_text (en_tcp net host)) (\<lambda>_. [])) (\<lambda>_.
     staged_bind (stage ''tls_handshake'' (same_text (bind_res (tls_probe net mode host) first_cert))
       (\<lambda>_. ''TLS 1.3 OK ('' @ mode @ '')'')) (\<lambda>cert.
     let pin = ''sha256:'' @ hex_encode (sha256 cert) in
     staged_bind (stage ''cert_pin'' (Ok ())
       (\<lambda>_. if mode = GatewayTLSModeWebPKI then pin @ '' (diagnostic only; webpki mode)'' else pin)) (\<lambda>_.
     staged_bind (stage ''http_reachable''
       (case en_probe net (enroll_url host) of
          Inl e \<Rightarrow> Err (e, e)
        | Inr code \<Rightarrow> if code \<noteq> 400 \<and> code \<noteq> 401
            then Err (''status '' @ itoa code @ '' (expected 400/401)'', ''status '' @ itoa code) else Ok ()) (\<lambda>_. [])) (\<lambda>_.
     ([], Ok (mode, enroll_url host, pin)))))))))"

text \<open>Stage 6: the answer to the token, its text or the decoded response, and the check of the pin.\<close>

definition exchange :: "enroll_net \<Rightarrow> string \<Rightarrow> string \<Rightarrow> string \<Rightarrow> enroll_request \<Rightarrow> (string \<times> string) + enroll_response" where
  "exchange net mode url pin req =
     (case en_post net url req of
        Inl e \<Rightarrow> Err (e, e)
      | Inr (code, body) \<Rightarrow>
          if code \<noteq> 200 then
            (let m = ''status '' @ itoa code @ '': '' @ trim_space body in Err (m, m))
          else
            (case en_json net body of
               Inl e \<Rightarrow> Err (e, e)
             | Inr resp \<Rightarrow>
                 if pin_mismatch mode pin resp
                 then Err (''pin mismatch: local='' @ pin @ '' remote='' @ es_cert_pin resp, ''cert pin mismatch'')
                 else Ok resp))"

definition windows_daemon_text :: string where
  "windows_daemon_text = ''Windows supports the CLI client only; create a bridge device and enroll with its token (this daemon token has already been exchanged)''"

definition enroll_network ::
  "enroll_net \<Rightarrow> string \<Rightarrow> string \<Rightarrow> string \<Rightarrow> (string \<times> static_key \<times> enroll_response) staged" where
  "enroll_network net gwURL token tlsMode =
     staged_bind (enroll_probe net gwURL tlsMode) (\<lambda>(mode, url, pin).
       case en_genkey net of
         Inl e \<Rightarrow> fail_stage ''noise_keygen'' e
       | Inr key \<Rightarrow>
           (case exchange net mode url pin \<lparr>eq_token = token, eq_pubkey = PubBase64 key\<rparr> of
              Inl e \<Rightarrow> staged_bind (stage ''token_exchange'' (Err e) (\<lambda>_. [])) (\<lambda>v. ([], Ok v))
            | Inr resp \<Rightarrow>
                if sn_goos (en_svc net) = ''windows'' \<and> enroll_role resp = ''daemon''
                then fail_stage ''device_role'' windows_daemon_text
                else staged_bind (stage ''token_exchange'' (Ok resp)
                       (\<lambda>_. ''device_id='' @ es_device_id resp @ '' role='' @ enroll_role resp)) (\<lambda>_.
                     ([], Ok (mode, key, resp)))))"

section \<open>The files\<close>

definition defaultStateDir :: "string + string \<Rightarrow> string" where
  "defaultStateDir home = (case home of Inr h \<Rightarrow> path_join [h, ''.config'', ''agbridge''] | Inl _ \<Rightarrow> ''.'')"

text \<open>The plan of the service and the state directory that goes with it.\<close>

definition enroll_plan ::
  "enroll_net \<Rightarrow> string \<Rightarrow> bool \<Rightarrow> string \<Rightarrow> string \<Rightarrow> (service_plan \<times> string option) \<times> string" where
  "enroll_plan net role start serviceUser stateDir =
     (let (plan, err) =
            (if role = ''daemon'' \<and> start
             then planDaemonService (en_euid net) serviceUser stateDir (stateDir \<noteq> []) (osUserLookup (en_passwd net))
             else (\<lparr>sp_system = False, sp_user = None, sp_state_dir = []\<rparr>, None));
          dir = (if role = ''daemon'' \<and> start \<and> err = None \<and> sp_state_dir plan \<noteq> [] then sp_state_dir plan else stateDir);
          dir = (if dir = [] then defaultStateDir (sn_home (en_svc net)) else dir)
      in ((plan, err), dir))"

definition key_path :: "string \<Rightarrow> string \<Rightarrow> string" where
  "key_path dir role = path_join [dir, role @ ''_noise.key'']"

definition state_path :: "string \<Rightarrow> string" where
  "state_path dir = path_join [dir, ''state.json'']"

text \<open>Stage 7: the directory, the key, the state.\<close>

definition save_device ::
  "enroll_net \<Rightarrow> string \<Rightarrow> string \<Rightarrow> static_key \<Rightarrow> enroll_response \<Rightarrow> string \<Rightarrow> (string, unit) io" where
  "save_device net gwURL mode key resp dir =
     (let et = sn_oserr (en_svc net); role = enroll_role resp; keyPath = key_path dir role in
      io_bind (on_err et (os_mkdir_all dir 448)) (\<lambda>_.
      io_bind (on_err et (SaveKey key keyPath)) (\<lambda>_.
        if role = ''bridge''
        then SaveBridge et (en_enc_bridge net) (state_path dir) (enrolled_bridge (en_now net) gwURL mode keyPath resp)
        else SaveDaemon et (en_enc_daemon net) (state_path dir) (enrolled_daemon (en_now net) gwURL mode keyPath resp))))"

definition state_dir_guard :: "enroll_net \<Rightarrow> service_plan \<Rightarrow> string \<Rightarrow> (string, unit) io" where
  "state_dir_guard net plan dir =
     (case sp_user plan of
        Some u \<Rightarrow> if sp_system plan then ensureNoSymlinkBelowHome (sn_oserr (en_svc net)) dir (su_home u) else io_ret ()
      | None \<Rightarrow> io_ret ())"

section \<open>The command\<close>

record enroll_run =
  rn_err :: "string option"
  rn_outcome :: enroll_outcome
  rn_json :: bool
  rn_out :: string

definition enroll_failed :: "bool \<Rightarrow> enroll_step list \<Rightarrow> string \<times> string \<Rightarrow> enroll_run" where
  "enroll_failed json steps e =
     \<lparr>rn_err = Some (fst e @ '': '' @ snd e),
      rn_outcome = new_outcome\<lparr>oc_stage := fst e, oc_error := snd e, oc_steps := steps\<rparr>, rn_json = json, rn_out = []\<rparr>"

definition enroll_report :: "string \<Rightarrow> enroll_response \<Rightarrow> string \<Rightarrow> string \<Rightarrow> service_result \<Rightarrow> bool \<Rightarrow> string" where
  "enroll_report gwURL resp statePath dir svc start =
     (if enroll_role resp = ''bridge'' then
        text_lines
          [check_mark @ '' Enrolled as bridge '' @ go_q (es_name resp), check_mark @ '' Gateway: '' @ gwURL,
           check_mark @ '' Default target: '' @ es_target_daemon resp, check_mark @ '' Config written to: '' @ statePath, [],
           ''Next: try `agbridge status` to verify the connection.'', ''Then `agbridge ai-help` for the AI usage cheat sheet.'']
      else text_lines
          [check_mark @ '' Enrolled as daemon '' @ go_q (es_name resp), check_mark @ '' Gateway: '' @ gwURL,
           check_mark @ '' Config written to: '' @ statePath, []] @ printDaemonServiceResult dir svc start)"

definition no_service :: service_result where
  "no_service = \<lparr>sv_name = [], sv_unit_path = [], sv_mode = [], sv_user = [], sv_ok = False, sv_err = None\<rparr>"

definition enroll_done ::
  "bool \<Rightarrow> string \<Rightarrow> enroll_response \<Rightarrow> string \<Rightarrow> bool \<Rightarrow> enroll_step list \<Rightarrow> service_result option \<Rightarrow> enroll_run" where
  "enroll_done json gwURL resp dir start steps svc =
     (let oc = new_outcome\<lparr>oc_ok := True, oc_device_id := es_device_id resp, oc_role := enroll_role resp,
                 oc_state_path := state_path dir, oc_steps := steps\<rparr>;
          oc = (case svc of None \<Rightarrow> oc
                | Some s \<Rightarrow> oc\<lparr>oc_service := sv_name s, oc_service_mode := sv_mode s, oc_service_user := sv_user s,
                    oc_service_ok := sv_ok s, oc_service_error := (case sv_err s of None \<Rightarrow> [] | Some e \<Rightarrow> e)\<rparr>);
          s = (case svc of None \<Rightarrow> no_service | Some s \<Rightarrow> s)
      in \<lparr>rn_err = None, rn_outcome = oc, rn_json = json,
          rn_out = (if json then [] else enroll_report gwURL resp (state_path dir) dir s start)\<rparr>)"

text \<open>\<^term>\<open>None\<close>: the command does not return, see the service.\<close>

definition runEnroll ::
  "enroll_net \<Rightarrow> string \<Rightarrow> string \<Rightarrow> string \<Rightarrow> string \<Rightarrow> string \<Rightarrow> bool \<Rightarrow> bool \<Rightarrow> host \<Rightarrow> (enroll_run \<times> host) option" where
  "runEnroll net gwURL token stateDir tlsMode serviceUser start json h =
     (case enroll_network net gwURL token tlsMode of
        (steps, Inl e) \<Rightarrow> Some (enroll_failed json steps e, h)
      | (steps, Inr (mode, key, resp)) \<Rightarrow>
          (let (planned, dir) = enroll_plan net (enroll_role resp) start serviceUser stateDir in
           case on_host (state_dir_guard net (fst planned) dir) h of
             (Inl e, h1) \<Rightarrow>
               Some (\<lparr>rn_err = Some (''enroll: unsafe state dir: '' @ e),
                      rn_outcome = new_outcome\<lparr>oc_steps := steps\<rparr>, rn_json = False, rn_out = []\<rparr>, h1)
           | (Inr _, h1) \<Rightarrow>
               (case on_host (save_device net gwURL mode key resp dir) h1 of
                  (Inl e, h2) \<Rightarrow>
                    Some (enroll_failed json (steps @ fst (stage ''save_state'' (Err (e, e)) (\<lambda>_::unit. []))) (''save_state'', e), h2)
                | (Inr u, h2) \<Rightarrow>
                    (let steps = steps @ fst (stage ''save_state'' (Ok u) (\<lambda>_. state_path dir)) in
                     if enroll_role resp = ''daemon'' \<and> start then
                       map_option (\<lambda>(svc, h3). (enroll_done json gwURL resp dir start steps (Some svc), h3))
                         (installDaemonService (en_svc net) dir planned h2)
                     else Some (enroll_done json gwURL resp dir start steps None, h2)))))"

text \<open>The command's own check of its flags.\<close>

definition enroll_cmd ::
  "enroll_net \<Rightarrow> string \<Rightarrow> string \<Rightarrow> string \<Rightarrow> string \<Rightarrow> string \<Rightarrow> bool \<Rightarrow> bool \<Rightarrow> host \<Rightarrow> (string option \<times> enroll_run option \<times> host) option" where
  "enroll_cmd net gwURL token stateDir tlsMode serviceUser noService json h =
     (if gwURL = [] \<or> token = [] then Some (Some ''--gateway and --token both required'', None, h)
      else map_option (\<lambda>(run, h'). (rn_err run, Some run, h'))
             (runEnroll net gwURL token stateDir tlsMode serviceUser (\<not> noService) json h))"

section \<open>What a run that succeeds went through\<close>

lemma staged_bind_Ok: "staged_bind m f = (s, Inr v) \<longleftrightarrow> (\<exists>s1 x s2. m = (s1, Inr x) \<and> f x = (s2, Inr v) \<and> s = s1 @ s2)"
  by (auto simp: staged_bind_def split: prod.splits sum.splits)

lemma stage_Ok: "stage name r msg = (s, Inr v) \<longleftrightarrow> r = Inr v \<and> s = [\<lparr>stp_stage = name, stp_ok = True, stp_message = msg v\<rparr>]"
  by (auto simp: stage_def split: sum.splits prod.splits)

lemma enroll_probe_Ok:
  assumes "enroll_probe net gwURL tlsMode = (s, Inr (mode, url, pin))"
  shows "NormalizeGatewayTLSMode tlsMode = Ok mode
    \<and> (\<exists>h c cs. en_parse net gwURL = Ok h \<and> url = enroll_url (with_port h)
         \<and> tls_probe net mode (with_port h) = Ok (c # cs) \<and> pin = CertFingerprintSHA256 c)"
  using assms
  by (auto simp: enroll_probe_def fail_stage_def staged_bind_Ok stage_Ok Let_def same_text_def first_cert_def bind_res_Inr_iff
        CertFingerprintSHA256_def sha256_prefix_def split: sum.splits if_splits list.splits)

lemma exchange_Ok:
  assumes "exchange net mode url pin req = Ok resp"
  shows "\<exists>body. en_post net url req = Ok (200, body) \<and> en_json net body = Ok resp \<and> \<not> pin_mismatch mode pin resp"
  using assms by (auto simp: exchange_def Let_def split: sum.splits prod.splits if_splits)

lemma enroll_network_Ok:
  assumes "enroll_network net gwURL token tlsMode = (s, Inr (mode, key, resp))"
  obtains url pin s' body where "enroll_probe net gwURL tlsMode = (s', Inr (mode, url, pin))" "en_genkey net = Ok key"
    "en_post net url \<lparr>eq_token = token, eq_pubkey = PubBase64 key\<rparr> = Ok (200, body)" "en_json net body = Ok resp"
    "\<not> pin_mismatch mode pin resp"
proof -
  from assms obtain s1 x s2 where x: "enroll_probe net gwURL tlsMode = (s1, Inr x)"
    and rest: "(\<lambda>(mode, url, pin). case en_genkey net of
         Inl e \<Rightarrow> fail_stage ''noise_keygen'' e
       | Inr key \<Rightarrow>
           (case exchange net mode url pin \<lparr>eq_token = token, eq_pubkey = PubBase64 key\<rparr> of
              Inl e \<Rightarrow> staged_bind (stage ''token_exchange'' (Err e) (\<lambda>_. [])) (\<lambda>v. ([], Ok v))
            | Inr resp \<Rightarrow>
                if sn_goos (en_svc net) = ''windows'' \<and> enroll_role resp = ''daemon''
                then fail_stage ''device_role'' windows_daemon_text
                else staged_bind (stage ''token_exchange'' (Ok resp)
                       (\<lambda>_. ''device_id='' @ es_device_id resp @ '' role='' @ enroll_role resp)) (\<lambda>_.
                     ([], Ok (mode, key, resp))))) x = (s2, Inr (mode, key, resp))"
    unfolding enroll_network_def staged_bind_Ok by blast
  obtain m url pin where xs: "x = (m, url, pin)" by (cases x)
  from rest have k: "en_genkey net = Ok key" "m = mode" "exchange net m url pin \<lparr>eq_token = token, eq_pubkey = PubBase64 key\<rparr> = Ok resp"
    unfolding xs
    by (auto simp: fail_stage_def staged_bind_Ok stage_Ok split: sum.splits if_splits)
  from exchange_Ok [OF k(3)] obtain body where "en_post net url \<lparr>eq_token = token, eq_pubkey = PubBase64 key\<rparr> = Ok (200, body)"
    "en_json net body = Ok resp" "\<not> pin_mismatch m pin resp" by blast
  with x k xs show thesis by (intro that [of s1 url pin body]) simp_all
qed

lemma role_names: "enroll_role resp = ''bridge'' \<or> enroll_role resp = ''daemon''"
  by (simp add: enroll_role_def)

lemma role_plain_name: "plain_name (enroll_role resp @ ''_noise.key'')" "last (enroll_role resp @ ''_noise.key'') = CHR ''y''"
  by (auto simp: enroll_role_def plain_name_def)

lemma state_plain_name: "plain_name ''state.json''" "last ''state.json'' = CHR ''n''"
  by (simp_all add: plain_name_def)

lemma device_paths:
  "last (key_path dir (enroll_role resp)) = CHR ''y''" "last (state_path dir) = CHR ''n''"
  "key_path dir (enroll_role resp) \<noteq> state_path dir"
proof -
  show l: "last (key_path dir (enroll_role resp)) = CHR ''y''" "last (state_path dir) = CHR ''n''"
    using path_join_last [OF role_plain_name(1)] path_join_last [OF state_plain_name(1)] role_plain_name(2) state_plain_name(2)
    unfolding key_path_def state_path_def by metis+
  show "key_path dir (enroll_role resp) \<noteq> state_path dir" using l by force
qed

lemma state_no_clash: "no_clash ''.state-'' ''.tmp'' (state_path dir) w"
proof -
  have "last (dir_join d (''.state-'' @ r @ ''.tmp'')) \<noteq> last (state_path dir)" for d r
    by (simp add: dir_join_def device_paths)
  from this [of "path_dir (state_path dir)"]
  have "dir_join (path_dir (state_path dir)) (''.state-'' @ w_rand w t @ ''.tmp'') \<noteq> state_path dir" for t
    by (rule contrapos_nn) (erule arg_cong)
  then show ?thesis by (simp add: no_clash_def)
qed

text \<open>The files that the last stage leaves behind when it succeeds.\<close>

definition device_files :: "enroll_net \<Rightarrow> string \<Rightarrow> string \<Rightarrow> static_key \<Rightarrow> enroll_response \<Rightarrow> string \<Rightarrow> world \<Rightarrow> bool" where
  "device_files net gwURL mode key resp dir w \<longleftrightarrow>
     (\<exists>n. fs_get w (key_path dir (enroll_role resp)) = Some n \<and> n_data n = sk_private key)
     \<and> (\<exists>n. fs_get w (state_path dir) = Some n \<and> n_mode n = 384
          \<and> n_data n = (if enroll_role resp = ''bridge''
              then en_enc_bridge net (enrolled_bridge (en_now net) gwURL mode (key_path dir (enroll_role resp)) resp)
              else en_enc_daemon net (enrolled_daemon (en_now net) gwURL mode (key_path dir (enroll_role resp)) resp)))"

lemma save_device_Ok:
  assumes "save_device net gwURL mode key resp dir w = (Ok u, w')"
  shows "device_files net gwURL mode key resp dir w'"
proof -
  let ?et = "sn_oserr (en_svc net)" and ?k = "key_path dir (enroll_role resp)" and ?p = "state_path dir"
  let ?b = "if enroll_role resp = ''bridge''
      then en_enc_bridge net (enrolled_bridge (en_now net) gwURL mode ?k resp)
      else en_enc_daemon net (enrolled_daemon (en_now net) gwURL mode ?k resp)"
  obtain r1 w1 where m: "os_mkdir_all dir 448 w = (r1, w1)" by fastforce
  obtain r2 w2 where k: "SaveKey key ?k w1 = (r2, w2)" by fastforce
  from assms m k have ok: "r2 = Ok ()" "saveJSON ?et ?p ?b w2 = (Ok (), w')"
    by (auto simp: save_device_def Let_def io_bind_def on_err_def SaveBridge_def SaveDaemon_def split: sum.splits if_splits)
  obtain n where n: "fs_get w2 ?k = Some n" "n_data n = sk_private key"
    using os_write_file_data [of ?k "sk_private key" 384 w1 w2] k ok(1) by (auto simp: SaveKey_def)
  from saveJSON_spec [OF ok(2) state_no_clash] have "\<exists>n. fs_get w' ?p = Some n \<and> n_data n = ?b \<and> n_mode n = 384"
    "\<forall>q n. q \<noteq> ?p \<longrightarrow> fs_get w2 q = Some n \<longrightarrow> fs_get w' q = Some n"
    by (auto simp: replaced_file_def)
  with n device_paths(3) show ?thesis unfolding device_files_def by blast
qed

lemma device_files_keep:
  assumes "device_files net gwURL mode key resp dir w" "\<And>q n. last q \<noteq> CHR ''e'' \<Longrightarrow> fs_get w q = Some n \<Longrightarrow> fs_get w' q = Some n"
  shows "device_files net gwURL mode key resp dir w'"
proof -
  have "last (key_path dir (enroll_role resp)) \<noteq> CHR ''e''" "last (state_path dir) \<noteq> CHR ''e''"
    by (simp_all add: device_paths)
  with assms show ?thesis unfolding device_files_def by blast
qed

lemma runEnroll_Ok:
  assumes "runEnroll net gwURL token stateDir tlsMode su start json h = Some (rn, h')" "rn_err rn = None"
  obtains steps mode key resp dir where "enroll_network net gwURL token tlsMode = (steps, Inr (mode, key, resp))"
    "snd (enroll_plan net (enroll_role resp) start su stateDir) = dir"
    "device_files net gwURL mode key resp dir (h_world h')"
    "oc_ok (rn_outcome rn)" "oc_role (rn_outcome rn) = enroll_role resp" "oc_state_path (rn_outcome rn) = state_path dir"
proof -
  obtain steps r where net: "enroll_network net gwURL token tlsMode = (steps, r)" by fastforce
  with assms obtain x where "r = Inr x" by (cases r) (auto simp: runEnroll_def enroll_failed_def)
  then obtain mode key resp where r: "r = Inr (mode, key, resp)" by (cases x) auto
  obtain planned dir where pl: "enroll_plan net (enroll_role resp) start su stateDir = (planned, dir)" by fastforce
  obtain g h1 where g: "on_host (state_dir_guard net (fst planned) dir) h = (g, h1)" by fastforce
  obtain s h2 where s: "on_host (save_device net gwURL mode key resp dir) h1 = (s, h2)" by fastforce
  note run = assms(1) [unfolded runEnroll_def net r, simplified, unfolded pl, simplified, unfolded g, simplified]
  from run assms(2) obtain u where gs: "g = Ok u" by (cases g) auto
  note run = run [unfolded gs, simplified, unfolded s, simplified]
  from run assms(2) obtain u' where ss: "s = Ok u'" by (cases s) (auto simp: enroll_failed_def)
  have files: "device_files net gwURL mode key resp dir (h_world h2)"
    using s ss save_device_Ok [of net gwURL mode key resp dir "h_world h1"] by (auto simp: on_host_def split: prod.splits)
  note run = run [unfolded ss, simplified]
  show thesis
  proof (cases "enroll_role resp = ''daemon'' \<and> start")
    case True
    with run obtain svc h3 where i: "installDaemonService (en_svc net) dir planned h2 = Some (svc, h3)"
      and rn: "rn = enroll_done json gwURL resp dir start (steps @ fst (stage ''save_state'' (Ok u') (\<lambda>_. state_path dir))) (Some svc)" "h' = h3"
      by (auto simp: Let_def)
    have "device_files net gwURL mode key resp dir (h_world h')"
      using device_files_keep [OF files] installDaemonService_keeps [OF i] rn(2) by blast
    then show thesis using that [OF net [unfolded r]] pl rn(1) by (simp add: enroll_done_def Let_def new_outcome_def)
  next
    case False
    with run have rn: "rn = enroll_done json gwURL resp dir start (steps @ fst (stage ''save_state'' (Ok u') (\<lambda>_. state_path dir))) None" "h' = h2"
      by (auto simp: Let_def)
    with files show thesis using that [OF net [unfolded r]] pl rn(1) by (simp add: enroll_done_def Let_def new_outcome_def)
  qed
qed

section \<open>The gateway that answers\<close>

text \<open>What the HTTP server makes of the handler's answer: an error's text gets a newline, a panic closes the
  connection.\<close>

definition http_reply :: "(enroll_response \<Rightarrow> string) \<Rightarrow> enroll_answer \<Rightarrow> string + (int \<times> string)" where
  "http_reply enc a =
     (case a of HttpError code msg \<Rightarrow> Ok (code, msg @ [CHR 0x0A]) | HttpOk resp \<Rightarrow> Ok (200, enc resp) | HttpPanic \<Rightarrow> Err ''EOF'')"

lemma handle_code: "HandleEnroll ee ''POST'' (Ok req) sv w = ((HttpError code msg, sv'), w') \<Longrightarrow> code \<noteq> 200"
  by (auto simp: HandleEnroll_def enroll_token_def grant_def Let_def split: if_splits sum.splits prod.splits list.splits)

lemma known_daemons_pinned:
  assumes "granted tok pub st st' resp" "tk_role tok \<noteq> ''daemon''" "map_of (fst (buildKnownDaemons now resp)) t = Some r"
  shows "dr_pubkey r = daemon_pub (gst_daemons st) t \<and> dr_pubkey r \<noteq> [] \<and> t \<in> set (tk_targets tok)"
proof -
  have tg: "es_targets resp \<noteq> []" "map et_name (es_targets resp) = tk_targets tok"
    "\<forall>t \<in> set (es_targets resp). et_pubkey t \<noteq> [] \<and> et_pubkey t = daemon_pub (gst_daemons st) (et_name t)"
    using assms(1,2) by (auto simp: granted_def)
  have fold: "map_of (fold (\<lambda>t m. AList.update (et_name t) (pinned (et_pubkey t) now) m) ts m) n = Some r \<Longrightarrow>
      map_of m n = Some r \<or> (\<exists>t \<in> set ts. et_name t = n \<and> r = pinned (et_pubkey t) now)" for ts m n
    by (induction ts arbitrary: m) (fastforce simp: update_conv' split: if_splits)+
  from assms(3) tg(1) fold [of "es_targets resp" "[]" t] obtain u where "u \<in> set (es_targets resp)" "et_name u = t"
    "r = pinned (et_pubkey u) now" by (auto simp: buildKnownDaemons_def)
  with tg show ?thesis by (auto simp: pinned_def) (metis image_eqI image_set)
qed


definition demo_net :: "enroll_answer \<Rightarrow> enroll_response \<Rightarrow> enroll_net" where
  "demo_net a resp = \<lparr>en_parse = (\<lambda>_. Ok ''g''), en_dns = (\<lambda>_. Ok 1), en_tcp = (\<lambda>_. Ok ()), en_tls = (\<lambda>_ _. Ok [[1]]),
     en_probe = (\<lambda>_. Ok 400), en_post = (\<lambda>_ _. http_reply (\<lambda>_. ''{}'') a), en_json = (\<lambda>_. Ok resp),
     en_genkey = Ok \<lparr>sk_private = [5], sk_public = [6, 7, 8]\<rparr>, en_now = 0, en_euid = 1000,
     en_passwd = \<lparr>pw_name = (\<lambda>_. Err []), pw_id = (\<lambda>_. Err []), pw_group = (\<lambda>_. Err [])\<rparr>,
     en_svc = demo_service_env, en_enc_bridge = (\<lambda>_. [1]), en_enc_daemon = (\<lambda>_. [2])\<rparr>"

definition demo_device :: host where
  "demo_device = \<lparr>h_world = plain_world [(''/s'', demo_dir)] (\<lambda>_. None), h_owner = [], h_cmds = []\<rparr>"

lemma demo_run:
  assumes "es_target_daemon resp = []"
  shows "\<exists>rn h'. runEnroll (demo_net (HttpOk resp) resp) ''wss://g/'' ''a'' ''/s'' ''webpki'' [] False False demo_device = Some (rn, h') \<and> rn_err rn = None"
proof -
  let ?net = "demo_net (HttpOk resp) resp" and ?key = "\<lparr>sk_private = [5], sk_public = [6, 7, 8]\<rparr>"
  have mode: "NormalizeGatewayTLSMode ''webpki'' = Ok ''webpki''" by code_simp
  have role: "enroll_role resp = ''daemon''" using assms by (simp add: enroll_role_def)
  have probe: "\<exists>s pin. enroll_probe ?net ''wss://g/'' ''webpki'' = (s, Inr (''webpki'', enroll_url (with_port ''g''), pin))"
    using mode by (simp add: enroll_probe_def demo_net_def Let_def stage_def same_text_def staged_bind_def tls_probe_def EnrollTLSConfig_def
        first_cert_def)
  then obtain s pin where probe: "enroll_probe ?net ''wss://g/'' ''webpki'' = (s, Inr (''webpki'', enroll_url (with_port ''g''), pin))" by blast
  have ex: "exchange ?net ''webpki'' u pin r = Ok resp" for u r
    by (simp add: exchange_def demo_net_def http_reply_def pin_mismatch_def GatewayTLSModePin_def)
  have "sn_goos (en_svc ?net) \<noteq> ''windows''" "en_genkey ?net = Ok ?key" by (simp_all add: demo_net_def demo_service_env_def)
  with probe ex role have net: "\<exists>s. enroll_network ?net ''wss://g/'' ''a'' ''webpki'' = (s, Inr (''webpki'', ?key, resp))"
    by (simp add: enroll_network_def staged_bind_def stage_def Let_def)
  have save: "fst (save_device ?net ''wss://g/'' ''webpki'' ?key resp ''/s'' (h_world demo_device)) = Ok ()"
  proof -
    have "fst (io_bind (on_err (\<lambda>_. ''error'') (os_mkdir_all ''/s'' 448)) (\<lambda>_.
        io_bind (on_err (\<lambda>_. ''error'') (os_write_file (key_path ''/s'' ''daemon'') [5] 384)) (\<lambda>_.
        saveJSON (\<lambda>_. ''error'') (state_path ''/s'') [2])) (h_world demo_device)) = Ok ()"
      by code_simp
    then show ?thesis using role by (simp add: save_device_def Let_def SaveKey_def SaveDaemon_def demo_net_def demo_service_env_def)
  qed
  have guard: "on_host (state_dir_guard ?net (fst (fst (enroll_plan ?net ''daemon'' False [] ''/s''))) ''/s'') demo_device = (Ok (), demo_device)"
    by (simp add: enroll_plan_def state_dir_guard_def on_host_def)
  have dir: "snd (enroll_plan ?net ''daemon'' False [] ''/s'') = ''/s''" by (simp add: enroll_plan_def)
  from net obtain s where "enroll_network ?net ''wss://g/'' ''a'' ''webpki'' = (s, Inr (''webpki'', ?key, resp))" by blast
  with save guard dir role show ?thesis
    by (cases "enroll_plan ?net ''daemon'' False [] ''/s''"; cases "save_device ?net ''wss://g/'' ''webpki'' ?key resp ''/s'' (h_world demo_device)")
      (simp add: runEnroll_def on_host_def enroll_done_def Let_def)
qed


end
