(* ===== verification/Device_Commands.thy ===== *)
theory Device_Commands
  imports Enroll_Run Gateway_Admin
begin

text \<open>
  The commands around a device's credentials: \<open>issue-token\<close> on the gateway's host (\<open>issue_token.go\<close>), \<open>keygen\<close>
  (\<open>keygen.go\<close>), \<open>logout\<close> (\<open>logout.go\<close>), \<open>doctor\<close> (\<open>doctor.go\<close>) and \<open>config show\<close> (\<open>config_cmd.go\<close>).
  A command gives its error or what it prints; the JSON forms carry the same fields and are records here.
\<close>

section \<open>Issuing a token\<close>

record token_args =
  ta_config :: string
  ta_role :: string
  ta_name :: string
  ta_targets :: "string list"
  ta_exec_enabled :: bool
  ta_working_dir :: string
  ta_forbidden_ports :: "int list"
  ta_ttl_minutes :: int

record issued =
  is_token :: token
  is_gateway :: string
  is_paste :: string

definition pasteCommand :: "string \<Rightarrow> string \<Rightarrow> string" where
  "pasteCommand publicURL tok =
     ''curl -sSL https://github.com/pw0rld/agbridge/raw/main/scripts/install.sh | bash && agbridge enroll --gateway ''
     @ publicURL @ '' --token '' @ tok"

text \<open>A duration is a 64-bit count of nanoseconds; the product wraps around.\<close>

definition token_ttl :: "int \<Rightarrow> int" where
  "token_ttl minutes =
     (let ttl = (minutes * 60000000000 + 2 ^ 63) mod 2 ^ 64 - 2 ^ 63 in if ttl \<le> 0 then 15 * 60000000000 else ttl)"

definition token_request_of :: "token_args \<Rightarrow> token_request" where
  "token_request_of a =
     \<lparr>tr_role = ta_role a, tr_name = ta_name a, tr_target = [], tr_targets = ta_targets a,
      tr_policy = (if ta_role a = ''daemon''
        then Some \<lparr>dp_exec_enabled = ta_exec_enabled a, dp_env_allowlist = [], dp_forbidden_ports = ta_forbidden_ports a,
               dp_allowed_bridges = [], dp_working_dir = ta_working_dir a, dp_strict = False\<rparr>
        else None),
      tr_ttl = token_ttl (ta_ttl_minutes a)\<rparr>"

definition token_args_ok :: "token_args \<Rightarrow> string + unit" where
  "token_args_ok a =
     (if ta_role a \<noteq> ''bridge'' \<and> ta_role a \<noteq> ''daemon'' then Err ''--role must be bridge or daemon''
      else if ta_name a = [] then Err ''--name required''
      else if ta_role a = ''bridge'' \<and> ta_targets a = [] then Err ''--target required for bridge tokens''
      else Ok ())"

text \<open>\<open>cfg\<close>: the loaded configuration of the gateway or its error; \<open>raw\<close>: the random bytes.\<close>

definition issue_token ::
  "(os_error \<Rightarrow> string) \<Rightarrow> (token_map \<Rightarrow> bytes) \<Rightarrow> (bytes \<Rightarrow> string + token_map) \<Rightarrow> (string, gateway_config) io
     \<Rightarrow> string + bytes \<Rightarrow> int \<Rightarrow> token_args \<Rightarrow> (string, issued) io" where
  "issue_token et enc dec cfg raw now a w =
     (case token_args_ok a of
        Inl e \<Rightarrow> (Err e, w)
      | Inr _ \<Rightarrow>
         io_bind cfg (\<lambda>cfg.
         io_bind (NewTokenStore et dec (path_join [path_dir (ta_config a), ''tokens.json''])) (\<lambda>store w.
           let ((r, _), w) = Issue et enc dec (token_request_of a) raw now store w in
           case r of
             Inl e \<Rightarrow> (Err e, w)
           | Inr tok \<Rightarrow>
               (let url = (if gc_public_url cfg = [] then ''wss://'' @ gc_listen cfg @ ''/'' else gc_public_url cfg) in
                (Ok \<lparr>is_token = tok, is_gateway = url, is_paste = pasteCommand url (tk_token tok)\<rparr>, w)))) w)"

section \<open>Keys\<close>

record secret_pair =
  sc_secret :: string
  sc_hash :: string

definition runKeygenSecret :: "string + bytes \<Rightarrow> string + secret_pair" where
  "runKeygenSecret raw =
     (case raw of
        Inl e \<Rightarrow> Err (''rand: '' @ e)
      | Inr b \<Rightarrow> (let secret = base64_encode b in
          Ok \<lparr>sc_secret = secret, sc_hash = ''sha256:'' @ SHA256Hex (bytes_of secret)\<rparr>))"

record noise_pair =
  np_private :: string
  np_public :: string
  np_saved_to :: string

definition runKeygenNoise :: "(os_error \<Rightarrow> string) \<Rightarrow> string + static_key \<Rightarrow> string \<Rightarrow> (string, noise_pair) io" where
  "runKeygenNoise et gen outPath =
     (case gen of
        Inl e \<Rightarrow> io_fail (''noise keygen: '' @ e)
      | Inr sk \<Rightarrow>
          io_bind (if outPath \<noteq> [] then on_err (\<lambda>e. ''save noise key '' @ go_q outPath @ '': '' @ et e) (SaveKey sk outPath) else io_ret ())
            (\<lambda>_. io_ret \<lparr>np_private = base64_encode (sk_private sk), np_public = PubBase64 sk, np_saved_to = outPath\<rparr>))"

section \<open>Logout\<close>

definition logout_remove :: "(os_error \<Rightarrow> string) \<Rightarrow> string \<Rightarrow> string \<Rightarrow> (string, unit) io" where
  "logout_remove et dir name =
     (let p = path_join [dir, name] in
      io_case (os_remove p) (\<lambda>e. if e = ENOENT then io_ret () else io_fail (''remove '' @ p @ '': '' @ et e)) io_ret)"

definition logout :: "(os_error \<Rightarrow> string) \<Rightarrow> string + string \<Rightarrow> string \<Rightarrow> (string, string) io" where
  "logout et home stateDir =
     (let dir = (if stateDir = [] then defaultStateDir home else stateDir) in
      io_bind (io_each (logout_remove et dir) [''state.json'', ''bridge_noise.key'', ''daemon_noise.key'']) (\<lambda>_.
      io_ret (text_lines [''Local state in '' @ dir @ '' removed.'',
        ''Note: server-side credential is still valid until the gateway operator runs `agbridge gateway revoke`.''])))"

section \<open>Doctor\<close>

text \<open>The same probes against the gateway of the state; a step with a failing check of the pin, and no step when there is
  no certificate at all.\<close>

definition doctorProbe :: "enroll_net \<Rightarrow> string \<Rightarrow> string \<Rightarrow> string \<Rightarrow> unit staged" where
  "doctorProbe net gwURL expectedPin tlsMode =
     (case NormalizeGatewayTLSMode tlsMode of
        Inl e \<Rightarrow> fail_stage [] (tls_mode_text e)
      | Inr mode \<Rightarrow>
     (case en_parse net gwURL of
        Inl e \<Rightarrow> fail_stage [] (''invalid gateway URL: '' @ e)
      | Inr h \<Rightarrow>
        if h = [] then fail_stage [] ''invalid gateway URL: <nil>''
        else let host = with_port h in
     staged_bind (stage ''dns_resolve'' (same_text (en_dns net (hostnameOnly host))) (\<lambda>n. itoa (int n) @ '' address(es)'')) (\<lambda>_.
     staged_bind (stage ''tcp_connect'' (same_text (en_tcp net host)) (\<lambda>_. [])) (\<lambda>_.
     staged_bind (stage ''tls_handshake'' (same_text (tls_probe net mode host)) (\<lambda>_. ''TLS 1.3 OK ('' @ mode @ '')'')) (\<lambda>certs.
     case certs of
       [] \<Rightarrow> fail_stage [] ''no peer cert''
     | c # _ \<Rightarrow>
     let gotPin = ''sha256:'' @ hex_encode (sha256 c) in
     staged_bind (stage ''cert_pin''
       (if mode = GatewayTLSModePin \<and> expectedPin \<noteq> [] \<and> gotPin \<noteq> expectedPin
        then Err (''local='' @ gotPin @ '' pinned='' @ expectedPin,
               ''cert pin mismatch '' @ [CHR 0xE2, CHR 0x80, CHR 0x94] @ '' possible MITM or legitimate rotation; re-enroll to update'')
        else Ok ())
       (\<lambda>_. if mode = GatewayTLSModeWebPKI then gotPin @ '' (diagnostic only; webpki mode)'' else gotPin)) (\<lambda>_.
     stage ''http_reachable''
       (case en_probe net (enroll_url host) of
          Inl e \<Rightarrow> Err (e, e)
        | Inr code \<Rightarrow> if code \<noteq> 400 \<and> code \<noteq> 401
            then Err (''status '' @ itoa code, ''unexpected status '' @ itoa code @ '' on /v1/enroll'') else Ok ()) (\<lambda>_. [])))))))"

text \<open>The gateway of the state on disk: that of a bridge, else that of a daemon.\<close>

definition doctor ::
  "enroll_net \<Rightarrow> (string, bridge_state) io \<Rightarrow> (string, daemon_state) io \<Rightarrow> string \<Rightarrow> (string, unit staged) io" where
  "doctor net load_bridge load_daemon stateDir =
     (let dir = (if stateDir = [] then defaultStateDir (sn_home (en_svc net)) else stateDir);
          probe = (\<lambda>g. io_ret (doctorProbe net (gr_url g) (gr_cert_pin g) (gr_tls_mode g))) in
      io_case load_bridge
        (\<lambda>_. io_case load_daemon (\<lambda>_. io_fail (''no usable state at '' @ state_path dir)) (\<lambda>ds. probe (dst_gateway ds)))
        (\<lambda>bs. probe (bst_gateway bs)))"

section \<open>Showing the state\<close>

definition redact :: "string \<Rightarrow> string" where
  "redact s = (if length s < 10 then ''***'' else take 6 s @ [CHR 0xE2, CHR 0x80, CHR 0xA6] @ drop (length s - 4) s)"

definition config_show ::
  "(string, bridge_state) io \<Rightarrow> (string, daemon_state) io \<Rightarrow> string \<Rightarrow> (string, bridge_state + daemon_state) io" where
  "config_show load_bridge load_daemon path =
     io_case load_bridge
       (\<lambda>_. io_case load_daemon (\<lambda>e. io_fail (''no usable bridge/daemon state at '' @ path @ '': '' @ e))
              (\<lambda>ds. io_ret (Inr (ds\<lparr>dst_api_key := redact (dst_api_key ds)\<rparr>))))
       (\<lambda>bs. io_ret (Inl (bs\<lparr>bst_api_key := redact (bst_api_key bs)\<rparr>)))"

section \<open>What the commands do\<close>

lemma runKeygenSecret_matches: "runKeygenSecret (Ok b) = Ok p \<Longrightarrow> SecretMatches (sc_secret p) (sc_hash p)"
  using api_hash_matches by (auto simp: runKeygenSecret_def api_hash_def Let_def)

text \<open>A redacted key shows at most ten characters of it; a key of exactly ten is shown whole.\<close>

lemma redact_shows: "length s \<ge> 10 \<Longrightarrow> redact s = take 6 s @ [CHR 0xE2, CHR 0x80, CHR 0xA6] @ drop (length s - 4) s"
  by (simp add: redact_def)

lemma redact_ten: "length s = 10 \<Longrightarrow> filter (\<lambda>c. of_char c < (128::nat)) s = s \<Longrightarrow> filter (\<lambda>c. of_char c < (128::nat)) (redact s) = s"
proof -
  assume s: "length s = 10" "filter (\<lambda>c. of_char c < (128::nat)) s = s"
  have "filter (\<lambda>c. of_char c < (128::nat)) (redact s) = filter (\<lambda>c. of_char c < (128::nat)) (take 6 s @ drop 6 s)"
    using s(1) by (simp add: redact_def del: append_take_drop_id)
  with s(2) show ?thesis by simp
qed

text \<open>The doctor passes exactly when every probe does, the certificate is the pinned one where a pin is in use, and the
  endpoint refuses the empty request.\<close>

lemma doctor_passes_iff:
  "snd (doctorProbe net gwURL pin tlsMode) = Ok () \<longleftrightarrow>
     (\<exists>mode h n c cs code. NormalizeGatewayTLSMode tlsMode = Ok mode \<and> en_parse net gwURL = Ok h \<and> h \<noteq> []
        \<and> en_dns net (hostnameOnly (with_port h)) = Ok n \<and> en_tcp net (with_port h) = Ok ()
        \<and> tls_probe net mode (with_port h) = Ok (c # cs) \<and> (mode = GatewayTLSModePin \<and> pin \<noteq> [] \<longrightarrow> CertFingerprintSHA256 c = pin)
        \<and> en_probe net (enroll_url (with_port h)) = Ok code \<and> (code = 400 \<or> code = 401))"
proof -
  have snd_bind: "snd (staged_bind m f) = Inr v \<longleftrightarrow> (\<exists>x. snd m = Inr x \<and> snd (f x) = Inr v)" for m :: "'b staged" and f :: "'b \<Rightarrow> 'c staged" and v
    by (cases m; cases "snd m") (auto simp: staged_bind_def split: prod.splits)
  have snd_stage: "snd (stage nm r msg) = Inr v \<longleftrightarrow> r = Inr v" for nm r msg and v :: 'd
    by (auto simp: stage_def split: sum.splits)
  have same: "same_text r = Inr v \<longleftrightarrow> r = Inr v" for r and v :: 'e by (simp add: same_text_def split: sum.splits)
  note defs = doctorProbe_def fail_stage_def snd_bind snd_stage same Let_def CertFingerprintSHA256_def sha256_prefix_def
  consider (bad) "\<nexists>mode h. NormalizeGatewayTLSMode tlsMode = Ok mode \<and> en_parse net gwURL = Ok h \<and> h \<noteq> []"
    | (host) mode h where "NormalizeGatewayTLSMode tlsMode = Ok mode" "en_parse net gwURL = Ok h" "h \<noteq> []" by blast
  then show ?thesis
  proof cases
    case bad
    then show ?thesis by (auto simp: defs split: sum.splits)
  next
    case host
    show ?thesis
    proof (cases "tls_probe net mode (with_port h)")
      case (Inl e)
      with host show ?thesis by (simp add: defs)
    next
      case (Inr certs)
      with host show ?thesis by (cases certs) (auto simp: defs split: sum.splits if_splits)
    qed
  qed
qed

text \<open>After a logout none of the three files is there, and no other file was touched.\<close>

lemma logout_remove_spec:
  assumes "logout_remove et dir name w = (r, w')"
  shows "(\<forall>q. q \<noteq> path_join [dir, name] \<longrightarrow> fs_get w' q = fs_get w q) \<and> (r = Ok () \<longrightarrow> fs_get w' (path_join [dir, name]) = None \<or>
     (\<exists>n. fs_get w' (path_join [dir, name]) = Some n \<and> w_fail w (w_tick w) = Some ENOENT))"
  using assms by (auto simp: logout_remove_def Let_def io_case_def os_remove_def sys_def split: option.splits if_splits)

theorem logout_spec:
  assumes "logout et home stateDir w = (Ok out, w')" "\<forall>t. w_fail w t \<noteq> Some ENOENT" "dir = (if stateDir = [] then defaultStateDir home else stateDir)"
  shows "(\<forall>name \<in> {''state.json'', ''bridge_noise.key'', ''daemon_noise.key''}. fs_get w' (path_join [dir, name]) = None)
    \<and> (\<forall>q. q \<notin> path_join ` (\<lambda>n. [dir, n]) ` {''state.json'', ''bridge_noise.key'', ''daemon_noise.key''} \<longrightarrow> fs_get w' q = fs_get w q)"
proof -
  have fail: "w_fail (snd (logout_remove et dir nm v)) = w_fail v" for nm v
    by (auto simp: logout_remove_def Let_def io_case_def os_remove_def sys_def tick_def set_node_def split: option.splits)
  obtain w1 where 1: "logout_remove et dir ''state.json'' w = (Ok (), w1)"
    and r1: "io_each (logout_remove et dir) [''bridge_noise.key'', ''daemon_noise.key''] w1 = (Ok (), w')"
    using assms(1,3) by (auto simp: logout_def Let_def io_bind_def split: sum.splits prod.splits)
  obtain w2 where 2: "logout_remove et dir ''bridge_noise.key'' w1 = (Ok (), w2)" and 3: "logout_remove et dir ''daemon_noise.key'' w2 = (Ok (), w')"
    using r1 by (auto simp: io_bind_def split: sum.splits prod.splits)
  have f: "\<forall>t. w_fail w1 t \<noteq> Some ENOENT" "\<forall>t. w_fail w2 t \<noteq> Some ENOENT" using fail [of "''state.json''" w] fail [of "''bridge_noise.key''" w1] 1 2 assms(2) by simp_all
  note s = logout_remove_spec [OF 1] logout_remove_spec [OF 2] logout_remove_spec [OF 3]
  have pn: "plain_name ''state.json''" "plain_name ''bridge_noise.key''" "plain_name ''daemon_noise.key''" by (simp_all add: plain_name_def)
  have ne: "path_join [dir, ''state.json''] \<noteq> path_join [dir, ''bridge_noise.key'']" "path_join [dir, ''state.json''] \<noteq> path_join [dir, ''daemon_noise.key'']"
    "path_join [dir, ''bridge_noise.key''] \<noteq> path_join [dir, ''daemon_noise.key'']"
    using path_join_eq_iff [OF pn(1,2)] path_join_eq_iff [OF pn(1,3)] path_join_eq_iff [OF pn(2,3)] by simp_all
  from s f assms(2) ne show ?thesis by auto
qed

end
