(* ===== verification/Cli.thy ===== *)
theory Cli
  imports Client_Files Enroll_Client
begin

text \<open>
  What the commands of the command line share: the global flags and the state file (\<open>cli_root.go\<close>), the connection for
  one call (\<open>Invoke\<close> of \<open>internal/cliclient/client.go\<close>), the working directory (\<open>cli_workingdir.go\<close>), and how results and
  errors are printed (\<open>cli_format.go\<close>, \<open>toolErrorFields\<close> of \<open>cli_caps.go\<close>).  A command runs on the bridge's own
  disk, a \<open>world\<close>.
\<close>

section \<open>Running a command\<close>

text \<open>A command waits for ever, panics, or ends with an error or a value.\<close>

datatype 'a ran = Blocked | Crashed | Ended 'a

type_synonym ('e, 'a) cio = "world \<Rightarrow> ('e + 'a) ran \<times> world"

definition cio_ret :: "'a \<Rightarrow> ('e, 'a) cio" where "cio_ret v = (\<lambda>w. (Ended (Ok v), w))"
definition cio_fail :: "'e \<Rightarrow> ('e, 'a) cio" where "cio_fail e = (\<lambda>w. (Ended (Err e), w))"
definition cio_of :: "'e + 'a \<Rightarrow> ('e, 'a) cio" where "cio_of r = (\<lambda>w. (Ended r, w))"
definition cio_io :: "('e, 'a) io \<Rightarrow> ('e, 'a) cio" where "cio_io m = (\<lambda>w. let (r, w) = m w in (Ended r, w))"

definition cio_bind :: "('e, 'a) cio \<Rightarrow> ('a \<Rightarrow> ('e, 'b) cio) \<Rightarrow> ('e, 'b) cio" where
  "cio_bind m f = (\<lambda>w. case m w of
       (Blocked, w) \<Rightarrow> (Blocked, w) | (Crashed, w) \<Rightarrow> (Crashed, w)
     | (Ended (Inl e), w) \<Rightarrow> (Ended (Err e), w) | (Ended (Inr v), w) \<Rightarrow> f v w)"

definition cio_err :: "('e \<Rightarrow> 'f) \<Rightarrow> ('e, 'a) cio \<Rightarrow> ('f, 'a) cio" where
  "cio_err g m = (\<lambda>w. case m w of
       (Blocked, w) \<Rightarrow> (Blocked, w) | (Crashed, w) \<Rightarrow> (Crashed, w)
     | (Ended (Inl e), w) \<Rightarrow> (Ended (Err (g e)), w) | (Ended (Inr v), w) \<Rightarrow> (Ended (Ok v), w))"

lemma cio_simps [simp]:
  "cio_ret v w = (Ended (Ok v), w)" "cio_fail e w = (Ended (Err e), w)" "cio_of r w = (Ended r, w)"
  "cio_bind (cio_ret v) f = f v" "cio_bind (cio_fail e) f = cio_fail e" "cio_bind (cio_of (Ok v)) f = f v"
  "cio_bind (cio_of (Err e)) f = cio_fail e" "cio_err g (cio_ret v) = cio_ret v" "cio_err g (cio_fail e) = cio_fail (g e)"
  by (simp_all add: cio_ret_def cio_fail_def cio_of_def cio_bind_def cio_err_def fun_eq_iff)

lemma cio_bind_Ok:
  "cio_bind m f w = (Ended (Ok v), w') \<longleftrightarrow> (\<exists>u w1. m w = (Ended (Ok u), w1) \<and> f u w1 = (Ended (Ok v), w'))"
  by (cases "m w"; cases "fst (m w)") (auto simp: cio_bind_def split: sum.splits)

lemma cio_bind_Err:
  "cio_bind m f w = (Ended (Err e), w') \<longleftrightarrow>
     m w = (Ended (Err e), w') \<or> (\<exists>u w1. m w = (Ended (Ok u), w1) \<and> f u w1 = (Ended (Err e), w'))"
  by (cases "m w"; cases "fst (m w)") (auto simp: cio_bind_def split: sum.splits)

lemma cio_err_Ok [simp]: "cio_err g m w = (Ended (Ok v), w') \<longleftrightarrow> m w = (Ended (Ok v), w')"
  by (cases "m w"; cases "fst (m w)") (auto simp: cio_err_def split: sum.splits)

lemma cio_err_Err: "cio_err g m w = (Ended (Err e), w') \<longleftrightarrow> (\<exists>d. m w = (Ended (Err d), w') \<and> e = g d)"
  by (cases "m w"; cases "fst (m w)") (auto simp: cio_err_def split: sum.splits)

lemma cio_io_ends [simp]: "cio_io m w = (Ended r, w') \<longleftrightarrow> m w = (r, w')"
  by (simp add: cio_io_def split: prod.split)

section \<open>What is printed\<close>

text \<open>The values of a JSON object, and what goes to standard output: a text or one JSON line.\<close>

datatype jvalue = JNull | JInt int | JBool bool | JStr string | JStrs "string list" | JInts "int list" | JMicros int
  | JMatches "search_match list" | JEntries "dir_entry list" | JObjs "(string \<rightharpoonup> jvalue) list"

datatype printed = Text string | Json "string \<rightharpoonup> jvalue"

definition schemaVersion :: int where "schemaVersion = 1"

text \<open>The encoder of \<open>encoding/json\<close> writes a string that is not UTF-8 with U+FFFD for every byte that is not
  part of a well-formed rune; what a reader of the JSON line gets is therefore \<open>json_text\<close> of the string.\<close>

definition second_ok :: "byte \<Rightarrow> byte \<Rightarrow> bool" where
  "second_ok a b \<longleftrightarrow>
     (if a = 0xE0 then 0xA0 \<le> b \<and> b \<le> 0xBF else if a = 0xED then 0x80 \<le> b \<and> b \<le> 0x9F
      else if a = 0xF0 then 0x90 \<le> b \<and> b \<le> 0xBF else if a = 0xF4 then 0x80 \<le> b \<and> b \<le> 0x8F else utf8_cont b)"

fun rune_len :: "bytes \<Rightarrow> nat" where
  "rune_len [] = 0"
| "rune_len (a # s) =
     (if a < 0x80 then 1
      else if a < 0xC2 then 0
      else if a < 0xE0 then (case s of b # r \<Rightarrow> if second_ok a b then 2 else 0 | _ \<Rightarrow> 0)
      else if a < 0xF0 then (case s of b # c # r \<Rightarrow> if second_ok a b \<and> utf8_cont c then 3 else 0 | _ \<Rightarrow> 0)
      else if a < 0xF5 then
        (case s of b # c # d # r \<Rightarrow> if second_ok a b \<and> utf8_cont c \<and> utf8_cont d then 4 else 0 | _ \<Rightarrow> 0)
      else 0)"

function fix_utf8 :: "bytes \<Rightarrow> bytes" where
  "fix_utf8 [] = []"
| "fix_utf8 (a # s) =
     (let k = rune_len (a # s) in
      if k = 0 then [0xEF, 0xBF, 0xBD] @ fix_utf8 s else take k (a # s) @ fix_utf8 (drop k (a # s)))"
  by pat_completeness auto
termination by (relation "measure length") auto

declare fix_utf8.simps(2) [simp del]

definition json_text :: "string \<Rightarrow> string" where
  "json_text s = string_of (fix_utf8 (bytes_of s))"

primrec json_value :: "jvalue \<Rightarrow> jvalue" where
  "json_value JNull = JNull"
| "json_value (JInt i) = JInt i"
| "json_value (JBool b) = JBool b"
| "json_value (JStr s) = JStr (json_text s)"
| "json_value (JStrs ss) = JStrs (map json_text ss)"
| "json_value (JInts is) = JInts is"
| "json_value (JMicros i) = JMicros i"
| "json_value (JMatches ms) = JMatches (map (\<lambda>m. m\<lparr>sm_file := json_text (sm_file m), sm_snippet := json_text (sm_snippet m)\<rparr>) ms)"
| "json_value (JEntries es) = JEntries (map (\<lambda>e. e\<lparr>de_name := json_text (de_name e), de_type := json_text (de_type e)\<rparr>) es)"
| "json_value (JObjs os) = JObjs (map (\<lambda>m. map_option json_value \<circ> m) os)"

definition printJSON :: "(string \<rightharpoonup> jvalue) \<Rightarrow> printed" where
  "printJSON payload = Json (\<lambda>k. map_option json_value ((payload(''_schema'' \<mapsto> JInt schemaVersion)) k))"

text \<open>UTF-8 passes unchanged, and only UTF-8 comes out; other bytes are lost.\<close>

definition lead :: "byte \<Rightarrow> nat" where
  "lead a = (if a < 0x80 then 1 else if a < 0xC2 then 0 else if a < 0xE0 then 2 else if a < 0xF0 then 3 else if a < 0xF5 then 4 else 0)"

lemma lead_len:
  "lead a = 0 \<Longrightarrow> rune_len (a # s) = 0" "lead a = 1 \<Longrightarrow> rune_len (a # s) = 1"
  "lead a = 2 \<Longrightarrow> rune_len (a # s) = (case s of b # r \<Rightarrow> if second_ok a b then 2 else 0 | _ \<Rightarrow> 0)"
  "lead a = 3 \<Longrightarrow> rune_len (a # s) = (case s of b # c # r \<Rightarrow> if second_ok a b \<and> utf8_cont c then 3 else 0 | _ \<Rightarrow> 0)"
  "lead a = 4 \<Longrightarrow> rune_len (a # s) = (case s of b # c # d # r \<Rightarrow> if second_ok a b \<and> utf8_cont c \<and> utf8_cont d then 4 else 0 | _ \<Rightarrow> 0)"
  by (simp_all add: lead_def split: if_splits)

lemma lead_cases: "lead a = 0 \<or> lead a = 1 \<or> lead a = 2 \<or> lead a = 3 \<or> lead a = 4"
  by (simp add: lead_def)

lemma second_leads:
  "lead a = 2 \<Longrightarrow> second_ok a b = utf8_cont b"
  "lead a = 3 \<Longrightarrow> second_ok a b = (if a = 0xE0 then 0xA0 \<le> b \<and> b \<le> 0xBF else if a = 0xED then 0x80 \<le> b \<and> b \<le> 0x9F else utf8_cont b)"
  "lead a = 4 \<Longrightarrow> second_ok a b = (if a = 0xF0 then 0x90 \<le> b \<and> b \<le> 0xBF else if a = 0xF4 then 0x80 \<le> b \<and> b \<le> 0x8F else utf8_cont b)"
  by (cases "a = 0xE0"; cases "a = 0xED"; cases "a = 0xF0"; cases "a = 0xF4"; simp add: second_ok_def lead_def)+

lemma lead_valid:
  "lead a = 0 \<Longrightarrow> utf8_valid (a # s) = False" "lead a = 1 \<Longrightarrow> utf8_valid (a # s) = utf8_valid s"
  "lead a = 2 \<Longrightarrow> utf8_valid (a # s) = (case s of b # r \<Rightarrow> second_ok a b \<and> utf8_valid r | _ \<Rightarrow> False)"
  "lead a = 3 \<Longrightarrow> utf8_valid (a # s) = (case s of b # c # r \<Rightarrow> second_ok a b \<and> utf8_cont c \<and> utf8_valid r | _ \<Rightarrow> False)"
  "lead a = 4 \<Longrightarrow> utf8_valid (a # s) = (case s of b # c # d # r \<Rightarrow> second_ok a b \<and> utf8_cont c \<and> utf8_cont d \<and> utf8_valid r | _ \<Rightarrow> False)"
proof -
  show "lead a = 0 \<Longrightarrow> utf8_valid (a # s) = False" "lead a = 1 \<Longrightarrow> utf8_valid (a # s) = utf8_valid s"
    by (simp_all add: lead_def split: if_splits)
  show "lead a = 2 \<Longrightarrow> utf8_valid (a # s) = (case s of b # r \<Rightarrow> second_ok a b \<and> utf8_valid r | _ \<Rightarrow> False)"
    unfolding utf8_valid.simps(2) by (simp only: second_leads(1)) (simp add: lead_def split: if_split_asm cong: list.case_cong)
  show "lead a = 3 \<Longrightarrow> utf8_valid (a # s) = (case s of b # c # r \<Rightarrow> second_ok a b \<and> utf8_cont c \<and> utf8_valid r | _ \<Rightarrow> False)"
    unfolding utf8_valid.simps(2) by (simp only: second_leads(2)) (simp add: lead_def split: if_split_asm cong: list.case_cong)
  show "lead a = 4 \<Longrightarrow> utf8_valid (a # s) = (case s of b # c # d # r \<Rightarrow> second_ok a b \<and> utf8_cont c \<and> utf8_cont d \<and> utf8_valid r | _ \<Rightarrow> False)"
    unfolding utf8_valid.simps(2) by (simp only: second_leads(3)) (simp add: lead_def split: if_split_asm cong: list.case_cong)
qed

lemma rune_valid: "utf8_valid (a # s) \<longleftrightarrow> rune_len (a # s) \<noteq> 0 \<and> utf8_valid (drop (rune_len (a # s)) (a # s))"
  using lead_cases [of a]
  by (elim disjE) (auto simp: lead_valid lead_len simp del: utf8_valid.simps(2) rune_len.simps split: list.split)

lemma rune_len_take: "rune_len (take (rune_len (a # s)) (a # s) @ r) = rune_len (a # s) \<or> rune_len (a # s) = 0"
  using lead_cases [of a]
  by (elim disjE) (simp_all add: lead_len del: rune_len.simps split: list.split)

lemma fix_utf8_valid: "utf8_valid b \<Longrightarrow> fix_utf8 b = b"
proof (induction b rule: fix_utf8.induct)
  case (2 a s)
  have "rune_len (a # s) \<noteq> 0" "utf8_valid (drop (rune_len (a # s)) (a # s))"
    using 2(3) unfolding rune_valid [of a s] by blast+
  with 2(2) [OF refl] show ?case by (simp add: fix_utf8.simps(2) Let_def del: rune_len.simps utf8_valid.simps)
qed simp

lemma json_text_valid: "utf8_valid (bytes_of s) \<Longrightarrow> json_text s = s"
  by (simp add: json_text_def fix_utf8_valid)

lemma utf8_valid_fix: "utf8_valid (fix_utf8 b)"
proof (induction b rule: fix_utf8.induct)
  case (2 a s)
  show ?case
  proof (cases "rune_len (a # s) = 0")
    case True
    with 2(1) [OF refl True] show ?thesis by (simp add: fix_utf8.simps(2) utf8_cont_def del: rune_len.simps)
  next
    case False
    let ?k = "rune_len (a # s)"
    obtain k where k: "?k = Suc k" using False by (cases ?k) auto
    let ?t = "take k s @ fix_utf8 (drop ?k (a # s))"
    have "rune_len (a # ?t) = ?k" using rune_len_take [of a s "fix_utf8 (drop ?k (a # s))"] False k by simp
    moreover have "drop ?k (a # ?t) = drop (k - length s) (fix_utf8 (drop k s))" by (simp add: k min_def del: rune_len.simps)
    moreover have "drop (k - length s) (fix_utf8 (drop k s)) = fix_utf8 (drop k s)" by (cases "k \<le> length s") simp_all
    moreover have "utf8_valid (fix_utf8 (drop k s))" using 2(2) [OF refl False] by (simp add: k del: rune_len.simps)
    ultimately have "utf8_valid (a # ?t)" unfolding rune_valid [of a ?t] using False by metis
    then show ?thesis using False by (simp add: fix_utf8.simps(2) Let_def k del: rune_len.simps utf8_valid.simps)
  qed
qed simp

lemma printJSON_lossy:
  "printJSON [''content'' \<mapsto> JStr (string_of [0xFE])] = printJSON [''content'' \<mapsto> JStr (string_of [0xFF])]"
proof -
  have "fix_utf8 [0xFE] = fix_utf8 [0xFF]" by (simp add: fix_utf8.simps)
  then show ?thesis by (simp add: printJSON_def json_text_def fun_eq_iff)
qed

text \<open>A command that succeeds has written to both streams; one that fails has printed an error line (\<open>printErrorJSON\<close>)
  on standard error, and returns an error, whose text \<open>main\<close> prints, too, before exit 1.\<close>

record report =
  rp_out :: printed
  rp_stderr :: string

record cli_failure =
  cf_code :: string
  cf_message :: string
  cf_retry_safe :: bool
  cf_err :: string
  cf_out :: "printed option"

type_synonym 'a cmd = "(cli_failure, 'a) cio"

definition printErrorJSON :: "string \<Rightarrow> string \<Rightarrow> bool \<Rightarrow> string \<Rightarrow> cli_failure" where
  "printErrorJSON code message retrySafe err =
     \<lparr>cf_code = code, cf_message = message, cf_retry_safe = retrySafe, cf_err = err, cf_out = None\<rparr>"

text \<open>\<open>printErrorJSON(code, err.Error(), retry); return err\<close>.\<close>

definition bail :: "string \<Rightarrow> bool \<Rightarrow> (string, 'a) cio \<Rightarrow> 'a cmd" where
  "bail code retry m = cio_err (\<lambda>e. printErrorJSON code e retry e) m"

section \<open>The flags and the state file\<close>

record global_flags =
  gf_target :: string
  gf_json :: bool
  gf_state_dir :: string

text \<open>The codecs and texts of the libraries; each \<open>cv_arg_\<dots>\<close> encodes the arguments of a tool and decodes them again, as
  a command and its handler do.\<close>

record cli_env =
  cv_flags :: global_flags
  cv_home :: "string + string"
  cv_version :: string
  cv_client :: client_env
  cv_dec :: "bytes \<Rightarrow> string + bridge_state"
  cv_enc :: "bridge_state \<Rightarrow> bytes"
  cv_arg_exec :: "exec_request \<Rightarrow> string + exec_request"
  cv_arg_read :: "file_read_request \<Rightarrow> string + file_read_request"
  cv_arg_write :: "write_args \<Rightarrow> string + write_args"
  cv_arg_edit :: "file_edit_request \<Rightarrow> string + file_edit_request"
  cv_arg_upload :: "upload_args \<Rightarrow> string + upload_args"
  cv_arg_download :: "download_args \<Rightarrow> string + download_args"
  cv_arg_search :: "search_args \<Rightarrow> string + search_args"
  cv_arg_path :: "string \<Rightarrow> string + string"
  cv_time :: "string \<Rightarrow> int \<Rightarrow> string"
  cv_utc :: "string \<Rightarrow> int \<Rightarrow> string"
  cv_millis :: "int \<Rightarrow> string"

definition stateJSONPath :: "string + string \<Rightarrow> string \<Rightarrow> string" where
  "stateJSONPath home stateDir =
     (if stateDir \<noteq> [] then path_join [stateDir, ''state.json'']
      else case home of Inl _ \<Rightarrow> ''state.json'' | Inr h \<Rightarrow> path_join [h, ''.config'', ''agbridge'', ''state.json''])"

definition state_file :: "cli_env \<Rightarrow> string" where
  "state_file env = stateJSONPath (cv_home env) (gf_state_dir (cv_flags env))"

definition load_state :: "cli_env \<Rightarrow> (string, bridge_state) cio" where
  "load_state env = cio_io (LoadBridgeState (k_os_text (cv_client env)) (cv_dec env) (state_file env))"

definition save_state :: "cli_env \<Rightarrow> bridge_state \<Rightarrow> (string, unit) cio" where
  "save_state env st = cio_io (SaveBridge (k_os_text (cv_client env)) (cv_enc env) (state_file env) st)"

definition load_opts :: "cli_env \<Rightarrow> (string, client_options) cio" where
  "load_opts env =
     cio_bind (cio_err (\<lambda>e. ''load '' @ state_file env @ '': '' @ e) (load_state env))
       (\<lambda>st. cio_of (loadOpts (gf_target (cv_flags env)) st))"

definition with_opts :: "cli_env \<Rightarrow> (client_options \<Rightarrow> 'a cmd) \<Rightarrow> 'a cmd" where
  "with_opts env k = cio_bind (bail ''state_unreadable'' False (load_opts env)) k"

section \<open>One call\<close>

text \<open>A connection of the command: how the gateway is dialed, and for each call on it the random request identifier and
  what the call's channel will give.\<close>

record 'c cli_conn =
  cn_dial :: "client_options \<Rightarrow> (string, 'c call) io"
  cn_rnd :: bytes
  cn_inbox :: "inbox list"

text \<open>Closing the connection afterwards ends its reader; no later call uses it.\<close>

definition Invoke :: "(client_options \<Rightarrow> (string, 'c call) io) \<Rightarrow> client_options \<Rightarrow> ('c call \<Rightarrow> (string, 'a) cio) \<Rightarrow> (string, 'a) cio" where
  "Invoke dial opt fn = cio_bind (cio_err (\<lambda>e. ''dial: '' @ e) (cio_io (dial opt))) fn"

text \<open>What a handler has come to is the value of the function given to \<open>Invoke\<close>; the handlers return no Go error.\<close>

definition handled :: "outcome \<Rightarrow> (string, mcp_result) cio" where
  "handled x w = (case x of Waiting \<Rightarrow> (Blocked, w) | Panic \<Rightarrow> (Crashed, w) | Answer r \<Rightarrow> (Ended (Ok r), w))"

definition on_router :: "('c call \<Rightarrow> outcome \<times> 'c call) \<Rightarrow> 'c call \<Rightarrow> (string, mcp_result) cio" where
  "on_router h c = handled (fst (h c))"

definition on_router_io :: "('c call \<Rightarrow> world \<Rightarrow> (outcome \<times> 'c call) \<times> world) \<Rightarrow> 'c call \<Rightarrow> (string, mcp_result) cio" where
  "on_router_io h c w = (let ((x, c), w) = h c w in handled x w)"

definition meta_str :: "mcp_result \<Rightarrow> string \<Rightarrow> string" where
  "meta_str r k = (case mr_meta r k of Some (MStr s) \<Rightarrow> s | _ \<Rightarrow> [])"

definition meta_int :: "mcp_result \<Rightarrow> string \<Rightarrow> int" where
  "meta_int r k = (case mr_meta r k of Some (MInt i) \<Rightarrow> i | _ \<Rightarrow> 0)"

definition toolErrorFields :: "mcp_result \<Rightarrow> string \<times> string" where
  "toolErrorFields r =
     (let m = meta_str r ''message'' in (meta_str r ''error_code'', if m = [] then mr_text r else m))"

definition tool_error :: "mcp_result \<Rightarrow> string" where
  "tool_error r = (let (code, message) = toolErrorFields r in code @ '': '' @ message)"

text \<open>The end of every command: an error of the connection, an error result, or the result.\<close>

definition tool_failure :: "mcp_result \<Rightarrow> cli_failure" where
  "tool_failure r = printErrorJSON (fst (toolErrorFields r)) (snd (toolErrorFields r)) False (tool_error r)"

definition tool_result :: "mcp_result \<Rightarrow> mcp_result cmd" where
  "tool_result r = (if mr_error r then cio_fail (tool_failure r) else cio_ret r)"

definition call_tool :: "'c cli_conn \<Rightarrow> client_options \<Rightarrow> ('c call \<Rightarrow> (string, mcp_result) cio) \<Rightarrow> mcp_result cmd" where
  "call_tool cn opt fn = cio_bind (bail ''network_lost'' True (Invoke (cn_dial cn) opt fn)) tool_result"

section \<open>The working directory\<close>

definition fetchDefaultWorkingDir :: "('h, 'c) noise_lib \<Rightarrow> cli_env \<Rightarrow> 'c cli_conn \<Rightarrow> client_options \<Rightarrow> (string, string) cio" where
  "fetchDefaultWorkingDir nz env cn opt =
     cio_bind (Invoke (cn_dial cn) opt (on_router (CapabilitiesHandler nz (cv_client env) (cn_rnd cn) (cn_inbox cn)))) (\<lambda>r.
       case mr_meta r ''capabilities'' of
         Some (MCaps caps) \<Rightarrow> cio_ret (cp_working_dir caps)
       | _ \<Rightarrow> cio_fail ''capabilities: missing snapshot'')"

definition ensureWorkingDir :: "('h, 'c) noise_lib \<Rightarrow> cli_env \<Rightarrow> 'c cli_conn \<Rightarrow> client_options \<Rightarrow> (string, string) cio" where
  "ensureWorkingDir nz env wd opt =
     cio_bind (load_state env) (\<lambda>st.
       if bst_working_dir st \<noteq> [] then cio_ret (bst_working_dir st)
       else cio_bind (fetchDefaultWorkingDir nz env wd opt) (\<lambda>dwd.
         let dwd = (if dwd = [] then ''/'' else dwd) in
         cio_bind (save_state env (st\<lparr>bst_working_dir := dwd\<rparr>)) (\<lambda>_. cio_ret dwd)))"

definition resolveArg :: "('h, 'c) noise_lib \<Rightarrow> cli_env \<Rightarrow> 'c cli_conn \<Rightarrow> client_options \<Rightarrow> string \<Rightarrow> (string, string) cio" where
  "resolveArg nz env wd opt arg =
     (if arg \<noteq> [] \<and> is_abs arg then cio_ret (path_clean arg)
      else cio_bind (ensureWorkingDir nz env wd opt) (\<lambda>cwd. cio_ret (resolveRemotePath cwd arg)))"

definition setWorkingDir :: "cli_env \<Rightarrow> string \<Rightarrow> (string, unit) cio" where
  "setWorkingDir env dir = cio_bind (load_state env) (\<lambda>st. save_state env (st\<lparr>bst_working_dir := dir\<rparr>))"

text \<open>The path of a command: a failure here may be retried.\<close>

definition remote_path :: "('h, 'c) noise_lib \<Rightarrow> cli_env \<Rightarrow> 'c cli_conn \<Rightarrow> client_options \<Rightarrow> string \<Rightarrow> string cmd" where
  "remote_path nz env wd opt arg = bail ''working_dir_unavailable'' True (resolveArg nz env wd opt arg)"

section \<open>Output\<close>

definition emit :: "cli_env \<Rightarrow> string \<Rightarrow> (string \<rightharpoonup> jvalue) \<Rightarrow> report cmd" where
  "emit env text payload =
     cio_ret \<lparr>rp_out = (if gf_json (cv_flags env) then printJSON payload else Text text), rp_stderr = []\<rparr>"

end
