(* ===== verification/Cli_Commands.thy ===== *)
theory Cli_Commands
  imports Cli "HOL-Library.Product_Lexorder"
begin

text \<open>
  The commands that make one call (\<open>cmd/agbridge/cli_*.go\<close>), each from its flags and arguments to what it prints.
  \<open>wd\<close> is the connection that asks for the working directory, if need be, and \<open>cn\<close> the one of the call.  Where the
  command line decodes what its handler has just encoded, the maps of the result are read as they are.
\<close>

section \<open>cat\<close>

definition runCat ::
  "('h, 'c) noise_lib \<Rightarrow> cli_env \<Rightarrow> 'c cli_conn \<Rightarrow> 'c cli_conn \<Rightarrow> string \<Rightarrow> int \<Rightarrow> int \<Rightarrow> client_options \<Rightarrow> report cmd" where
  "runCat nz env wd cn path offset limit opt =
     cio_bind (remote_path nz env wd opt path) (\<lambda>path.
     cio_bind (call_tool cn opt (on_router (ReadFileHandler nz (cv_client env) (cn_rnd cn) (cn_inbox cn)
         (cv_arg_read env \<lparr>rr_path = path, rr_max_size = 0, rr_offset = offset, rr_limit = limit\<rparr>)))) (\<lambda>r.
     let b64 = meta_str r ''content_b64'' in
     cio_bind (if b64 = [] then cio_ret (mr_text r)
         else (case base64_decode b64 of
             Some d \<Rightarrow> cio_ret (string_of d)
           | None \<Rightarrow> let e = k_b64_text (cv_client env) b64 in
               cio_fail (printErrorJSON ''bad_payload'' (''decode content_b64: '' @ e) False e))) (\<lambda>text.
     emit env text [''path'' \<mapsto> JStr path, ''size'' \<mapsto> JInt (meta_int r ''size''), ''sha256'' \<mapsto> JStr (meta_str r ''sha256''),
       ''content'' \<mapsto> JStr text])))"

definition cat_cmd ::
  "('h, 'c) noise_lib \<Rightarrow> cli_env \<Rightarrow> 'c cli_conn \<Rightarrow> 'c cli_conn \<Rightarrow> string \<Rightarrow> int \<Rightarrow> int \<Rightarrow> report cmd" where
  "cat_cmd nz env wd cn path offset limit = with_opts env (runCat nz env wd cn path offset limit)"

section \<open>write\<close>

text \<open>\<open>--content\<close>, when it was given at all, then \<open>--from-file\<close>, then standard input.\<close>

definition resolveWriteContent :: "cli_env \<Rightarrow> string option \<Rightarrow> string \<Rightarrow> string + bytes \<Rightarrow> (string, bytes) cio" where
  "resolveWriteContent env content fromFile stdin =
     (case content of
        Some c \<Rightarrow> if fromFile \<noteq> [] then cio_fail ''--content and --from-file are mutually exclusive'' else cio_ret (bytes_of c)
      | None \<Rightarrow>
          if fromFile \<noteq> [] then cio_io (on_err (k_os_text (cv_client env)) (os_read_file fromFile)) else cio_of stdin)"

definition write_call_args :: "string \<Rightarrow> bytes \<Rightarrow> nat \<Rightarrow> write_args" where
  "write_call_args path data mode =
     (if utf8_valid data
      then \<lparr>wa_path = path, wa_content = Some (string_of data), wa_b64 = None, wa_mode = mode\<rparr>
      else \<lparr>wa_path = path, wa_content = None, wa_b64 = Some (base64_encode data), wa_mode = mode\<rparr>)"

definition runWrite ::
  "('h, 'c) noise_lib \<Rightarrow> cli_env \<Rightarrow> 'c cli_conn \<Rightarrow> 'c cli_conn \<Rightarrow> string \<Rightarrow> bytes \<Rightarrow> nat \<Rightarrow> client_options \<Rightarrow> report cmd" where
  "runWrite nz env wd cn path data mode opt =
     cio_bind (remote_path nz env wd opt path) (\<lambda>path.
     cio_bind (call_tool cn opt (on_router (WriteFileHandler nz (cv_client env) (cn_rnd cn) (cn_inbox cn)
         (cv_arg_write env (write_call_args path data mode))))) (\<lambda>r.
     let size = meta_int r ''size''; sha = meta_str r ''sha256'' in
     emit env (''wrote '' @ itoa size @ '' bytes to '' @ path @ '' (sha256='' @ sha @ '')'' @ newline)
       [''path'' \<mapsto> JStr path, ''bytes_written'' \<mapsto> JInt size, ''sha256'' \<mapsto> JStr sha]))"

definition write_cmd ::
  "('h, 'c) noise_lib \<Rightarrow> cli_env \<Rightarrow> 'c cli_conn \<Rightarrow> 'c cli_conn \<Rightarrow> string \<Rightarrow> string option \<Rightarrow> string \<Rightarrow> string + bytes \<Rightarrow> nat \<Rightarrow> report cmd" where
  "write_cmd nz env wd cn path content fromFile stdin mode =
     with_opts env (\<lambda>opt.
     cio_bind (bail ''bad_payload'' False (resolveWriteContent env content fromFile stdin)) (\<lambda>data.
     runWrite nz env wd cn path data mode opt))"

section \<open>edit\<close>

definition runEdit ::
  "('h, 'c) noise_lib \<Rightarrow> cli_env \<Rightarrow> 'c cli_conn \<Rightarrow> 'c cli_conn \<Rightarrow> string \<Rightarrow> string \<Rightarrow> string \<Rightarrow> bool \<Rightarrow> client_options \<Rightarrow> report cmd" where
  "runEdit nz env wd cn path oldStr newStr replaceAll opt =
     cio_bind (remote_path nz env wd opt path) (\<lambda>path.
     cio_bind (call_tool cn opt (on_router (EditFileHandler nz (cv_client env) (cn_rnd cn) (cn_inbox cn)
         (cv_arg_edit env \<lparr>er_path = path, er_old = oldStr, er_new = newStr, er_replace_all = replaceAll\<rparr>)))) (\<lambda>r.
     let size = meta_int r ''size''; sha = meta_str r ''sha256''; backup = meta_str r ''backup_path'' in
     emit env (''edited '' @ itoa size @ '' bytes in '' @ path @ '' (sha256='' @ sha @ '')'' @ newline
         @ (if backup \<noteq> [] then ''backup: '' @ backup @ newline else []))
       ([''path'' \<mapsto> JStr path, ''size'' \<mapsto> JInt size, ''sha256'' \<mapsto> JStr sha]
         ++ (if backup \<noteq> [] then [''backup_path'' \<mapsto> JStr backup] else Map.empty))))"

definition edit_cmd ::
  "('h, 'c) noise_lib \<Rightarrow> cli_env \<Rightarrow> 'c cli_conn \<Rightarrow> 'c cli_conn \<Rightarrow> string \<Rightarrow> string \<Rightarrow> string \<Rightarrow> bool \<Rightarrow> report cmd" where
  "edit_cmd nz env wd cn path oldStr newStr replaceAll =
     with_opts env (\<lambda>opt.
       if oldStr = [] then bail ''bad_payload'' False (cio_fail ''--old is required and must not be empty'')
       else runEdit nz env wd cn path oldStr newStr replaceAll opt)"

section \<open>exec\<close>

text \<open>\<open>sep\<close>: how many arguments stand before \<open>--\<close>, if it was given.\<close>

definition splitExecArgs :: "nat option \<Rightarrow> string list \<Rightarrow> string + string list" where
  "splitExecArgs sep args =
     (let remote = (case sep of None \<Rightarrow> args | Some k \<Rightarrow> drop k args) in
      if remote = [] then Err (''missing remote command (use `agbridge exec -- <cmd> [args...]`)'') else Ok remote)"

text \<open>A later value for a name replaces the earlier one; the name must not be empty.\<close>

fun env_pairs :: "(string \<times> string) list \<Rightarrow> string list \<Rightarrow> string + (string \<times> string) list" where
  "env_pairs m [] = Ok m"
| "env_pairs m (p # ps) =
     (case index_byte p CHR ''='' of
        Some (Suc i) \<Rightarrow> env_pairs (AList.update (take (Suc i) p) (drop (Suc (Suc i)) p) m) ps
      | _ \<Rightarrow> Err (''--env '' @ go_q p @ '': expected KEY=VALUE''))"

definition parseEnvPairs :: "string list \<Rightarrow> string + (string \<times> string) list" where
  "parseEnvPairs pairs = env_pairs [] pairs"

definition exec_cwd :: "('h, 'c) noise_lib \<Rightarrow> cli_env \<Rightarrow> 'c cli_conn \<Rightarrow> client_options \<Rightarrow> string \<Rightarrow> string cmd" where
  "exec_cwd nz env wd opt cwd =
     (if cwd = [] then bail ''working_dir_unavailable'' True (ensureWorkingDir nz env wd opt)
      else if is_abs cwd then cio_ret (path_clean cwd)
      else bail ''working_dir_unavailable'' True (resolveArg nz env wd opt cwd))"

definition result_stream :: "mcp_result \<Rightarrow> string \<Rightarrow> string" where
  "result_stream r name = (case mr_meta r name of
       Some (MStr s) \<Rightarrow> s
     | _ \<Rightarrow> (case mr_meta r (name @ ''_b64'') of
           Some (MStr b) \<Rightarrow> (case base64_decode b of Some d \<Rightarrow> string_of d | None \<Rightarrow> [])
         | _ \<Rightarrow> []))"

definition extractExecResult :: "mcp_result \<Rightarrow> string \<times> string \<times> int \<times> int" where
  "extractExecResult r =
     (result_stream r ''stdout'', result_stream r ''stderr'', meta_int r ''exitcode'', meta_int r ''duration_ms'')"

definition runExec ::
  "('h, 'c) noise_lib \<Rightarrow> cli_env \<Rightarrow> 'c cli_conn \<Rightarrow> 'c cli_conn \<Rightarrow> string list \<Rightarrow> string \<Rightarrow> (string \<times> string) list \<Rightarrow> int \<Rightarrow> client_options \<Rightarrow> report cmd" where
  "runExec nz env wd cn remote cwd vars timeoutMs opt =
     cio_bind (exec_cwd nz env wd opt cwd) (\<lambda>cwd.
     cio_bind (call_tool cn opt (on_router (ExecHandler nz (cv_client env) (cn_rnd cn) (cn_inbox cn)
         (cv_arg_exec env \<lparr>xr_cmd = hd remote, xr_args = tl remote, xr_cwd = cwd, xr_env = vars, xr_timeout_ms = timeoutMs\<rparr>)))) (\<lambda>r.
     let (stdout, stderr, exitcode, durationMs) = extractExecResult r in
     if gf_json (cv_flags env) then
       emit env [] [''stdout'' \<mapsto> JStr stdout, ''stderr'' \<mapsto> JStr stderr, ''exitcode'' \<mapsto> JInt exitcode, ''duration_ms'' \<mapsto> JInt durationMs]
     else cio_ret \<lparr>rp_out = Text stdout, rp_stderr = stderr\<rparr>))"

definition exec_cmd ::
  "('h, 'c) noise_lib \<Rightarrow> cli_env \<Rightarrow> 'c cli_conn \<Rightarrow> 'c cli_conn \<Rightarrow> nat option \<Rightarrow> string list \<Rightarrow> string \<Rightarrow> string list \<Rightarrow> int \<Rightarrow> report cmd" where
  "exec_cmd nz env wd cn sep args cwd envArr timeoutMs =
     with_opts env (\<lambda>opt.
     cio_bind (bail ''bad_payload'' False (cio_of (splitExecArgs sep args))) (\<lambda>remote.
     cio_bind (bail ''bad_payload'' False (cio_of (parseEnvPairs envArr))) (\<lambda>vars.
     runExec nz env wd cn remote cwd vars timeoutMs opt)))"

section \<open>stat, cd, pwd\<close>

definition extractStatEntry :: "mcp_result \<Rightarrow> dir_entry option" where
  "extractStatEntry r = (case mr_meta r ''entry'' of Some (MEntry e) \<Rightarrow> Some e | _ \<Rightarrow> None)"

definition stat_call :: "('h, 'c) noise_lib \<Rightarrow> cli_env \<Rightarrow> 'c cli_conn \<Rightarrow> string \<Rightarrow> 'c call \<Rightarrow> (string, mcp_result) cio" where
  "stat_call nz env cn path = on_router (StatHandler nz (cv_client env) (cn_rnd cn) (cn_inbox cn) (cv_arg_path env path))"

text \<open>\<open>%#o\<close>: octal with a leading zero.\<close>

definition sharp_octal :: "nat \<Rightarrow> string" where
  "sharp_octal n = (if n = 0 then ''0'' else CHR ''0'' # oct_digits n)"

definition RFC3339 :: string where "RFC3339 = ''2006-01-02T15:04:05Z07:00''"

definition runStat :: "('h, 'c) noise_lib \<Rightarrow> cli_env \<Rightarrow> 'c cli_conn \<Rightarrow> 'c cli_conn \<Rightarrow> string \<Rightarrow> client_options \<Rightarrow> report cmd" where
  "runStat nz env wd cn path opt =
     cio_bind (remote_path nz env wd opt path) (\<lambda>path.
     cio_bind (call_tool cn opt (stat_call nz env cn path)) (\<lambda>r.
     case extractStatEntry r of
       None \<Rightarrow> bail ''protocol_error'' False (cio_fail ''stat entry missing from response'')
     | Some e \<Rightarrow>
         emit env (''name:     '' @ de_name e @ newline @ ''type:     '' @ de_type e @ newline
             @ ''size:     '' @ itoa (de_size e) @ newline @ ''mode:     '' @ sharp_octal (de_mode e) @ newline
             @ ''mod_time: '' @ cv_utc env RFC3339 (de_mtime e) @ newline)
           [''path'' \<mapsto> JStr path, ''name'' \<mapsto> JStr (de_name e), ''type'' \<mapsto> JStr (de_type e), ''size'' \<mapsto> JInt (de_size e),
            ''mode'' \<mapsto> JInt (int (de_mode e)), ''mod_time'' \<mapsto> JInt (de_mtime e)]))"

definition runPwd :: "('h, 'c) noise_lib \<Rightarrow> cli_env \<Rightarrow> 'c cli_conn \<Rightarrow> client_options \<Rightarrow> report cmd" where
  "runPwd nz env wd opt =
     cio_bind (bail ''working_dir_unavailable'' True (ensureWorkingDir nz env wd opt)) (\<lambda>cwd.
     emit env (cwd @ newline) [''working_dir'' \<mapsto> JStr cwd])"

definition statIsDir :: "('h, 'c) noise_lib \<Rightarrow> cli_env \<Rightarrow> 'c cli_conn \<Rightarrow> client_options \<Rightarrow> string \<Rightarrow> (string, unit) cio" where
  "statIsDir nz env cn opt target =
     cio_bind (Invoke (cn_dial cn) opt (stat_call nz env cn target)) (\<lambda>r.
       if mr_error r then cio_fail (tool_error r)
       else case extractStatEntry r of
         None \<Rightarrow> cio_fail (''stat '' @ target @ '': no entry returned'')
       | Some e \<Rightarrow> if de_type e \<noteq> ''dir'' then cio_fail (target @ '' is a '' @ de_type e @ '', not a directory'') else cio_ret ())"

definition runCd :: "('h, 'c) noise_lib \<Rightarrow> cli_env \<Rightarrow> 'c cli_conn \<Rightarrow> 'c cli_conn \<Rightarrow> string \<Rightarrow> client_options \<Rightarrow> report cmd" where
  "runCd nz env wd cn arg opt =
     cio_bind (bail ''working_dir_unavailable'' True (ensureWorkingDir nz env wd opt)) (\<lambda>cwd.
     let target = resolveRemotePath cwd arg in
     cio_bind (bail ''not_a_directory'' False (statIsDir nz env cn opt target)) (\<lambda>_.
     cio_bind (bail ''state_unwritable'' False (setWorkingDir env target)) (\<lambda>_.
     emit env (target @ newline) [''working_dir'' \<mapsto> JStr target])))"

definition cd_cmd :: "('h, 'c) noise_lib \<Rightarrow> cli_env \<Rightarrow> 'c cli_conn \<Rightarrow> 'c cli_conn \<Rightarrow> string \<Rightarrow> report cmd" where
  "cd_cmd nz env wd cn arg = with_opts env (runCd nz env wd cn arg)"

section \<open>grep\<close>

definition jv_of :: "meta option \<Rightarrow> jvalue" where
  "jv_of m = (case m of Some (MInt i) \<Rightarrow> JInt i | Some (MBool b) \<Rightarrow> JBool b | Some (MStr s) \<Rightarrow> JStr s | _ \<Rightarrow> JNull)"

definition extractGrepResults :: "mcp_result \<Rightarrow> search_match list \<times> (string \<rightharpoonup> jvalue)" where
  "extractGrepResults r =
     (case mr_meta r ''results'' of Some (MMatches ms) \<Rightarrow> ms | _ \<Rightarrow> [],
      [''truncated'' \<mapsto> jv_of (mr_meta r ''truncated''), ''total_matched'' \<mapsto> jv_of (mr_meta r ''total_matched''),
       ''total_files_searched'' \<mapsto> jv_of (mr_meta r ''total_files_searched''), ''duration_ms'' \<mapsto> jv_of (mr_meta r ''duration_ms'')])"

definition match_key :: "search_match \<Rightarrow> string \<times> int \<times> int" where
  "match_key m = (sm_file m, sm_line m, sm_column m)"

definition grep_text :: "search_match list \<Rightarrow> (string \<rightharpoonup> jvalue) \<Rightarrow> string" where
  "grep_text matches m =
     (concat (map match_line (sort_key match_key matches))
      @ (if matches = [] then
           (case m ''total_files_searched'' of
              Some (JInt k) \<Rightarrow> ''(no matches in '' @ itoa k @ '' files)'' @ newline
            | _ \<Rightarrow> ''(no matches)'' @ newline)
         else [])
      @ (if m ''truncated'' = Some (JBool True) then
           ''--- showing '' @ itoa (int (length matches)) @ '' of ''
           @ itoa (case m ''total_matched'' of Some (JInt k) \<Rightarrow> k | _ \<Rightarrow> 0) @ '' matches (truncated) ---'' @ newline
         else []))"

definition runGrep ::
  "('h, 'c) noise_lib \<Rightarrow> cli_env \<Rightarrow> 'c cli_conn \<Rightarrow> 'c cli_conn \<Rightarrow> string \<Rightarrow> string \<Rightarrow> string \<Rightarrow> bool \<Rightarrow> int \<Rightarrow> client_options \<Rightarrow> report cmd" where
  "runGrep nz env wd cn pat path glob ignoreCase maxResults opt =
     cio_bind (remote_path nz env wd opt path) (\<lambda>path.
     cio_bind (call_tool cn opt (on_router (SearchHandler nz (cv_client env) (cn_rnd cn) (cn_inbox cn)
         (cv_arg_search env \<lparr>hs_pattern = pat, hs_path = path, hs_regex = None, hs_glob = glob, hs_nocase = ignoreCase,
            hs_max_results = (if maxResults > 0 then maxResults else 0), hs_max_files = 0\<rparr>)))) (\<lambda>r.
     let (matches, m) = extractGrepResults r in
     emit env (grep_text matches m)
       ([''pattern'' \<mapsto> JStr pat, ''path'' \<mapsto> JStr path, ''results'' \<mapsto> JMatches matches] ++ m)))"

text \<open>Without a path, the working directory.\<close>

definition grep_cmd ::
  "('h, 'c) noise_lib \<Rightarrow> cli_env \<Rightarrow> 'c cli_conn \<Rightarrow> 'c cli_conn \<Rightarrow> string \<Rightarrow> string option \<Rightarrow> string \<Rightarrow> bool \<Rightarrow> int \<Rightarrow> report cmd" where
  "grep_cmd nz env wd cn pat path glob ignoreCase maxResults =
     with_opts env (runGrep nz env wd cn pat (case path of None \<Rightarrow> ''.'' | Some p \<Rightarrow> p) glob ignoreCase maxResults)"

section \<open>put and get\<close>

definition parseMode :: "string \<Rightarrow> string + nat" where
  "parseMode s =
     (if s = [] \<or> s = ''0'' then Ok 0
      else case parse_uint 8 32 s of
        Inl e \<Rightarrow> Err (''--mode '' @ go_q s @ '': strconv.ParseUint: parsing '' @ go_q s @ '': '' @ num_error_text e)
      | Inr v \<Rightarrow> Ok v)"

definition runPut ::
  "('h, 'c) noise_lib \<Rightarrow> cli_env \<Rightarrow> 'c cli_conn \<Rightarrow> 'c cli_conn \<Rightarrow> string \<Rightarrow> string \<Rightarrow> nat \<Rightarrow> client_options \<Rightarrow> report cmd" where
  "runPut nz env wd cn localPath remotePath mode opt =
     cio_bind (remote_path nz env wd opt remotePath) (\<lambda>remotePath.
     cio_bind (call_tool cn opt (on_router_io (UploadHandler nz (cv_client env) (cn_rnd cn) (cn_inbox cn)
         (cv_arg_upload env \<lparr>ua_dest = remotePath, ua_source = ''local_path'', ua_chunks = [], ua_url = [], ua_local = localPath,
            ua_mode = mode, ua_size = 0, ua_sha = []\<rparr>)))) (\<lambda>r.
     let size = meta_int r ''size''; sha = meta_str r ''sha256'' in
     emit env (''uploaded '' @ itoa size @ '' bytes to '' @ remotePath @ '' (sha256='' @ sha @ '')'' @ newline)
       [''local'' \<mapsto> JStr localPath, ''remote'' \<mapsto> JStr remotePath, ''size'' \<mapsto> JInt size, ''sha256'' \<mapsto> JStr sha]))"

definition put_cmd ::
  "('h, 'c) noise_lib \<Rightarrow> cli_env \<Rightarrow> 'c cli_conn \<Rightarrow> 'c cli_conn \<Rightarrow> string \<Rightarrow> string \<Rightarrow> string \<Rightarrow> report cmd" where
  "put_cmd nz env wd cn localPath remotePath modeStr =
     with_opts env (\<lambda>opt.
     cio_bind (bail ''bad_payload'' False (cio_of (parseMode modeStr))) (\<lambda>mode.
     runPut nz env wd cn localPath remotePath mode opt))"

definition runGet ::
  "('h, 'c) noise_lib \<Rightarrow> cli_env \<Rightarrow> 'c cli_conn \<Rightarrow> 'c cli_conn \<Rightarrow> string \<Rightarrow> string \<Rightarrow> client_options \<Rightarrow> report cmd" where
  "runGet nz env wd cn remotePath localPath opt =
     cio_bind (remote_path nz env wd opt remotePath) (\<lambda>remotePath.
     cio_bind (call_tool cn opt (on_router_io (DownloadHandler nz (cv_client env) (cn_rnd cn) (cn_inbox cn)
         (cv_arg_download env \<lparr>da_src = remotePath, da_dest = localPath, da_offset = 0, da_limit = 0\<rparr>)))) (\<lambda>r.
     let size = meta_int r ''size''; sha = meta_str r ''sha256'' in
     emit env (''downloaded '' @ itoa size @ '' bytes to '' @ localPath @ '' (sha256='' @ sha @ '')'' @ newline)
       [''remote'' \<mapsto> JStr remotePath, ''local'' \<mapsto> JStr localPath, ''size'' \<mapsto> JInt size, ''sha256'' \<mapsto> JStr sha]))"

definition get_cmd :: "('h, 'c) noise_lib \<Rightarrow> cli_env \<Rightarrow> 'c cli_conn \<Rightarrow> 'c cli_conn \<Rightarrow> string \<Rightarrow> string \<Rightarrow> report cmd" where
  "get_cmd nz env wd cn remotePath localPath = with_opts env (runGet nz env wd cn remotePath localPath)"

section \<open>caps, status, targets\<close>

definition extractCapabilities :: "mcp_result \<Rightarrow> capabilities option" where
  "extractCapabilities r = (case mr_meta r ''capabilities'' of Some (MCaps c) \<Rightarrow> Some c | _ \<Rightarrow> None)"

definition caps_text :: "capabilities \<Rightarrow> string" where
  "caps_text c =
     ''daemon_name:         '' @ cp_daemon_name c @ newline @ ''daemon_hostname:     '' @ cp_hostname c @ newline
     @ ''agbridge_version:    '' @ cp_version c @ newline @ ''max_file_bytes:      '' @ itoa (cp_max_file_bytes c) @ newline
     @ ''exec_enabled:        '' @ fmt_bool (cp_exec_enabled c) @ newline @ ''default_working_dir: '' @ cp_working_dir c @ newline
     @ ''env_allowlist:       '' @ fmt_list (cp_env_allowlist c) @ newline
     @ ''forbidden_ports:     '' @ fmt_list (map itoa (cp_forbidden_ports c)) @ newline"

definition runCaps :: "('h, 'c) noise_lib \<Rightarrow> cli_env \<Rightarrow> 'c cli_conn \<Rightarrow> client_options \<Rightarrow> report cmd" where
  "runCaps nz env cn opt =
     cio_bind (call_tool cn opt (on_router (CapabilitiesHandler nz (cv_client env) (cn_rnd cn) (cn_inbox cn)))) (\<lambda>r.
     case extractCapabilities r of
       None \<Rightarrow> cio_fail (printErrorJSON ''protocol_error'' ''capabilities missing from response'' False ''capabilities missing from response'')
     | Some c \<Rightarrow>
         emit env (caps_text c)
           [''target'' \<mapsto> JStr (co_target opt), ''daemon_name'' \<mapsto> JStr (cp_daemon_name c), ''daemon_hostname'' \<mapsto> JStr (cp_hostname c),
            ''agbridge_version'' \<mapsto> JStr (cp_version c), ''exec_enabled'' \<mapsto> JBool (cp_exec_enabled c),
            ''default_working_dir'' \<mapsto> JStr (cp_working_dir c), ''env_allowlist'' \<mapsto> JStrs (cp_env_allowlist c),
            ''forbidden_ports'' \<mapsto> JInts (cp_forbidden_ports c), ''max_file_bytes'' \<mapsto> JInt (cp_max_file_bytes c)])"

text \<open>\<open>micros\<close>: the time the handshake took.  With \<open>--json\<close> a failure is reported on both streams.\<close>

definition status_fields :: "cli_env \<Rightarrow> client_options \<Rightarrow> string \<Rightarrow> int \<Rightarrow> (string \<rightharpoonup> jvalue)" where
  "status_fields env opt connection micros =
     [''target'' \<mapsto> JStr (co_target opt), ''gateway'' \<mapsto> JStr (co_gateway_url opt), ''agent'' \<mapsto> JStr (co_agent_name opt),
      ''version'' \<mapsto> JStr (cv_version env), ''connection'' \<mapsto> JStr connection, ''handshake_ms'' \<mapsto> JMicros micros]"

definition runStatus :: "cli_env \<Rightarrow> 'c cli_conn \<Rightarrow> int \<Rightarrow> client_options \<Rightarrow> report cmd" where
  "runStatus env cn micros opt =
     cio_bind (cio_err (\<lambda>e. (printErrorJSON ''handshake_failed'' e True e)
           \<lparr>cf_out := (if gf_json (cv_flags env)
              then Some (printJSON ((status_fields env opt ''failed'' micros)(''error'' \<mapsto> JStr e))) else None)\<rparr>)
         (Invoke (cn_dial cn) opt (\<lambda>_. cio_ret ()))) (\<lambda>_.
     emit env (''target:      '' @ co_target opt @ newline @ ''gateway:     '' @ co_gateway_url opt @ newline
         @ ''agent:       '' @ co_agent_name opt @ newline @ ''version:     '' @ cv_version env @ newline
         @ ''connection:  ok (handshake '' @ cv_millis env micros @ '' ms)'' @ newline)
       (status_fields env opt ''ok'' micros))"

text \<open>The targets come in the iteration order of a Go map, here that of the list.\<close>

definition target_object :: "cli_env \<Rightarrow> bridge_state \<Rightarrow> string \<times> daemon_ref \<Rightarrow> (string \<rightharpoonup> jvalue)" where
  "target_object env st = (\<lambda>(name, rec).
     [''name'' \<mapsto> JStr name, ''default'' \<mapsto> JBool (name = bst_default_target st), ''pubkey'' \<mapsto> JStr (dr_pubkey rec),
      ''device_id'' \<mapsto> JStr (dr_device_id rec), ''enrolled'' \<mapsto> JStr (cv_time env RFC3339 (dr_first_seen rec))])"

definition tab :: string where "tab = [CHR 0x09]"

definition target_line :: "cli_env \<Rightarrow> bridge_state \<Rightarrow> string \<times> daemon_ref \<Rightarrow> string" where
  "target_line env st = (\<lambda>(name, rec).
     name @ tab @ (if name = bst_default_target st then ''*'' else ''-'') @ tab
     @ (if length (dr_pubkey rec) > 20 then take 20 (dr_pubkey rec) @ ''...'' else dr_pubkey rec) @ tab
     @ cv_time env ''2006-01-02'' (dr_first_seen rec) @ newline)"

definition targets_cmd :: "cli_env \<Rightarrow> report cmd" where
  "targets_cmd env =
     cio_bind (bail ''state_unreadable'' False (load_state env)) (\<lambda>st.
     emit env (''NAME'' @ tab @ ''DEFAULT'' @ tab @ ''PUBKEY (b64, truncated)'' @ tab @ ''ENROLLED'' @ newline
         @ concat (map (target_line env st) (bst_known_daemons st)))
       [''targets'' \<mapsto> JObjs (map (target_object env st) (bst_known_daemons st))])"

end
