(* ===== verification/Cli_Ls.thy ===== *)
theory Cli_Ls
  imports Cli_Commands
begin

text \<open>
  \<open>agbridge ls\<close> (\<open>cmd/agbridge/cli_ls.go\<close>).  The recursion is the command's own: a breadth-first search over the daemon's
  directories, one request for each on the same connection.  The loop is a partial function, because nothing but
  the answers of the daemon bounds it: \<open>None\<close> means that it never ends.
\<close>

section \<open>The walk\<close>

record ls_walk =
  lw_path :: string
  lw_entries :: "dir_entry list"

definition meta_entries :: "mcp_result \<Rightarrow> dir_entry list" where
  "meta_entries r = (case mr_meta r ''entries'' of Some (MEntries es) \<Rightarrow> es | _ \<Rightarrow> [])"

text \<open>The directories among the entries that were not seen before go to the end of the queue.\<close>

fun ls_push :: "string \<Rightarrow> nat \<Rightarrow> dir_entry list \<Rightarrow> string list \<Rightarrow> (string \<rightharpoonup> nat) \<Rightarrow> string list \<times> (string \<rightharpoonup> nat)" where
  "ls_push cur d [] queue seen = (queue, seen)"
| "ls_push cur d (e # es) queue seen =
     (if de_type e \<noteq> ''dir'' then ls_push cur d es queue seen
      else let sub = path_join [cur, de_name e] in
        if sub \<in> dom seen then ls_push cur d es queue seen
        else ls_push cur d es (queue @ [sub]) (seen(sub \<mapsto> d + 1)))"

text \<open>\<open>ask k p s\<close>: the \<open>k\<close>-th request, for the directory \<open>p\<close>, on the connection \<open>s\<close>.  The result has the walks, and the error
  result that stopped them, if any.\<close>

partial_function (option) ls_loop ::
  "(nat \<Rightarrow> string \<Rightarrow> 's \<Rightarrow> mcp_result ran \<times> 's) \<Rightarrow> bool \<Rightarrow> int \<Rightarrow> nat \<Rightarrow> string list \<Rightarrow> (string \<rightharpoonup> nat) \<Rightarrow> ls_walk list \<Rightarrow> 's
     \<Rightarrow> (ls_walk list \<times> mcp_result option) ran option" where
  "ls_loop ask recursive depth k queue seen walks s =
     (case queue of
        [] \<Rightarrow> Some (Ended (walks, None))
      | cur # queue \<Rightarrow>
          (case ask k cur s of
             (Blocked, s) \<Rightarrow> Some Blocked
           | (Crashed, s) \<Rightarrow> Some Crashed
           | (Ended r, s) \<Rightarrow>
               if mr_error r then Some (Ended (walks, Some r))
               else
                 (let entries = meta_entries r; walks = walks @ [\<lparr>lw_path = cur, lw_entries = entries\<rparr>];
                      curDepth = (case seen cur of None \<Rightarrow> 0 | Some d \<Rightarrow> d);
                      (queue, seen) = (if \<not> recursive \<or> (depth > 0 \<and> int curDepth \<ge> depth) then (queue, seen)
                                       else ls_push cur curDepth entries queue seen)
                  in ls_loop ask recursive depth (Suc k) queue seen walks s)))"

section \<open>The command\<close>

text \<open>A connection that lists: for the \<open>k\<close>-th call the random identifier and, by the path asked for, what its channel gives.\<close>

record 'c ls_conn =
  lc_dial :: "client_options \<Rightarrow> (string, 'c call) io"
  lc_rnd :: "nat \<Rightarrow> bytes"
  lc_inbox :: "nat \<Rightarrow> string \<Rightarrow> inbox list"

definition ls_ask :: "('h, 'c) noise_lib \<Rightarrow> cli_env \<Rightarrow> 'c ls_conn \<Rightarrow> nat \<Rightarrow> string \<Rightarrow> 'c call \<Rightarrow> mcp_result ran \<times> 'c call" where
  "ls_ask nz env cn k path c =
     (let (x, c) = ListDirectoryHandler nz (cv_client env) (lc_rnd cn k) (lc_inbox cn k path) (cv_arg_path env path) c in
      (case x of Waiting \<Rightarrow> Blocked | Panic \<Rightarrow> Crashed | Answer r \<Rightarrow> Ended r, c))"

definition entry_text :: "dir_entry \<Rightarrow> string" where
  "entry_text e = pad_right 4 (de_type e) @ '' '' @ pad_left 10 (itoa (de_size e)) @ '' '' @ oct_digits (de_mode e) @ '' ''
     @ de_name e @ newline"

definition walk_text :: "bool \<Rightarrow> ls_walk \<Rightarrow> string" where
  "walk_text many wk =
     (if many then lw_path wk @ '':'' @ newline else [])
     @ concat (map entry_text (sort_key de_name (lw_entries wk)))
     @ (if lw_entries wk = [] then ''(empty directory)'' @ newline else [])"

definition renderWalks :: "ls_walk list \<Rightarrow> string" where
  "renderWalks walks = join_with newline (map (walk_text (length walks > 1)) walks)"

definition walk_object :: "ls_walk \<Rightarrow> (string \<rightharpoonup> jvalue)" where
  "walk_object wk = [''path'' \<mapsto> JStr (lw_path wk), ''entries'' \<mapsto> JEntries (lw_entries wk)]"

text \<open>The function given to \<open>Invoke\<close>; a loop that never ends is a command that never ends.\<close>

definition ls_walks ::
  "('h, 'c) noise_lib \<Rightarrow> cli_env \<Rightarrow> 'c ls_conn \<Rightarrow> bool \<Rightarrow> int \<Rightarrow> string \<Rightarrow> 'c call \<Rightarrow> (string, ls_walk list \<times> mcp_result option) cio" where
  "ls_walks nz env cn recursive depth root c w =
     (case ls_loop (ls_ask nz env cn) recursive depth 0 [root] [root \<mapsto> 0] [] c of
        None \<Rightarrow> (Blocked, w) | Some Blocked \<Rightarrow> (Blocked, w) | Some Crashed \<Rightarrow> (Crashed, w)
      | Some (Ended r) \<Rightarrow> (Ended (Ok r), w))"

definition runLs ::
  "('h, 'c) noise_lib \<Rightarrow> cli_env \<Rightarrow> 'c cli_conn \<Rightarrow> 'c ls_conn \<Rightarrow> string \<Rightarrow> bool \<Rightarrow> int \<Rightarrow> client_options \<Rightarrow> report cmd" where
  "runLs nz env wd cn root recursive depth opt =
     cio_bind (remote_path nz env wd opt root) (\<lambda>root.
     cio_bind (bail ''network_lost'' True (Invoke (lc_dial cn) opt (ls_walks nz env cn recursive depth root))) (\<lambda>(walks, err).
     case err of
       Some r \<Rightarrow> cio_fail (tool_failure r)
     | None \<Rightarrow>
         emit env (renderWalks walks)
           [''root'' \<mapsto> JStr root, ''recursive'' \<mapsto> JBool recursive, ''depth'' \<mapsto> JInt depth, ''walks'' \<mapsto> JObjs (map walk_object walks)]))"

definition ls_cmd ::
  "('h, 'c) noise_lib \<Rightarrow> cli_env \<Rightarrow> 'c cli_conn \<Rightarrow> 'c ls_conn \<Rightarrow> string option \<Rightarrow> bool \<Rightarrow> int \<Rightarrow> report cmd" where
  "ls_cmd nz env wd cn arg recursive depth =
     with_opts env (runLs nz env wd cn (case arg of None \<Rightarrow> [] | Some a \<Rightarrow> a) recursive depth)"

section \<open>Breadth-first search\<close>

text \<open>The directories below one, by a listing \<open>L\<close>, and those within \<open>n\<close> steps of the root.\<close>

definition subdirs :: "(string \<Rightarrow> dir_entry list) \<Rightarrow> string \<Rightarrow> string set" where
  "subdirs L p = {path_join [p, de_name e] | e. e \<in> set (L p) \<and> de_type e = ''dir''}"

primrec dirs_within :: "(string \<Rightarrow> dir_entry list) \<Rightarrow> string \<Rightarrow> nat \<Rightarrow> string set" where
  "dirs_within L root 0 = {root}"
| "dirs_within L root (Suc n) = dirs_within L root n \<union> (\<Union>p \<in> dirs_within L root n. subdirs L p)"

text \<open>The directories that \<open>ls\<close> is to list.\<close>

definition ls_target :: "(string \<Rightarrow> dir_entry list) \<Rightarrow> string \<Rightarrow> bool \<Rightarrow> int \<Rightarrow> string set" where
  "ls_target L root recursive depth =
     (if \<not> recursive then {root} else if depth > 0 then dirs_within L root (nat depth) else (\<Union>n. dirs_within L root n))"

lemma dirs_within_mono: "m \<le> n \<Longrightarrow> dirs_within L root m \<subseteq> dirs_within L root n"
  by (induction n) (auto simp: le_Suc_eq)

text \<open>\<open>p\<close> is \<open>n\<close> steps from the root and not fewer.\<close>

definition dist_is :: "(string \<Rightarrow> dir_entry list) \<Rightarrow> string \<Rightarrow> string \<Rightarrow> nat \<Rightarrow> bool" where
  "dist_is L root p n \<longleftrightarrow> p \<in> dirs_within L root n \<and> (\<forall>m < n. p \<notin> dirs_within L root m)"

lemma dist_is_exists: "p \<in> dirs_within L root n \<Longrightarrow> \<exists>m \<le> n. dist_is L root p m"
proof -
  assume "p \<in> dirs_within L root n"
  then have "dist_is L root p (LEAST m. p \<in> dirs_within L root m)" "(LEAST m. p \<in> dirs_within L root m) \<le> n"
    unfolding dist_is_def by (auto intro: LeastI Least_le dest: not_less_Least)
  then show ?thesis by blast
qed

lemma dist_is_unique: "dist_is L root p n \<Longrightarrow> dist_is L root p m \<Longrightarrow> n = m"
  unfolding dist_is_def by (meson linorder_neqE_nat)

lemma dist_is_within: "dist_is L root p d \<Longrightarrow> p \<in> dirs_within L root n \<longleftrightarrow> d \<le> n"
  using dirs_within_mono unfolding dist_is_def by (meson leI subsetD)

text \<open>What pushing does: new directories come in order, each once, one step further.\<close>

lemma ls_push_spec:
  assumes "ls_push cur d es queue seen = (queue', seen')"
  obtains new where "queue' = queue @ new" "distinct new" "set new = {path_join [cur, de_name e] | e. e \<in> set es \<and> de_type e = ''dir''} - dom seen"
    "seen' = (\<lambda>p. if p \<in> set new then Some (d + 1) else seen p)"
  using assms
proof (induction es arbitrary: queue seen thesis)
  case Nil
  from Nil(1) [of "[]"] Nil(2) show ?case by (auto simp: fun_eq_iff)
next
  case (Cons e es)
  let ?sub = "path_join [cur, de_name e]"
  show ?case
  proof (cases "de_type e = ''dir'' \<and> ?sub \<notin> dom seen")
    case False
    then have "ls_push cur d es queue seen = (queue', seen')" using Cons.prems(2) by (auto simp: Let_def split: if_splits)
    from Cons.IH [OF _ this] obtain new where n: "queue' = queue @ new" "distinct new"
      "set new = {path_join [cur, de_name e] | e. e \<in> set es \<and> de_type e = ''dir''} - dom seen"
      "seen' = (\<lambda>p. if p \<in> set new then Some (d + 1) else seen p)" .
    moreover have "{path_join [cur, de_name x] | x. x \<in> set (e # es) \<and> de_type x = ''dir''} - dom seen
        = {path_join [cur, de_name e] | e. e \<in> set es \<and> de_type e = ''dir''} - dom seen" using False by auto
    ultimately show ?thesis using Cons.prems(1) by metis
  next
    case True
    then have "ls_push cur d es (queue @ [?sub]) (seen(?sub \<mapsto> d + 1)) = (queue', seen')"
      using Cons.prems(2) by (simp add: Let_def)
    from Cons.IH [OF _ this] obtain new where n: "queue' = (queue @ [?sub]) @ new" "distinct new"
      "set new = {path_join [cur, de_name e] | e. e \<in> set es \<and> de_type e = ''dir''} - dom (seen(?sub \<mapsto> d + 1))"
      "seen' = (\<lambda>p. if p \<in> set new then Some (d + 1) else (seen(?sub \<mapsto> d + 1)) p)" .
    have "set (?sub # new) = {path_join [cur, de_name x] | x. x \<in> set (e # es) \<and> de_type x = ''dir''} - dom seen"
      using True n(3) by auto
    moreover have "distinct (?sub # new)" using n(2,3) by simp
    moreover have "seen' = (\<lambda>p. if p \<in> set (?sub # new) then Some (d + 1) else seen p)" using n(4) by (auto simp: fun_eq_iff)
    ultimately show ?thesis using Cons.prems(1) [of "?sub # new"] n(1) by simp
  qed
qed

text \<open>A set that has the root and the subdirectories of what it has within \<open>b\<close> steps has everything within \<open>b\<close> steps.\<close>

lemma closed_covers:
  assumes "root \<in> D" and "\<And>v e. v \<in> D \<Longrightarrow> dist_is L root v e \<Longrightarrow> e < b \<Longrightarrow> subdirs L v \<subseteq> D"
  shows "m \<le> b \<Longrightarrow> dirs_within L root m \<subseteq> D"
proof (induction m)
  case (Suc m)
  have "subdirs L q \<subseteq> D" if "q \<in> dirs_within L root m" for q
  proof -
    from dist_is_exists [OF that] obtain e where "e \<le> m" "dist_is L root q e" by blast
    moreover have "q \<in> D" using Suc that by auto
    ultimately show ?thesis using assms(2) [of q e] Suc.prems by simp
  qed
  with Suc show ?case by auto
qed (use assms(1) in simp)

definition descends :: "bool \<Rightarrow> int \<Rightarrow> nat \<Rightarrow> bool" where
  "descends recursive depth d \<longleftrightarrow> \<not> (\<not> recursive \<or> (depth > 0 \<and> int d \<ge> depth))"

text \<open>The invariant: \<open>V\<close> is visited and \<open>Q\<close> is queued.  What is seen has its distance; it is visited and then queued in the order of
  the distance, and the queue spans two levels; what was visited has been descended into.\<close>

definition ls_inv ::
  "(string \<Rightarrow> dir_entry list) \<Rightarrow> string \<Rightarrow> bool \<Rightarrow> int \<Rightarrow> string list \<Rightarrow> string list \<Rightarrow> (string \<rightharpoonup> nat) \<Rightarrow> bool" where
  "ls_inv L root recursive depth V Q seen \<longleftrightarrow>
     distinct (V @ Q) \<and> dom seen = set (V @ Q) \<and> root \<in> dom seen
     \<and> (\<forall>p d. seen p = Some d \<longrightarrow> dist_is L root p d \<and> p \<in> ls_target L root recursive depth)
     \<and> sorted (map (\<lambda>p. the (seen p)) (V @ Q)) \<and> (\<forall>q \<in> set Q. the (seen q) \<le> the (seen (hd Q)) + 1)
     \<and> (\<forall>v \<in> set V. descends recursive depth (the (seen v)) \<longrightarrow> subdirs L v \<subseteq> dom seen)"

lemma ls_target_step:
  assumes "p \<in> ls_target L root recursive depth" "dist_is L root p d" "descends recursive depth d"
  shows "subdirs L p \<subseteq> ls_target L root recursive depth" "subdirs L p \<subseteq> dirs_within L root (d + 1)"
proof -
  show step: "subdirs L p \<subseteq> dirs_within L root (d + 1)" using assms(2) by (auto simp: dist_is_def)
  show "subdirs L p \<subseteq> ls_target L root recursive depth"
  proof (cases "depth > 0")
    case True
    with assms(3) have "d + 1 \<le> nat depth" by (auto simp: descends_def)
    with step dirs_within_mono have "subdirs L p \<subseteq> dirs_within L root (nat depth)" by blast
    with True assms(3) show ?thesis by (simp add: ls_target_def descends_def)
  next
    case False
    with assms(3) have "ls_target L root recursive depth = (\<Union>n. dirs_within L root n)" by (simp add: ls_target_def descends_def)
    with step show ?thesis by blast
  qed
qed

lemma ls_inv_below:
  "ls_inv L root recursive depth V Q seen \<Longrightarrow> v \<in> set V \<Longrightarrow> descends recursive depth (the (seen v)) \<Longrightarrow> subdirs L v \<subseteq> dom seen"
  unfolding ls_inv_def by blast

lemma ls_inv_dist: "ls_inv L root recursive depth V Q seen \<Longrightarrow> v \<in> dom seen \<Longrightarrow> dist_is L root v e \<Longrightarrow> seen v = Some e"
  using dist_is_unique unfolding ls_inv_def by blast

text \<open>When the head of the queue is \<open>d\<close> steps away, everything within \<open>d\<close> steps has been seen.\<close>

lemma ls_inv_covers:
  assumes "ls_inv L root recursive depth V (cur # Q) seen" "seen cur = Some d" "descends recursive depth d"
  shows "dirs_within L root d \<subseteq> dom seen"
proof (rule closed_covers [where b = d])
  fix v e assume v: "v \<in> dom seen" "dist_is L root v e" "e < d"
  then have se: "seen v = Some e" using ls_inv_dist [OF assms(1)] by blast
  have "v \<in> set V"
  proof (rule ccontr)
    assume "v \<notin> set V"
    with v(1) assms(1) have "v = cur \<or> v \<in> set Q" by (auto simp: ls_inv_def)
    moreover have "sorted (map (\<lambda>p. the (seen p)) (cur # Q))" using assms(1) by (simp add: ls_inv_def sorted_append)
    ultimately have "d \<le> e" using se assms(2) by auto
    with v(3) show False by simp
  qed
  moreover have "descends recursive depth e" using assms(3) v(3) by (auto simp: descends_def)
  ultimately show "subdirs L v \<subseteq> dom seen" using ls_inv_below [OF assms(1)] se by simp
qed (use assms(1) in \<open>auto simp: ls_inv_def\<close>)

lemma ls_inv_stay:
  assumes "ls_inv L root recursive depth V (cur # Q) seen" "seen cur = Some d" "\<not> descends recursive depth d"
  shows "ls_inv L root recursive depth (V @ [cur]) Q seen"
proof -
  have "the (seen q) \<le> the (seen (hd Q)) + 1" if "q \<in> set Q" for q
  proof -
    have "the (seen q) \<le> d + 1" using assms(1,2) that by (auto simp: ls_inv_def)
    moreover have "d \<le> the (seen (hd Q))" using assms(1,2) that by (cases Q) (auto simp: ls_inv_def sorted_append)
    ultimately show ?thesis by linarith
  qed
  moreover have "subdirs L v \<subseteq> dom seen" if "v \<in> set (V @ [cur])" "descends recursive depth (the (seen v))" for v
    using that ls_inv_below [OF assms(1)] assms(2,3) by auto
  ultimately show ?thesis using assms(1) by (simp add: ls_inv_def) blast
qed

lemma ls_inv_push:
  assumes inv: "ls_inv L root recursive depth V (cur # Q) seen" and d: "seen cur = Some d" "descends recursive depth d"
    and push: "ls_push cur d (L cur) Q seen = (Q', seen')"
  shows "ls_inv L root recursive depth (V @ [cur]) Q' seen'"
proof -
  from ls_push_spec [OF push] obtain new where new: "Q' = Q @ new" "distinct new" "set new = subdirs L cur - dom seen"
    "seen' = (\<lambda>p. if p \<in> set new then Some (d + 1) else seen p)" by (auto simp: subdirs_def)
  note i = inv [unfolded ls_inv_def]
  have cur: "dist_is L root cur d" "cur \<in> ls_target L root recursive depth" using i d(1) by auto
  note step = ls_target_step [OF cur(2,1) d(2)]
  have covers: "dirs_within L root d \<subseteq> dom seen" by (rule ls_inv_covers [OF inv d])
  have fresh: "dist_is L root p (d + 1) \<and> p \<in> ls_target L root recursive depth" if "p \<in> set new" for p
  proof -
    have "p \<notin> dirs_within L root m" if "m < d + 1" for m
      using covers dirs_within_mono [of m d L root] \<open>p \<in> set new\<close> new(3) that by auto
    with that new(3) step show ?thesis by (auto simp: dist_is_def)
  qed
  have new_seen: "the (seen' p) = d + 1" if "p \<in> set new" for p using that new(4) by simp
  have old: "seen' p = seen p" if "p \<in> dom seen" for p using that new(3,4) by auto
  have all: "set (V @ [cur] @ Q) = dom seen" using i by auto
  have lower: "the (seen p) \<le> d + 1" if "p \<in> set (V @ [cur] @ Q)" for p
    using i d(1) that by (fastforce simp: sorted_append)
  have eq1: "map (\<lambda>p. the (seen' p)) (V @ [cur] @ Q) = map (\<lambda>p. the (seen p)) (V @ [cur] @ Q)"
    by (rule map_cong [OF refl]) (simp only: old all)
  have eq2: "map (\<lambda>p. the (seen' p)) new = replicate (length new) (d + 1)"
    using new_seen by (induction new) auto
  have "map (\<lambda>p. the (seen' p)) ((V @ [cur] @ Q) @ new)
      = map (\<lambda>p. the (seen p)) (V @ [cur] @ Q) @ replicate (length new) (d + 1)"
    by (subst map_append) (simp only: eq1 eq2)
  moreover have "sorted (map (\<lambda>p. the (seen p)) (V @ [cur] @ Q))" using i by simp
  then have "sorted (map (\<lambda>p. the (seen p)) (V @ [cur] @ Q) @ replicate (length new) (d + 1))"
    using lower by (subst sorted_append) auto
  ultimately have "sorted (map (\<lambda>p. the (seen' p)) ((V @ [cur] @ Q) @ new))" by (simp only:)
  then have sorted: "sorted (map (\<lambda>p. the (seen' p)) (V @ [cur] @ Q @ new))" by (simp only: append_assoc)
  have span: "the (seen' q) \<le> the (seen' (hd (Q @ new))) + 1" if "q \<in> set (Q @ new)" for q
  proof -
    have "seen' cur = Some d" using old [of cur] d(1) by (simp add: domI)
    then have "d \<le> the (seen' (hd (Q @ new)))"
      using sorted that by (cases "Q @ new") (auto simp: sorted_append)
    moreover have "the (seen' q) \<le> d + 1"
    proof (cases "q \<in> set new")
      case False
      with that have "q \<in> set (V @ [cur] @ Q)" by simp
      with lower [OF this] old [of q] show ?thesis unfolding all by simp
    qed (simp add: new_seen)
    ultimately show ?thesis by linarith
  qed
  have below: "subdirs L v \<subseteq> dom seen'" if "v \<in> set (V @ [cur])" "descends recursive depth (the (seen' v))" for v
  proof -
    have "dom seen' = dom seen \<union> set new" using new(4) by (auto simp: dom_def)
    moreover have "seen' v = seen v" using that(1) all old by auto
    ultimately show ?thesis
    proof (cases "v = cur")
      case True
      have "subdirs L cur \<subseteq> dom seen \<union> set new" using new(3) by blast
      with True \<open>dom seen' = _\<close> show ?thesis by simp
    next
      case False
      then have "subdirs L v \<subseteq> dom seen" using that \<open>seen' v = seen v\<close> ls_inv_below [OF inv, of v] by simp
      with \<open>dom seen' = _\<close> show ?thesis by blast
    qed
  qed
  have "distinct (V @ [cur] @ Q @ new)" using i new(2,3) by auto
  moreover have "dom seen' = set (V @ [cur] @ Q @ new)" using all new(4) by (auto simp: dom_def)
  moreover have "dist_is L root p e \<and> p \<in> ls_target L root recursive depth" if "seen' p = Some e" for p e
    using that fresh [of p] new(4) i by (auto split: if_splits)
  moreover have "root \<in> dom seen'" using i new(4) by (auto simp: dom_def)
  ultimately show ?thesis using sorted span below unfolding ls_inv_def new(1) by auto
qed

text \<open>At the end of the queue exactly the directories to list have been visited.\<close>

lemma ls_inv_end:
  assumes "ls_inv L root recursive depth V [] seen"
  shows "set V = ls_target L root recursive depth"
proof
  have dom: "dom seen = set V" "root \<in> set V" using assms by (auto simp: ls_inv_def)
  then show "set V \<subseteq> ls_target L root recursive depth" using assms by (fastforce simp: ls_inv_def)
  have covers: "dirs_within L root b \<subseteq> set V" if "\<And>e. e < b \<Longrightarrow> descends recursive depth e" for b
  proof (rule closed_covers [where b = b])
    fix v e assume v: "v \<in> set V" "dist_is L root v e" "e < b"
    then have "seen v = Some e" using ls_inv_dist [OF assms] dom(1) by blast
    with ls_inv_below [OF assms v(1)] that [OF v(3)] dom(1) show "subdirs L v \<subseteq> set V" by simp
  qed (use dom in simp_all)
  show "ls_target L root recursive depth \<subseteq> set V"
  proof (cases "recursive")
    case False
    with dom show ?thesis by (simp add: ls_target_def)
  next
    case True
    have "dirs_within L root b \<subseteq> set V" if "depth > 0 \<Longrightarrow> b \<le> nat depth" for b
      by (rule covers) (use that True in \<open>auto simp: descends_def\<close>)
    with True show ?thesis by (auto simp: ls_target_def)
  qed
qed

lemma ls_inv_start: "ls_inv L root recursive depth [] [root] [root \<mapsto> 0]"
proof -
  have "root \<in> (\<Union>n. dirs_within L root n)" using dirs_within.simps(1) by blast
  then show ?thesis using dirs_within_mono [of 0 "nat depth" L root] by (auto simp: ls_inv_def dist_is_def ls_target_def)
qed

text \<open>Nearer directories come first.\<close>

definition nearer_first :: "(string \<Rightarrow> dir_entry list) \<Rightarrow> string \<Rightarrow> string list \<Rightarrow> bool" where
  "nearer_first L root V \<longleftrightarrow> sorted_wrt (\<lambda>p q. \<forall>n. q \<in> dirs_within L root n \<longrightarrow> p \<in> dirs_within L root n) V"

lemma ls_inv_nearer:
  assumes "ls_inv L root recursive depth V [] seen"
  shows "nearer_first L root V"
proof -
  have "sorted_wrt (\<lambda>p q. the (seen p) \<le> the (seen q)) V" using assms by (simp add: ls_inv_def sorted_map)
  then show ?thesis unfolding nearer_first_def
  proof (rule sorted_wrt_mono_rel [rotated])
    fix p q assume "p \<in> set V" "q \<in> set V" and le: "the (seen p) \<le> the (seen q)"
    then have "p \<in> dom seen" "q \<in> dom seen" using assms by (auto simp: ls_inv_def)
    then obtain a b where ab: "seen p = Some a" "seen q = Some b" by blast
    then have "dist_is L root p a" "dist_is L root q b" using assms by (auto simp: ls_inv_def)
    from this [THEN dist_is_within] ab le show "\<forall>n. q \<in> dirs_within L root n \<longrightarrow> p \<in> dirs_within L root n" by auto
  qed
qed

definition walk_of :: "(string \<Rightarrow> dir_entry list) \<Rightarrow> string \<Rightarrow> ls_walk" where
  "walk_of L p = \<lparr>lw_path = p, lw_entries = L p\<rparr>"

text \<open>The loop from any point of the search: it returns, for the directories left to visit decrease.\<close>

lemma ls_loop_lists:
  assumes "\<And>k p s. good s \<Longrightarrow> p \<in> ls_target L root recursive depth
      \<Longrightarrow> \<exists>r s'. ask k p s = (Ended r, s') \<and> good s' \<and> \<not> mr_error r \<and> meta_entries r = L p"
    and "finite (ls_target L root recursive depth)" and "ls_inv L root recursive depth V Q seen" and "good s"
  shows "\<exists>V'. ls_loop ask recursive depth k Q seen (map (walk_of L) V) s = Some (Ended (map (walk_of L) V', None))
    \<and> distinct V' \<and> set V' = ls_target L root recursive depth \<and> nearer_first L root V'"
  using assms(3,4)
proof (induction "card (ls_target L root recursive depth - set V)" arbitrary: V Q seen k s rule: less_induct)
  case less
  show ?case
  proof (cases Q)
    case Nil
    have "ls_loop ask recursive depth k [] seen (map (walk_of L) V) s = Some (Ended (map (walk_of L) V, None))"
      by (subst ls_loop.simps) simp
    moreover note inv = less.prems(1) [unfolded Nil]
    moreover have "distinct V" using inv by (simp add: ls_inv_def)
    ultimately show ?thesis using ls_inv_end [OF inv] ls_inv_nearer [OF inv] Nil by blast
  next
    case (Cons cur Q0)
    note inv = less.prems(1) [unfolded Cons]
    have "cur \<in> dom seen" and new: "cur \<notin> set V" using inv by (auto simp: ls_inv_def)
    then obtain d where "seen cur = Some d" by blast
    with inv new have d: "seen cur = Some d" "cur \<in> ls_target L root recursive depth" "cur \<notin> set V"
      unfolding ls_inv_def by blast+
    from assms(1) [OF less.prems(2) d(2), of k] obtain r s' where
      r: "ask k cur s = (Ended r, s')" "\<not> mr_error r" "meta_entries r = L cur" and good: "good s'" by blast
    have "ls_target L root recursive depth - set (V @ [cur]) \<subset> ls_target L root recursive depth - set V" using d by auto
    then have smaller: "card (ls_target L root recursive depth - set (V @ [cur])) < card (ls_target L root recursive depth - set V)"
      using assms(2) by (intro psubset_card_mono) auto
    obtain Q1 seen1 where nx: "(if descends recursive depth d then ls_push cur d (L cur) Q0 seen else (Q0, seen)) = (Q1, seen1)"
      by (metis surj_pair)
    then have "ls_inv L root recursive depth (V @ [cur]) Q1 seen1"
      using ls_inv_push [OF inv d(1)] ls_inv_stay [OF inv d(1)] by (auto split: if_splits)
    from less.hyps [OF smaller this good, of "Suc k"] obtain V' where V':
      "ls_loop ask recursive depth (Suc k) Q1 seen1 (map (walk_of L) V @ [walk_of L cur]) s' = Some (Ended (map (walk_of L) V', None))"
      "distinct V'" "set V' = ls_target L root recursive depth" "nearer_first L root V'" by auto
    have "ls_loop ask recursive depth k Q seen (map (walk_of L) V) s
        = ls_loop ask recursive depth (Suc k) Q1 seen1 (map (walk_of L) V @ [walk_of L cur]) s'"
      using nx r d(1) Cons by (subst ls_loop.simps) (auto simp: descends_def walk_of_def Let_def split: if_splits prod.split)
    with V' show ?thesis by auto
  qed
qed

end
