(* ===== verification/Cli_Props.thy ===== *)
theory Cli_Props
  imports Cli_Ls End_To_End
begin

text \<open>
  What the commands do: the handler of the bridge, the handler and the tool of the daemon, and the command around them,
  put together.
\<close>

section \<open>Paths\<close>

lemma ensureWorkingDir_not_Nil: "ensureWorkingDir nz env wd opt w = (Ended (Ok d), w') \<Longrightarrow> d \<noteq> []"
  by (auto simp: ensureWorkingDir_def cio_bind_Ok Let_def split: if_splits)

lemma clean_render_not_Nil: "clean_nf r st \<Longrightarrow> clean_render r st \<noteq> []"
proof -
  assume nf: "clean_nf r st"
  have "join_with [slash] (rev st) \<noteq> []" if "st \<noteq> []"
  proof -
    from that obtain x xs where "rev st = x # xs" by (cases "rev st") auto
    moreover from this have "x \<in> set st" by (metis list.set_intros(1) set_rev)
    ultimately show ?thesis using clean_nf_parts [OF nf] by (cases xs) auto
  qed
  then show ?thesis by (simp add: clean_render_def)
qed

lemma path_clean_not_Nil [simp]: "path_clean p \<noteq> []"
proof (cases "p = []")
  case False
  from path_clean_nf [OF this] obtain st where st: "clean_nf (is_abs p) st" "path_clean p = clean_render (is_abs p) st" .
  from clean_render_not_Nil [OF st(1)] show ?thesis unfolding st(2) .
qed (simp add: path_clean_def)

lemma resolveRemotePath_not_Nil: "cwd \<noteq> [] \<Longrightarrow> resolveRemotePath cwd arg \<noteq> []"
  by (simp add: resolveRemotePath_def)

lemma remote_path_not_Nil: "remote_path nz env wd opt arg w = (Ended (Ok p), w') \<Longrightarrow> p \<noteq> []"
  by (auto simp: remote_path_def bail_def resolveArg_def cio_bind_Ok resolveRemotePath_not_Nil dest: ensureWorkingDir_not_Nil split: if_splits)

section \<open>Sending\<close>

text \<open>A call whose frames are all sent gives what the wait for its answer gives.\<close>

lemma with_call_sent:
  "send_frames nz ce fs (c\<lparr>cl_router := registerCall i (cl_router c)\<rparr>) = (Sent, c1) \<Longrightarrow>
     with_call nz ce i fs after c = finish_call i after c1"
  by (simp add: with_call_def send_outcome_def)

lemma with_call_answers: "after \<noteq> Panic \<Longrightarrow> fst (with_call nz ce i fs after c) \<noteq> Panic"
  by (auto simp: with_call_def send_outcome_def network_lost_def split: prod.split sending.split)

lemma Invoke_dialed: "dial opt w = (Ok c, w') \<Longrightarrow> Invoke dial opt fn w = fn c w'"
  by (simp add: Invoke_def cio_bind_def cio_err_def cio_io_def)

lemma call_tool_answer:
  assumes "cn_dial cn opt w = (Ok c, w')" "fst (h c) = Answer r"
  shows "call_tool cn opt (on_router h) w = tool_result r w'"
  using assms by (auto simp: call_tool_def bail_def cio_bind_def cio_err_def Invoke_dialed on_router_def handled_def)

lemma tool_failure_final [simp]: "\<not> cf_retry_safe (tool_failure r)" "cf_code (tool_failure r) = meta_str r ''error_code''"
  by (simp_all add: tool_failure_def printErrorJSON_def toolErrorFields_def Let_def)

lemma emit_out: "emit env text payload w =
    (Ended (Ok \<lparr>rp_out = (if gf_json (cv_flags env) then printJSON payload else Text text), rp_stderr = []\<rparr>), w)"
  by (simp add: emit_def)

section \<open>cat\<close>

lemma base64_encode_Nil [simp]: "base64_encode b = [] \<longleftrightarrow> b = []"
  by (cases b rule: base64_encode.cases) simp_all

lemma ReadFileHandler_sent:
  assumes "rr_path req \<noteq> []" "send_frames nz ce [call_frame FrameTypeFileReadRequest (newReqID rnd) (ke_read ce req)]
      (c\<lparr>cl_router := registerCall (newReqID rnd) (cl_router c)\<rparr>) = (Sent, c1)"
  shows "fst (ReadFileHandler nz ce rnd ib (Ok req) c) = fst (read_file_loop ce ib [] [])"
  using with_call_sent [OF assms(2)] assms(1) by (simp add: ReadFileHandler_def)

text \<open>C8: \<open>agbridge cat\<close> from end to end: when it succeeds, it prints exactly the part of the daemon's file that was asked for,
  byte for byte and whether or not it is text, or, with \<open>--json\<close>, that part as JSON text (what is not UTF-8 comes out
  as U+FFFD, see \<open>json_text\<close>) with its true size and SHA-256; when it fails, it does not advise to retry.  When no system call of the daemon fails and the part fits the caps, it succeeds.\<close>

theorem cat_end_to_end:
  assumes path: "remote_path nz env wd opt path w = (Ended (Ok p), w0)"
    and dial: "cn_dial cn opt w0 = (Ok c, w1)"
    and req: "req = \<lparr>rr_path = p, rr_max_size = 0, rr_offset = offset, rr_limit = limit\<rparr>" "cv_arg_read env req = Ok req"
    and sent: "ce = cv_client env" "i = newReqID (cn_rnd cn)" "rq = call_frame FrameTypeFileReadRequest i (ke_read ce req)"
      "send_frames nz ce [rq] (c\<lparr>cl_router := registerCall i (cl_router c)\<rparr>) = (Sent, c1)"
    and daemon: "jd_read de (ke_read ce req) = Some req" "ReadFile req maxFileBytes v = ((Ok fc, out), v')"
      "handleRead de rq v = (fs, v1)" "cn_inbox cn = map Got fs"
    and codec: "\<And>x. x \<in> set out \<Longrightarrow> kd_chunk ce (je_chunk de x) = Ok x" "kd_complete ce (je_complete de fc) = Ok fc"
  shows "\<exists>r. runCat nz env wd cn path offset limit opt w = (Ended r, w1)
    \<and> (case r of
        Inl e \<Rightarrow> \<not> cf_retry_safe e
      | Inr rep \<Rightarrow> \<exists>f W. fs_get v p = Some f \<and> W = wanted f (nat offset) (nat limit) \<and> rp_stderr rep = []
          \<and> rp_out rep = (if gf_json (cv_flags env)
              then printJSON [''path'' \<mapsto> JStr p, ''size'' \<mapsto> JInt (int (length W)), ''sha256'' \<mapsto> JStr (sha_hex W),
                ''content'' \<mapsto> JStr (string_of W)]
              else Text (string_of W)))
    \<and> (\<forall>f. quiet v \<and> fs_get v p = Some f \<and> n_kind f \<noteq> KDir \<and> 0 \<le> offset \<and> 0 \<le> limit
         \<and> int (length (wanted f (nat offset) (nat limit))) \<le> hard_cap req maxFileBytes \<longrightarrow> (\<exists>rep. r = Ok rep))"
proof -
  have soft: "soft_cap req = nat limit" by (simp add: req soft_cap_def)
  have fields: "rr_path req = p" "rr_offset req = offset" "rr_limit req = limit" by (simp_all add: req(1))
  note facts = ReadFile_facts [OF daemon(2), unfolded fields soft]
  let ?res = "buildReadFileResult (emitted out) fc"
  have "fst (read_file_loop ce (map Got fs) [] []) = Answer ?res"
    by (rule read_call [OF daemon(1,2) codec daemon(3) [unfolded sent(3)]])
  moreover have "rr_path req \<noteq> []" using remote_path_not_Nil [OF path] by (simp add: fields)
  ultimately have "fst (ReadFileHandler nz ce (cn_rnd cn) (cn_inbox cn) (cv_arg_read env req) c) = Answer ?res"
    using ReadFileHandler_sent [of req nz ce "cn_rnd cn" c c1 "cn_inbox cn"] sent(2,3,4) req(2) daemon(4) by simp
  from call_tool_answer [where h = "ReadFileHandler nz ce (cn_rnd cn) (cn_inbox cn) (cv_arg_read env req)", OF dial this]
  have call: "call_tool cn opt (on_router (ReadFileHandler nz ce (cn_rnd cn) (cn_inbox cn) (cv_arg_read env req))) w0 = tool_result ?res w1" .
  show ?thesis
  proof (cases "fc_err fc = []")
    case False
    then have "runCat nz env wd cn path offset limit opt w = (Ended (Err (tool_failure ?res)), w1)"
      using call path by (simp add: runCat_def cio_bind_def req(1) [symmetric] sent(1) [symmetric] tool_result_def)
    moreover have "\<not> (quiet v \<and> fs_get v p = Some f \<and> n_kind f \<noteq> KDir \<and> 0 \<le> offset \<and> 0 \<le> limit
         \<and> int (length (wanted f (nat offset) (nat limit))) \<le> hard_cap req maxFileBytes)" for f
      using facts False by auto
    ultimately show ?thesis by (intro exI [of _ "Err (tool_failure ?res)"]) auto
  next
    case True
    let ?W = "\<lambda>f. wanted f (nat offset) (nat limit)"
    from True facts obtain f where f: "fs_get v p = Some f" "emitted out = ?W f" "fc = fc_done (emitted out)" by blast
    let ?W = "wanted f (nat offset) (nat limit)"
    have W: "emitted out = ?W" using f(2) .
    have "runCat nz env wd cn path offset limit opt w = emit env (string_of ?W)
        [''path'' \<mapsto> JStr p, ''size'' \<mapsto> JInt (int (length ?W)), ''sha256'' \<mapsto> JStr (sha_hex ?W), ''content'' \<mapsto> JStr (string_of ?W)] w1"
    proof (cases "utf8_valid ?W")
      case True
      with \<open>fc_err fc = []\<close> f(3) W have "?res = mcp_ok (string_of ?W) [''size'' \<mapsto> MInt (int (length ?W)), ''sha256'' \<mapsto> MStr (sha_hex ?W)]"
        by (simp add: buildReadFileResult_def)
      with call path show ?thesis
        by (simp add: runCat_def cio_bind_def req(1) [symmetric] sent(1) [symmetric] tool_result_def meta_str_def meta_int_def)
    next
      case False
      then have "?W \<noteq> []" by auto
      with False \<open>fc_err fc = []\<close> f(3) W have "?res = mcp_ok (binary_text fc) [''size'' \<mapsto> MInt (int (length ?W)), ''sha256'' \<mapsto> MStr (sha_hex ?W),
          ''content_b64'' \<mapsto> MStr (base64_encode ?W)]"
        by (simp add: buildReadFileResult_def)
      with call path \<open>?W \<noteq> []\<close> show ?thesis
        by (simp add: runCat_def cio_bind_def req(1) [symmetric] sent(1) [symmetric] tool_result_def meta_str_def meta_int_def
            base64_decode_encode del: base64_encode.simps)
    qed
    with f(1) show ?thesis by (auto simp: emit_out)
  qed
qed

section \<open>write\<close>

lemma WriteFileHandler_sent:
  assumes "wa_path a \<noteq> []" "write_source ce a = Ok b" "length b \<le> maxBufferedOutput"
    "send_frames nz ce (write_frames ce (newReqID rnd) a b) (c\<lparr>cl_router := registerCall (newReqID rnd) (cl_router c)\<rparr>) = (Sent, c1)"
  shows "fst (WriteFileHandler nz ce rnd ib (Ok a) c) = write_wait ce ib"
  using with_call_sent [OF assms(4)] assms(1,2,3) by (simp add: WriteFileHandler_def)

text \<open>Text is sent as it is and other bytes in base64; the handler gets the same bytes from either.\<close>

lemma write_call_args_source [simp]:
  "write_source ce (write_call_args path data mode) = Ok data" "wa_path (write_call_args path data mode) = path"
  "wa_mode (write_call_args path data mode) = mode"
  by (simp_all add: write_source_def write_call_args_def base64_decode_encode del: base64_encode.simps)

text \<open>C7: \<open>agbridge write\<close> from end to end, for a file that exists and for one that it creates: when it succeeds, the
  daemon's file holds exactly the given bytes, its mode is what \<open>chmod\<close> makes of the requested one (0644 when none
  is given; a number up to 0777 as it stands, of a larger one only the permission bits and Go's own flags), and the
  reported size and SHA-256 are theirs; when it fails, the file is as it was (missing, if it was missing).  When no
  system call of the daemon fails, the temporary name is free and the path is no directory, it succeeds.  The
  path of a file to be created must not itself be named like the daemon's temporary files.\<close>

theorem cli_write_end_to_end:
  assumes path: "remote_path nz env wd opt path w = (Ended (Ok p), w0)"
    and dial: "cn_dial cn opt w0 = (Ok c, w1)"
    and args: "a = write_call_args p data mode" "cv_arg_write env a = Ok a" "length data \<le> maxBufferedOutput"
    and sent: "ce = cv_client env" "i = newReqID (cn_rnd cn)" "write_frames ce i a data = rq # cs"
      "send_frames nz ce (rq # cs) (c\<lparr>cl_router := registerCall i (cl_router c)\<rparr>) = (Sent, c1)"
    and new: "no_clash ''.agbridge-write-'' [] p v"
    and daemon: "jd_write de (f_payload rq) = Some \<lparr>wr_path = p, wr_mode = mode\<rparr>"
      "fst (WriteFile \<lparr>wr_path = p, wr_mode = mode\<rparr> maxFileBytes (map Ok (pieces data)) v) = Ok fc"
      "handleWrite de (slot_chunks lc cs) rq v = (fs, v')" "cn_inbox cn = map Got fs"
    and codec: "\<And>x. x \<in> set (pieces data) \<Longrightarrow> lc_chunk lc (ke_chunk ce x) = Some x" "kd_complete ce (je_complete de fc) = Ok fc"
  shows "\<exists>r. runWrite nz env wd cn path data mode opt w = (Ended r, w1)
    \<and> (case r of
        Inl e \<Rightarrow> \<not> cf_retry_safe e \<and> fs_get v' p = fs_get v p
      | Inr rep \<Rightarrow> (\<exists>n. fs_get v' p = Some n \<and> n_data n = data \<and> n_mode n = syscall_mode (if mode = 0 then 420 else mode)) \<and> rp_stderr rep = []
          \<and> rp_out rep = (if gf_json (cv_flags env)
              then printJSON [''path'' \<mapsto> JStr p, ''bytes_written'' \<mapsto> JInt (int (length data)), ''sha256'' \<mapsto> JStr (sha_hex data)]
              else Text (''wrote '' @ itoa (int (length data)) @ '' bytes to '' @ p @ '' (sha256='' @ sha_hex data @ '')'' @ newline)))
    \<and> (quiet v \<and> temp_free p ''.agbridge-write-'' v \<and> (\<forall>m. fs_get v p = Some m \<longrightarrow> n_kind m \<noteq> KDir) \<longrightarrow> (\<exists>rep. r = Ok rep))"
proof -
  have src: "write_source ce a = Ok data" "wa_path a = p" "wa_mode a = mode" by (simp_all add: args(1))
  from write_end_to_end [of ce a data i rq cs v de lc fc] src sent(3) new daemon(1,2) codec obtain res where
    res: "write_wait ce (map Got fs) = Answer res"
      "if mr_error res then fs_get v' p = fs_get v p
       else (\<exists>n. fs_get v' p = Some n \<and> n_data n = data \<and> n_mode n = syscall_mode (if mode = 0 then 420 else mode))
         \<and> mr_meta res ''size'' = Some (MInt (int (length data))) \<and> mr_meta res ''sha256'' = Some (MStr (sha_hex data))"
      "quiet v \<and> temp_free p ''.agbridge-write-'' v \<and> length data \<le> maxBufferedOutput \<and> (\<forall>m. fs_get v p = Some m \<longrightarrow> n_kind m \<noteq> KDir) \<longrightarrow> \<not> mr_error res"
    using daemon(3) by auto
  have "fst (WriteFileHandler nz ce (cn_rnd cn) (cn_inbox cn) (cv_arg_write env a) c) = Answer res"
    using WriteFileHandler_sent [of a ce data nz "cn_rnd cn" c c1 "cn_inbox cn"] src remote_path_not_Nil [OF path] args(2,3) sent(2,3,4) daemon(4) res(1) by simp
  from call_tool_answer [where h = "WriteFileHandler nz ce (cn_rnd cn) (cn_inbox cn) (cv_arg_write env a)", OF dial this]
  have call: "call_tool cn opt (on_router (WriteFileHandler nz ce (cn_rnd cn) (cn_inbox cn) (cv_arg_write env a))) w0 = tool_result res w1" .
  show ?thesis
  proof (cases "mr_error res")
    case True
    with call path have "runWrite nz env wd cn path data mode opt w = (Ended (Err (tool_failure res)), w1)"
      by (simp add: runWrite_def cio_bind_def args(1) [symmetric] sent(1) [symmetric] tool_result_def)
    with True res(2,3) args(3) show ?thesis by (intro exI [of _ "Err (tool_failure res)"]) auto
  next
    case False
    with call path res(2) have "runWrite nz env wd cn path data mode opt w =
        emit env (''wrote '' @ itoa (int (length data)) @ '' bytes to '' @ p @ '' (sha256='' @ sha_hex data @ '')'' @ newline)
          [''path'' \<mapsto> JStr p, ''bytes_written'' \<mapsto> JInt (int (length data)), ''sha256'' \<mapsto> JStr (sha_hex data)] w1"
      by (simp add: runWrite_def cio_bind_def args(1) [symmetric] sent(1) [symmetric] tool_result_def meta_int_def meta_str_def Let_def)
    with False res(2) show ?thesis by (auto simp: emit_out)
  qed
qed

section \<open>exec\<close>

lemma ExecHandler_sent:
  assumes "ke_exec ce req = Ok b" "send_frames nz ce [call_frame FrameTypeExecRequest (newReqID rnd) b]
      (c\<lparr>cl_router := registerCall (newReqID rnd) (cl_router c)\<rparr>) = (Sent, c1)"
  shows "fst (ExecHandler nz ce rnd ib (Ok req) c) = fst (exec_loop ce ib [] [] [])"
  using with_call_sent [OF assms(2)] assms(1) by (simp add: ExecHandler_def)

text \<open>What the command reads back from the result is what went into it, text or not.\<close>

lemma exec_result_read_back:
  "\<not> xd_timed_out d \<Longrightarrow> extractExecResult (buildExecResult out err d) = (string_of out, string_of err, xd_exit d, xd_duration_ms d)"
  by (simp add: extractExecResult_def result_stream_def buildExecResult_def stream_meta_def meta_int_def Let_def base64_decode_encode
      del: base64_encode.simps)

lemma exec_result_error: "mr_error (buildExecResult out err d) \<longleftrightarrow> xd_timed_out d"
  by (simp add: buildExecResult_def Let_def)

lemma fail_code [simp]: "meta_str (mcp_fail code msg) ''error_code'' = code"
  by (simp add: mcp_fail_def mcpErrorResult_def new_error_def metaToMap_def ToMCPMeta_def meta_str_def Let_def split: prod.split)

lemma timeout_code: "xd_timed_out d \<Longrightarrow> meta_str (buildExecResult out err d) ''error_code'' = ''exec_timeout''"
  by (simp add: buildExecResult_def new_error_def metaToMap_def ToMCPMeta_def meta_str_def Let_def split: prod.split)

lemma runExec_call:
  assumes "exec_cwd nz env wd opt cwd w = (Ended (Ok d), w0)"
    "call_tool cn opt (on_router (ExecHandler nz (cv_client env) (cn_rnd cn) (cn_inbox cn)
       (cv_arg_exec env \<lparr>xr_cmd = hd remote, xr_args = tl remote, xr_cwd = d, xr_env = vars, xr_timeout_ms = ms\<rparr>))) w0 = tool_result res w1"
  shows "runExec nz env wd cn remote cwd vars ms opt w =
    (if mr_error res then (Ended (Err (tool_failure res)), w1)
     else (let (stdout, stderr, exitcode, durationMs) = extractExecResult res in
       if gf_json (cv_flags env) then
         emit env [] [''stdout'' \<mapsto> JStr stdout, ''stderr'' \<mapsto> JStr stderr, ''exitcode'' \<mapsto> JInt exitcode, ''duration_ms'' \<mapsto> JInt durationMs]
       else cio_ret \<lparr>rp_out = Text stdout, rp_stderr = stderr\<rparr>) w1)"
  using assms by (simp add: runExec_def cio_bind_def tool_result_def)

text \<open>C6: \<open>agbridge exec\<close> from end to end: on success it writes the first MiB of what the process wrote, each stream to its own,
  whether or not it is text, or, with \<open>--json\<close>, both as JSON text (what is not UTF-8 comes out as U+FFFD) with the
  exit code and the duration; a command that is
  forbidden, cannot be started or runs out of time fails with the code that says so, and none of these
  failures is announced as safe to retry.\<close>

theorem cli_exec_end_to_end:
  assumes cwd: "exec_cwd nz env wd opt cwd w = (Ended (Ok d), w0)"
    and dial: "cn_dial cn opt w0 = (Ok c, w1)"
    and args: "req = \<lparr>xr_cmd = hd remote, xr_args = tl remote, xr_cwd = d, xr_env = vars, xr_timeout_ms = ms\<rparr>" "cv_arg_exec env req = Ok req"
    and sent: "ce = cv_client env" "i = newReqID (cn_rnd cn)" "ke_exec ce req = Ok b" "rq = call_frame FrameTypeExecRequest i b"
      "send_frames nz ce [rq] (c\<lparr>cl_router := registerCall i (cl_router c)\<rparr>) = (Sent, c1)" "cn_inbox cn = map Got (handleExec de rq)"
    and request: "jd_exec de b = Some req"
    and codec: "\<And>x. xc_stream x \<in> {''stdout'', ''stderr''} \<Longrightarrow> kd_exec_chunk ce (je_exec_chunk de x) = Ok x"
      "DecodeFramePayload (kd_error ce) (je_error de ''tool_forbidden'' ''exec disabled on this daemon'')
        = (''tool_forbidden'', ''exec disabled on this daemon'')"
      "DecodeFramePayload (kd_error ce) (je_error de ''exec_failed'' []) = (''exec_failed'', [])"
    and mix: "\<And>xs ys. de_mix de xs ys \<in> shuffles xs ys"
    and run: "run = de_mach de (exec_command (de_environ de) (dc_env_allowlist (de_cfg de)) req) (exec_timeout ms)"
    and finished: "f = \<lparr>xd_exit = exit_code (ru_wait run), xd_duration_ms = go_quot (ru_duration run) millisecond,
         xd_timed_out = ru_deadline run, xd_truncated = False\<rparr>" "kd_exec_done ce (je_exec_done de f) = Ok f"
  shows "\<exists>r. runExec nz env wd cn remote cwd vars ms opt w = (Ended r, w1)
    \<and> (case r of
        Inl e \<Rightarrow> \<not> cf_retry_safe e \<and> cf_code e = (if \<not> dc_exec_enabled (de_cfg de) then ''tool_forbidden''
            else if ru_start run \<noteq> None then ''exec_failed'' else ''exec_timeout'')
      | Inr rep \<Rightarrow> (let out = string_of (take MaxBytesPerStream (concat (ru_stdout run)));
                      err = string_of (take MaxBytesPerStream (concat (ru_stderr run))) in
          if gf_json (cv_flags env)
          then rp_out rep = printJSON [''stdout'' \<mapsto> JStr out, ''stderr'' \<mapsto> JStr err, ''exitcode'' \<mapsto> JInt (exit_code (ru_wait run)),
              ''duration_ms'' \<mapsto> JInt (go_quot (ru_duration run) millisecond)] \<and> rp_stderr rep = []
          else rp_out rep = Text out \<and> rp_stderr rep = err))
    \<and> ((\<exists>rep. r = Ok rep) \<longleftrightarrow> dc_exec_enabled (de_cfg de) \<and> ru_start run = None \<and> \<not> ru_deadline run)"
proof -
  let ?out = "take MaxBytesPerStream (concat (ru_stdout run))" and ?err = "take MaxBytesPerStream (concat (ru_stderr run))"
  let ?res = "if \<not> dc_exec_enabled (de_cfg de) then mcp_fail ''tool_forbidden'' ''exec: tool_forbidden (exec disabled on this daemon)''
      else if ru_start run \<noteq> None then mcp_fail ''exec_failed'' ''exec: exec_failed'' else buildExecResult ?out ?err f"
  have "xr_timeout_ms req = ms" by (simp add: args(1))
  then have "fst (exec_loop ce (map Got (handleExec de rq)) [] [] []) = Answer ?res"
    unfolding sent(4) using exec_end_to_end [OF request codec(1) mix codec(2,3) _ finished] run by blast
  then have "fst (ExecHandler nz ce (cn_rnd cn) (cn_inbox cn) (cv_arg_exec env req) c) = Answer ?res"
    using ExecHandler_sent [of ce req b nz "cn_rnd cn" c c1 "cn_inbox cn"] args(2) sent(2-6) by simp
  from call_tool_answer [where h = "ExecHandler nz ce (cn_rnd cn) (cn_inbox cn) (cv_arg_exec env req)", OF dial this]
  have call: "call_tool cn opt (on_router (ExecHandler nz ce (cn_rnd cn) (cn_inbox cn) (cv_arg_exec env req))) w0 = tool_result ?res w1" .
  note run_eq = runExec_call [OF cwd call [unfolded args(1) sent(1)]]
  have timed: "xd_timed_out f = ru_deadline run" "xd_exit f = exit_code (ru_wait run)" "xd_duration_ms f = go_quot (ru_duration run) millisecond"
    by (simp_all add: finished(1))
  show ?thesis
  proof (cases "dc_exec_enabled (de_cfg de) \<and> ru_start run = None \<and> \<not> ru_deadline run")
    case True
    then have "?res = buildExecResult ?out ?err f" "\<not> mr_error ?res"
      "extractExecResult ?res = (string_of ?out, string_of ?err, exit_code (ru_wait run), go_quot (ru_duration run) millisecond)"
      using exec_result_read_back [of f ?out ?err] exec_result_error [of ?out ?err f] timed by simp_all
    then show ?thesis unfolding run_eq using True by (simp add: emit_def Let_def)
  next
    case False
    then have "mr_error ?res" using exec_result_error [of ?out ?err f] timed by auto
    moreover have "meta_str ?res ''error_code'' = (if \<not> dc_exec_enabled (de_cfg de) then ''tool_forbidden''
        else if ru_start run \<noteq> None then ''exec_failed'' else ''exec_timeout'')"
      using False timeout_code [of f ?out ?err] timed by auto
    ultimately show ?thesis unfolding run_eq using False by simp
  qed
qed

section \<open>Retrying\<close>

lemma on_router_no_error [simp]: "on_router h c w \<noteq> (Ended (Err d), w')" "on_router_io g c w \<noteq> (Ended (Err d), w')"
  by (auto simp: on_router_def on_router_io_def handled_def split: outcome.splits prod.splits)

lemma call_tool_retry:
  assumes "call_tool cn opt h w = (Ended (Err e), w')" "cf_retry_safe e" "\<And>c u d u'. h c u \<noteq> (Ended (Err d), u')"
  shows "\<exists>d. cn_dial cn opt w = (Err d, w') \<and> e = printErrorJSON ''network_lost'' (''dial: '' @ d) True (''dial: '' @ d)"
  using assms by (auto simp: call_tool_def bail_def cio_bind_Err cio_err_Err Invoke_def tool_result_def split: if_splits)

text \<open>A command that first finds its path or directory and then makes its one call, without any advice to retry of its own.\<close>

definition staged :: "'c cli_conn \<Rightarrow> client_options \<Rightarrow> string cmd \<Rightarrow> report cmd \<Rightarrow> bool" where
  "staged cn opt stage m \<longleftrightarrow> (\<exists>h k. m = cio_bind stage (\<lambda>p. cio_bind (call_tool cn opt (h p)) (k p))
     \<and> (\<forall>p c u d u'. h p c u \<noteq> (Ended (Err d), u')) \<and> (\<forall>p r u e u'. k p r u = (Ended (Err e), u') \<longrightarrow> \<not> cf_retry_safe e))"

lemma stagedI:
  "m = cio_bind stage (\<lambda>p. cio_bind (call_tool cn opt (h p)) (k p)) \<Longrightarrow> (\<And>p c u d u'. h p c u \<noteq> (Ended (Err d), u')) \<Longrightarrow>
     (\<And>p r u e u'. k p r u = (Ended (Err e), u') \<Longrightarrow> \<not> cf_retry_safe e) \<Longrightarrow> staged cn opt stage m"
  unfolding staged_def by blast

lemma emit_no_error [simp]: "emit env text payload u \<noteq> (Ended (Err e), u')"
  by (simp add: emit_def)

lemma staged_commands:
  "staged cn opt (remote_path nz env wd opt path) (runCat nz env wd cn path offset limit opt)"
  "staged cn opt (remote_path nz env wd opt path) (runWrite nz env wd cn path data mode opt)"
  "staged cn opt (remote_path nz env wd opt path) (runEdit nz env wd cn path oldStr newStr replaceAll opt)"
  "staged cn opt (exec_cwd nz env wd opt cwd) (runExec nz env wd cn remote cwd vars ms opt)"
  "staged cn opt (remote_path nz env wd opt path) (runStat nz env wd cn path opt)"
  "staged cn opt (remote_path nz env wd opt path) (runGrep nz env wd cn pat path glob ignoreCase maxResults opt)"
  "staged cn opt (remote_path nz env wd opt path) (runPut nz env wd cn localPath path mode opt)"
  "staged cn opt (remote_path nz env wd opt path) (runGet nz env wd cn path localPath opt)"
  by (rule stagedI, rule runCat_def runWrite_def runEdit_def runExec_def runStat_def runGrep_def runPut_def runGet_def,
      auto simp: stat_call_def Let_def bail_def printErrorJSON_def cio_bind_Err cio_err_Err split: if_splits option.splits prod.splits)+

lemma staged_retry:
  assumes "staged cn opt stage m" "m w = (Ended (Err e), w')" "cf_retry_safe e"
  shows "stage w = (Ended (Err e), w')
    \<or> (\<exists>w0 d. cn_dial cn opt w0 = (Err d, w') \<and> e = printErrorJSON ''network_lost'' (''dial: '' @ d) True (''dial: '' @ d))"
proof (cases "stage w = (Ended (Err e), w')")
  case False
  from assms(1) obtain h k where hk: "m = cio_bind stage (\<lambda>p. cio_bind (call_tool cn opt (h p)) (k p))"
    "\<And>p c u d u'. h p c u \<noteq> (Ended (Err d), u')" "\<And>p r u e u'. k p r u = (Ended (Err e), u') \<Longrightarrow> \<not> cf_retry_safe e"
    unfolding staged_def by blast
  from False assms(2) obtain p w0 where "cio_bind (call_tool cn opt (h p)) (k p) w0 = (Ended (Err e), w')"
    unfolding hk(1) by (auto simp: cio_bind_Err)
  then have "call_tool cn opt (h p) w0 = (Ended (Err e), w')" using assms(3) hk(3) by (auto simp: cio_bind_Err)
  from call_tool_retry [OF this assms(3) hk(2)] show ?thesis by blast
qed simp

lemma stage_failure:
  "remote_path nz env wd opt path w = (Ended (Err e), w') \<Longrightarrow> \<exists>m. e = printErrorJSON ''working_dir_unavailable'' m True m"
  "exec_cwd nz env wd opt cwd w = (Ended (Err e), w') \<Longrightarrow> \<exists>m. e = printErrorJSON ''working_dir_unavailable'' m True m"
  by (auto simp: remote_path_def exec_cwd_def bail_def cio_err_Err split: if_splits)

text \<open>A connection that is lost after the request was sent is reported under the same code as one that was never made,
  but not as safe to retry; \<open>ai-help.md\<close> gives the code \<open>network_lost\<close> as \<open>retry_safe: true\<close> throughout.\<close>

lemma network_lost_not_safe:
  "cf_code (tool_failure (mcp_fail ''network_lost'' m)) = ''network_lost'' \<and> \<not> cf_retry_safe (tool_failure (mcp_fail ''network_lost'' m))"
  by simp


section \<open>The working directory\<close>

lemma state_file_last: "last (state_file env) = CHR ''n''" "state_file env \<noteq> []"
proof -
  have name: "plain_name ''state.json''" by (simp add: plain_name_def)
  have joined: "path_join [h, ''.config'', ''agbridge'', ''state.json''] = path_join [join_with [slash] (filter (\<lambda>p. p \<noteq> []) [h, ''.config'', ''agbridge'']), ''state.json'']" for h
    by (simp add: path_join_def)
  have ends: "\<exists>d. state_file env = path_join [d, ''state.json''] \<or> state_file env = ''state.json''"
    unfolding state_file_def stateJSONPath_def using joined by (cases "cv_home env") auto
  show "last (state_file env) = CHR ''n''" "state_file env \<noteq> []"
    using ends path_join_last [OF name] by auto
qed

lemma state_file_no_clash: "no_clash ''.state-'' ''.tmp'' (state_file env) w"
proof -
  have "last (dir_join d (''.state-'' @ r @ ''.tmp'')) \<noteq> last (state_file env)" for d r
    by (simp add: dir_join_def state_file_last)
  from this [of "path_dir (state_file env)"]
  have "dir_join (path_dir (state_file env)) (''.state-'' @ w_rand w t @ ''.tmp'') \<noteq> state_file env" for t
    by (rule contrapos_nn) (erule arg_cong)
  then show ?thesis by (simp add: no_clash_def)
qed

lemma load_state_version: "load_state env w = (Ended (Ok st), w') \<Longrightarrow> bst_version st = CurrentVersion"
  by (auto simp: load_state_def LoadBridgeState_def load_versioned_def io_bind_def io_ret_def io_fail_def split: prod.splits sum.splits if_splits)

lemma load_state_decoded: "load_state env w = (Ended (Ok st), w') \<Longrightarrow> \<exists>b. cv_dec env b = Ok st"
  by (auto simp: load_state_def LoadBridgeState_def load_versioned_def loadJSON_def on_err_def io_bind_def io_ret_def io_fail_def io_of_def
      split: prod.splits sum.splits if_splits)

text \<open>A saved state is the state that the next command loads.\<close>

lemma save_load_state:
  assumes "save_state env st w = (Ended (Ok u), w')" "quiet w'" "cv_dec env (cv_enc env st) = Ok st" "cv_enc env st \<noteq> []" "bst_version st = CurrentVersion"
  shows "\<exists>w2. load_state env w' = (Ended (Ok st), w2)"
proof -
  have "saveJSON (k_os_text (cv_client env)) (state_file env) (cv_enc env st) w = (Ok u, w')"
    using assms(1) by (simp add: save_state_def SaveBridge_def)
  from saveJSON_spec [OF this state_file_no_clash] obtain n where "fs_get w' (state_file env) = Some n" "n_kind n = KFile" "n_data n = cv_enc env st"
    by (auto simp: replaced_file_def)
  then have "fst (loadJSON (k_os_text (cv_client env)) (cv_dec env) (state_file env) w') = Ok st"
    using assms(2,3,4) by (simp add: loadJSON_def io_bind_def on_err_def os_read_file_def)
  then show ?thesis using assms(5)
    by (cases "loadJSON (k_os_text (cv_client env)) (cv_dec env) (state_file env) w'")
      (simp add: load_state_def LoadBridgeState_def load_versioned_def io_bind_def)
qed

text \<open>C11: \<open>agbridge cd\<close> succeeds only into what the daemon calls a directory, and what it prints is then, for every later command
  that can read the state, the working directory: \<open>agbridge pwd\<close> prints the same without asking the daemon.\<close>

theorem cd_then_pwd:
  assumes "runCd nz env wd cn arg opt w = (Ended (Ok rep), w')" and "quiet w'"
    and codec: "\<And>b st d. cv_dec env b = Ok st \<Longrightarrow> cv_dec env (cv_enc env (st\<lparr>bst_working_dir := d\<rparr>)) = Ok (st\<lparr>bst_working_dir := d\<rparr>)"
      "\<And>st. cv_enc env st \<noteq> []"
  shows "\<exists>target u u' r e. Invoke (cn_dial cn) opt (stat_call nz env cn target) u = (Ended (Ok r), u')
      \<and> \<not> mr_error r \<and> mr_meta r ''entry'' = Some (MEntry e) \<and> de_type e = ''dir''
      \<and> rp_out rep = (if gf_json (cv_flags env) then printJSON [''working_dir'' \<mapsto> JStr target] else Text (target @ newline))
      \<and> (\<exists>w2. ensureWorkingDir nz env wd' opt' w' = (Ended (Ok target), w2) \<and> runPwd nz env wd' opt' w' = (Ended (Ok rep), w2))"
proof -
  from assms(1) obtain cwd w1 w2 w3 where run: "ensureWorkingDir nz env wd opt w = (Ended (Ok cwd), w1)"
    "statIsDir nz env cn opt (resolveRemotePath cwd arg) w1 = (Ended (Ok ()), w2)"
    "setWorkingDir env (resolveRemotePath cwd arg) w2 = (Ended (Ok ()), w')"
    "rep = \<lparr>rp_out = (if gf_json (cv_flags env) then printJSON [''working_dir'' \<mapsto> JStr (resolveRemotePath cwd arg)]
       else Text (resolveRemotePath cwd arg @ newline)), rp_stderr = []\<rparr>"
    by (auto simp: runCd_def bail_def cio_bind_Ok Let_def emit_def)
  let ?t = "resolveRemotePath cwd arg"
  from run(2) obtain r where dir: "Invoke (cn_dial cn) opt (stat_call nz env cn ?t) w1 = (Ended (Ok r), w2)" "\<not> mr_error r"
    "\<exists>e. mr_meta r ''entry'' = Some (MEntry e) \<and> de_type e = ''dir''"
    by (auto simp: statIsDir_def cio_bind_Ok extractStatEntry_def split: if_splits option.splits meta.splits)
  from run(3) obtain st w4 where st: "load_state env w2 = (Ended (Ok st), w4)"
    "save_state env (st\<lparr>bst_working_dir := ?t\<rparr>) w4 = (Ended (Ok ()), w')"
    by (auto simp: setWorkingDir_def cio_bind_Ok)
  from load_state_decoded [OF st(1)] obtain b where "cv_dec env b = Ok st" by blast
  from save_load_state [OF st(2) assms(2) codec(1) [OF this] codec(2)] load_state_version [OF st(1)] obtain w5 where
    l: "load_state env w' = (Ended (Ok (st\<lparr>bst_working_dir := ?t\<rparr>)), w5)" by auto
  have "?t \<noteq> []" using resolveRemotePath_not_Nil ensureWorkingDir_not_Nil [OF run(1)] by blast
  with l have e: "ensureWorkingDir nz env wd' opt' w' = (Ended (Ok ?t), w5)" by (simp add: ensureWorkingDir_def cio_bind_def)
  then have "runPwd nz env wd' opt' w' = (Ended (Ok rep), w5)"
    by (simp add: runPwd_def bail_def cio_bind_def cio_err_def emit_def run(4))
  with dir e run(4) show ?thesis by (intro exI [of _ ?t] exI [of _ w1] exI [of _ w2] exI [of _ r]) auto
qed

section \<open>ls\<close>

lemma ListDirectoryHandler_sent:
  assumes "q \<noteq> []" "send_frames nz ce [call_frame FrameTypeListDirRequest (newReqID rnd) (ke_list ce q)]
      (c\<lparr>cl_router := registerCall (newReqID rnd) (cl_router c)\<rparr>) = (Sent, c1)"
    and "ListDirectory q v = (Ok resp, v')" "ld_err resp = []" "jd_list de (ke_list ce q) = Some q" "kd_list ce (je_list de resp) = Ok resp"
  shows "\<exists>r. ListDirectoryHandler nz ce rnd (map Got (fst (handleListDir de (call_frame FrameTypeListDirRequest i (ke_list ce q)) v))) (Ok q) c
       = (Answer r, c1\<lparr>cl_router := unregisterCall (newReqID rnd) (cl_router c1)\<rparr>) \<and> \<not> mr_error r \<and> meta_entries r = ld_entries resp"
proof -
  have "fst (handleListDir de (call_frame FrameTypeListDirRequest i (ke_list ce q)) v)
      = [reply (call_frame FrameTypeListDirRequest i (ke_list ce q)) FrameTypeListDirResponse (je_list de resp)]"
    using assms(3,5) by (simp add: handleListDir_def call_frame_def)
  with with_call_sent [OF assms(2)] assms(1,4,6) show ?thesis
    by (simp add: ListDirectoryHandler_def Let_def await_one_def reply_def meta_entries_def)
qed

lemma subdirs_not_Nil: "q \<in> subdirs L p \<Longrightarrow> p \<noteq> [] \<Longrightarrow> q \<noteq> []"
  by (auto simp: subdirs_def path_join_def Let_def)

lemma ls_target_not_Nil: "q \<in> ls_target L p recursive depth \<Longrightarrow> p \<noteq> [] \<Longrightarrow> q \<noteq> []"
proof -
  assume p: "p \<noteq> []"
  have "\<forall>q \<in> dirs_within L p n. q \<noteq> []" for n
    by (induction n) (use p subdirs_not_Nil in auto)
  with p show "q \<in> ls_target L p recursive depth \<Longrightarrow> q \<noteq> []" by (auto simp: ls_target_def split: if_splits)
qed

text \<open>C9: \<open>agbridge ls\<close> ends and lists exactly the directories that it should: the one given, or with \<open>--recursive\<close> all that are
  below it, within \<open>--depth\<close> steps if that is positive, each once, nearer ones first, and each with the entries that the
  daemon has for it; provided only that these are finitely many and that the daemon answers for each.\<close>

theorem ls_lists_tree:
  assumes path: "remote_path nz env wd opt path w = (Ended (Ok p), w0)"
    and dial: "lc_dial cn opt w0 = (Ok c, w1)" "good c"
    and tree: "T = ls_target L p recursive depth" "finite T"
    and sent: "ce = cv_client env"
      "\<And>k q c. good c \<Longrightarrow> q \<in> T \<Longrightarrow> \<exists>c1. send_frames nz ce [call_frame FrameTypeListDirRequest (newReqID (lc_rnd cn k)) (ke_list ce q)]
          (c\<lparr>cl_router := registerCall (newReqID (lc_rnd cn k)) (cl_router c)\<rparr>) = (Sent, c1)
        \<and> good (c1\<lparr>cl_router := unregisterCall (newReqID (lc_rnd cn k)) (cl_router c1)\<rparr>)"
    and daemon: "\<And>k q. q \<in> T \<Longrightarrow> \<exists>v v' resp. ListDirectory q v = (Ok resp, v') \<and> ld_err resp = [] \<and> ld_entries resp = L q
        \<and> lc_inbox cn k q = map Got (fst (handleListDir de (call_frame FrameTypeListDirRequest (newReqID (lc_rnd cn k)) (ke_list ce q)) v))
        \<and> kd_list ce (je_list de resp) = Ok resp"
    and codec: "\<And>q. q \<in> T \<Longrightarrow> cv_arg_path env q = Ok q \<and> jd_list de (ke_list ce q) = Some q"
  shows "\<exists>V. distinct V \<and> set V = T \<and> nearer_first L p V \<and> runLs nz env wd cn path recursive depth opt w =
    (Ended (Ok \<lparr>rp_out = (if gf_json (cv_flags env)
        then printJSON [''root'' \<mapsto> JStr p, ''recursive'' \<mapsto> JBool recursive, ''depth'' \<mapsto> JInt depth,
          ''walks'' \<mapsto> JObjs (map walk_object (map (walk_of L) V))]
        else Text (renderWalks (map (walk_of L) V))), rp_stderr = []\<rparr>), w1)"
proof -
  have ask: "\<exists>r s'. ls_ask nz env cn k q s = (Ended r, s') \<and> good s' \<and> \<not> mr_error r \<and> meta_entries r = L q"
    if s: "good s" and q: "q \<in> ls_target L p recursive depth" for k q s
  proof -
    note q = q [folded tree(1)]
    have nn: "q \<noteq> []" using ls_target_not_Nil remote_path_not_Nil [OF path] q unfolding tree(1) by blast
    from sent(2) [OF s q] obtain c1 where c1:
      "send_frames nz ce [call_frame FrameTypeListDirRequest (newReqID (lc_rnd cn k)) (ke_list ce q)]
          (s\<lparr>cl_router := registerCall (newReqID (lc_rnd cn k)) (cl_router s)\<rparr>) = (Sent, c1)"
      "good (c1\<lparr>cl_router := unregisterCall (newReqID (lc_rnd cn k)) (cl_router c1)\<rparr>)" by blast
    from daemon [OF q] obtain v v' resp where d: "ListDirectory q v = (Ok resp, v')" "ld_err resp = []" "ld_entries resp = L q"
      "lc_inbox cn k q = map Got (fst (handleListDir de (call_frame FrameTypeListDirRequest (newReqID (lc_rnd cn k)) (ke_list ce q)) v))"
      "kd_list ce (je_list de resp) = Ok resp" by blast
    from ListDirectoryHandler_sent [OF nn c1(1) d(1,2) _ d(5)] codec [OF q] obtain r where
      "ListDirectoryHandler nz ce (lc_rnd cn k) (lc_inbox cn k q) (cv_arg_path env q) s
        = (Answer r, c1\<lparr>cl_router := unregisterCall (newReqID (lc_rnd cn k)) (cl_router c1)\<rparr>)" "\<not> mr_error r" "meta_entries r = L q"
      unfolding d(3) [symmetric] d(4) by metis
    with c1(2) show ?thesis by (simp add: ls_ask_def sent(1) [symmetric])
  qed
  from ls_loop_lists [of good L p recursive depth "ls_ask nz env cn", OF ask _ ls_inv_start dial(2), of 0] tree obtain V where
    V: "ls_loop (ls_ask nz env cn) recursive depth 0 [p] [p \<mapsto> 0] [] c = Some (Ended (map (walk_of L) V, None))"
      "distinct V" "set V = T" "nearer_first L p V" by auto
  from V(1) have "ls_walks nz env cn recursive depth p c w1 = (Ended (Ok (map (walk_of L) V, None)), w1)" by (simp add: ls_walks_def)
  with path dial(1) have "runLs nz env wd cn path recursive depth opt w = emit env (renderWalks (map (walk_of L) V))
      [''root'' \<mapsto> JStr p, ''recursive'' \<mapsto> JBool recursive, ''depth'' \<mapsto> JInt depth,
          ''walks'' \<mapsto> JObjs (map walk_object (map (walk_of L) V))] w1"
    by (simp add: runLs_def bail_def cio_bind_def cio_err_def Invoke_dialed)
  with V show ?thesis by (auto simp: emit_out)
qed

section \<open>Instances\<close>

text \<open>A connection without Noise and without failures sends every short frame.\<close>

definition plain_link :: "'c call \<Rightarrow> bool" where
  "plain_link c \<longleftrightarrow> rt_conn (cl_router c) \<and> rt_session (cl_router c) = None \<and> cl_nets c = []"

lemma plain_link_calls [simp]:
  "plain_link (c\<lparr>cl_router := registerCall i (cl_router c)\<rparr>) \<longleftrightarrow> plain_link c"
  "plain_link (c\<lparr>cl_router := unregisterCall i (cl_router c)\<rparr>) \<longleftrightarrow> plain_link c"
  by (simp_all add: plain_link_def registerCall_def unregisterCall_def)

lemma plain_link_sends:
  "plain_link c \<Longrightarrow> (\<And>f. f \<in> set fs \<Longrightarrow> length (f_reqid f) \<le> 100 \<and> length (f_payload f) \<le> 1000) \<Longrightarrow>
     \<exists>c1. send_frames nz ce fs c = (Sent, c1) \<and> plain_link c1"
proof (induction fs arbitrary: c)
  case (Cons f fs)
  have "length (f_reqid f) \<le> 100" "length (f_payload f) \<le> 1000" using Cons.prems(2) by auto
  then have "frame_ok f" "length (wire f) \<le> 1120"
    by (simp_all add: frame_ok_def maxReqIDLen_def maxPayloadLen_def wire_def put_uint16_def put_uint32_def)
  then have enc: "encode_frame f = Ok (wire f)" "length (SignFrame k (wire f)) \<le> 67108864" for k
    by (simp_all add: encode_frame_ok)
  obtain c1 where "call_send nz ce f c = (Sent, c1)" "plain_link c1"
    using Cons.prems(1) route_frame_encodes [OF enc(2)]
    by (simp add: call_send_def plain_link_def router_sendInner_def router_send_def enc(1) Let_def)
  with Cons show ?case by simp
qed simp

definition demo_link_call :: "nat call" where
  "demo_link_call = \<lparr>cl_router = demo_router\<lparr>rt_session := None\<rparr>, cl_nets = []\<rparr>"

lemma demo_link_plain: "plain_link demo_link_call"
  by (simp add: plain_link_def demo_link_call_def demo_router_def)

lemma link_sends:
  "(\<And>f. f \<in> set fs \<Longrightarrow> length (f_reqid f) \<le> 100 \<and> length (f_payload f) \<le> 1000) \<Longrightarrow>
     \<exists>c1. send_frames nz ce fs (demo_link_call\<lparr>cl_router := registerCall i (cl_router demo_link_call)\<rparr>) = (Sent, c1)"
  using plain_link_sends [of "demo_link_call\<lparr>cl_router := registerCall i (cl_router demo_link_call)\<rparr>" fs nz ce] demo_link_plain by auto

lemma link_send:
  "length (f_reqid f) \<le> 100 \<Longrightarrow> length (f_payload f) \<le> 1000 \<Longrightarrow>
     \<exists>c1. send_frames nz ce [f] (demo_link_call\<lparr>cl_router := registerCall i (cl_router demo_link_call)\<rparr>) = (Sent, c1)"
  by (rule link_sends) simp

definition demo_conn :: "inbox list \<Rightarrow> nat cli_conn" where
  "demo_conn ib = \<lparr>cn_dial = (\<lambda>_ w. (Ok demo_link_call, w)), cn_rnd = [1], cn_inbox = ib\<rparr>"

definition demo_opt :: client_options where
  "demo_opt = \<lparr>co_gateway_url = [], co_agent_name = [], co_api_key = [], co_cert_pin = [], co_tls_mode = [],
     co_e2e_mode = ''disabled'', co_key_path = [], co_daemon_pubkey = [], co_target = []\<rparr>"

text \<open>The codec of the state file keeps the working directory.\<close>

definition demo_bridge_state :: bridge_state where
  "demo_bridge_state = \<lparr>bst_version = 1, bst_device_id = [], bst_agent_name = [], bst_api_key = [],
     bst_gateway = \<lparr>gr_url = [], gr_cert_pin = [], gr_tls_mode = []\<rparr>, bst_key_path = [], bst_e2e_mode = [], bst_default_target = [],
     bst_known_daemons = [], bst_working_dir = [], bst_enrolled_at = 0\<rparr>"

definition demo_cli :: "client_env \<Rightarrow> cli_env" where
  "demo_cli ce = \<lparr>cv_flags = \<lparr>gf_target = [], gf_json = False, gf_state_dir = ''/s''\<rparr>, cv_home = Err [], cv_version = [], cv_client = ce,
     cv_dec = (\<lambda>b. Ok (demo_bridge_state\<lparr>bst_working_dir := string_of (tl b)\<rparr>)), cv_enc = (\<lambda>st. 123 # bytes_of (bst_working_dir st)),
     cv_arg_exec = Ok, cv_arg_read = Ok, cv_arg_write = Ok, cv_arg_edit = Ok, cv_arg_upload = Ok, cv_arg_download = Ok,
     cv_arg_search = Ok, cv_arg_path = Ok, cv_time = (\<lambda>_ _. []), cv_utc = (\<lambda>_ _. []), cv_millis = (\<lambda>_. [])\<rparr>"

lemma demo_cli_simps [simp]:
  "cv_client (demo_cli ce) = ce" "cv_arg_exec (demo_cli ce) = Ok" "cv_arg_read (demo_cli ce) = Ok" "cv_arg_write (demo_cli ce) = Ok"
  "cv_arg_path (demo_cli ce) = Ok" "\<not> gf_json (cv_flags (demo_cli ce))"
  "cn_dial (demo_conn ib) opt v = (Ok demo_link_call, v)" "cn_rnd (demo_conn ib) = [1]" "cn_inbox (demo_conn ib) = ib"
  by (simp_all add: demo_cli_def demo_conn_def)

lemma demo_path: "remote_path nz env wd opt ''/d/f'' w = (Ended (Ok ''/d/f''), w)"
proof -
  have "path_clean ''/d/f'' = ''/d/f''" "is_abs ''/d/f''" by code_simp+
  then show ?thesis by (simp add: remote_path_def resolveArg_def bail_def)
qed

lemma demo_reqid: "length (newReqID [1]) \<le> 100"
  by code_simp

theorem cat_end_to_end_witness:
  "\<exists>ce ib rep. runCat (counting_noise []) (demo_cli ce) (demo_conn []) (demo_conn ib) ''/d/f'' 1 0 demo_opt demo_disk = (Ended (Ok rep), demo_disk)
     \<and> rp_out rep = Text (string_of [8, 7])"
proof -
  let ?req = "\<lparr>rr_path = ''/d/f'', rr_max_size = 0, rr_offset = 1, rr_limit = 0\<rparr>"
  let ?f = "plain_file [9, 8, 7]"
  obtain r out v' where run: "ReadFile ?req maxFileBytes demo_disk = ((r, out), v')" by (metis surj_pair)
  have W: "wanted ?f (nat (rr_offset ?req)) (soft_cap ?req) = [8, 7]" "hard_cap ?req maxFileBytes = maxFileBytes"
    "wanted ?f (nat 1) (nat 0) = [8, 7]"
    by (simp_all add: wanted_def soft_cap_def plain_file_def hard_cap_def)
  have w: "quiet demo_disk" "fs_get demo_disk (rr_path ?req) = Some ?f" "n_kind ?f \<noteq> KDir" "0 \<le> rr_offset ?req" "0 \<le> rr_limit ?req"
    "int (length (wanted ?f (nat (rr_offset ?req)) (soft_cap ?req))) \<le> hard_cap ?req maxFileBytes"
    unfolding W using demo_disk_quiet demo_disk_old by (simp_all add: plain_file_def maxFileBytes_def)
  from ReadFile_facts [OF run] w obtain fc where fc: "r = Ok fc" by blast
  let ?de = "demo_daemon\<lparr>jd_read := (\<lambda>_. Some ?req)\<rparr>"
  let ?ce = "demo_client\<lparr>kd_complete := (\<lambda>_. Ok fc)\<rparr>"
  let ?rq = "call_frame FrameTypeFileReadRequest (newReqID [1]) (ke_read ?ce ?req)"
  obtain fs v1 where h: "handleRead ?de ?rq demo_disk = (fs, v1)" by (metis surj_pair)
  have "length (f_reqid ?rq) \<le> 100" "length (f_payload ?rq) \<le> 1000"
    using demo_reqid by (simp_all add: call_frame_def demo_client_def)
  from link_send [OF this, of "counting_noise []" ?ce "newReqID [1]"]
  obtain c1 where sent: "send_frames (counting_noise []) ?ce [?rq]
      (demo_link_call\<lparr>cl_router := registerCall (newReqID [1]) (cl_router demo_link_call)\<rparr>) = (Sent, c1)" by blast
  let ?env = "demo_cli ?ce" and ?cn = "demo_conn (map Got fs)"
  have env: "cv_arg_read ?env ?req = Ok ?req" "?ce = cv_client ?env" "newReqID [1] = newReqID (cn_rnd ?cn)"
    "cn_inbox ?cn = map Got fs" "cn_dial ?cn demo_opt demo_disk = (Ok demo_link_call, demo_disk)" "jd_read ?de (ke_read ?ce ?req) = Some ?req"
    by simp_all
  have codec: "kd_chunk ?ce (je_chunk ?de x) = Ok x" "kd_complete ?ce (je_complete ?de fc) = Ok fc" for x
    by (simp_all add: demo_client_def demo_daemon_def)
  note claim = cat_end_to_end [OF demo_path env(5) refl env(1,2,3) refl sent env(6) run [unfolded fc] h env(4) codec, of "demo_conn []"]
  have fine: "quiet demo_disk \<and> fs_get demo_disk ''/d/f'' = Some ?f \<and> n_kind ?f \<noteq> KDir \<and> (0 :: int) \<le> 1 \<and> (0 :: int) \<le> 0
     \<and> int (length (wanted ?f (nat 1) (nat 0))) \<le> hard_cap ?req maxFileBytes"
    using w W by simp
  from claim obtain r where r: "runCat (counting_noise []) ?env (demo_conn []) ?cn ''/d/f'' 1 0 demo_opt demo_disk = (Ended r, demo_disk)"
    "case r of Inl e \<Rightarrow> True | Inr rep \<Rightarrow> \<exists>f. fs_get demo_disk ''/d/f'' = Some f \<and> rp_out rep = Text (string_of (wanted f (nat 1) (nat 0)))"
    "\<exists>rep. r = Ok rep"
    by (elim exE conjE) (drule spec [of _ ?f], drule mp [OF _ fine], auto)
  from r(3) obtain rep where rep: "r = Ok rep" by blast
  with r(2) demo_disk_old W(3) have "rp_out rep = Text (string_of [8, 7])" by auto
  with r(1) rep show ?thesis by blast
qed

theorem cli_write_end_to_end_witness:
  "\<exists>ce ib rep de rq cs fs v'. runWrite (counting_noise []) (demo_cli ce) (demo_conn []) (demo_conn ib) ''/d/f'' [1, 2] 0 demo_opt demo_disk = (Ended (Ok rep), demo_disk)
     \<and> handleWrite de (slot_chunks demo_loop_codec cs) rq demo_disk = (fs, v') \<and> ib = map Got fs
     \<and> (\<exists>n. fs_get v' ''/d/f'' = Some n \<and> n_data n = [1, 2])"
proof -
  let ?a = "write_call_args ''/d/f'' [1, 2] 0" and ?req = "\<lparr>wr_path = ''/d/f'', wr_mode = 0\<rparr>"
  let ?de = "demo_daemon\<lparr>jd_write := (\<lambda>_. Some ?req)\<rparr>"
  let ?ce = "demo_client\<lparr>kd_complete := (\<lambda>_. Ok (fc_done [1, 2]))\<rparr>"
  let ?all = "write_frames ?ce (newReqID [1]) ?a [1, 2]"
  let ?rq = "hd ?all" and ?cs = "tl ?all"
  have fr: "?all = ?rq # ?cs" by (simp add: write_frames_def)
  have pcs: "pieces [1, 2] = [\<lparr>ck_data = [1, 2], ck_eof = True\<rparr>]" by (subst pieces.simps) (simp add: writeChunkSize_def)
  have small: "length (f_reqid f) \<le> 100 \<and> length (f_payload f) \<le> 1000" if "f \<in> set (?rq # ?cs)" for f
    using that demo_reqid unfolding fr [symmetric]
    by (auto simp: write_frames_def pcs call_frame_def sendFileChunk_def demo_client_def)
  from link_sends [OF small, of "?rq # ?cs" "counting_noise []" ?ce "newReqID [1]"] obtain c1 where sent: "send_frames (counting_noise []) ?ce (?rq # ?cs)
      (demo_link_call\<lparr>cl_router := registerCall (newReqID [1]) (cl_router demo_link_call)\<rparr>) = (Sent, c1)" by auto
  have nc: "no_clash ''.agbridge-write-'' [] ''/d/f'' demo_disk" using demo_disk_old by (simp add: no_clash_def)
  have ses: "fst (WriteFile ?req maxFileBytes (map Ok (pieces [1, 2])) demo_disk) = Ok (fc_done [1, 2])"
    using WriteFile_quiet [of demo_disk ?req "map Ok (pieces [1, 2])" maxFileBytes] demo_disk_quiet
      demo_disk_free nc demo_disk_old ended_pieces by (simp add: received_pieces maxFileBytes_def plain_file_def)
  obtain fs v' where h: "handleWrite ?de (slot_chunks demo_loop_codec ?cs) ?rq demo_disk = (fs, v')" by (metis surj_pair)
  let ?env = "demo_cli ?ce" and ?cn = "demo_conn (map Got fs)"
  have env: "cv_arg_write ?env ?a = Ok ?a" "?ce = cv_client ?env" "newReqID [1] = newReqID (cn_rnd ?cn)"
    "cn_inbox ?cn = map Got fs" "cn_dial ?cn demo_opt demo_disk = (Ok demo_link_call, demo_disk)" "jd_write ?de (f_payload ?rq) = Some ?req"
    by (simp_all add: demo_daemon_def)
  have codec: "lc_chunk demo_loop_codec (ke_chunk ?ce x) = Some x" "kd_complete ?ce (je_complete ?de (fc_done [1, 2])) = Ok (fc_done [1, 2])" for x
    by (simp_all add: demo_loop_codec_def demo_client_def)
  have len: "length [1 :: 8 word, 2] \<le> maxBufferedOutput" by (simp add: maxBufferedOutput_def)
  note claim = cli_write_end_to_end [OF demo_path env(5) refl env(1) len env(2,3) fr sent nc env(6) ses h env(4) codec, of "demo_conn []"]
  have fine: "quiet demo_disk \<and> temp_free ''/d/f'' ''.agbridge-write-'' demo_disk \<and> (\<forall>m. fs_get demo_disk ''/d/f'' = Some m \<longrightarrow> n_kind m \<noteq> KDir)"
    using demo_disk_quiet demo_disk_free demo_disk_old by (simp add: plain_file_def)
  from claim obtain r where r: "runWrite (counting_noise []) ?env (demo_conn []) ?cn ''/d/f'' [1, 2] 0 demo_opt demo_disk = (Ended r, demo_disk)"
    "case r of Inl e \<Rightarrow> True | Inr rep \<Rightarrow> \<exists>n. fs_get v' ''/d/f'' = Some n \<and> n_data n = [1, 2]"
    "\<exists>rep. r = Ok rep"
    by (elim exE conjE) (drule mp [OF _ fine], auto)
  then obtain rep where "r = Ok rep" by blast
  with r(1,2) h show ?thesis by (simp only: sum.case) blast
qed

theorem cli_exec_end_to_end_witness:
  "\<exists>ce ib rep. runExec (counting_noise []) (demo_cli ce) (demo_conn []) (demo_conn ib) [''ls''] ''/d/f'' [] 0 demo_opt demo_disk = (Ended (Ok rep), demo_disk)
     \<and> rp_out rep = Text ''hi''"
proof -
  let ?req = "\<lparr>xr_cmd = hd [''ls''], xr_args = tl [''ls''], xr_cwd = ''/d/f'', xr_env = [], xr_timeout_ms = 0\<rparr>"
  let ?de = "demo_daemon\<lparr>jd_exec := (\<lambda>_. Some ?req)\<rparr>"
  let ?f = "\<lparr>xd_exit = exit_code (ru_wait demo_exec_run), xd_duration_ms = go_quot (ru_duration demo_exec_run) millisecond,
         xd_timed_out = ru_deadline demo_exec_run, xd_truncated = False\<rparr>"
  let ?ce = "demo_client\<lparr>kd_exec_done := (\<lambda>_. Ok ?f)\<rparr>"
  let ?rq = "call_frame FrameTypeExecRequest (newReqID [1]) []"
  let ?env = "demo_cli ?ce" and ?cn = "demo_conn (map Got (handleExec ?de ?rq))"
  have "length (f_reqid ?rq) \<le> 100" "length (f_payload ?rq) \<le> 1000" using demo_reqid by (simp_all add: call_frame_def)
  from link_send [OF this, of "counting_noise []" ?ce "newReqID [1]"]
  obtain c1 where sent: "send_frames (counting_noise []) ?ce [?rq]
      (demo_link_call\<lparr>cl_router := registerCall (newReqID [1]) (cl_router demo_link_call)\<rparr>) = (Sent, c1)" by blast
  have env: "cv_arg_exec ?env ?req = Ok ?req" "?ce = cv_client ?env" "newReqID [1] = newReqID (cn_rnd ?cn)" "ke_exec ?ce ?req = Ok []"
    "cn_inbox ?cn = map Got (handleExec ?de ?rq)" "cn_dial ?cn demo_opt demo_disk = (Ok demo_link_call, demo_disk)" "jd_exec ?de [] = Some ?req"
    "demo_exec_run = de_mach ?de (exec_command (de_environ ?de) (dc_env_allowlist (de_cfg ?de)) ?req) (exec_timeout 0)"
    "kd_exec_done ?ce (je_exec_done ?de ?f) = Ok ?f"
    by (simp_all add: demo_client_def demo_daemon_def)
  have cwd: "exec_cwd (counting_noise []) ?env (demo_conn []) demo_opt ''/d/f'' demo_disk = (Ended (Ok ''/d/f''), demo_disk)"
  proof -
    have "path_clean ''/d/f'' = ''/d/f''" "is_abs ''/d/f''" by code_simp+
    then show ?thesis by (simp add: exec_cwd_def)
  qed
  have codec: "kd_exec_chunk ?ce (je_exec_chunk ?de x) = Ok x" if "xc_stream x \<in> {''stdout'', ''stderr''}" for x
    using that by (auto simp: demo_client_def demo_daemon_def)
  have errs: "DecodeFramePayload (kd_error ?ce) (je_error ?de ''tool_forbidden'' ''exec disabled on this daemon'')
        = (''tool_forbidden'', ''exec disabled on this daemon'')"
      "DecodeFramePayload (kd_error ?ce) (je_error ?de ''exec_failed'' []) = (''exec_failed'', [])"
    by (simp_all add: DecodeFramePayload_def demo_daemon_def demo_client_def)
  have mix: "de_mix ?de xs ys \<in> shuffles xs ys" for xs ys
    by (induction xs) (simp_all add: demo_daemon_def Cons_in_shuffles_leftI)
  note claim = cli_exec_end_to_end [OF cwd env(6) refl env(1,2,3,4) refl sent env(5,7) codec errs mix env(8) refl env(9)]
  have fine: "dc_exec_enabled (de_cfg ?de) \<and> ru_start demo_exec_run = None \<and> \<not> ru_deadline demo_exec_run"
    by (simp add: demo_daemon_def demo_exec_run_def)
  have "take MaxBytesPerStream (concat (ru_stdout demo_exec_run)) = [104, 105]" "string_of [104, 105] = ''hi''"
    by (simp add: demo_exec_run_def MaxBytesPerStream_def) code_simp
  then have out: "string_of (take MaxBytesPerStream (concat (ru_stdout demo_exec_run))) = ''hi''" by simp
  obtain r where run: "runExec (counting_noise []) ?env (demo_conn []) ?cn [''ls''] ''/d/f'' [] 0 demo_opt demo_disk = (Ended r, demo_disk)"
    and printed: "\<And>rep. r = Ok rep \<Longrightarrow> rp_out rep = Text (string_of (take MaxBytesPerStream (concat (ru_stdout demo_exec_run))))"
    and "\<exists>rep. r = Ok rep"
    by (insert claim, drule meta_mp, assumption, elim exE conjE) (rule that, assumption, simp only: sum.case Let_def demo_cli_simps if_False simp_thms, drule iffD2 [OF _ fine])
  then obtain rep where "r = Ok rep" by blast
  with run printed [OF this] show ?thesis unfolding out by blast
qed


definition demo_state_disk :: world where
  "demo_state_disk = plain_world [(''/s'', \<lparr>n_kind = KDir, n_data = [], n_mode = 493, n_mtime = 0\<rparr>),
     (''/s/state.json'', plain_file (123 # bytes_of ''/w''))] (\<lambda>_. None)"

theorem cd_then_pwd_witness:
  "\<exists>ce ib rep w' w2. runCd (counting_noise []) (demo_cli ce) (demo_conn []) (demo_conn ib) ''../d'' demo_opt demo_state_disk = (Ended (Ok rep), w')
     \<and> runPwd (counting_noise []) (demo_cli ce) (demo_conn []) demo_opt w' = (Ended (Ok rep), w2) \<and> rp_out rep = Text (''/d'' @ newline)"
proof -
  let ?entry = "\<lparr>de_name = ''d'', de_type = ''dir'', de_size = 0, de_mode = 493, de_mtime = 0\<rparr>"
  let ?resp = "\<lparr>sr_entry = Some ?entry, sr_err = [], sr_detail = []\<rparr>"
  let ?ce = "demo_client\<lparr>kd_stat := (\<lambda>_. Ok ?resp)\<rparr>"
  let ?env = "demo_cli ?ce" and ?cn = "demo_conn [Got (call_frame FrameTypeStatResponse [] [])]"
  have "length (f_reqid (call_frame FrameTypeStatRequest (newReqID [1]) (ke_stat ?ce ''/d''))) \<le> 100"
    "length (f_payload (call_frame FrameTypeStatRequest (newReqID [1]) (ke_stat ?ce ''/d''))) \<le> 1000"
    using demo_reqid by (simp_all add: call_frame_def demo_client_def)
  from link_send [OF this, of "counting_noise []" ?ce "newReqID [1]"] obtain c1 where
    sent: "send_frames (counting_noise []) ?ce [call_frame FrameTypeStatRequest (newReqID [1]) (ke_stat ?ce ''/d'')]
      (demo_link_call\<lparr>cl_router := registerCall (newReqID [1]) (cl_router demo_link_call)\<rparr>) = (Sent, c1)" by blast
  have stat: "fst (StatHandler (counting_noise []) ?ce [1] [Got (call_frame FrameTypeStatResponse [] [])] (Ok ''/d'') demo_link_call)
      = Answer (mcp_ok (stat_text ?entry) [''entry'' \<mapsto> MEntry ?entry])"
    using with_call_sent [OF sent] by (simp add: StatHandler_def Let_def await_one_def call_frame_def)
  have isdir: "statIsDir (counting_noise []) ?env ?cn demo_opt ''/d'' w = (Ended (Ok ()), w)" for w
    using stat by (simp add: statIsDir_def cio_bind_def Invoke_dialed stat_call_def on_router_def handled_def extractStatEntry_def)
  have cwd: "ensureWorkingDir (counting_noise []) ?env (demo_conn []) demo_opt demo_state_disk = (Ended (Ok ''/w''), tick demo_state_disk)"
  proof -
    have "state_file ?env = ''/s/state.json''" by code_simp
    moreover have "quiet demo_state_disk" by (simp add: quiet_def demo_state_disk_def plain_world_def)
    moreover have "fs_get (tick demo_state_disk) ''/s/state.json'' = Some (plain_file (123 # bytes_of ''/w''))" by code_simp
    ultimately show ?thesis
      by (simp add: ensureWorkingDir_def cio_bind_def load_state_def LoadBridgeState_def load_versioned_def loadJSON_def io_bind_def
          on_err_def os_read_file_def plain_file_def demo_cli_def demo_bridge_state_def CurrentVersion_def cio_io_def)
  qed
  have target: "resolveRemotePath ''/w'' ''../d'' = ''/d''" by code_simp
  define w' where "w' = snd (setWorkingDir ?env ''/d'' (tick demo_state_disk))"
  have set: "setWorkingDir ?env ''/d'' (tick demo_state_disk) = (Ended (Ok ()), w')"
  proof -
    have "fst (setWorkingDir ?env ''/d'' (tick demo_state_disk)) = Ended (Ok ())" by code_simp
    then show ?thesis unfolding w'_def by (metis prod.collapse)
  qed
  have "w_fail w' t = None" "w_cancel w' t = False" for t unfolding w'_def by code_simp+
  then have quiet: "quiet w'" unfolding quiet_def by simp
  let ?rep = "\<lparr>rp_out = Text (''/d'' @ newline), rp_stderr = []\<rparr>"
  have run: "runCd (counting_noise []) ?env (demo_conn []) ?cn ''../d'' demo_opt demo_state_disk = (Ended (Ok ?rep), w')"
    using cwd isdir set by (simp add: runCd_def bail_def cio_bind_def cio_err_def target Let_def emit_def)
  have codec: "cv_dec ?env (cv_enc ?env (st\<lparr>bst_working_dir := d\<rparr>)) = Ok (st\<lparr>bst_working_dir := d\<rparr>)" if "cv_dec ?env b = Ok st" for b st d
    using that by (auto simp: demo_cli_def)
  have more: "cv_enc ?env st \<noteq> []" for st by (simp add: demo_cli_def)
  from cd_then_pwd [where wd' = "demo_conn []" and opt' = demo_opt, OF run quiet] codec more
  obtain w2 where "runPwd (counting_noise []) ?env (demo_conn []) demo_opt w' = (Ended (Ok ?rep), w2)" by blast
  with run show ?thesis by (intro exI [of _ ?ce] exI conjI) (assumption, assumption, simp)
qed

definition demo_listing :: "string \<Rightarrow> dir_entry list" where
  "demo_listing p = (if p = ''/d'' then [\<lparr>de_name = ''s'', de_type = ''dir'', de_size = 0, de_mode = 493, de_mtime = 0\<rparr>] else [])"

definition demo_tree :: world where
  "demo_tree = plain_world [(''/d'', \<lparr>n_kind = KDir, n_data = [], n_mode = 493, n_mtime = 0\<rparr>),
     (''/d/s'', \<lparr>n_kind = KDir, n_data = [], n_mode = 493, n_mtime = 0\<rparr>)] (\<lambda>_. None)"

lemma demo_listing_true: "\<exists>v'. p \<in> {''/d'', ''/d/s''} \<longrightarrow>
    ListDirectory p demo_tree = (Ok \<lparr>ld_entries = demo_listing p, ld_err = [], ld_detail = []\<rparr>, v')"
proof -
  have "fst (ListDirectory ''/d'' demo_tree) = Ok \<lparr>ld_entries = demo_listing ''/d'', ld_err = [], ld_detail = []\<rparr>"
    "fst (ListDirectory ''/d/s'' demo_tree) = Ok \<lparr>ld_entries = demo_listing ''/d/s'', ld_err = [], ld_detail = []\<rparr>"
    by code_simp+
  then show ?thesis by (intro exI [of _ "snd (ListDirectory p demo_tree)"]) (auto simp: prod_eq_iff)
qed

lemma demo_target: "ls_target demo_listing ''/d'' True 0 = {''/d'', ''/d/s''}"
proof -
  have join: "path_join [''/d'', ''s''] = ''/d/s''" by code_simp
  have sub: "subdirs demo_listing ''/d'' = {''/d/s''}" by (auto simp: subdirs_def demo_listing_def join)
  have leaf: "subdirs demo_listing ''/d/s'' = {}" by (simp add: subdirs_def demo_listing_def)
  have "dirs_within demo_listing ''/d'' n \<subseteq> {''/d'', ''/d/s''}" for n
  proof (induction n)
    case (Suc n)
    have "(\<Union>p \<in> dirs_within demo_listing ''/d'' n. subdirs demo_listing p) \<subseteq> (\<Union>p \<in> {''/d'', ''/d/s''}. subdirs demo_listing p)"
      by (rule UN_mono [OF Suc subset_refl])
    with Suc show ?case unfolding dirs_within.simps UN_insert UN_empty sub leaf by blast
  qed simp
  moreover have "dirs_within demo_listing ''/d'' (Suc 0) = {''/d'', ''/d/s''}"
    unfolding dirs_within.simps UN_insert UN_empty sub by blast
  ultimately have "(\<Union>n. dirs_within demo_listing ''/d'' n) = {''/d'', ''/d/s''}" by blast
  then show ?thesis by (simp only: ls_target_def not_True_eq_False less_irrefl if_False)
qed

theorem ls_lists_tree_witness:
  "\<exists>ce cn V rep. runLs (counting_noise []) (demo_cli ce) (demo_conn []) cn ''/d'' True 0 demo_opt demo_disk = (Ended (Ok rep), demo_disk)
     \<and> distinct V \<and> set V = {''/d'', ''/d/s''} \<and> rp_out rep = Text (renderWalks (map (walk_of demo_listing) V))"
proof -
  let ?resp = "\<lambda>p. \<lparr>ld_entries = demo_listing p, ld_err = [], ld_detail = []\<rparr>"
  let ?ce = "demo_client\<lparr>ke_list := bytes_of, kd_list := (\<lambda>b. Ok (?resp (if b = [1] then ''/d'' else ''/d/s'')))\<rparr>"
  let ?de = "demo_daemon\<lparr>jd_list := (\<lambda>b. Some (string_of b)), je_list := (\<lambda>r. if ld_entries r = [] then [] else [1])\<rparr>"
  let ?cn = "\<lparr>lc_dial = (\<lambda>_ w. (Ok demo_link_call, w)), lc_rnd = (\<lambda>_. [1]),
     lc_inbox = (\<lambda>k q. map Got (fst (handleListDir ?de (call_frame FrameTypeListDirRequest (newReqID [1]) (ke_list ?ce q)) demo_tree)))\<rparr>"
  let ?env = "demo_cli ?ce" and ?T = "ls_target demo_listing ''/d'' True 0"
  have path: "remote_path (counting_noise []) ?env (demo_conn []) demo_opt ''/d'' demo_disk = (Ended (Ok ''/d''), demo_disk)"
  proof -
    have "path_clean ''/d'' = ''/d''" "is_abs ''/d''" by code_simp+
    then show ?thesis by (simp add: remote_path_def resolveArg_def bail_def)
  qed
  have dial: "lc_dial ?cn demo_opt demo_disk = (Ok demo_link_call, demo_disk)" by simp
  have fin: "finite ?T" unfolding demo_target by simp
  have ce: "?ce = cv_client ?env" by simp
  have small: "length (f_reqid (call_frame t (newReqID [1]) (bytes_of q))) \<le> 100 \<and> length (f_payload (call_frame t (newReqID [1]) (bytes_of q))) \<le> 1000"
    if "q \<in> ?T" for t q
    using that demo_reqid unfolding demo_target by (auto simp: call_frame_def)
  have sent: "\<exists>c1. send_frames (counting_noise []) ?ce [call_frame FrameTypeListDirRequest (newReqID (lc_rnd ?cn k)) (ke_list ?ce q)]
          (c\<lparr>cl_router := registerCall (newReqID (lc_rnd ?cn k)) (cl_router c)\<rparr>) = (Sent, c1)
        \<and> plain_link (c1\<lparr>cl_router := unregisterCall (newReqID (lc_rnd ?cn k)) (cl_router c1)\<rparr>)"
    if "plain_link c" "q \<in> ?T" for k q and c :: "nat call"
  proof -
    from small [OF that(2), of FrameTypeListDirRequest] that(1)
      plain_link_sends [of "c\<lparr>cl_router := registerCall (newReqID (lc_rnd ?cn k)) (cl_router c)\<rparr>"
        "[call_frame FrameTypeListDirRequest (newReqID (lc_rnd ?cn k)) (ke_list ?ce q)]" "counting_noise []" ?ce]
    show ?thesis unfolding plain_link_calls by simp
  qed
  have daemon: "\<exists>v v' resp. ListDirectory q v = (Ok resp, v') \<and> ld_err resp = [] \<and> ld_entries resp = demo_listing q
        \<and> lc_inbox ?cn k q = map Got (fst (handleListDir ?de (call_frame FrameTypeListDirRequest (newReqID (lc_rnd ?cn k)) (ke_list ?ce q)) v))
        \<and> kd_list ?ce (je_list ?de resp) = Ok resp" if "q \<in> ?T" for k q
  proof -
    from demo_listing_true [of q] that obtain v' where "ListDirectory q demo_tree = (Ok (?resp q), v')" unfolding demo_target by blast
    moreover have "kd_list ?ce (je_list ?de (?resp q)) = Ok (?resp q)" using that unfolding demo_target by (auto simp: demo_listing_def)
    ultimately show ?thesis by (intro exI [of _ demo_tree] exI [of _ v'] exI [of _ "?resp q"]) simp
  qed
  have codec: "cv_arg_path ?env q = Ok q \<and> jd_list ?de (ke_list ?ce q) = Some q" for q by simp
  note claim = ls_lists_tree [OF path dial demo_link_plain refl fin ce sent daemon codec]
  obtain V where V: "distinct V" "set V = ?T" "runLs (counting_noise []) ?env (demo_conn []) ?cn ''/d'' True 0 demo_opt demo_disk
      = (Ended (Ok \<lparr>rp_out = Text (renderWalks (map (walk_of demo_listing) V)), rp_stderr = []\<rparr>), demo_disk)"
    by (insert claim, (drule meta_mp, assumption)+, elim exE conjE) (rule that, assumption, assumption, simp only: demo_cli_simps if_False)
  from V(2) have "set V = {''/d'', ''/d/s''}" unfolding demo_target .
  with V(1,3) show ?thesis by (intro exI conjI) (assumption, assumption, assumption, simp)
qed

end
