(* ===== verification/Transport.thy ===== *)
theory Transport
  imports Frame Go_Strings "HOL-Library.Multiset"
begin

text \<open>
  The WebSocket connection (\<open>internal/transport/wss/conn.go\<close>), the dialer and the listener (\<open>dialer.go\<close>,
  \<open>listener.go\<close>).  What gorilla/websocket, TLS and net/http answer are events and arguments.  The goroutines of a
  connection, its senders, its reader and its keepalive loop, are interleaved: one step is what happens under
  \<open>writeMu\<close>, one atomic load or store, or one choice of a \<open>select\<close>.
\<close>

section \<open>The state of a connection\<close>

definition second :: int where "second = 1000000000"
definition defaultPingInterval :: int where "defaultPingInterval = 30 * second"
definition defaultPongTimeout :: int where "defaultPongTimeout = 90 * second"

record keepalive_opts =
  ko_ping_interval :: int
  ko_pong_timeout :: int
  ko_disable :: bool

definition ping_interval :: "keepalive_opts \<Rightarrow> int" where
  "ping_interval opts = (if ko_ping_interval opts \<le> 0 then defaultPingInterval else ko_ping_interval opts)"

definition pong_timeout :: "keepalive_opts \<Rightarrow> int" where
  "pong_timeout opts = (if ko_pong_timeout opts \<le> 0 then defaultPongTimeout else ko_pong_timeout opts)"

text \<open>The keepalive loop: none, at its \<open>select\<close>, about to send a ping, about to look at the clock, or returned.\<close>

datatype keepalive = NoLoop | Selecting | Pinging | Checking | Returned

text \<open>\<open>wc_start\<close> is the loop's own start time, \<open>wc_stop\<close> whether \<open>kaStop\<close> is closed; \<open>wc_writing\<close> are the bytes of the sender
  that holds \<open>writeMu\<close>, \<open>wc_out\<close> the messages written.\<close>

record wss_conn =
  wc_loop :: keepalive
  wc_timeout :: int
  wc_start :: int
  wc_last_pong :: int
  wc_stop :: bool
  wc_once :: bool
  wc_writing :: "bytes option"
  wc_out :: "bytes list"
  wc_closed :: bool

definition NewConnWithKeepalive :: "int \<Rightarrow> keepalive_opts \<Rightarrow> wss_conn" where
  "NewConnWithKeepalive now opts =
     \<lparr>wc_loop = (if ko_disable opts then NoLoop else Selecting), wc_timeout = pong_timeout opts, wc_start = now, wc_last_pong = 0,
      wc_stop = False, wc_once = False, wc_writing = None, wc_out = [], wc_closed = False\<rparr>"

definition NewConn :: "int \<Rightarrow> wss_conn" where
  "NewConn now = NewConnWithKeepalive now \<lparr>ko_ping_interval = 0, ko_pong_timeout = 0, ko_disable = False\<rparr>"

section \<open>Messages\<close>

datatype wss_error = CtxErr | WsProto proto_error | WsFailed string | NotBinary

text \<open>\<open>Send\<close> up to the lock: what is to be written.\<close>

definition send_bytes :: "bool \<Rightarrow> frame \<Rightarrow> wss_error + bytes" where
  "send_bytes cancelled_ctx f =
     (if cancelled_ctx then Err CtxErr else map_sum WsProto id (encode_frame f))"

text \<open>What \<open>ReadMessage\<close> gives: an error, or whether the message is binary and its bytes.\<close>

definition Recv :: "bool \<Rightarrow> string + bool \<times> bytes \<Rightarrow> wss_error + frame" where
  "Recv cancelled_ctx r =
     (if cancelled_ctx then Err CtxErr
      else case r of
        Inl e \<Rightarrow> Err (WsFailed e)
      | Inr (binary, b) \<Rightarrow> if \<not> binary then Err NotBinary else map_sum WsProto id (decode_frame b))"

section \<open>Steps\<close>

text \<open>The ticker fires, a ping is written or fails, the loop looks at the clock, it sees \<open>kaStop\<close>; a pong is read at a
  time; a sender gets the lock and starts to write, its write ends; \<open>Close\<close>.\<close>

datatype wss_event = Ticked | Pinged "string option" | Checked int | Stopped | Ponged int
  | SendBegins bytes | SendEnds "string option" | Closes

text \<open>The handler of pongs, which is installed along with the loop; and \<open>Close\<close>, which closes \<open>kaStop\<close> at most once.\<close>

definition store_pong :: "int \<Rightarrow> wss_conn \<Rightarrow> wss_conn" where
  "store_pong now c = (if wc_loop c = NoLoop then c else c\<lparr>wc_last_pong := now\<rparr>)"

definition wss_close :: "wss_conn \<Rightarrow> wss_conn" where
  "wss_close c = c\<lparr>wc_once := True, wc_stop := (if wc_once c then wc_stop c else wc_loop c \<noteq> NoLoop), wc_closed := True\<rparr>"

text \<open>\<open>None\<close>: the step is not possible now.  Pongs are seen only while some goroutine is in \<open>Recv\<close>.\<close>

fun wss_step :: "wss_event \<Rightarrow> wss_conn \<Rightarrow> wss_conn option" where
  "wss_step Ticked c = (if wc_loop c = Selecting then Some (c\<lparr>wc_loop := Pinging\<rparr>) else None)"
| "wss_step (Pinged e) c =
     (if wc_loop c = Pinging \<and> wc_writing c = None
      then Some (c\<lparr>wc_loop := (if e = None then Checking else Returned)\<rparr>) else None)"
| "wss_step (Checked now) c =
     (if wc_loop c = Checking then
        (let latest = (if wc_last_pong c \<noteq> 0 then wc_last_pong c else wc_start c) in
         if now - latest > wc_timeout c then Some (c\<lparr>wc_closed := True, wc_loop := Returned\<rparr>)
         else Some (c\<lparr>wc_loop := Selecting\<rparr>))
      else None)"
| "wss_step Stopped c = (if wc_loop c = Selecting \<and> wc_stop c then Some (c\<lparr>wc_loop := Returned\<rparr>) else None)"
| "wss_step (Ponged now) c = Some (store_pong now c)"
| "wss_step (SendBegins b) c = (if wc_writing c = None then Some (c\<lparr>wc_writing := Some b\<rparr>) else None)"
| "wss_step (SendEnds e) c = (case wc_writing c of
       None \<Rightarrow> None
     | Some b \<Rightarrow> Some (c\<lparr>wc_writing := None, wc_out := (if e = None then wc_out c @ [b] else wc_out c)\<rparr>))"
| "wss_step Closes c = Some (wss_close c)"

lemmas wss_defs = store_pong_def wss_close_def Let_def

primrec wss_run :: "wss_event list \<Rightarrow> wss_conn \<Rightarrow> wss_conn option" where
  "wss_run [] c = Some c"
| "wss_run (e # es) c = (case wss_step e c of None \<Rightarrow> None | Some c' \<Rightarrow> wss_run es c')"

lemma wss_run_append: "wss_run (es @ fs) c = (case wss_run es c of None \<Rightarrow> None | Some c' \<Rightarrow> wss_run fs c')"
  by (induction es arbitrary: c) (auto split: option.split)

section \<open>Dialing and listening\<close>

definition VersionTLS13 :: nat where "VersionTLS13 = 0x0304"

definition min_version :: "nat \<Rightarrow> nat" where
  "min_version configured = (if configured = 0 then VersionTLS13 else configured)"

text \<open>\<open>net v\<close>: what dialing with the least TLS version \<open>v\<close> gives.\<close>

definition Dial :: "(nat \<Rightarrow> string + unit) \<Rightarrow> nat \<Rightarrow> int \<Rightarrow> string + wss_conn" where
  "Dial net configured now = map_sum id (\<lambda>_. NewConn now) (net (min_version configured))"

text \<open>\<open>strings.EqualFold\<close> against lower-case ASCII letters: besides the upper case, only the Kelvin sign folds to \<open>k\<close> and
  the long s to \<open>s\<close>.\<close>

definition long_s :: string where "long_s = [CHR 0xC5, CHR 0xBF]"

fun fold_ascii :: "string \<Rightarrow> string" where
  "fold_ascii [] = []"
| "fold_ascii (c # s) =
     (if has_prefix (c # s) kelvin_sign then CHR ''k'' # fold_ascii (drop 2 s)
      else if has_prefix (c # s) long_s then CHR ''s'' # fold_ascii (drop 1 s)
      else lower_ascii c # fold_ascii s)"

definition isWebSocketUpgrade :: "string \<Rightarrow> string \<Rightarrow> bool" where
  "isWebSocketUpgrade connection upgrade \<longleftrightarrow>
     str_contains (to_lower connection) ''upgrade'' \<and> fold_ascii upgrade = ''websocket''"

datatype route = ToWebSocket | ToExtra | ToNotFound

definition route_request :: "bool \<Rightarrow> string \<Rightarrow> string \<Rightarrow> route" where
  "route_request has_extra connection upgrade =
     (if isWebSocketUpgrade connection upgrade then ToWebSocket else if has_extra then ToExtra else ToNotFound)"

text \<open>The listener: the handlers that have upgraded a connection and wait to hand it over, the channel, what was
  accepted, and what handlers have closed.\<close>

record 'a listener =
  ln_waiting :: "'a list"
  ln_conns :: "'a list"
  ln_accepted :: "'a list"
  ln_dropped :: "'a list"
  ln_closed :: bool

definition backlog :: nat where "backlog = 8"

definition new_listener :: "'a listener" where
  "new_listener = \<lparr>ln_waiting = [], ln_conns = [], ln_accepted = [], ln_dropped = [], ln_closed = False\<rparr>"

text \<open>\<open>Accept\<close> takes from the channel; on a cancelled context or a closed listener it may return an error instead, without
  an effect.\<close>

definition Accept :: "'a listener \<Rightarrow> ('a \<times> 'a listener) option" where
  "Accept l = (case ln_conns l of
       [] \<Rightarrow> None | c # cs \<Rightarrow> Some (c, l\<lparr>ln_conns := cs, ln_accepted := ln_accepted l @ [c]\<rparr>))"

definition close_listener :: "'a listener \<Rightarrow> 'a listener" where
  "close_listener l = l\<lparr>ln_closed := True\<rparr>"

datatype 'a ln_event = Upgraded 'a | Queued 'a | Refused 'a | Accepted | ListenerCloses

fun ln_step :: "'a ln_event \<Rightarrow> 'a listener \<Rightarrow> 'a listener option" where
  "ln_step (Upgraded c) l = Some (l\<lparr>ln_waiting := ln_waiting l @ [c]\<rparr>)"
| "ln_step (Queued c) l =
     (if c \<in> set (ln_waiting l) \<and> length (ln_conns l) < backlog
      then Some (l\<lparr>ln_waiting := remove1 c (ln_waiting l), ln_conns := ln_conns l @ [c]\<rparr>) else None)"
| "ln_step (Refused c) l =
     (if c \<in> set (ln_waiting l) \<and> ln_closed l
      then Some (l\<lparr>ln_waiting := remove1 c (ln_waiting l), ln_dropped := ln_dropped l @ [c]\<rparr>) else None)"
| "ln_step Accepted l = map_option snd (Accept l)"
| "ln_step ListenerCloses l = Some (close_listener l)"

primrec ln_run :: "'a ln_event list \<Rightarrow> 'a listener \<Rightarrow> 'a listener option" where
  "ln_run [] l = Some l"
| "ln_run (e # es) l = (case ln_step e l of None \<Rightarrow> None | Some l' \<Rightarrow> ln_run es l')"

section \<open>What the keepalive loop does\<close>

text \<open>The last pong read during some steps, and the time that the loop measures from.\<close>

definition last_pong :: "wss_event list \<Rightarrow> int" where
  "last_pong es = foldl (\<lambda>v e. case e of Ponged t \<Rightarrow> t | _ \<Rightarrow> v) 0 es"

definition heard :: "int \<Rightarrow> wss_event list \<Rightarrow> int" where
  "heard start es = (if last_pong es \<noteq> 0 then last_pong es else start)"

lemma last_pong_snoc [simp]:
  "last_pong [] = 0" "last_pong (es @ [e]) = (case e of Ponged t \<Rightarrow> t | _ \<Rightarrow> last_pong es)"
  by (cases e; simp add: last_pong_def)+

lemma wss_run_snoc:
  "wss_run (es @ [e]) c = Some c' \<longleftrightarrow> (\<exists>c1. wss_run es c = Some c1 \<and> wss_step e c1 = Some c')"
  by (auto simp: wss_run_append split: option.splits)

text \<open>What every step does to the fields that decide over the end of a connection.\<close>

lemma wss_step_fields:
  assumes "wss_step e c = Some c'"
  shows "wc_timeout c' = wc_timeout c" "wc_start c' = wc_start c" "wc_loop c' = NoLoop \<longleftrightarrow> wc_loop c = NoLoop"
    "wc_last_pong c' = (case e of Ponged t \<Rightarrow> if wc_loop c = NoLoop then wc_last_pong c else t | _ \<Rightarrow> wc_last_pong c)"
    "wc_closed c' \<longleftrightarrow> wc_closed c \<or> e = Closes
       \<or> (\<exists>t. e = Checked t \<and> t - (if wc_last_pong c \<noteq> 0 then wc_last_pong c else wc_start c) > wc_timeout c)"
  using assms by (cases e; auto simp: wss_defs split: if_splits option.splits)+

lemma wss_run_fields:
  assumes "wss_run es (NewConnWithKeepalive start opts) = Some c" "\<not> ko_disable opts"
  shows "wc_timeout c = pong_timeout opts \<and> wc_start c = start \<and> wc_loop c \<noteq> NoLoop \<and> wc_last_pong c = last_pong es"
  using assms
proof (induction es arbitrary: c rule: rev_induct)
  case (snoc e es)
  then obtain c1 where "wss_run es (NewConnWithKeepalive start opts) = Some c1" "wss_step e c1 = Some c" by (auto simp: wss_run_snoc)
  with snoc wss_step_fields [OF this(2)] show ?case by (auto split: wss_event.splits)
qed (simp add: NewConnWithKeepalive_def)

text \<open>A check that comes too long after the last pong.\<close>

definition overdue :: "keepalive_opts \<Rightarrow> int \<Rightarrow> wss_event list \<Rightarrow> wss_event \<Rightarrow> bool" where
  "overdue opts start es e \<longleftrightarrow> (\<exists>t. e = Checked t \<and> t - heard start es > pong_timeout opts)"

text \<open>C38: A connection is closed exactly by \<open>Close\<close> or by the first look at the clock more than the timeout after the last pong,
  or after the start if there was none: a peer whose pongs keep coming is never cut off, one that falls silent is
  cut off at the next check, whatever else happens on the connection.\<close>

theorem keepalive_closes_iff:
  assumes "wss_run es (NewConnWithKeepalive start opts) = Some c" and "\<not> ko_disable opts"
  shows "wc_closed c \<longleftrightarrow> Closes \<in> set es \<or> (\<exists>ps e qs. es = ps @ e # qs \<and> overdue opts start ps e)"
  using assms
proof (induction es arbitrary: c rule: rev_induct)
  case (snoc e es)
  then obtain c1 where c1: "wss_run es (NewConnWithKeepalive start opts) = Some c1" "wss_step e c1 = Some c" by (auto simp: wss_run_snoc)
  have "overdue opts start es e \<longleftrightarrow> (\<exists>t. e = Checked t \<and> t - (if wc_last_pong c1 \<noteq> 0 then wc_last_pong c1 else wc_start c1) > wc_timeout c1)"
    using wss_run_fields [OF c1(1) snoc.prems(2)] by (simp add: overdue_def heard_def)
  moreover have "(\<exists>ps x qs. es @ [e] = ps @ x # qs \<and> overdue opts start ps x)
      \<longleftrightarrow> overdue opts start es e \<or> (\<exists>ps x qs. es = ps @ x # qs \<and> overdue opts start ps x)"
  proof
    assume "\<exists>ps x qs. es @ [e] = ps @ x # qs \<and> overdue opts start ps x"
    then obtain ps x qs where "es @ [e] = ps @ x # qs" "overdue opts start ps x" by blast
    then show "overdue opts start es e \<or> (\<exists>ps x qs. es = ps @ x # qs \<and> overdue opts start ps x)"
      by (cases qs rule: rev_cases) auto
  next
    assume "overdue opts start es e \<or> (\<exists>ps x qs. es = ps @ x # qs \<and> overdue opts start ps x)"
    then show "\<exists>ps x qs. es @ [e] = ps @ x # qs \<and> overdue opts start ps x"
    proof (elim disjE exE conjE)
      fix ps x qs assume "es = ps @ x # qs" "overdue opts start ps x"
      then show ?thesis by (intro exI [of _ ps] exI [of _ x] exI [of _ "qs @ [e]"]) simp
    qed blast
  qed
  ultimately show ?case using snoc.IH [OF c1(1) snoc.prems(2)] wss_step_fields(5) [OF c1(2)] by auto
qed (simp add: NewConnWithKeepalive_def)

theorem keepalive_closes_iff_witness:
  "\<exists>c. wss_run [Ponged (50 * second), Ticked, Pinged None, Checked (150 * second)] (NewConn 0) = Some c \<and> wc_closed c"
proof -
  let ?es = "[Ponged (50 * second), Ticked, Pinged None, Checked (150 * second)]"
  let ?opts = "\<lparr>ko_ping_interval = 0, ko_pong_timeout = 0, ko_disable = False\<rparr>"
  obtain c where run: "wss_run ?es (NewConnWithKeepalive 0 ?opts) = Some c"
    by (simp add: NewConnWithKeepalive_def wss_defs pong_timeout_def defaultPongTimeout_def second_def)
  have "overdue ?opts 0 [Ponged (50 * second), Ticked, Pinged None] (Checked (150 * second))"
    by (simp add: overdue_def heard_def last_pong_def pong_timeout_def defaultPongTimeout_def second_def)
  then have "\<exists>ps e qs. ?es = ps @ e # qs \<and> overdue ?opts 0 ps e"
    by (intro exI [of _ "[Ponged (50 * second), Ticked, Pinged None]"] exI [of _ "Checked (150 * second)"] exI [of _ "[]"]) simp
  with keepalive_closes_iff [OF run] run show ?thesis by (auto simp: NewConn_def)
qed

text \<open>But the ping needs the lock of the senders, and \<open>WriteMessage\<close> has no deadline: while one sender is stuck in it, the
  loop never comes to its check, and a dead peer keeps the connection for ever.\<close>

theorem stuck_send_outlives_timeout:
  assumes "wss_run es c = Some c'" and "wc_writing c = Some b" "wc_loop c \<noteq> Checking" "\<not> wc_closed c"
    and "\<And>e. SendEnds e \<notin> set es" "Closes \<notin> set es"
  shows "\<not> wc_closed c' \<and> wc_writing c' = Some b \<and> wc_loop c' \<noteq> Checking"
  using assms
proof (induction es arbitrary: c)
  case (Cons e es)
  then obtain c1 where c1: "wss_step e c = Some c1" "wss_run es c1 = Some c'" by (auto split: option.splits)
  have "wc_writing c1 = Some b \<and> wc_loop c1 \<noteq> Checking \<and> \<not> wc_closed c1"
    using c1(1) Cons.prems(2-6) by (cases e) (auto simp: wss_defs split: if_splits)
  with Cons.IH [OF c1(2)] Cons.prems(5,6) show ?case by auto
qed simp

theorem stuck_send_outlives_timeout_witness:
  "\<exists>c. wss_run [SendBegins [1], Ticked, Ponged 5] (NewConn 0) = Some c \<and> \<not> wc_closed c"
proof -
  let ?c = "(NewConn 0)\<lparr>wc_writing := Some [1]\<rparr>"
  have run: "wss_run [Ticked, Ponged 5] ?c = Some (?c\<lparr>wc_loop := Pinging, wc_last_pong := 5\<rparr>)"
    by (simp add: NewConn_def NewConnWithKeepalive_def wss_defs)
  have "\<not> wc_closed (?c\<lparr>wc_loop := Pinging, wc_last_pong := 5\<rparr>)"
    using stuck_send_outlives_timeout [OF run, of "[1]"] by (simp add: NewConn_def NewConnWithKeepalive_def wss_defs)
  with run show ?thesis by (simp add: NewConn_def NewConnWithKeepalive_def wss_defs)
qed

section \<open>Messages and the listener\<close>

text \<open>What \<open>Send\<close> writes, \<open>Recv\<close> at the other end reads, as long as the request identifier's length is in range.\<close>

lemma send_recv: "send_bytes False f = Ok b \<Longrightarrow> length (f_reqid f) < maxReqIDLen \<Longrightarrow> Recv False (Ok (True, b)) = Ok f"
  using decode_wire_tail [of f "[]"]
  by (auto simp: send_bytes_def Recv_def encode_frame_wire frame_ok_def split: if_splits)

text \<open>The messages on the wire are those whose writing ended well, whole and one after the other.\<close>

fun sent_whole :: "bytes option \<Rightarrow> wss_event list \<Rightarrow> bytes list" where
  "sent_whole w [] = []"
| "sent_whole w (SendBegins b # es) = sent_whole (Some b) es"
| "sent_whole w (SendEnds None # es) = (case w of None \<Rightarrow> [] | Some b \<Rightarrow> [b]) @ sent_whole None es"
| "sent_whole w (SendEnds (Some x) # es) = sent_whole None es"
| "sent_whole w (e # es) = sent_whole w es"

lemma wss_out: "wss_run es c = Some c' \<Longrightarrow> wc_out c' = wc_out c @ sent_whole (wc_writing c) es"
proof (induction es arbitrary: c)
  case (Cons e es)
  then obtain c1 where c1: "wss_step e c = Some c1" "wss_run es c1 = Some c'" by (auto split: option.splits)
  from Cons.IH [OF this(2)] c1(1) show ?case
    by (cases e; cases "wc_writing c") (auto simp: wss_defs split: if_splits option.splits)
qed simp

text \<open>No connection is lost or handed over twice: each that was upgraded waits, is in the channel, was accepted or was
  closed by its handler; the channel keeps to its capacity, and only a closed listener drops any.\<close>

definition upgraded :: "'a ln_event list \<Rightarrow> 'a list" where
  "upgraded es = List.map_filter (\<lambda>e. case e of Upgraded c \<Rightarrow> Some c | _ \<Rightarrow> None) es"

lemma upgraded_simps [simp]: "upgraded [] = []" "upgraded (e # es) = (case e of Upgraded c \<Rightarrow> [c] | _ \<Rightarrow> []) @ upgraded es"
  by (simp_all add: upgraded_def List.map_filter_simps split: ln_event.split)

lemma listener_conserves:
  assumes "ln_run es l = Some l'" and "length (ln_conns l) \<le> backlog" "ln_dropped l \<noteq> [] \<longrightarrow> ln_closed l"
  shows "mset (ln_waiting l') + mset (ln_conns l') + mset (ln_accepted l') + mset (ln_dropped l')
      = mset (ln_waiting l) + mset (ln_conns l) + mset (ln_accepted l) + mset (ln_dropped l) + mset (upgraded es)
    \<and> length (ln_conns l') \<le> backlog \<and> (ln_dropped l' \<noteq> [] \<longrightarrow> ln_closed l')"
  using assms
proof (induction es arbitrary: l)
  case (Cons e es)
  then obtain l1 where l1: "ln_step e l = Some l1" "ln_run es l1 = Some l'" by (auto split: option.splits)
  have "mset (ln_waiting l1) + mset (ln_conns l1) + mset (ln_accepted l1) + mset (ln_dropped l1)
      = mset (ln_waiting l) + mset (ln_conns l) + mset (ln_accepted l) + mset (ln_dropped l) + mset (upgraded [e])
    \<and> length (ln_conns l1) \<le> backlog \<and> (ln_dropped l1 \<noteq> [] \<longrightarrow> ln_closed l1)"
    using l1(1) Cons.prems(2,3) by (cases e) (auto simp: Accept_def close_listener_def split: if_splits list.splits)
  with Cons.IH [OF l1(2)] show ?case by (cases e) (auto simp: ac_simps)
qed simp

end
