(* ===== verification/Daemon_Main.thy ===== *)
theory Daemon_Main
  imports Dialer Link_Props
begin

text \<open>
  The daemon process (\<open>newDaemonCmd\<close> of \<open>cmd/agbridge/daemon.go\<close>): its start, and the life of connections that follow
  one another, each found by the retry loop and served by a session of its own.
\<close>

section \<open>The start\<close>

datatype start_error = StartRoot string | StartConfig daemon_config_error | StartTLS auth_error | StartDeps deps_error

definition daemon_start ::
  "(os_error \<Rightarrow> string) \<Rightarrow> (bytes \<Rightarrow> string + daemon_state) \<Rightarrow> (bytes \<Rightarrow> string + daemon_config) \<Rightarrow> (bytes \<Rightarrow> string + bytes) \<Rightarrow>
   int \<Rightarrow> string \<Rightarrow> string \<Rightarrow> string \<Rightarrow> (start_error, daemon_config \<times> tls_config \<times> daemon_deps option) io" where
  "daemon_start et dec parse x25519 euid allow cfgPath stateDir =
     (case RefuseRoot euid allow of
        Some e \<Rightarrow> io_fail (StartRoot e)
      | None \<Rightarrow>
          io_bind (on_err StartConfig (loadDaemonConfig et dec parse cfgPath stateDir)) (\<lambda>cfg.
          case RuntimeTLSConfig (dc_tls_mode cfg) (dc_cert_pin cfg) of
            Inl e \<Rightarrow> io_fail (StartTLS e)
          | Inr tls \<Rightarrow>
              io_bind (on_err StartDeps (loadDaemonE2EDeps x25519 cfg)) (\<lambda>deps. io_ret (cfg, tls, deps))))"

section \<open>The life\<close>

text \<open>One attempt to connect, and one turn of the main loop: is the context cancelled at its head, the attempts, what
  happens on the connection, is the context cancelled at its end.\<close>

record attempt =
  at_before :: bool
  at_net :: net_answers
  at_after :: bool
  at_wait :: bool
  at_rand :: rat

definition attempt_round :: "daemon_config \<Rightarrow> attempt \<Rightarrow> dial_round" where
  "attempt_round cfg a = \<lparr>rd_cancel_before = at_before a,
     rd_dial_ok = (case fst (daemonDialAndHandshake (at_net a) cfg) of Inl _ \<Rightarrow> False | Inr _ \<Rightarrow> True),
     rd_cancel_after = at_after a, rd_cancel_wait = at_wait a, rd_rand = at_rand a\<rparr>"

record turn =
  tn_cancelled :: bool
  tn_attempts :: "attempt list"
  tn_events :: "link_event list"
  tn_stopped :: bool

definition zero_options :: dial_options where "zero_options = \<lparr>do_base = 0, do_cap = 0, do_jitter = 0\<rparr>"

text \<open>What a turn did: the delays between the attempts, what happened on its connection, the frames dispatched.\<close>

record daemon_run =
  dr_waits :: "int list"
  dr_events :: "link_event list"
  dr_dispatched :: "frame list"

text \<open>The first result says whether the process has ended; it also stays in a turn while attempts fail.\<close>

fun daemon_loop :: "('h, 'c) noise_lib \<Rightarrow> daemon_config \<Rightarrow> daemon_deps option \<Rightarrow> turn list \<Rightarrow> bool \<times> daemon_run list" where
  "daemon_loop nz cfg deps [] = (False, [])"
| "daemon_loop nz cfg deps (t # ts) =
     (if tn_cancelled t then (True, [])
      else case Loop zero_options (map (attempt_round cfg) (tn_attempts t)) of
        (None, ds) \<Rightarrow> (False, [\<lparr>dr_waits = ds, dr_events = [], dr_dispatched = []\<rparr>])
      | (Some DialCancelled, ds) \<Rightarrow> (True, [\<lparr>dr_waits = ds, dr_events = [], dr_dispatched = []\<rparr>])
      | (Some DialOk, ds) \<Rightarrow>
          let (inners, lk) = link_run nz (tn_events t) (fresh_link deps);
              r = \<lparr>dr_waits = ds, dr_events = tn_events t, dr_dispatched = inners\<rparr>
          in if tn_stopped t then (True, [r])
             else let (stopped, rs) = daemon_loop nz cfg deps ts in (stopped, r # rs))"

section \<open>What it does\<close>

text \<open>Every run of the life is a turn on a link that knows nothing of the earlier ones.\<close>

lemma daemon_loop_runs:
  "daemon_loop nz cfg deps ts = (stopped, runs) \<Longrightarrow> r \<in> set runs \<Longrightarrow>
     \<exists>t \<in> set ts. dr_waits r = snd (Loop zero_options (map (attempt_round cfg) (tn_attempts t)))
       \<and> dr_dispatched r = fst (link_run nz (dr_events r) (fresh_link deps))"
proof (induction nz cfg deps ts arbitrary: stopped runs rule: daemon_loop.induct)
  case (2 nz cfg deps t ts)
  obtain res ds where l: "Loop zero_options (map (attempt_round cfg) (tn_attempts t)) = (res, ds)" by (metis surj_pair)
  obtain inners lk where k: "link_run nz (tn_events t) (fresh_link deps) = (inners, lk)" by (metis surj_pair)
  let ?r = "\<lparr>dr_waits = ds, dr_events = tn_events t, dr_dispatched = inners\<rparr>"
  show ?case
  proof (cases "res = Some DialOk \<and> \<not> tn_cancelled t \<and> \<not> tn_stopped t \<and> r \<noteq> ?r")
    case True
    obtain st rs where rest: "daemon_loop nz cfg deps ts = (st, rs)" by (metis surj_pair)
    with 2(2) l k True have "runs = ?r # rs" by simp
    with 2(3) True have "r \<in> set rs" by simp
    from 2(1) [OF _ l [symmetric] _ refl k [symmetric] refl refl _ rest this] True show ?thesis by auto
  next
    case False
    with 2(2,3) l k show ?thesis by (auto split: if_splits option.splits dial_result.splits prod.splits)
  qed
qed simp

text \<open>The waits are those of the retry loop with its defaults and no jitter: half a second, doubled up to half a minute.  A
  turn begins without any: a connection that is lost is replaced at once, however short its life was.\<close>

lemma daemon_waits:
  assumes "daemon_loop nz cfg deps ts = (stopped, runs)" "r \<in> set runs" "i < length (dr_waits r)"
  shows "dr_waits r ! i = min 30000000000 (500000000 * 2 ^ i)"
proof -
  from daemon_loop_runs [OF assms(1,2)] obtain t where
    "t \<in> set ts" "dr_waits r = snd (Loop zero_options (map (attempt_round cfg) (tn_attempts t)))" by blast
  then obtain res where l: "loop_from (withDefaults zero_options) 0 (map (attempt_round cfg) (tn_attempts t)) = (res, dr_waits r)"
    unfolding Loop_def by (metis prod.collapse)
  let ?o = "withDefaults zero_options"
  have o: "?o = \<lparr>do_base = 500000000, do_cap = 30000000000, do_jitter = 0\<rparr>" by (simp add: withDefaults_def zero_options_def)
  have "delayFor (?o\<lparr>do_jitter := 0\<rparr>) x i = backoff ?o i" for x
    by (rule delay_backoff) (simp_all add: o)
  then have "delayFor ?o x i = backoff ?o i" for x by (simp add: o)
  with loop_from_spec [OF l] assms(3) show ?thesis by (simp add: backoff_def o)
qed

lemma reconnects_at_once:
  "fst (daemonDialAndHandshake (at_net a) cfg) = Ok () \<Longrightarrow> \<not> at_before a \<Longrightarrow>
     snd (Loop zero_options (map (attempt_round cfg) (a # as))) = []"
  by (simp add: Loop_def attempt_round_def)

text \<open>The process ends only when its context is cancelled.\<close>

lemma daemon_stops:
  "daemon_loop nz cfg deps ts = (True, runs) \<Longrightarrow>
     \<exists>t \<in> set ts. tn_cancelled t \<or> tn_stopped t \<or> (\<exists>a \<in> set (tn_attempts t). at_before a \<or> at_after a \<or> at_wait a)"
proof (induction nz cfg deps ts arbitrary: runs rule: daemon_loop.induct)
  case (2 nz cfg deps t ts)
  have cancelled: "\<exists>x \<in> set rs. rd_cancel_before x \<or> rd_cancel_after x \<or> rd_cancel_wait x"
    if "loop_from opt n rs = (Some DialCancelled, ds)" for opt n rs ds
    using that by (induction opt n rs arbitrary: ds rule: loop_from.induct) (auto simp: Let_def split: if_splits prod.splits)
  show ?case
  proof (cases "tn_cancelled t \<or> tn_stopped t")
    case False
    obtain res ds where l: "Loop zero_options (map (attempt_round cfg) (tn_attempts t)) = (res, ds)" by (metis surj_pair)
    obtain inners lk where k: "link_run nz (tn_events t) (fresh_link deps) = (inners, lk)" by (metis surj_pair)
    show ?thesis
    proof (cases "res = Some DialCancelled")
      case True
      with cancelled [of "withDefaults zero_options" 0 "map (attempt_round cfg) (tn_attempts t)" ds] l
      have "\<exists>x \<in> set (map (attempt_round cfg) (tn_attempts t)). rd_cancel_before x \<or> rd_cancel_after x \<or> rd_cancel_wait x"
        unfolding Loop_def by blast
      then show ?thesis by (auto simp: attempt_round_def)
    next
      case nc: False
      with 2(2) False l k have ok: "res = Some DialOk" by (auto split: option.splits dial_result.splits prod.splits)
      obtain st rs where rest: "daemon_loop nz cfg deps ts = (st, rs)" by (metis surj_pair)
      with 2(2) False ok l k have "daemon_loop nz cfg deps ts = (True, rs)" by simp
      from 2(1) [OF _ l [symmetric] ok refl k [symmetric] refl refl _ this] False show ?thesis by auto
    qed
  qed auto
qed simp

lemma parse_pubs_decode: "parse_pubs i bs = Ok pubs \<Longrightarrow> map PubFromBase64 bs = map Ok pubs"
  by (induction i bs arbitrary: pubs rule: parse_pubs.induct) (auto simp: bind_res_def split: sum.splits)

lemma daemon_start_facts:
  assumes "daemon_start et dec parse x25519 euid allow cfgPath stateDir w = (Ok (cfg, tls, deps), w')"
  shows "euid \<noteq> 0 \<or> allow = ''1''" "RuntimeTLSConfig (dc_tls_mode cfg) (dc_cert_pin cfg) = Ok tls"
    "dc_e2e_mode cfg \<noteq> ''disabled'' \<longrightarrow> (\<exists>d. deps = Some d \<and> dd_mode d = dc_e2e_mode cfg
       \<and> map PubFromBase64 (dc_allowed_pubkeys cfg) = map Ok (dd_pubs d))"
  using assms
  by (auto simp: daemon_start_def RefuseRoot_def loadDaemonE2EDeps_def io_bind_def on_err_def io_ret_def io_fail_def
      dest!: parse_pubs_decode split: if_splits option.splits sum.splits prod.splits)

text \<open>C4: A daemon process in the mode \<open>required\<close> does not run as root (unless the variable
  \<open>AGBRIDGE_TEST_ALLOW_ROOT\<close>, \<open>allow\<close> here, is 1), and over all its connections it dispatches an inner frame
  only if it arrived in a Route frame that carries the identifier of a session and that the session's own cipher
  decrypts with that identifier: the session is the one that an earlier handshake frame of the same connection made
  (\<open>s\<close>), advanced only by encryptions and decryptions (\<open>sess\<close>); that handshake announced the identifier, and the
  key that it revealed is on the list of the daemon's configuration.\<close>

theorem daemon_authenticates:
  assumes start: "daemon_start et dec parse x25519 euid allow cfgPath stateDir w = (Ok (cfg, tls, deps), w')"
    and mode: "dc_e2e_mode cfg = ''required''"
    and life: "daemon_loop nz cfg deps ts = (stopped, runs)" "run \<in> set runs" "inner \<in> set (dr_dispatched run)"
  shows "(euid \<noteq> 0 \<or> allow = ''1'') \<and> (\<exists>d ps f qs f0 sid peer msg2 s sess plain key.
     deps = Some d \<and> dr_events run = ps @ Recv f # qs \<and> Recv f0 \<in> set ps \<and> f_type f0 = FrameTypeNoiseInit
     \<and> hex_decode (f_reqid f0) = Some sid \<and> respond nz d f0 = Some (sid, peer, msg2, s)
     \<and> key \<in> set (dc_allowed_pubkeys cfg) \<and> PubFromBase64 key = Ok peer
     \<and> f_type f = FrameTypeRoute \<and> take 8 (f_payload f) = sid
     \<and> used_session nz sid s sess \<and> fst (Decrypt nz sid (drop 8 (f_payload f)) sess) = Ok plain
     \<and> decode_frame plain = Ok inner)"
proof -
  from daemon_start_facts(3) [OF start] mode obtain d where
    d: "deps = Some d" "dd_mode d = ''required''" "map PubFromBase64 (dc_allowed_pubkeys cfg) = map Ok (dd_pubs d)" by auto
  from daemon_loop_runs [OF life(1,2)] life(3) d(1) have "inner \<in> set (fst (link_run nz (dr_events run) (fresh_link (Some d))))" by auto
  from link_run_dispatched [OF this] obtain ps f qs lk' where
    f: "dr_events run = ps @ Recv f # qs" "receive nz f (snd (link_run nz ps (fresh_link (Some d)))) = (Some inner, lk')" by blast
  have "link_inv nz d ps (snd (link_run nz ps (fresh_link (Some d))))"
    using link_run_inv [OF fresh_link_inv, of nz d ps] by simp
  from receive_authentic [OF this d(2) f(2)] obtain f0 sid peer msg2 s sess plain where
    a: "Recv f0 \<in> set ps" "f_type f0 = FrameTypeNoiseInit" "hex_decode (f_reqid f0) = Some sid"
      "respond nz d f0 = Some (sid, peer, msg2, s)" "peer \<in> set (dd_pubs d)" "f_type f = FrameTypeRoute"
      "take 8 (f_payload f) = sid" "used_session nz sid s sess" "fst (Decrypt nz sid (drop 8 (f_payload f)) sess) = Ok plain" "decode_frame plain = Ok inner"
    unfolding authenticated_def by blast
  have "Ok peer \<in> set (map PubFromBase64 (dc_allowed_pubkeys cfg))" unfolding d(3) using a(5) by simp
  then obtain key where "key \<in> set (dc_allowed_pubkeys cfg)" "PubFromBase64 key = Ok peer" by auto
  with daemon_start_facts(1) [OF start] d(1) f(1) a show ?thesis by blast
qed

section \<open>An instance\<close>

definition demo_peer :: bytes where "demo_peer = replicate 32 7"

definition demo_daemon_state :: daemon_state where
  "demo_daemon_state = \<lparr>dst_version = 1, dst_device_id = [], dst_name = ''n'', dst_api_key = ''k'',
     dst_gateway = \<lparr>gr_url = ''wss://g'', gr_cert_pin = [], gr_tls_mode = ''webpki''\<rparr>, dst_key_path = ''/s/key'',
     dst_e2e_mode = ''required'', dst_exec_enabled = False, dst_env_allowlist = [], dst_forbidden_ports = [],
     dst_allowed_bridges = [base64_encode demo_peer], dst_working_dir = [], dst_enrolled_at = 0\<rparr>"

definition demo_home :: world where
  "demo_home = plain_world [(''/s/state.json'', plain_file [1]), (''/s/key'', plain_file (replicate 32 0))] (\<lambda>_. None)"

definition demo_started :: "(start_error + daemon_config \<times> tls_config \<times> daemon_deps option) \<times> world" where
  "demo_started = daemon_start (\<lambda>_. []) (\<lambda>_. Ok demo_daemon_state) (\<lambda>_. Err []) Ok 1000 [] [] ''/s'' demo_home"

lemma demo_started: "\<exists>tls w'. demo_started = (Ok (daemonConfigFromState demo_daemon_state, tls,
    Some \<lparr>dd_key = \<lparr>sk_private = replicate 32 0, sk_public = replicate 32 0\<rparr>, dd_pubs = [demo_peer],
      dd_prologue = prologue_of ''wss://g'' ''n'', dd_mode = ''required''\<rparr>), w')"
proof -
  have q: "quiet demo_home" by (simp add: quiet_def demo_home_def plain_world_def)
  have p: "path_join [''/s'', ''state.json''] = ''/s/state.json''" by code_simp
  have f: "fs_get (tick demo_home) ''/s/state.json'' = Some (plain_file [1])" by code_simp
  have k: "fs_get (tick (tick demo_home)) ''/s/key'' = Some (plain_file (replicate 32 0))" by code_simp
  have t: "\<exists>tls. RuntimeTLSConfig ''webpki'' [] = Ok tls"
  proof -
    have "NormalizeGatewayTLSMode ''webpki'' = Ok ''webpki''" by code_simp
    then show ?thesis by (simp add: RuntimeTLSConfig_def bind_res_def GatewayTLSModePin_def Let_def)
  qed
  have v: "ValidateDaemon demo_daemon_state = Ok ()" by code_simp
  have b: "parse_pubs 0 [base64_encode demo_peer] = Ok [demo_peer]"
    by (simp add: PubFromBase64_def base64_decode_encode demo_peer_def bind_res_def del: base64_encode.simps)
  from t obtain tls where t: "RuntimeTLSConfig ''webpki'' [] = Ok tls" by blast
  have c: "daemonConfigFromState demo_daemon_state = \<lparr>dc_gateway_url = ''wss://g'', dc_daemon_name = ''n'', dc_token = ''k'', dc_cert_pin = [],
      dc_tls_mode = ''webpki'', dc_exec_enabled = False, dc_env_allowlist = [], dc_forbidden_ports = [], dc_default_working_dir = [],
      dc_e2e_mode = ''required'', dc_static_key_path = ''/s/key'', dc_allowed_pubkeys = [base64_encode demo_peer]\<rparr>"
    by (simp add: daemonConfigFromState_def demo_daemon_state_def)
  have load: "loadDaemonConfig (\<lambda>_. []) (\<lambda>_. Ok demo_daemon_state) (\<lambda>_. Err []) [] ''/s'' demo_home
      = (Ok (daemonConfigFromState demo_daemon_state), tick demo_home)"
    using q f v by (simp add: loadDaemonConfig_def p LoadDaemonState_def load_versioned_def loadJSON_def io_bind_def on_err_def os_read_file_def
        io_ret_def plain_file_def Let_def) (simp add: demo_daemon_state_def CurrentVersion_def)
  show ?thesis unfolding demo_started_def
    using q k t b by (simp add: daemon_start_def RefuseRoot_def io_bind_def on_err_def load c loadDaemonE2EDeps_def LoadStatic_def
        os_read_file_def io_ret_def plain_file_def)
qed

lemma demo_peer_respond:
  assumes "dd_pubs d = [p]" "dd_mode d = ''required''"
  shows "respond (counting_noise p) d demo_init = Some (replicate 8 0, p, [], \<lparr>se_send = 20, se_recv = 10\<rparr>)"
proof -
  have "hex_decode ''0000000000000000'' = Some (replicate 8 0)" by code_simp
  with assms show ?thesis
    by (simp add: respond_def demo_init_def NewResponder_def ReadMessage1_def WriteMessage2_def counting_noise_def
        toy_noise_def peerAllowed_def)
qed

lemma demo_session:
  assumes "dd_pubs d = [p]" "dd_mode d = ''required''"
  shows "fst (link_run (counting_noise p) [Recv demo_init, Recv demo_route] (fresh_link (Some d))) = [demo_frame]"
proof -
  have "\<exists>lk. receive (counting_noise p) demo_init (fresh_link (Some d)) = (None, lk)
      \<and> lk_session lk = Some \<lparr>se_send = 20, se_recv = 10\<rparr> \<and> lk_sid lk = replicate 8 0"
    using demo_peer_respond [OF assms] by (simp add: receive_def handleNoiseInit_def fresh_link_def demo_init_def)
  then obtain lk where lk: "receive (counting_noise p) demo_init (fresh_link (Some d)) = (None, lk)"
    "lk_session lk = Some \<lparr>se_send = 20, se_recv = 10\<rparr>" "lk_sid lk = replicate 8 0" by blast
  have "fst (receive (counting_noise p) demo_route lk) = Some demo_frame"
    using lk(2,3) by (simp add: receive_def demo_route_def route_frame_def unwrapRoute_def Decrypt_def counting_noise_def unary_length demo_frame_wire)
  then show ?thesis using lk(1) by (cases "receive (counting_noise p) demo_route lk") simp
qed

definition demo_turn :: turn where
  "demo_turn = \<lparr>tn_cancelled = False, tn_attempts = [\<lparr>at_before = False,
     at_net = \<lparr>na_dial = None, na_send = None, na_recv = Ok \<lparr>f_type = FrameTypeHelloAck, f_reqid = [], f_payload = []\<rparr>\<rparr>,
     at_after = False, at_wait = False, at_rand = 0\<rparr>], tn_events = [Recv demo_init, Recv demo_route], tn_stopped = True\<rparr>"

theorem daemon_authenticates_witness:
  "\<exists>cfg tls deps w' run. demo_started = (Ok (cfg, tls, deps), w')
     \<and> daemon_loop (counting_noise demo_peer) cfg deps [demo_turn] = (True, [run]) \<and> dr_dispatched run = [demo_frame]
     \<and> (\<exists>f0 sid. Recv f0 \<in> set (dr_events run) \<and> hex_decode (f_reqid f0) = Some sid \<and> take 8 (f_payload demo_route) = sid)"
proof -
  let ?d = "\<lparr>dd_key = \<lparr>sk_private = replicate 32 0, sk_public = replicate 32 0\<rparr>, dd_pubs = [demo_peer],
      dd_prologue = prologue_of ''wss://g'' ''n'', dd_mode = ''required''\<rparr>"
  let ?cfg = "daemonConfigFromState demo_daemon_state"
  from demo_started obtain tls w' where start: "demo_started = (Ok (?cfg, tls, Some ?d), w')" by blast
  let ?run = "\<lparr>dr_waits = [], dr_events = [Recv demo_init, Recv demo_route], dr_dispatched = [demo_frame]\<rparr>"
  have loop: "Loop zero_options (map (attempt_round ?cfg) (tn_attempts demo_turn)) = (Some DialOk, [])"
    by (simp add: Loop_def demo_turn_def attempt_round_def daemonDialAndHandshake_def)
  obtain lk where "link_run (counting_noise demo_peer) [Recv demo_init, Recv demo_route] (fresh_link (Some ?d)) = ([demo_frame], lk)"
    using demo_session [of ?d demo_peer] by (metis daemon_deps.select_convs(2,4) prod.collapse)
  then have life: "daemon_loop (counting_noise demo_peer) ?cfg (Some ?d) [demo_turn] = (True, [?run])"
    using loop by (simp add: demo_turn_def)
  have mode: "dc_e2e_mode ?cfg = ''required''" by (simp add: daemonConfigFromState_def demo_daemon_state_def)
  from daemon_authenticates [OF start [unfolded demo_started_def] mode life, of ?run demo_frame]
  obtain ps f qs f0 sid where
    "[Recv demo_init, Recv demo_route] = ps @ Recv f # qs" "Recv f0 \<in> set ps" "hex_decode (f_reqid f0) = Some sid" "take 8 (f_payload f) = sid"
    by auto
  moreover from this have "f = demo_route" by (cases ps; cases "tl ps") auto
  ultimately have "Recv f0 \<in> set (dr_events ?run) \<and> hex_decode (f_reqid f0) = Some sid \<and> take 8 (f_payload demo_route) = sid" by auto
  with start life show ?thesis by (intro exI [of _ ?cfg] exI [of _ tls] exI [of _ "Some ?d"] exI [of _ w'] exI [of _ ?run]) auto
qed

end
