(* ===== verification/Spec2Isabelle.thy ===== *)
theory Spec2Isabelle
  imports Frame Handshake Auth Errcode Gateway_Props Gateway_Trace Write_File Edit_File Read_File Upload
    Exec Bgexec State Base64 Tokens Enroll Audit_Log Fs_Tools Dialer E2E Search
    Portforward Link_Props Daemon_Loop Gateway_Admin Enroll_Client End_To_End Service Enroll_Run Device_Commands
    Cli_Props Transport Daemon_Main
begin

text \<open>
  A verification library for agbridge, a bridge that lets a command line run tools on remote machines.

  \<^bold>\<open>The program.\<close>  A \<^emph>\<open>gateway\<close> accepts WebSocket connections of \<^emph>\<open>daemons\<close>, which offer a machine, and of \<^emph>\<open>bridges\<close>,
  which want to use one.  Both present a Hello with a secret; the gateway checks it against its credentials,
  admits one session per agent and one daemon per name, and forwards Route frames between a bridge and its target,
  after verifying and stripping the bridge's MAC.  Bridge and daemon may run a Noise IK handshake through the
  gateway and then encrypt the inner frames.  An inner frame is a request (exec, read, write, edit, upload, download,
  list, stat, search, background processes, capabilities, port forwarding), a chunk or an answer; the daemon's
  dispatcher starts a handler per request, and the bridge's router delivers the answers to the waiting calls.
  Devices enrol over HTTP with one-time tokens, and every party keeps a state file.

  \<^bold>\<open>Conventions.\<close>  A Go string and a byte slice are a \<open>string\<close> and a list of 8-bit words (\<open>Prelude\<close>); a pair
  \<open>(v, err)\<close> is a sum; fixed-width integers are words where they can wrap and \<open>int\<close> elsewhere; Go maps are maps, or
  association lists where their order matters.  A definition has the name of the function it models, unless that name is
  taken in HOL.  Code on the file system is a function on a \<open>world\<close> (\<open>Os\<close>): each system call advances a clock, and
  the functions \<open>w_fail\<close>, \<open>w_short\<close>, \<open>w_rand\<close>, \<open>w_now\<close> and \<open>w_cancel\<close> say for every instant whether the call fails, how short a read or write
  is, which random name comes, what time it is and whether the context is cancelled; a theorem over all worlds is
  one over all failures.  A number that reaches \<open>os.Chmod\<close> as an \<open>os.FileMode\<close> becomes a mode by \<open>syscall_mode\<close>, which keeps the nine
  permission bits and Go's own flags.  Goroutines are steps of a relation or events of a run: a step is what happens under one lock,
  or one operation on a channel or connection.

  \<^bold>\<open>Theories and code.\<close>
  \<^item> Bytes and text: \<open>Prelude\<close>; \<open>Codec\<close> (big-endian integers, hexadecimal; the locale \<open>codec\<close>, interpreted for every wire format), \<open>Base64\<close>,
    \<open>Sha256\<close> (an executable SHA-256 and HMAC), \<open>Go_Strings\<close>, \<open>Path\<close>, \<open>Glob\<close> (what the code uses of strings, strconv, fmt, filepath).
  \<^item> Wire: \<open>Frame\<close> (internal/proto/frame.go), \<open>Handshake\<close> (internal/handshake), \<open>Auth\<close> (internal/auth), \<open>Errcode\<close>
    (internal/errcode), \<open>File_Proto\<close>, \<open>Capabilities\<close> (internal/fileproto, capabilities); \<open>Transport\<close> (internal/transport/wss: a connection with its
    senders and its keepalive loop as interleaved steps, the dialer, the listener).
  \<^item> Gateway: \<open>Config\<close> (internal/config), \<open>Cred_Registry\<close>, \<open>Sessions\<close>, \<open>Registry\<close>, \<open>Gateway\<close>
    (internal/gateway/credregistry.go, sessions.go, registry.go, server.go).  \<open>Gateway\<close> is a step relation: a thread per connection with
    a program counter and its stack of deferred calls.  \<open>Gateway_Inv\<close> has its invariants, \<open>Gateway_Props\<close> the properties,
    \<open>Gateway_Trace\<close> the history of what each connection received, for what a daemon's connection is sent.
  \<^item> Enrolment: \<open>State\<close> (internal/state), \<open>Tokens\<close>, \<open>Enroll\<close> (internal/gateway/tokens.go, enrollserver.go), \<open>Enroll_Client\<close>
    (cmd/agbridge/enroll.go, cli_root.go, cli_config_use.go), \<open>Gateway_Admin\<close> (cmd/agbridge/gateway.go, gateway_devices.go),
    \<open>Service\<close> (cmd/agbridge/service_systemd.go, over a \<open>host\<close>: a world with the owners of its files and the commands run),
    \<open>Enroll_Run\<close> (the whole of \<open>runEnroll\<close>), \<open>Device_Commands\<close> (issue_token.go, keygen.go, logout.go, doctor.go, config_cmd.go).
  \<^item> Log and reconnecting: \<open>Audit_Log\<close> (internal/audit), \<open>Dialer\<close> (internal/dialer; its \<open>float64\<close> arithmetic is that of rationals, rounded
    after every operation).
  \<^item> Tools of the daemon: \<open>Os\<close>, \<open>Write_File\<close>, \<open>Edit_File\<close>, \<open>Read_File\<close>, \<open>Upload\<close>, \<open>Exec\<close>, \<open>Bgexec\<close>, \<open>Fs_Tools\<close>, \<open>Search\<close>, \<open>Portforward\<close>
    (the files of internal/tools with these names).
  \<^item> The link: \<open>E2E\<close> (internal/e2e), \<open>Daemon_Link\<close>, \<open>Daemon_Handlers\<close>, \<open>Daemon_Loop\<close> (cmd/agbridge/daemon.go: connection and
    encryption, request handlers, dispatcher and slots), \<open>Daemon_Main\<close> (its process: the start, then one connection after the other), \<open>Router\<close> (internal/cliclient/client.go, router.go), \<open>Link_Props\<close>.
  \<^item> Calls of the bridge: \<open>Client_Calls\<close>, \<open>Client_Exec\<close>, \<open>Client_Files\<close> (internal/cliclient/handlers_*.go; a send goes out, fails or is stuck in
    the write), and \<open>End_To_End\<close>, which puts a handler of the bridge against the handler and the tool of the daemon.
  \<^item> The command line: \<open>Cli\<close> (global flags, state file, working directory, \<open>Invoke\<close>, error lines: cli_root.go, cli_workingdir.go,
    cli_format.go, internal/cliclient/client.go), \<open>Cli_Commands\<close> (cat, write, edit, exec, stat, cd, pwd, grep, put, get, caps, status,
    targets: cmd/agbridge/cli_*.go), \<open>Cli_Ls\<close> (cli_ls.go), \<open>Cli_Props\<close>.  A command is a function on the bridge's own disk
    that waits for ever, panics, or ends with a report or an error line (\<open>cio\<close>).

  \<^bold>\<open>What is shown.\<close>
  \<^item> Every wire format decodes what it encodes, within guards that are exact; a frame is accepted only with the MAC of its
    key, a certificate only with its pin.  A connection is cut off exactly when its peer has been silent for too long.
  \<^item> In every reachable state of the gateway an agent has one session and a name one daemon, the audit log balances, and a
    daemon is sent only what the gateway says itself and what a bridge admitted for it signed, besides handshake frames; sessions are closed exactly when their credentials are gone.
  \<^item> A consumed token stays refused over all later operations that take turns on the file, and enrolment grants what the token says; saved state loads.  A run of \<open>enroll\<close> against the
    gateway's handler leaves a device that the gateway admits; the service it installs as root runs as another account.
  \<^item> Writes (of existing and of new files), edits and uploads are atomic under every failure, an edit except for a path that its own backup
    pattern matches; reads, searches for regular expressions, commands and forwarded streams deliver exactly
    what they should within their caps; background processes keep a well-formed registry.
  \<^item> Frames of one end are dispatched by the other in order, and in mode \<open>required\<close> only under the session that a handshake with an allowed
    key set up, over all connections of the process; whole commands are faithful from the command line to the daemon's disk and back, and all calls end unless a send
    is stuck in the transport; \<open>ls\<close> lists the tree
    within its depth and ends; \<open>retry_safe\<close> is only said before the command's own request is sent.
  \<^item> Where the code does not keep a promise, a theorem exhibits the schedule or input: a replaced bridge's handler that clears
    its successor's writer, a reload that misses a session, a revocation that the next enrolment undoes, a token that two
    processes both use, a literal search that is none, a cancelled send that breaks the cipher, a dispatcher that blocks, a stuck send that no keepalive ends, a token spent in vain, a change of ownership that never ends.

  \<^bold>\<open>Bounds.\<close>  Recursion is structural or has a measure, except the climb of \<open>chown_parents\<close> and the walk of \<open>ls_loop\<close>,
  partial functions whose value is \<open>None\<close> when the code does not return; \<open>ls_lists_tree\<close> shows that the walk returns.  The one piece of fuel is the 10000 attempts of \<open>os.CreateTemp\<close>, which are
  Go's own.  The channel capacities 8 and 64 and the caps of 64 KiB, 1 MiB, 10 MiB and 1 GiB are the code's.

  \<^bold>\<open>Parameters.\<close>  The Noise library and X25519, JSON and YAML codecs, PEM and certificates, regular expressions, HTTP, TCP, the process
  table, the clock and random bytes are arguments.  What is assumed of them is a named hypothesis: that a Noise
  cipher decrypts in order what its peer encrypted (\<open>cipher_law\<close>), that its nonce counts (\<open>counter_law\<close>), that a JSON message decodes to
  what was encoded.

  \<^bold>\<open>Not modelled.\<close>  The targets of symbolic links (a link is a node of its own kind); the text of JSON and YAML; gorilla/websocket,
  net/http and TLS themselves; generation of certificates;
  the flag tables and help of the command line; stubs for Windows; test code.
\<close>

end
